(* ===== verification/Prelude.thy ===== *)
theory Prelude
  imports Main "HOL-Library.Word" "HOL-Library.State_Monad" "HOL-Library.Sublist"
begin

text \<open>
  Shared material: the collections of rewrite rules the component theories fill, generic lemmas on
  lists seen as tables (lookup by key, update in place, at most one live row per group), and the
  locales of two contracts the tables of the service obey: an update that keeps the primary key
  (\<open>row_update\<close>) and one that also takes rows out of a partial unique index
  (\<open>index_retire\<close>).
\<close>

named_theorems go_run \<open>symbolic execution of effectful code\<close>
named_theorems go_defs \<open>definitions unfolded before executing\<close>
named_theorems row_simps \<open>how statements act on the rows of the tables\<close>

type_synonym uuid = "128 word"

section \<open>Tables as lists of rows\<close>

definition find_row :: "('r \<Rightarrow> 'k) \<Rightarrow> 'k \<Rightarrow> 'r list \<Rightarrow> 'r option" where
  "find_row key k rows = List.find (\<lambda>r. key r = k) rows"

definition update_where :: "('r \<Rightarrow> bool) \<Rightarrow> ('r \<Rightarrow> 'r) \<Rightarrow> 'r list \<Rightarrow> 'r list" where
  "update_where P f rows = map (\<lambda>r. if P r then f r else r) rows"

lemma find_row_Nil [simp]: "find_row key k [] = None"
  by (simp add: find_row_def)

lemma find_row_Cons [simp]:
  "find_row key k (r # rows) = (if key r = k then Some r else find_row key k rows)"
  by (simp add: find_row_def)

lemma find_row_SomeD: "find_row key k rows = Some r \<Longrightarrow> r \<in> set rows \<and> key r = k"
  by (induction rows) (auto split: if_splits)

lemma find_row_NoneD: "find_row key k rows = None \<Longrightarrow> r \<in> set rows \<Longrightarrow> key r \<noteq> k"
  by (induction rows) (auto split: if_splits)

lemma find_row_None_iff: "find_row key k rows = None \<longleftrightarrow> k \<notin> key ` set rows"
  by (induction rows) auto

lemma find_row_unique:
  "distinct (map key rows) \<Longrightarrow> r \<in> set rows \<Longrightarrow> find_row key (key r) rows = Some r"
  by (induction rows) (auto simp: image_iff)

lemma find_row_append:
  "find_row key k (xs @ ys) =
    (case find_row key k xs of Some r \<Rightarrow> Some r | None \<Rightarrow> find_row key k ys)"
  by (induction xs) auto

lemma find_SomeD: "List.find P rows = Some r \<Longrightarrow> r \<in> set rows \<and> P r"
  by (induction rows) (auto split: if_splits)

lemma find_None_iff': "List.find P rows = None \<longleftrightarrow> (\<forall>r \<in> set rows. \<not> P r)"
  by (induction rows) auto

lemma find_cong_set: "(\<And>r. r \<in> set rows \<Longrightarrow> P r = Q r) \<Longrightarrow> List.find P rows = List.find Q rows"
  by (induction rows) auto

lemma update_where_Nil [simp]: "update_where P f [] = []"
  by (simp add: update_where_def)

lemma update_where_Cons [simp]:
  "update_where P f (r # rows) = (if P r then f r else r) # update_where P f rows"
  by (simp add: update_where_def)

lemma update_where_append [simp]:
  "update_where P f (xs @ ys) = update_where P f xs @ update_where P f ys"
  by (simp add: update_where_def)

lemma set_update_where:
  "set (update_where P f rows) = (\<lambda>r. if P r then f r else r) ` set rows"
  by (simp add: update_where_def)

lemma in_update_whereE:
  assumes "x \<in> set (update_where P f rows)"
  obtains (kept) "x \<in> set rows" "\<not> P x" | (changed) r where "r \<in> set rows" "P r" "x = f r"
  using assms by (auto simp: set_update_where split: if_splits)

lemma update_where_none: "(\<And>r. r \<in> set rows \<Longrightarrow> \<not> P r) \<Longrightarrow> update_where P f rows = rows"
  by (induction rows) auto

lemma map_update_where:
  "(\<And>r. P r \<Longrightarrow> g (f r) = g r) \<Longrightarrow> map g (update_where P f rows) = map g rows"
  by (induction rows) auto

lemma image_update_where:
  "(\<And>r. P r \<Longrightarrow> g (f r) = g r) \<Longrightarrow> g ` set (update_where P f rows) = g ` set rows"
  by (metis list.set_map map_update_where)

lemma length_update_where [simp]: "length (update_where P f rows) = length rows"
  by (simp add: update_where_def)

lemma map_filter_update_where:
  assumes "\<And>r. P r \<Longrightarrow> L (f r) = L r" "\<And>r. P r \<Longrightarrow> g (f r) = g r"
  shows "map g (filter L (update_where P f rows)) = map g (filter L rows)"
  using assms by (induction rows) auto

lemma distinct_map_filter_drop:
  assumes "\<And>r. P r \<Longrightarrow> \<not> L (f r)" "distinct (map g (filter L rows))"
  shows "distinct (map g (filter L (update_where P f rows)))"
proof -
  have "map g (filter L (update_where P f rows)) = map g (filter (\<lambda>r. L r \<and> \<not> P r) rows)"
    using assms(1) by (induction rows) auto
  moreover have "filter (\<lambda>r. L r \<and> \<not> P r) rows = filter (\<lambda>r. \<not> P r) (filter L rows)"
    by (simp add: conj_commute)
  ultimately show ?thesis
    using assms(2) by (metis distinct_map_filter)
qed

section \<open>Updates in place\<close>

text \<open>
  The contract of an UPDATE statement that leaves the primary key alone: the table keeps its keys
  and a lookup finds the row as the statement left it.
\<close>

locale row_update =
  fixes key :: "'r \<Rightarrow> 'k" and put :: "'r \<Rightarrow> 'r"
  assumes keeps_key: "key (put r) = key r"
begin

lemma keys_after: "map key (update_where P put rows) = map key rows"
  by (simp add: map_update_where keeps_key)

lemma key_set_after: "key ` set (update_where P put rows) = key ` set rows"
  by (simp add: image_update_where keeps_key)

lemma find_after:
  "find_row key k (update_where P put rows) =
    map_option (\<lambda>r. if P r then put r else r) (find_row key k rows)"
  by (induction rows) (auto simp: keeps_key)

end

lemma distinct_key_insert:
  "distinct (map key rows) \<Longrightarrow> key r \<notin> key ` set rows \<Longrightarrow> distinct (map key (rows @ [r]))"
  by simp

lemma find_after_insert:
  "find_row key k rows = None \<Longrightarrow>
   find_row key k (rows @ [r]) = (if key r = k then Some r else None)"
  by (simp add: find_row_append)

section \<open>Partial unique indexes\<close>

text \<open>
  \<open>CREATE UNIQUE INDEX \<dots> ON t (group) WHERE live\<close>: among the live rows no two agree on the
  indexed columns. \<open>retire\<close> is an update that takes a row out of the index.
\<close>

definition index_ok :: "('r \<Rightarrow> bool) \<Rightarrow> ('r \<Rightarrow> 'g) \<Rightarrow> 'r list \<Rightarrow> bool" where
  "index_ok live grp rows = distinct (map grp (filter live rows))"

definition index_hit :: "('r \<Rightarrow> bool) \<Rightarrow> ('r \<Rightarrow> 'g) \<Rightarrow> 'r list \<Rightarrow> 'r \<Rightarrow> bool" where
  "index_hit live grp rows r = (live r \<and> (\<exists>x \<in> set rows. live x \<and> grp x = grp r))"

lemma index_okD:
  assumes "index_ok live grp rows" "x \<in> set rows" "y \<in> set rows" "live x" "live y" "grp x = grp y"
  shows "x = y"
  using assms by (auto simp: index_ok_def distinct_map inj_on_def)

lemma index_ok_Nil [simp]: "index_ok live grp []"
  by (simp add: index_ok_def)

lemma index_ok_insert:
  assumes "index_ok live grp rows" "\<not> index_hit live grp rows r"
  shows "index_ok live grp (rows @ [r])"
  using assms by (auto simp: index_ok_def index_hit_def)

lemma index_ok_update:
  assumes "\<And>r. P r \<Longrightarrow> live (f r) = live r" "\<And>r. P r \<Longrightarrow> grp (f r) = grp r"
    "index_ok live grp rows"
  shows "index_ok live grp (update_where P f rows)"
  using assms by (simp add: index_ok_def map_filter_update_where)

locale index_retire = row_update key retire
  for key :: "'r \<Rightarrow> 'k" and retire :: "'r \<Rightarrow> 'r" +
  fixes live :: "'r \<Rightarrow> bool" and grp :: "'r \<Rightarrow> 'g"
  assumes retired: "\<not> live (retire r)"
    and same_group: "grp (retire r) = grp r"
begin

lemma retire_ok: "index_ok live grp rows \<Longrightarrow> index_ok live grp (update_where P retire rows)"
  using retired by (simp add: index_ok_def distinct_map_filter_drop)

lemma live_after_retire:
  "(\<exists>x \<in> set (update_where P retire rows). live x \<and> grp x = g) \<longleftrightarrow>
   (\<exists>x \<in> set rows. live x \<and> grp x = g \<and> \<not> P x)"
  using retired by (auto simp: set_update_where image_iff split: if_splits)

lemma group_free_after_retire:
  assumes "index_ok live grp rows" "x \<in> set rows" "live x" "P x"
  shows "\<not> (\<exists>y \<in> set (update_where P retire rows). live y \<and> grp y = grp x)"
  using assms index_okD [OF assms(1)] by (metis live_after_retire)

end

end
