(* ===== verification/Domain.thy ===== *)
theory Domain
  imports Prelude
begin

text \<open>
  The entities of \<open>internal/domain\<close>: error codes and domain errors, users, rooms, schedules, slots,
  bookings, waitlist entries and slot reservations. A Go struct is a record whose fields carry a
  prefix for the struct, a status enumeration is a datatype, a pointer field is an option, a
  \<open>time.Time\<close> is the number of nanoseconds since the Unix epoch in UTC. \<open>UserRole\<close> stays a string,
  because the transport layer converts arbitrary request text to it before it is validated.
\<close>

type_synonym time = int
type_synonym duration = int

section \<open>Errors\<close>

datatype error_code =
    ErrorInvalidRequest | ErrorUnauthorized | ErrorNotFound | ErrorRoomNotFound
  | ErrorSlotNotFound | ErrorSlotAlreadyBooked | ErrorSlotReserved | ErrorSlotNotBooked
  | ErrorBookingNotFound | ErrorReservationNotFound | ErrorWaitlistNotFound
  | ErrorWaitlistJoined | ErrorForbidden | ErrorScheduleExists | ErrorInternalError

fun code_string :: "error_code \<Rightarrow> string" where
  "code_string ErrorInvalidRequest = ''INVALID_REQUEST''"
| "code_string ErrorUnauthorized = ''UNAUTHORIZED''"
| "code_string ErrorNotFound = ''NOT_FOUND''"
| "code_string ErrorRoomNotFound = ''ROOM_NOT_FOUND''"
| "code_string ErrorSlotNotFound = ''SLOT_NOT_FOUND''"
| "code_string ErrorSlotAlreadyBooked = ''SLOT_ALREADY_BOOKED''"
| "code_string ErrorSlotReserved = ''SLOT_RESERVED''"
| "code_string ErrorSlotNotBooked = ''SLOT_NOT_BOOKED''"
| "code_string ErrorBookingNotFound = ''BOOKING_NOT_FOUND''"
| "code_string ErrorReservationNotFound = ''RESERVATION_NOT_FOUND''"
| "code_string ErrorWaitlistNotFound = ''WAITLIST_NOT_FOUND''"
| "code_string ErrorWaitlistJoined = ''WAITLIST_ALREADY_JOINED''"
| "code_string ErrorForbidden = ''FORBIDDEN''"
| "code_string ErrorScheduleExists = ''SCHEDULE_EXISTS''"
| "code_string ErrorInternalError = ''INTERNAL_ERROR''"

text \<open>
  The errors that reach the code: domain errors, which may wrap another error; errors the driver
  reports for a statement (SQLSTATE and constraint name); a lost connection; a cancelled context;
  text errors of \<open>errors.New\<close>; and \<open>fmt.Errorf\<close> with a \<open>%w\<close> argument.
\<close>

datatype go_error =
    DomainError error_code string "go_error option"
  | PgError string string
  | ConnError
  | CtxError
  | TextError string
  | FmtError string go_error

definition NewDomainError :: "error_code \<Rightarrow> string \<Rightarrow> go_error" where
  "NewDomainError code message = DomainError code message None"

definition WrapDomainError :: "error_code \<Rightarrow> string \<Rightarrow> go_error option \<Rightarrow> go_error" where
  "WrapDomainError code message err =
    (case err of None \<Rightarrow> NewDomainError code message
     | Some e \<Rightarrow> DomainError code message (Some e))"

fun Unwrap :: "go_error \<Rightarrow> go_error option" where
  "Unwrap (DomainError _ _ err) = err"
| "Unwrap (FmtError _ err) = Some err"
| "Unwrap _ = None"

text \<open>\<open>AsDomainError\<close> is \<open>errors.As\<close>: the first domain error along the chain of wrapped errors.\<close>

fun AsDomainError :: "go_error \<Rightarrow> (error_code \<times> string) option" where
  "AsDomainError (DomainError code message _) = Some (code, message)"
| "AsDomainError (FmtError _ err) = AsDomainError err"
| "AsDomainError _ = None"

definition error_text :: "error_code \<Rightarrow> string \<Rightarrow> string" where
  "error_text code message =
    (if message \<noteq> [] then code_string code @ '': '' @ message else code_string code)"

definition has_code :: "go_error \<Rightarrow> error_code \<Rightarrow> bool" where
  "has_code err code = (map_option fst (AsDomainError err) = Some code)"

lemma AsDomainError_New [simp]: "AsDomainError (NewDomainError code message) = Some (code, message)"
  by (simp add: NewDomainError_def)

lemma AsDomainError_Wrap [simp]:
  "AsDomainError (WrapDomainError code message err) = Some (code, message)"
  by (simp add: WrapDomainError_def split: option.splits)

lemma has_code_New [simp]: "has_code (NewDomainError code message) c \<longleftrightarrow> code = c"
  by (simp add: has_code_def)

lemma has_code_Wrap [simp]: "has_code (WrapDomainError code message err) c \<longleftrightarrow> code = c"
  by (simp add: has_code_def)

lemma has_code_Fmt [simp]: "has_code (FmtError text err) c \<longleftrightarrow> has_code err c"
  by (simp add: has_code_def)

lemma has_code_other [simp]:
  "\<not> has_code (PgError s k) c" "\<not> has_code ConnError c" "\<not> has_code CtxError c"
  "\<not> has_code (TextError t) c"
  by (simp_all add: has_code_def)

section \<open>Users\<close>

type_synonym user_role = string

definition RoleAdmin :: user_role where "RoleAdmin = ''admin''"
definition RoleUser :: user_role where "RoleUser = ''user''"

lemma roles_differ [simp]: "RoleAdmin \<noteq> RoleUser" "RoleUser \<noteq> RoleAdmin"
  by (simp_all add: RoleAdmin_def RoleUser_def)

record user =
  usrID :: uuid
  usrEmail :: string
  usrPasswordHash :: "string option"
  usrRole :: user_role
  usrCreatedAt :: time

section \<open>Rooms, schedules and slots\<close>

record room =
  rmID :: uuid
  rmName :: string
  rmDescription :: "string option"
  rmCapacity :: "int option"
  rmCreatedAt :: time

type_synonym time_of_day = string

record schedule =
  schID :: uuid
  schRoomID :: uuid
  schDayOfWeek :: int
  schStartTime :: time_of_day
  schEndTime :: time_of_day
  schCreatedAt :: time

record slot =
  slID :: uuid
  slRoomID :: uuid
  slStartTime :: time
  slEndTime :: time
  slCreatedAt :: time

datatype slot_status =
  SlotStatusAvailable | SlotStatusBooked | SlotStatusReserved | SlotStatusPast

record slot_view =
  svID :: uuid
  svRoomID :: uuid
  svStartTime :: time
  svEndTime :: time
  svStatus :: slot_status
  svBookingID :: "uuid option"
  svReservationID :: "uuid option"
  svWaitlistEntryID :: "uuid option"

section \<open>Bookings, waitlist entries, reservations\<close>

datatype booking_status = BookingStatusActive | BookingStatusCancelled

record booking =
  bkID :: uuid
  bkUserID :: uuid
  bkSlotID :: uuid
  bkStatus :: booking_status
  bkConferenceLink :: "string option"
  bkCreatedAt :: time

datatype waitlist_status =
  WaitlistStatusActive | WaitlistStatusNotified | WaitlistStatusCancelled | WaitlistStatusExpired

record waitlist_entry =
  weID :: uuid
  weSlotID :: uuid
  weUserID :: uuid
  weStatus :: waitlist_status
  wePosition :: int
  weCreatedAt :: time
  weNotifiedAt :: "time option"

datatype reservation_status =
    ReservationStatusActive | ReservationStatusConfirmed
  | ReservationStatusExpired | ReservationStatusCancelled

record slot_reservation =
  rvID :: uuid
  rvSlotID :: uuid
  rvUserID :: uuid
  rvWaitlistEntryID :: "uuid option"
  rvStatus :: reservation_status
  rvExpiresAt :: time
  rvCreatedAt :: time
  rvConfirmedAt :: "time option"
  rvExpiredAt :: "time option"

record pagination =
  pgPage :: int
  pgPageSize :: int
  pgTotal :: int

section \<open>The texts of the statuses\<close>

fun slot_status_text :: "slot_status \<Rightarrow> string" where
  "slot_status_text SlotStatusAvailable = ''available''"
| "slot_status_text SlotStatusBooked = ''booked''"
| "slot_status_text SlotStatusReserved = ''reserved''"
| "slot_status_text SlotStatusPast = ''past''"

fun booking_status_text :: "booking_status \<Rightarrow> string" where
  "booking_status_text BookingStatusActive = ''active''"
| "booking_status_text BookingStatusCancelled = ''cancelled''"

fun waitlist_status_text :: "waitlist_status \<Rightarrow> string" where
  "waitlist_status_text WaitlistStatusActive = ''active''"
| "waitlist_status_text WaitlistStatusNotified = ''notified''"
| "waitlist_status_text WaitlistStatusCancelled = ''cancelled''"
| "waitlist_status_text WaitlistStatusExpired = ''expired''"

fun reservation_status_text :: "reservation_status \<Rightarrow> string" where
  "reservation_status_text ReservationStatusActive = ''active''"
| "reservation_status_text ReservationStatusConfirmed = ''confirmed''"
| "reservation_status_text ReservationStatusExpired = ''expired''"
| "reservation_status_text ReservationStatusCancelled = ''cancelled''"

end
