(* ===== verification/Store.thy ===== *)
theory Store
  imports Domain
begin

text \<open>
  The PostgreSQL schema of \<open>migrations/\<close>: one list of rows per table, in the order a scan returns
  them, and the integrity constraints the migrations declare. A table is an arbitrary list, so a
  statement about every store covers every tie-break of an \<open>ORDER BY\<close>. The sequence behind
  \<open>waitlist_entries.position\<close> is a field of its own, because a rollback does not reset it.
\<close>

record schedule_row =
  scrID :: uuid
  scrRoomID :: uuid
  scrDayOfWeek :: int
  scrStartTime :: duration
  scrEndTime :: duration
  scrCreatedAt :: time

record store =
  users :: "user list"
  rooms :: "room list"
  schedules :: "schedule_row list"
  slots :: "slot list"
  bookings :: "booking list"
  waitlist :: "waitlist_entry list"
  reservations :: "slot_reservation list"
  position_seq :: int

definition empty_store :: store where
  "empty_store = \<lparr>users = [], rooms = [], schedules = [], slots = [], bookings = [],
     waitlist = [], reservations = [], position_seq = 1\<rparr>"

text \<open>A \<open>TIMESTAMPTZ\<close> keeps microseconds: a bound \<open>time.Time\<close> loses what is below them.\<close>

definition timestamptz :: "time \<Rightarrow> time" where
  "timestamptz t = t div 1000 * 1000"

lemma timestamptz_le: "timestamptz t \<le> t"
  unfolding timestamptz_def by presburger

lemma timestamptz_idem [simp]: "timestamptz (timestamptz t) = timestamptz t"
  by (simp add: timestamptz_def)

lemma timestamptz_mono: "t \<le> u \<Longrightarrow> timestamptz t \<le> timestamptz u"
  by (simp add: timestamptz_def zdiv_mono1)

lemma timestamptz_le_iff: "timestamptz t = t \<Longrightarrow> t \<le> timestamptz u \<longleftrightarrow> t \<le> u"
  by (metis order_trans timestamptz_le timestamptz_mono)

section \<open>The rows the partial indexes cover\<close>

definition bk_active :: "booking \<Rightarrow> bool" where
  "bk_active b = (bkStatus b = BookingStatusActive)"

definition rv_active :: "slot_reservation \<Rightarrow> bool" where
  "rv_active r = (rvStatus r = ReservationStatusActive)"

definition we_active :: "waitlist_entry \<Rightarrow> bool" where
  "we_active e = (weStatus e = WaitlistStatusActive)"

definition we_pending :: "waitlist_entry \<Rightarrow> bool" where
  "we_pending e = (weStatus e = WaitlistStatusActive \<or> weStatus e = WaitlistStatusNotified)"

definition we_slot_user :: "waitlist_entry \<Rightarrow> uuid \<times> uuid" where
  "we_slot_user e = (weSlotID e, weUserID e)"

definition scr_room_day :: "schedule_row \<Rightarrow> uuid \<times> int" where
  "scr_room_day r = (scrRoomID r, scrDayOfWeek r)"

definition sl_room_start :: "slot \<Rightarrow> uuid \<times> time" where
  "sl_room_start s = (slRoomID s, slStartTime s)"

text \<open>\<open>tstzrange(start_time, end_time, '[)') WITH &&\<close>\<close>

definition sl_overlap :: "slot \<Rightarrow> slot \<Rightarrow> bool" where
  "sl_overlap a b = (slRoomID a = slRoomID b \<and>
     slStartTime a < slEndTime b \<and> slStartTime b < slEndTime a)"

lemma we_active_pending: "we_active e \<Longrightarrow> we_pending e"
  by (simp add: we_active_def we_pending_def)

section \<open>Integrity constraints\<close>

definition users_ok :: "store \<Rightarrow> bool" where
  "users_ok s \<longleftrightarrow> distinct (map usrID (users s)) \<and> distinct (map usrEmail (users s)) \<and>
     (\<forall>u \<in> set (users s). usrRole u = RoleAdmin \<or> usrRole u = RoleUser)"

definition rooms_ok :: "store \<Rightarrow> bool" where
  "rooms_ok s \<longleftrightarrow> distinct (map rmID (rooms s))"

definition schedules_ok :: "store \<Rightarrow> bool" where
  "schedules_ok s \<longleftrightarrow> distinct (map scrID (schedules s)) \<and>
     distinct (map scr_room_day (schedules s)) \<and>
     (\<forall>r \<in> set (schedules s). scrRoomID r \<in> rmID ` set (rooms s) \<and>
        1 \<le> scrDayOfWeek r \<and> scrDayOfWeek r \<le> 7 \<and> scrStartTime r < scrEndTime r)"

definition slots_ok :: "store \<Rightarrow> bool" where
  "slots_ok s \<longleftrightarrow> distinct (map slID (slots s)) \<and> distinct (map sl_room_start (slots s)) \<and>
     (\<forall>a \<in> set (slots s). slRoomID a \<in> rmID ` set (rooms s) \<and> slStartTime a < slEndTime a) \<and>
     (\<forall>a \<in> set (slots s). \<forall>b \<in> set (slots s). slID a \<noteq> slID b \<longrightarrow> \<not> sl_overlap a b)"

definition bookings_ok :: "store \<Rightarrow> bool" where
  "bookings_ok s \<longleftrightarrow> distinct (map bkID (bookings s)) \<and> index_ok bk_active bkSlotID (bookings s) \<and>
     (\<forall>b \<in> set (bookings s). bkUserID b \<in> usrID ` set (users s) \<and> bkSlotID b \<in> slID ` set (slots s))"

definition waitlist_ok :: "store \<Rightarrow> bool" where
  "waitlist_ok s \<longleftrightarrow> distinct (map weID (waitlist s)) \<and>
     index_ok we_pending we_slot_user (waitlist s) \<and>
     distinct (map wePosition (waitlist s)) \<and>
     (\<forall>e \<in> set (waitlist s). weUserID e \<in> usrID ` set (users s) \<and>
        weSlotID e \<in> slID ` set (slots s) \<and> wePosition e < position_seq s)"

definition reservations_ok :: "store \<Rightarrow> bool" where
  "reservations_ok s \<longleftrightarrow> distinct (map rvID (reservations s)) \<and>
     index_ok rv_active rvSlotID (reservations s) \<and>
     (\<forall>r \<in> set (reservations s). rvUserID r \<in> usrID ` set (users s) \<and>
        rvSlotID r \<in> slID ` set (slots s) \<and> timestamptz (rvExpiresAt r) = rvExpiresAt r \<and>
        (\<forall>e. rvWaitlistEntryID r = Some e \<longrightarrow> e \<in> weID ` set (waitlist s)))"

definition store_ok :: "store \<Rightarrow> bool" where
  "store_ok s \<longleftrightarrow> users_ok s \<and> rooms_ok s \<and> schedules_ok s \<and> slots_ok s \<and> bookings_ok s \<and>
     waitlist_ok s \<and> reservations_ok s"

lemmas store_ok_defs = store_ok_def users_ok_def rooms_ok_def schedules_ok_def slots_ok_def
  bookings_ok_def waitlist_ok_def reservations_ok_def

lemma store_ok_empty: "store_ok empty_store"
  by (simp add: store_ok_defs empty_store_def)

section \<open>Who holds a slot\<close>

definition slot_booked :: "store \<Rightarrow> uuid \<Rightarrow> bool" where
  "slot_booked s k = (\<exists>b \<in> set (bookings s). bk_active b \<and> bkSlotID b = k)"

definition slot_reserved :: "store \<Rightarrow> uuid \<Rightarrow> bool" where
  "slot_reserved s k = (\<exists>r \<in> set (reservations s). rv_active r \<and> rvSlotID r = k)"

definition slot_awaited :: "store \<Rightarrow> uuid \<Rightarrow> bool" where
  "slot_awaited s k = (\<exists>e \<in> set (waitlist s). we_active e \<and> weSlotID e = k)"

end
