(* ===== verification/Runtime.thy ===== *)
theory Runtime
  imports Store
begin

text \<open>
  The effects of the Go code. A computation of type \<open>'a go\<close> threads a \<open>world\<close>: the database, the
  messages handed to Redis, the metric counters, and the number of interactions with the outside so
  far. Everything the code does not decide itself (clock readings, fresh identifiers, lost
  connections, rows locked by concurrent transactions, the order of rows that rank as equal, cancellation of the context, third-party
  functions) is a field of \<open>env\<close>, indexed by the number of the interaction, so that every theorem
  ranges over all behaviours of the outside. Go's pair of a value and an \<open>error\<close> is a value of
  \<open>'a result\<close>.
\<close>

section \<open>The outside world\<close>

text \<open>
  A round trip to the database may fail before the server saw it or after the server executed it.
\<close>

datatype fault = NoFault | LostRequest | LostReply

text \<open>Third-party functions the code calls; the theorems quantify over them.\<close>

record ext =
  uuid_String :: "uuid \<Rightarrow> string"
  uuid_Parse :: "string \<Rightarrow> uuid option"
  uuid_NewSHA1 :: "uuid \<Rightarrow> string \<Rightarrow> uuid"
  pg_Error :: "string \<Rightarrow> string \<Rightarrow> string"
  conn_Error :: string
  pg_time_in :: "string \<Rightarrow> duration option"
  pg_time_out :: "duration \<Rightarrow> string"
  bcrypt_Hash :: "nat \<Rightarrow> string \<Rightarrow> string option"
  bcrypt_Compare :: "string \<Rightarrow> string \<Rightarrow> bool"
  mail_ParseAddress :: "string \<Rightarrow> string option"
  unicode_ToLower :: "string \<Rightarrow> string"
  hmac_SHA256 :: "string \<Rightarrow> string \<Rightarrow> string"
  format_RFC3339 :: "time \<Rightarrow> string"
  parse_RFC3339 :: "string \<Rightarrow> time option"

record env =
  clock_at :: "nat \<Rightarrow> time"
  fresh_at :: "nat \<Rightarrow> uuid"
  fault_at :: "nat \<Rightarrow> fault"
  locked_at :: "nat \<Rightarrow> uuid \<Rightarrow> bool"
  tie_at :: "nat \<Rightarrow> uuid \<Rightarrow> nat"
  ctx_done_at :: "nat \<Rightarrow> bool"
  redis_down_at :: "nat \<Rightarrow> bool"
  libs :: ext

section \<open>What the code writes\<close>

datatype metric =
    BookingCreated | BookingCancelled | BookingConflict | BookingCreateError | BookingCancelError
  | WSConnections | WSSubscriptions | WSMessageSent string
  | RedisPublish string string | RedisEventReceived string string | RedisSubscriberReconnect
  | WaitlistJoinedTotal | WaitlistNotification | WaitlistCancelledTotal
  | ReservationCreated | ReservationConfirmed | ReservationExpired | ReservationCancelled
  | HTTPRequests string string string

record event =
  evType :: string
  evTarget :: string
  evRoomID :: string
  evUserID :: string
  evSlotID :: string
  evBookingID :: string
  evReservationID :: string
  evWaitlistEntryID :: string
  evExpiresAt :: string
  evTimestamp :: string

record world =
  db :: store
  outbox :: "(string \<times> string) list"
  counters :: "metric \<Rightarrow> int"
  ticks :: nat
  env :: env

type_synonym 'a go = "(world, 'a) state"
type_synonym 'a result = "go_error + 'a"

section \<open>Control flow\<close>

definition ok :: "'a \<Rightarrow> 'a result go" where
  "ok x = State_Monad.return (Inr x)"

definition fail :: "go_error \<Rightarrow> 'a result go" where
  "fail e = State_Monad.return (Inl e)"

text \<open>\<open>x, err := m; if err != nil { return wrap(err) }; k(x)\<close>\<close>

definition check :: "(go_error \<Rightarrow> go_error) \<Rightarrow> 'a result go \<Rightarrow> ('a \<Rightarrow> 'b result go) \<Rightarrow> 'b result go" where
  "check wrap m k = do {
     r \<leftarrow> m;
     (case r of Inl err \<Rightarrow> fail (wrap err) | Inr x \<Rightarrow> k x)
   }"

definition wrapped :: "error_code \<Rightarrow> string \<Rightarrow> go_error \<Rightarrow> go_error" where
  "wrapped code message err = WrapDomainError code message (Some err)"

definition same_error :: "go_error \<Rightarrow> go_error" where
  "same_error err = err"

lemma run_bind [simp, go_run]:
  "run_state (State_Monad.bind m k) w = (case run_state m w of (x, w') \<Rightarrow> run_state (k x) w')"
  by (simp add: State_Monad.bind_def)

lemma run_ok [simp, go_run]: "run_state (ok x) w = (Inr x, w)"
  by (simp add: ok_def)

lemma run_fail [simp, go_run]: "run_state (fail e) w = (Inl e, w)"
  by (simp add: fail_def)

lemma run_check [go_run]:
  "run_state (check wrap m k) w =
    (case run_state m w of (Inl err, w') \<Rightarrow> (Inl (wrap err), w') | (Inr x, w') \<Rightarrow> run_state (k x) w')"
  by (simp add: check_def split: prod.split sum.split)

lemma check_InrE:
  assumes "run_state (check wrap m k) w = (Inr y, w'')"
  obtains x w' where "run_state m w = (Inr x, w')" "run_state (k x) w' = (Inr y, w'')"
  using assms by (auto simp: run_check split: prod.splits sum.splits)

lemma has_code_wrapped [simp]: "has_code (wrapped code message err) c \<longleftrightarrow> code = c"
  by (simp add: wrapped_def)

section \<open>Reading the outside\<close>

definition tick :: "world \<Rightarrow> world" where
  "tick w = w\<lparr>ticks := Suc (ticks w)\<rparr>"

lemma tick_simps [simp]:
  "db (tick w) = db w" "outbox (tick w) = outbox w" "counters (tick w) = counters w"
  "env (tick w) = env w" "ticks (tick w) = Suc (ticks w)"
  by (simp_all add: tick_def)

definition now_utc :: "time go" where
  "now_utc = State (\<lambda>w. (clock_at (env w) (ticks w), tick w))"

definition uuid_New :: "uuid go" where
  "uuid_New = State (\<lambda>w. (fresh_at (env w) (ticks w), tick w))"

definition ctx_Err :: "unit result go" where
  "ctx_Err = State (\<lambda>w. (if ctx_done_at (env w) (ticks w) then Inl CtxError else Inr (), tick w))"

definition asks :: "(ext \<Rightarrow> 'a) \<Rightarrow> 'a go" where
  "asks f = State (\<lambda>w. (f (libs (env w)), w))"

lemma run_now_utc [simp, go_run]: "run_state now_utc w = (clock_at (env w) (ticks w), tick w)"
  by (simp add: now_utc_def)

lemma run_uuid_New [simp, go_run]: "run_state uuid_New w = (fresh_at (env w) (ticks w), tick w)"
  by (simp add: uuid_New_def)

lemma run_asks [simp, go_run]: "run_state (asks f) w = (f (libs (env w)), w)"
  by (simp add: asks_def)

lemma run_ctx_Err [go_run]:
  "run_state ctx_Err w = (if ctx_done_at (env w) (ticks w) then Inl CtxError else Inr (), tick w)"
  by (simp add: ctx_Err_def)

section \<open>Metrics\<close>

definition add_metric :: "metric \<Rightarrow> int \<Rightarrow> unit go" where
  "add_metric m d = State (\<lambda>w. ((), w\<lparr>counters := (counters w)(m := counters w m + d)\<rparr>))"

definition inc :: "metric \<Rightarrow> unit go" where
  "inc m = add_metric m 1"

lemma run_inc [simp, go_run]:
  "run_state (inc m) w = ((), w\<lparr>counters := (counters w)(m := counters w m + 1)\<rparr>)"
  by (simp add: inc_def add_metric_def)

lemma run_add_metric [simp, go_run]:
  "run_state (add_metric m d) w = ((), w\<lparr>counters := (counters w)(m := counters w m + d)\<rparr>)"
  by (simp add: add_metric_def)

section \<open>Statements\<close>

text \<open>
  What a statement sees of the server besides the tables: the rows other transactions hold locks on
  (a \<open>SKIP LOCKED\<close> clause leaves them out), the value of \<open>NOW()\<close>, and the order in which the plan
  chosen for this statement meets the rows an \<open>ORDER BY\<close> ranks as equal.
\<close>

record server =
  row_locked :: "uuid \<Rightarrow> bool"
  server_now :: time
  tie_rank :: "uuid \<Rightarrow> nat"

type_synonym 'a stmt = "server \<Rightarrow> store \<Rightarrow> 'a result \<times> store"

definition server_of :: "world \<Rightarrow> server" where
  "server_of w = \<lparr>row_locked = locked_at (env w) (ticks w),
     server_now = timestamptz (clock_at (env w) (ticks w)), tie_rank = tie_at (env w) (ticks w)\<rparr>"

definition db_call :: "'a stmt \<Rightarrow> 'a result go" where
  "db_call f = State (\<lambda>w.
     case fault_at (env w) (ticks w) of
       NoFault \<Rightarrow> (fst (f (server_of w) (db w)), (tick w)\<lparr>db := snd (f (server_of w) (db w))\<rparr>)
     | LostRequest \<Rightarrow> (Inl ConnError, tick w)
     | LostReply \<Rightarrow> (Inl ConnError, (tick w)\<lparr>db := snd (f (server_of w) (db w))\<rparr>))"

definition select :: "(store \<Rightarrow> 'a) \<Rightarrow> 'a stmt" where
  "select q = (\<lambda>_ s. (Inr (q s), s))"

lemma run_db_call [go_run]:
  "run_state (db_call f) w =
    (case fault_at (env w) (ticks w) of
       NoFault \<Rightarrow> (fst (f (server_of w) (db w)), (tick w)\<lparr>db := snd (f (server_of w) (db w))\<rparr>)
     | LostRequest \<Rightarrow> (Inl ConnError, tick w)
     | LostReply \<Rightarrow> (Inl ConnError, (tick w)\<lparr>db := snd (f (server_of w) (db w))\<rparr>))"
  by (simp add: db_call_def)

lemma db_call_Inr:
  "run_state (db_call f) w = (Inr x, w') \<longleftrightarrow>
    fault_at (env w) (ticks w) = NoFault \<and> fst (f (server_of w) (db w)) = Inr x \<and>
    w' = (tick w)\<lparr>db := snd (f (server_of w) (db w))\<rparr>"
  by (auto simp: run_db_call split: fault.splits)

lemma db_call_select_Inr:
  "run_state (db_call (select q)) w = (Inr x, w') \<longleftrightarrow>
    fault_at (env w) (ticks w) = NoFault \<and> x = q (db w) \<and> w' = tick w"
proof -
  have "(tick w)\<lparr>db := db w\<rparr> = tick w"
    by (simp add: tick_def)
  then show ?thesis
    by (auto simp: db_call_Inr select_def)
qed

lemma run_db_call_calm:
  "fault_at (env w) (ticks w) = NoFault \<Longrightarrow>
   run_state (db_call f) w =
     (fst (f (server_of w) (db w)), (tick w)\<lparr>db := snd (f (server_of w) (db w))\<rparr>)"
  by (simp add: run_db_call)

definition calm :: "env \<Rightarrow> bool" where
  "calm e = (\<forall>n. fault_at e n = NoFault)"

definition unlocked :: "env \<Rightarrow> bool" where
  "unlocked e = (\<forall>n r. \<not> locked_at e n r)"

lemma calm_NoFault [simp]: "calm e \<Longrightarrow> fault_at e n = NoFault"
  by (simp add: calm_def)

end
