(* ===== verification/Transactions.thy ===== *)
theory Transactions
  imports Runtime
begin

text \<open>
  \<open>TxManager.WithinTransaction\<close> of \<open>internal/repository/postgres/tx_manager.go\<close>, the contract the
  use cases rely on (\<open>repository.TxManager\<close>) as a locale, and its interpretation on the model of the
  code. A rollback restores every table but not the sequence behind the waitlist positions. A
  commit whose reply is lost reports an error although the transaction took effect.
\<close>

definition rollback_to :: "store \<Rightarrow> store \<Rightarrow> store" where
  "rollback_to s0 s = s0\<lparr>position_seq := max (position_seq s0) (position_seq s)\<rparr>"

definition tx_begin :: "unit stmt" where
  "tx_begin = (\<lambda>_ s. (Inr (), s))"

definition WithinTransaction :: "'a result go \<Rightarrow> 'a result go" where
  "WithinTransaction fn = State (\<lambda>w0.
     case run_state (db_call tx_begin) w0 of
       (Inl err, w1) \<Rightarrow> (Inl (FmtError ''begin tx'' err), w1)
     | (Inr _, w1) \<Rightarrow>
         (case run_state fn w1 of
            (Inl err, w2) \<Rightarrow>
              (let w3 = (tick w2)\<lparr>db := rollback_to (db w1) (db w2)\<rparr>
               in if fault_at (env w2) (ticks w2) = NoFault then (Inl err, w3)
                  else (Inl (FmtError ''tx rollback failed'' err), w3))
          | (Inr x, w2) \<Rightarrow>
              (case fault_at (env w2) (ticks w2) of
                 NoFault \<Rightarrow> (Inr x, tick w2)
               | LostRequest \<Rightarrow>
                   (Inl (FmtError ''commit tx'' ConnError),
                    (tick w2)\<lparr>db := rollback_to (db w1) (db w2)\<rparr>)
               | LostReply \<Rightarrow> (Inl (FmtError ''commit tx'' ConnError), tick w2))))"

lemma tick_db_same [simp]: "(tick w)\<lparr>db := db w\<rparr> = tick w"
  by (simp add: tick_def)

lemma WithinTransaction_Inr:
  "run_state (WithinTransaction fn) w = (Inr x, w') \<longleftrightarrow>
    fault_at (env w) (ticks w) = NoFault \<and>
    (\<exists>w2. run_state fn (tick w) = (Inr x, w2) \<and> fault_at (env w2) (ticks w2) = NoFault \<and>
       w' = tick w2)"
  by (auto simp: WithinTransaction_def run_db_call tx_begin_def Let_def
      split: prod.splits sum.splits fault.splits if_splits)

lemma WithinTransaction_Inl:
  assumes "run_state (WithinTransaction fn) w = (Inl e, w')"
  shows "db w' = rollback_to (db w) (db w') \<or>
    (\<exists>x w2. run_state fn (tick w) = (Inr x, w2) \<and> fault_at (env w2) (ticks w2) = LostReply \<and>
       db w' = db w2)"
  using assms
  by (auto simp: WithinTransaction_def run_db_call tx_begin_def rollback_to_def Let_def
      split: prod.splits sum.splits fault.splits if_splits)

text \<open>What the use cases may assume of a transaction manager.\<close>

locale tx_manager =
  fixes within :: "'a result go \<Rightarrow> 'a result go"
  assumes committed:
      "run_state (within fn) w = (Inr x, w') \<Longrightarrow>
        \<exists>w2. run_state fn (tick w) = (Inr x, w2) \<and> db w' = db w2"
    and aborted:
      "run_state (within fn) w = (Inl e, w') \<Longrightarrow>
        db w' = rollback_to (db w) (db w') \<or>
        (\<exists>x w2. run_state fn (tick w) = (Inr x, w2) \<and> db w' = db w2)"
begin

lemma outcome:
  "db (snd (run_state (within fn) w)) = rollback_to (db w) (db (snd (run_state (within fn) w))) \<or>
   (\<exists>x w2. run_state fn (tick w) = (Inr x, w2) \<and> db (snd (run_state (within fn) w)) = db w2)"
  by (metis (no_types, lifting) aborted committed prod.collapse sum.exhaust)

lemma invariant:
  assumes "I (db w)"
    and "\<And>n. position_seq (db w) \<le> n \<Longrightarrow> I ((db w)\<lparr>position_seq := n\<rparr>)"
    and "\<And>x w2. run_state fn (tick w) = (Inr x, w2) \<Longrightarrow> I (db w2)"
  shows "I (db (snd (run_state (within fn) w)))"
proof -
  have "I (rollback_to (db w) s)" for s
    using assms(2) [of "max (position_seq (db w)) (position_seq s)"] by (simp add: rollback_to_def)
  then show ?thesis
    using outcome [of fn w] assms(3) by metis
qed

end

interpretation pg_tx: tx_manager WithinTransaction
  using WithinTransaction_Inl by unfold_locales (auto simp: WithinTransaction_Inr, blast)

lemma WithinTransaction_calm:
  assumes "fault_at (env w) (ticks w) = NoFault" "run_state fn (tick w) = (Inr x, w2)"
    "fault_at (env w2) (ticks w2) = NoFault"
  shows "run_state (WithinTransaction fn) w = (Inr x, tick w2)"
  using assms by (auto simp: WithinTransaction_Inr)

lemma WithinTransaction_calm_error:
  assumes "fault_at (env w) (ticks w) = NoFault" "run_state fn (tick w) = (Inl e, w2)"
    "fault_at (env w2) (ticks w2) = NoFault"
  shows "run_state (WithinTransaction fn) w =
    (Inl e, (tick w2)\<lparr>db := rollback_to (db w) (db w2)\<rparr>)"
  using assms by (simp add: WithinTransaction_def run_db_call tx_begin_def)

section \<open>All or nothing\<close>

text \<open>
  The stores a use case may leave behind whose only writes are those of one transaction: the one it
  started from, up to the sequence, or the one the whole closure produced.
\<close>

definition tx_outcome :: "'a result go \<Rightarrow> world \<Rightarrow> store \<Rightarrow> bool" where
  "tx_outcome fn w s' \<longleftrightarrow>
     (\<exists>n \<ge> position_seq (db w). s' = (db w)\<lparr>position_seq := n\<rparr>) \<or>
     (\<exists>w1 x w2. db w1 = db w \<and> env w1 = env w \<and> run_state fn w1 = (Inr x, w2) \<and> s' = db w2)"

lemma tx_outcome_same: "tx_outcome fn w (db w)"
  unfolding tx_outcome_def by (intro disjI1 exI [of _ "position_seq (db w)"]) simp

lemma tx_outcome_run:
  assumes "db w1 = db w" "env w1 = env w"
  shows "tx_outcome fn w (db (snd (run_state (WithinTransaction fn) w1)))"
  using pg_tx.outcome [of fn w1]
proof
  let ?s = "db (snd (run_state (WithinTransaction fn) w1))"
  assume undone: "?s = rollback_to (db w1) ?s"
  have "max (position_seq (db w)) (position_seq ?s) \<ge> position_seq (db w)"
      "?s = (db w)\<lparr>position_seq := max (position_seq (db w)) (position_seq ?s)\<rparr>"
    using undone by (simp_all add: rollback_to_def assms(1))
  then show ?thesis
    unfolding tx_outcome_def by blast
next
  assume "\<exists>x w2. run_state fn (tick w1) = (Inr x, w2) \<and>
    db (snd (run_state (WithinTransaction fn) w1)) = db w2"
  then show ?thesis
    unfolding tx_outcome_def using assms by (metis tick_simps(1,4))
qed

lemma tx_outcome_invariant:
  assumes "tx_outcome fn w s'" "I (db w)"
    and "\<And>n. position_seq (db w) \<le> n \<Longrightarrow> I ((db w)\<lparr>position_seq := n\<rparr>)"
    and "\<And>w1 x w2. db w1 = db w \<Longrightarrow> env w1 = env w \<Longrightarrow> run_state fn w1 = (Inr x, w2) \<Longrightarrow> I (db w2)"
  shows "I s'"
  using assms unfolding tx_outcome_def by metis

end
