(* ===== verification/Booking_Repo.thy ===== *)
theory Booking_Repo
  imports Transactions
begin

text \<open>
  \<open>internal/repository/postgres/booking_repo.go\<close>: the statements on table \<open>bookings\<close> and the
  repository methods around them. \<open>FOR UPDATE\<close> takes a lock and changes no row.
\<close>

section \<open>Statements\<close>

definition sql_booking_insert :: "booking \<Rightarrow> nat stmt" where
  "sql_booking_insert b = (\<lambda>_ s.
     if index_hit bk_active bkSlotID (bookings s) b then (Inr 0, s)
     else if bkID b \<in> bkID ` set (bookings s) then (Inl (PgError ''23505'' ''bookings_pkey''), s)
     else if bkUserID b \<notin> usrID ` set (users s)
       then (Inl (PgError ''23503'' ''bookings_user_id_fkey''), s)
     else if bkSlotID b \<notin> slID ` set (slots s)
       then (Inl (PgError ''23503'' ''bookings_slot_id_fkey''), s)
     else (Inr 1, s\<lparr>bookings := bookings s @ [b\<lparr>bkCreatedAt := timestamptz (bkCreatedAt b)\<rparr>]\<rparr>))"

definition bk_cancel :: "booking \<Rightarrow> booking" where
  "bk_cancel b = b\<lparr>bkStatus := BookingStatusCancelled\<rparr>"

definition sql_booking_cancel :: "uuid \<Rightarrow> booking option stmt" where
  "sql_booking_cancel k = (\<lambda>_ s.
     (Inr (map_option bk_cancel (List.find (\<lambda>b. bkID b = k \<and> bk_active b) (bookings s))),
      s\<lparr>bookings := update_where (\<lambda>b. bkID b = k \<and> bk_active b) bk_cancel (bookings s)\<rparr>))"

definition active_booking :: "store \<Rightarrow> uuid \<Rightarrow> booking option" where
  "active_booking s k = List.find (\<lambda>b. bkSlotID b = k \<and> bk_active b) (bookings s)"

text \<open>Go's \<open>int\<close> has 64 bits: \<open>(page - 1) * pageSize\<close> wraps around.\<close>

definition int64 :: "int \<Rightarrow> int" where
  "int64 x = (x + 2 ^ 63) mod 2 ^ 64 - 2 ^ 63"

text \<open>
  \<open>ORDER BY created_at DESC\<close> leaves the order of bookings of the same instant to the plan of each query.
\<close>

definition by_creation :: "(uuid \<Rightarrow> nat) \<Rightarrow> booking list \<Rightarrow> booking list" where
  "by_creation tie bs = sort_key (\<lambda>b. - bkCreatedAt b) (sort_key (\<lambda>b. tie (bkID b)) bs)"

definition sql_bookings_page :: "int \<Rightarrow> int \<Rightarrow> booking list stmt" where
  "sql_bookings_page lim off = (\<lambda>srv s.
     if lim < 0 then (Inl (PgError ''2201W'' ''''), s)
     else if off < 0 then (Inl (PgError ''2201X'' ''''), s)
     else (Inr (take (nat lim) (drop (nat off) (by_creation (tie_rank srv) (bookings s)))), s))"

definition future_bookings :: "uuid \<Rightarrow> time \<Rightarrow> store \<Rightarrow> booking list" where
  "future_bookings userID now s =
     map fst (sort_key (\<lambda>(b, sl). slStartTime sl)
       (concat (map (\<lambda>b. map (\<lambda>sl. (b, sl))
          (filter (\<lambda>sl. slID sl = bkSlotID b \<and> bkUserID b = userID \<and> bk_active b \<and>
             slStartTime sl \<ge> timestamptz now) (slots s)))
        (bookings s))))"

section \<open>Repository methods\<close>

definition BookingRepo_Create :: "booking \<Rightarrow> unit result go" where
  "BookingRepo_Create b =
     check same_error (db_call (sql_booking_insert b)) (\<lambda>affected.
       if affected = 0 then fail (NewDomainError ErrorSlotAlreadyBooked ''slot already booked'')
       else ok ())"

definition BookingRepo_GetByID :: "uuid \<Rightarrow> booking option result go" where
  "BookingRepo_GetByID k = db_call (select (\<lambda>s. find_row bkID k (bookings s)))"

definition BookingRepo_HasActiveBySlot :: "uuid \<Rightarrow> bool result go" where
  "BookingRepo_HasActiveBySlot slotID =
     db_call (select (\<lambda>s. \<exists>b \<in> set (bookings s). bkSlotID b = slotID \<and> bk_active b))"

definition BookingRepo_GetActiveBySlotForUpdate :: "uuid \<Rightarrow> booking option result go" where
  "BookingRepo_GetActiveBySlotForUpdate slotID = db_call (select (\<lambda>s. active_booking s slotID))"

definition BookingRepo_SetCancelled :: "uuid \<Rightarrow> booking option result go" where
  "BookingRepo_SetCancelled k =
     check same_error (db_call (sql_booking_cancel k)) (\<lambda>row.
       case row of Some b \<Rightarrow> ok (Some b) | None \<Rightarrow> BookingRepo_GetByID k)"

definition BookingRepo_List :: "int \<Rightarrow> int \<Rightarrow> (booking list \<times> int) result go" where
  "BookingRepo_List page pageSize =
     check same_error (db_call (select (\<lambda>s. int (length (bookings s))))) (\<lambda>total.
     check same_error (db_call (sql_bookings_page pageSize (int64 ((page - 1) * pageSize)))) (\<lambda>out.
       ok (out, total)))"

definition BookingRepo_ListFutureByUser :: "uuid \<Rightarrow> time \<Rightarrow> booking list result go" where
  "BookingRepo_ListFutureByUser userID now = db_call (select (future_bookings userID now))"

section \<open>The cancelling update and the partial index\<close>

lemma bk_cancel_simps [simp]:
  "bkID (bk_cancel b) = bkID b" "bkUserID (bk_cancel b) = bkUserID b"
  "bkSlotID (bk_cancel b) = bkSlotID b" "bkStatus (bk_cancel b) = BookingStatusCancelled"
  "bkConferenceLink (bk_cancel b) = bkConferenceLink b" "bkCreatedAt (bk_cancel b) = bkCreatedAt b"
  "\<not> bk_active (bk_cancel b)"
  by (simp_all add: bk_cancel_def bk_active_def)

interpretation bk: index_retire bkID bk_cancel bk_active bkSlotID
  by unfold_locales simp_all

section \<open>Effect of the methods\<close>

lemma active_booking_Some:
  "active_booking s k = Some b \<Longrightarrow> b \<in> set (bookings s) \<and> bk_active b \<and> bkSlotID b = k"
  by (auto simp: active_booking_def dest: find_SomeD)

lemma active_booking_None: "active_booking s k = None \<longleftrightarrow> \<not> slot_booked s k"
  by (auto simp: active_booking_def slot_booked_def find_None_iff')

lemma active_booking_unique:
  assumes "bookings_ok s" "b \<in> set (bookings s)" "bk_active b"
  shows "active_booking s (bkSlotID b) = Some b"
proof -
  obtain b' where b': "active_booking s (bkSlotID b) = Some b'"
    using assms(2,3) active_booking_None [of s "bkSlotID b"] by (auto simp: slot_booked_def)
  then have "b' = b"
    using assms by (auto simp: bookings_ok_def dest: active_booking_Some index_okD)
  with b' show ?thesis by simp
qed

lemma BookingRepo_GetByID_Inr [go_run]:
  "run_state (BookingRepo_GetByID k) w = (Inr x, w') \<longleftrightarrow>
    fault_at (env w) (ticks w) = NoFault \<and> x = find_row bkID k (bookings (db w)) \<and> w' = tick w"
  by (simp add: BookingRepo_GetByID_def db_call_select_Inr)

lemma BookingRepo_GetActive_Inr [go_run]:
  "run_state (BookingRepo_GetActiveBySlotForUpdate k) w = (Inr x, w') \<longleftrightarrow>
    fault_at (env w) (ticks w) = NoFault \<and> x = active_booking (db w) k \<and> w' = tick w"
  by (simp add: BookingRepo_GetActiveBySlotForUpdate_def db_call_select_Inr)

definition booking_insertable :: "booking \<Rightarrow> store \<Rightarrow> bool" where
  "booking_insertable b s \<longleftrightarrow> \<not> index_hit bk_active bkSlotID (bookings s) b \<and>
     bkID b \<notin> bkID ` set (bookings s) \<and> bkUserID b \<in> usrID ` set (users s) \<and>
     bkSlotID b \<in> slID ` set (slots s)"

definition add_booking :: "booking \<Rightarrow> store \<Rightarrow> store" where
  "add_booking b s = s\<lparr>bookings := bookings s @ [b\<lparr>bkCreatedAt := timestamptz (bkCreatedAt b)\<rparr>]\<rparr>"

lemma BookingRepo_Create_Inr [go_run]:
  "run_state (BookingRepo_Create b) w = (Inr u, w') \<longleftrightarrow>
    fault_at (env w) (ticks w) = NoFault \<and> booking_insertable b (db w) \<and>
    w' = (tick w)\<lparr>db := add_booking b (db w)\<rparr>"
  by (auto simp: BookingRepo_Create_def run_check db_call_Inr sql_booking_insert_def
      booking_insertable_def add_booking_def same_error_def split: sum.splits prod.splits if_splits)
     (auto simp: run_db_call sql_booking_insert_def split: fault.splits if_splits)

definition cancel_booking :: "uuid \<Rightarrow> store \<Rightarrow> store" where
  "cancel_booking k s =
     s\<lparr>bookings := update_where (\<lambda>b. bkID b = k \<and> bk_active b) bk_cancel (bookings s)\<rparr>"

lemma cancel_booking_none:
  "List.find (\<lambda>b. bkID b = k \<and> bk_active b) (bookings s) = None \<Longrightarrow> cancel_booking k s = s"
  by (auto simp: cancel_booking_def find_None_iff' update_where_none)

lemma BookingRepo_SetCancelled_active:
  assumes "List.find (\<lambda>b. bkID b = k \<and> bk_active b) (bookings (db w)) = Some b"
  shows "run_state (BookingRepo_SetCancelled k) w = (Inr x, w') \<longleftrightarrow>
    fault_at (env w) (ticks w) = NoFault \<and> x = Some (bk_cancel b) \<and>
    w' = (tick w)\<lparr>db := cancel_booking k (db w)\<rparr>"
  using assms
  by (auto simp: BookingRepo_SetCancelled_def run_check run_db_call sql_booking_cancel_def
      cancel_booking_def same_error_def split: fault.splits)

lemma BookingRepo_SetCancelled_inactive:
  assumes "List.find (\<lambda>b. bkID b = k \<and> bk_active b) (bookings (db w)) = None"
  shows "run_state (BookingRepo_SetCancelled k) w = (Inr x, w') \<longleftrightarrow>
    fault_at (env w) (ticks w) = NoFault \<and> fault_at (env w) (Suc (ticks w)) = NoFault \<and>
    x = find_row bkID k (bookings (db w)) \<and> w' = tick (tick w)"
proof -
  have "(tick w)\<lparr>db := cancel_booking k (db w)\<rparr> = tick w"
    by (simp add: cancel_booking_none assms)
  then show ?thesis
    using assms cancel_booking_none [OF assms]
    by (auto simp: BookingRepo_SetCancelled_def run_check run_db_call sql_booking_cancel_def
        cancel_booking_def same_error_def BookingRepo_GetByID_Inr split: fault.splits)
qed

end
