(* ===== verification/Waitlist_Repo.thy ===== *)
theory Waitlist_Repo
  imports Transactions
begin

text \<open>
  \<open>internal/repository/postgres/waitlist_repo.go\<close>: joining, leaving and claiming the head of a
  slot's queue. Table \<open>waitlist_entries\<close> numbers its rows from a sequence (\<open>BIGSERIAL\<close>), which
  every \<open>INSERT\<close> advances, also a failing one.
\<close>

section \<open>Statements\<close>

definition sql_waitlist_insert :: "waitlist_entry \<Rightarrow> waitlist_entry stmt" where
  "sql_waitlist_insert e = (\<lambda>_ s.
     let row = e\<lparr>wePosition := position_seq s, weCreatedAt := timestamptz (weCreatedAt e),
                 weNotifiedAt := None\<rparr>;
         s' = s\<lparr>position_seq := position_seq s + 1\<rparr>
     in if weID e \<in> weID ` set (waitlist s)
          then (Inl (PgError ''23505'' ''waitlist_entries_pkey''), s')
        else if index_hit we_pending we_slot_user (waitlist s) row
          then (Inl (PgError ''23505'' ''uq_waitlist_slot_user_active_or_notified''), s')
        else if weSlotID e \<notin> slID ` set (slots s)
          then (Inl (PgError ''23503'' ''waitlist_entries_slot_id_fkey''), s')
        else if weUserID e \<notin> usrID ` set (users s)
          then (Inl (PgError ''23503'' ''waitlist_entries_user_id_fkey''), s')
        else (Inr row, s'\<lparr>waitlist := waitlist s @ [row]\<rparr>))"

definition we_cancel :: "waitlist_entry \<Rightarrow> waitlist_entry" where
  "we_cancel e = e\<lparr>weStatus := WaitlistStatusCancelled\<rparr>"

definition leaves :: "uuid \<Rightarrow> uuid \<Rightarrow> waitlist_entry \<Rightarrow> bool" where
  "leaves entryID userID e = (weID e = entryID \<and> weUserID e = userID \<and> we_pending e)"

definition sql_waitlist_leave :: "uuid \<Rightarrow> uuid \<Rightarrow> waitlist_entry option stmt" where
  "sql_waitlist_leave entryID userID = (\<lambda>_ s.
     (Inr (map_option we_cancel (List.find (leaves entryID userID) (waitlist s))),
      s\<lparr>waitlist := update_where (leaves entryID userID) we_cancel (waitlist s)\<rparr>))"

definition we_notify :: "time \<Rightarrow> waitlist_entry \<Rightarrow> waitlist_entry" where
  "we_notify t e = e\<lparr>weStatus := WaitlistStatusNotified, weNotifiedAt := Some t\<rparr>"

text \<open>
  \<open>next_entry\<close> of the claiming statement: the waiting rows of the slot that no other transaction
  has locked, in the order of their positions, the first of them.
\<close>

definition claimable :: "(uuid \<Rightarrow> bool) \<Rightarrow> uuid \<Rightarrow> waitlist_entry list \<Rightarrow> waitlist_entry list" where
  "claimable locked slotID rows =
     sort_key wePosition (filter (\<lambda>e. weSlotID e = slotID \<and> we_active e \<and> \<not> locked (weID e)) rows)"

definition sql_waitlist_claim :: "uuid \<Rightarrow> waitlist_entry option stmt" where
  "sql_waitlist_claim slotID = (\<lambda>srv s.
     case claimable (row_locked srv) slotID (waitlist s) of
       [] \<Rightarrow> (Inr None, s)
     | e # _ \<Rightarrow>
         (Inr (Some (we_notify (server_now srv) e)),
          s\<lparr>waitlist := update_where (\<lambda>x. weID x = weID e) (we_notify (server_now srv)) (waitlist s)\<rparr>))"

section \<open>Repository methods\<close>

definition isWaitlistDuplicateJoin :: "go_error \<Rightarrow> bool" where
  "isWaitlistDuplicateJoin err =
     (err = PgError ''23505'' ''uq_waitlist_slot_user_active_or_notified'')"

definition WaitlistRepo_Join :: "waitlist_entry \<Rightarrow> waitlist_entry result go" where
  "WaitlistRepo_Join entry = do {
     r \<leftarrow> db_call (sql_waitlist_insert entry);
     (case r of
        Inl err \<Rightarrow>
          if isWaitlistDuplicateJoin err
          then fail (NewDomainError ErrorWaitlistJoined ''user is already in waitlist for this slot'')
          else fail err
      | Inr joined \<Rightarrow> ok joined)
   }"

definition getByIDAndUser :: "uuid \<Rightarrow> uuid \<Rightarrow> waitlist_entry option result go" where
  "getByIDAndUser entryID userID =
     db_call (select (\<lambda>s. List.find (\<lambda>e. weID e = entryID \<and> weUserID e = userID) (waitlist s)))"

definition WaitlistRepo_Leave :: "uuid \<Rightarrow> uuid \<Rightarrow> (waitlist_entry option \<times> bool) result go" where
  "WaitlistRepo_Leave entryID userID =
     check same_error (db_call (sql_waitlist_leave entryID userID)) (\<lambda>updated.
       case updated of
         Some e \<Rightarrow> ok (Some e, True)
       | None \<Rightarrow> check same_error (getByIDAndUser entryID userID) (\<lambda>entry. ok (entry, False)))"

definition WaitlistRepo_ClaimNextForNotify :: "uuid \<Rightarrow> waitlist_entry option result go" where
  "WaitlistRepo_ClaimNextForNotify slotID = db_call (sql_waitlist_claim slotID)"

section \<open>The updates and the partial index\<close>

lemma we_cancel_simps [simp]:
  "weID (we_cancel e) = weID e" "weUserID (we_cancel e) = weUserID e"
  "weSlotID (we_cancel e) = weSlotID e" "wePosition (we_cancel e) = wePosition e"
  "weStatus (we_cancel e) = WaitlistStatusCancelled"
  "\<not> we_active (we_cancel e)" "\<not> we_pending (we_cancel e)"
  "we_slot_user (we_cancel e) = we_slot_user e"
  by (simp_all add: we_cancel_def we_active_def we_pending_def we_slot_user_def)

lemma we_notify_simps [simp]:
  "weID (we_notify t e) = weID e" "weUserID (we_notify t e) = weUserID e"
  "weSlotID (we_notify t e) = weSlotID e" "wePosition (we_notify t e) = wePosition e"
  "weStatus (we_notify t e) = WaitlistStatusNotified"
  "weNotifiedAt (we_notify t e) = Some t"
  "\<not> we_active (we_notify t e)" "we_pending (we_notify t e)"
  "we_slot_user (we_notify t e) = we_slot_user e"
  by (simp_all add: we_notify_def we_active_def we_pending_def we_slot_user_def)

interpretation we: index_retire weID we_cancel we_pending we_slot_user
  by unfold_locales simp_all

interpretation we_active: index_retire weID we_cancel we_active weSlotID
  by unfold_locales simp_all

interpretation we_notified: index_retire weID "we_notify t" we_active weSlotID
  by unfold_locales simp_all

section \<open>Effect of the methods\<close>

definition next_waiting :: "(uuid \<Rightarrow> bool) \<Rightarrow> uuid \<Rightarrow> store \<Rightarrow> waitlist_entry option" where
  "next_waiting locked k s =
     (case claimable locked k (waitlist s) of [] \<Rightarrow> None | e # _ \<Rightarrow> Some e)"

lemma next_waiting_Some:
  assumes "next_waiting locked k s = Some e"
  shows "e \<in> set (waitlist s) \<and> weSlotID e = k \<and> we_active e \<and> \<not> locked (weID e)"
    and "e' \<in> set (waitlist s) \<Longrightarrow> weSlotID e' = k \<Longrightarrow> we_active e' \<Longrightarrow> \<not> locked (weID e') \<Longrightarrow>
      wePosition e \<le> wePosition e'"
proof -
  from assms obtain es where es: "claimable locked k (waitlist s) = e # es"
    by (auto simp: next_waiting_def split: list.splits)
  then have set: "set (e # es) =
      set (filter (\<lambda>e. weSlotID e = k \<and> we_active e \<and> \<not> locked (weID e)) (waitlist s))"
    by (simp add: es [symmetric] claimable_def)
  have sorted: "sorted (map wePosition (e # es))"
    by (simp add: es [symmetric] claimable_def)
  show "e \<in> set (waitlist s) \<and> weSlotID e = k \<and> we_active e \<and> \<not> locked (weID e)"
    using set by auto
  show "wePosition e \<le> wePosition e'" if "e' \<in> set (waitlist s)" "weSlotID e' = k" "we_active e'"
      "\<not> locked (weID e')"
  proof -
    have "e' \<in> set (e # es)" using that set by simp
    then show ?thesis using sorted by auto
  qed
qed

lemma next_waiting_None:
  "next_waiting locked k s = None \<longleftrightarrow>
    (\<forall>e \<in> set (waitlist s). weSlotID e = k \<longrightarrow> we_active e \<longrightarrow> locked (weID e))"
proof -
  have "next_waiting locked k s = None \<longleftrightarrow> claimable locked k (waitlist s) = []"
    by (auto simp: next_waiting_def split: list.splits)
  also have "\<dots> \<longleftrightarrow> set (claimable locked k (waitlist s)) = {}"
    by simp
  also have "\<dots> \<longleftrightarrow> (\<forall>e \<in> set (waitlist s). weSlotID e = k \<longrightarrow> we_active e \<longrightarrow> locked (weID e))"
    by (auto simp: claimable_def simp del: set_empty set_empty2)
  finally show ?thesis .
qed

definition notify_entry :: "time \<Rightarrow> uuid \<Rightarrow> store \<Rightarrow> store" where
  "notify_entry t k s = s\<lparr>waitlist := update_where (\<lambda>x. weID x = k) (we_notify t) (waitlist s)\<rparr>"

lemma Claim_Inr [go_run]:
  "run_state (WaitlistRepo_ClaimNextForNotify k) w = (Inr x, w') \<longleftrightarrow>
    fault_at (env w) (ticks w) = NoFault \<and>
    (case next_waiting (row_locked (server_of w)) k (db w) of
       None \<Rightarrow> x = None \<and> w' = tick w
     | Some e \<Rightarrow> x = Some (we_notify (server_now (server_of w)) e) \<and>
         w' = (tick w)\<lparr>db := notify_entry (server_now (server_of w)) (weID e) (db w)\<rparr>)"
  by (auto simp: WaitlistRepo_ClaimNextForNotify_def db_call_Inr sql_waitlist_claim_def
      next_waiting_def notify_entry_def split: list.splits)

definition add_entry :: "waitlist_entry \<Rightarrow> store \<Rightarrow> store" where
  "add_entry row s = s\<lparr>waitlist := waitlist s @ [row], position_seq := position_seq s + 1\<rparr>"

definition joined_row :: "waitlist_entry \<Rightarrow> store \<Rightarrow> waitlist_entry" where
  "joined_row e s = e\<lparr>wePosition := position_seq s, weCreatedAt := timestamptz (weCreatedAt e),
     weNotifiedAt := None\<rparr>"

definition entry_insertable :: "waitlist_entry \<Rightarrow> store \<Rightarrow> bool" where
  "entry_insertable e s \<longleftrightarrow> weID e \<notin> weID ` set (waitlist s) \<and>
     \<not> index_hit we_pending we_slot_user (waitlist s) e \<and>
     weSlotID e \<in> slID ` set (slots s) \<and> weUserID e \<in> usrID ` set (users s)"

lemma joined_row_simps [simp]:
  "weID (joined_row e s) = weID e" "weUserID (joined_row e s) = weUserID e"
  "weSlotID (joined_row e s) = weSlotID e" "wePosition (joined_row e s) = position_seq s"
  "weStatus (joined_row e s) = weStatus e"
  "we_active (joined_row e s) = we_active e" "we_pending (joined_row e s) = we_pending e"
  "we_slot_user (joined_row e s) = we_slot_user e"
  by (simp_all add: joined_row_def we_active_def we_pending_def we_slot_user_def)

lemma index_hit_joined_row [simp]:
  "index_hit we_pending we_slot_user rows (joined_row e s) = index_hit we_pending we_slot_user rows e"
  by (simp add: index_hit_def)

lemma sql_waitlist_insert_eq:
  "sql_waitlist_insert e srv s =
    (if weID e \<in> weID ` set (waitlist s)
       then (Inl (PgError ''23505'' ''waitlist_entries_pkey''), s\<lparr>position_seq := position_seq s + 1\<rparr>)
     else if index_hit we_pending we_slot_user (waitlist s) e
       then (Inl (PgError ''23505'' ''uq_waitlist_slot_user_active_or_notified''),
             s\<lparr>position_seq := position_seq s + 1\<rparr>)
     else if weSlotID e \<notin> slID ` set (slots s)
       then (Inl (PgError ''23503'' ''waitlist_entries_slot_id_fkey''),
             s\<lparr>position_seq := position_seq s + 1\<rparr>)
     else if weUserID e \<notin> usrID ` set (users s)
       then (Inl (PgError ''23503'' ''waitlist_entries_user_id_fkey''),
             s\<lparr>position_seq := position_seq s + 1\<rparr>)
     else (Inr (joined_row e s), add_entry (joined_row e s) s))"
proof -
  have "index_hit we_pending we_slot_user (waitlist s)
      (e\<lparr>wePosition := position_seq s, weCreatedAt := timestamptz (weCreatedAt e),
         weNotifiedAt := None\<rparr>) = index_hit we_pending we_slot_user (waitlist s) e"
    using index_hit_joined_row [of "waitlist s" e s] by (simp add: joined_row_def)
  then show ?thesis
    by (simp add: sql_waitlist_insert_def Let_def joined_row_def add_entry_def)
qed

lemma WaitlistRepo_Join_Inr [go_run]:
  "run_state (WaitlistRepo_Join e) w = (Inr x, w') \<longleftrightarrow>
    fault_at (env w) (ticks w) = NoFault \<and> entry_insertable e (db w) \<and> x = joined_row e (db w) \<and>
    w' = (tick w)\<lparr>db := add_entry (joined_row e (db w)) (db w)\<rparr>"
  by (auto simp: WaitlistRepo_Join_def run_db_call sql_waitlist_insert_eq entry_insertable_def
      split: fault.splits if_splits)

definition leave_entry :: "uuid \<Rightarrow> uuid \<Rightarrow> store \<Rightarrow> store" where
  "leave_entry entryID userID s =
     s\<lparr>waitlist := update_where (leaves entryID userID) we_cancel (waitlist s)\<rparr>"

lemma WaitlistRepo_Leave_Some:
  assumes "List.find (leaves k u) (waitlist (db w)) = Some e"
  shows "run_state (WaitlistRepo_Leave k u) w = (Inr x, w') \<longleftrightarrow>
    fault_at (env w) (ticks w) = NoFault \<and> x = (Some (we_cancel e), True) \<and>
    w' = (tick w)\<lparr>db := leave_entry k u (db w)\<rparr>"
  using assms
  by (auto simp: WaitlistRepo_Leave_def run_check run_db_call sql_waitlist_leave_def
      leave_entry_def same_error_def split: fault.splits)

lemma WaitlistRepo_Leave_None:
  assumes "List.find (leaves k u) (waitlist (db w)) = None"
  shows "run_state (WaitlistRepo_Leave k u) w = (Inr x, w') \<longleftrightarrow>
    fault_at (env w) (ticks w) = NoFault \<and> fault_at (env w) (Suc (ticks w)) = NoFault \<and>
    x = (List.find (\<lambda>e. weID e = k \<and> weUserID e = u) (waitlist (db w)), False) \<and>
    w' = tick (tick w)"
proof -
  have "update_where (leaves k u) we_cancel (waitlist (db w)) = waitlist (db w)"
    using assms by (simp add: find_None_iff' update_where_none)
  then have "(tick w)\<lparr>db := (db w)\<lparr>waitlist := update_where (leaves k u) we_cancel (waitlist (db w))\<rparr>\<rparr>
      = tick w"
    by simp
  then show ?thesis
    using assms
    by (auto simp: WaitlistRepo_Leave_def run_check run_db_call sql_waitlist_leave_def
        getByIDAndUser_def select_def same_error_def split: fault.splits)
qed

end
