(* ===== verification/Reservation_Repo.thy ===== *)
theory Reservation_Repo
  imports Transactions
begin

text \<open>
  \<open>internal/repository/postgres/reservation_repo.go\<close>: creating, reading, confirming, cancelling and
  expiring the temporary reservations of slots.
\<close>

section \<open>Statements\<close>

definition stored_reservation :: "slot_reservation \<Rightarrow> slot_reservation" where
  "stored_reservation r = r\<lparr>rvExpiresAt := timestamptz (rvExpiresAt r),
     rvCreatedAt := timestamptz (rvCreatedAt r),
     rvConfirmedAt := map_option timestamptz (rvConfirmedAt r),
     rvExpiredAt := map_option timestamptz (rvExpiredAt r)\<rparr>"

definition sql_reservation_insert :: "slot_reservation \<Rightarrow> slot_reservation stmt" where
  "sql_reservation_insert r = (\<lambda>_ s.
     if rvID r \<in> rvID ` set (reservations s)
       then (Inl (PgError ''23505'' ''slot_reservations_pkey''), s)
     else if index_hit rv_active rvSlotID (reservations s) r
       then (Inl (PgError ''23505'' ''uq_slot_reservations_active_slot''), s)
     else if rvSlotID r \<notin> slID ` set (slots s)
       then (Inl (PgError ''23503'' ''slot_reservations_slot_id_fkey''), s)
     else if rvUserID r \<notin> usrID ` set (users s)
       then (Inl (PgError ''23503'' ''slot_reservations_user_id_fkey''), s)
     else if \<not> (case rvWaitlistEntryID r of None \<Rightarrow> True | Some e \<Rightarrow> e \<in> weID ` set (waitlist s))
       then (Inl (PgError ''23503'' ''slot_reservations_waitlist_entry_id_fkey''), s)
     else (Inr (stored_reservation r),
           s\<lparr>reservations := reservations s @ [stored_reservation r]\<rparr>))"

definition rv_confirm :: "time \<Rightarrow> slot_reservation \<Rightarrow> slot_reservation" where
  "rv_confirm t r = r\<lparr>rvStatus := ReservationStatusConfirmed, rvConfirmedAt := Some t\<rparr>"

definition rv_cancel :: "slot_reservation \<Rightarrow> slot_reservation" where
  "rv_cancel r = r\<lparr>rvStatus := ReservationStatusCancelled\<rparr>"

definition rv_expire :: "time \<Rightarrow> slot_reservation \<Rightarrow> slot_reservation" where
  "rv_expire t r = r\<lparr>rvStatus := ReservationStatusExpired, rvExpiredAt := Some t\<rparr>"

definition is_active_row :: "uuid \<Rightarrow> slot_reservation \<Rightarrow> bool" where
  "is_active_row k r = (rvID r = k \<and> rv_active r)"

text \<open>\<open>UPDATE slot_reservations SET \<dots> WHERE id = $1 AND status = 'active' RETURNING \<dots>\<close>\<close>

definition sql_reservation_set ::
  "(slot_reservation \<Rightarrow> slot_reservation) \<Rightarrow> uuid \<Rightarrow> slot_reservation option stmt" where
  "sql_reservation_set put k = (\<lambda>_ s.
     (Inr (map_option put (List.find (is_active_row k) (reservations s))),
      s\<lparr>reservations := update_where (is_active_row k) put (reservations s)\<rparr>))"

definition due :: "(uuid \<Rightarrow> bool) \<Rightarrow> time \<Rightarrow> slot_reservation \<Rightarrow> bool" where
  "due locked t r = (rv_active r \<and> rvExpiresAt r \<le> t \<and> \<not> locked (rvID r))"

text \<open>The common table expression \<open>picked\<close> of the expiring statement.\<close>

definition picked :: "(uuid \<Rightarrow> bool) \<Rightarrow> (uuid \<Rightarrow> nat) \<Rightarrow> time \<Rightarrow> int \<Rightarrow> slot_reservation list \<Rightarrow> uuid list" where
  "picked locked tie t lim rows =
     map rvID (take (nat lim) (sort_key rvExpiresAt
       (sort_key (\<lambda>r. tie (rvID r)) (filter (due locked t) rows))))"

definition sql_reservation_expire :: "time \<Rightarrow> int \<Rightarrow> slot_reservation list stmt" where
  "sql_reservation_expire t lim = (\<lambda>srv s.
     let ids = picked (row_locked srv) (tie_rank srv) t lim (reservations s)
     in (Inr (map (rv_expire t) (filter (\<lambda>r. rvID r \<in> set ids) (reservations s))),
         s\<lparr>reservations :=
             update_where (\<lambda>r. rvID r \<in> set ids) (rv_expire t) (reservations s)\<rparr>))"

definition active_reservation :: "store \<Rightarrow> uuid \<Rightarrow> slot_reservation option" where
  "active_reservation s k = List.find (\<lambda>r. rvSlotID r = k \<and> rv_active r) (reservations s)"

definition active_of_user :: "uuid \<Rightarrow> time \<Rightarrow> store \<Rightarrow> slot_reservation list" where
  "active_of_user userID now s =
     sort_key rvExpiresAt
       (filter (\<lambda>r. rvUserID r = userID \<and> rv_active r \<and> rvExpiresAt r > timestamptz now)
         (reservations s))"

section \<open>Repository methods\<close>

definition isReservationDuplicate :: "go_error \<Rightarrow> bool" where
  "isReservationDuplicate err = (err = PgError ''23505'' ''uq_slot_reservations_active_slot'')"

definition ReservationRepo_Create :: "slot_reservation \<Rightarrow> slot_reservation result go" where
  "ReservationRepo_Create reservation = do {
     r \<leftarrow> db_call (sql_reservation_insert reservation);
     (case r of
        Inl err \<Rightarrow>
          if isReservationDuplicate err
          then fail (NewDomainError ErrorSlotReserved ''slot is already reserved'')
          else fail err
      | Inr created \<Rightarrow> ok created)
   }"

definition ReservationRepo_GetByID :: "uuid \<Rightarrow> slot_reservation option result go" where
  "ReservationRepo_GetByID k = db_call (select (\<lambda>s. find_row rvID k (reservations s)))"

definition ReservationRepo_GetByIDForUpdate :: "uuid \<Rightarrow> slot_reservation option result go" where
  "ReservationRepo_GetByIDForUpdate k = db_call (select (\<lambda>s. find_row rvID k (reservations s)))"

definition ReservationRepo_ListActiveByUser ::
  "uuid \<Rightarrow> time \<Rightarrow> slot_reservation list result go" where
  "ReservationRepo_ListActiveByUser userID now = db_call (select (active_of_user userID now))"

definition ReservationRepo_GetActiveBySlot :: "uuid \<Rightarrow> slot_reservation option result go" where
  "ReservationRepo_GetActiveBySlot slotID = db_call (select (\<lambda>s. active_reservation s slotID))"

definition ReservationRepo_GetActiveBySlotForUpdate ::
  "uuid \<Rightarrow> slot_reservation option result go" where
  "ReservationRepo_GetActiveBySlotForUpdate slotID =
     db_call (select (\<lambda>s. active_reservation s slotID))"

definition ReservationRepo_SetConfirmed ::
  "uuid \<Rightarrow> time \<Rightarrow> slot_reservation option result go" where
  "ReservationRepo_SetConfirmed k confirmedAt =
     check same_error (db_call (sql_reservation_set (rv_confirm (timestamptz confirmedAt)) k))
       (\<lambda>row. case row of Some r \<Rightarrow> ok (Some r) | None \<Rightarrow> ReservationRepo_GetByID k)"

definition ReservationRepo_SetCancelled :: "uuid \<Rightarrow> slot_reservation option result go" where
  "ReservationRepo_SetCancelled k =
     check same_error (db_call (sql_reservation_set rv_cancel k))
       (\<lambda>row. case row of Some r \<Rightarrow> ok (Some r) | None \<Rightarrow> ReservationRepo_GetByID k)"

definition ReservationRepo_ExpireBatch :: "time \<Rightarrow> int \<Rightarrow> slot_reservation list result go" where
  "ReservationRepo_ExpireBatch now limit = db_call (sql_reservation_expire (timestamptz now) limit)"

section \<open>The updates and the partial index\<close>

lemma rv_confirm_simps [simp]:
  "rvID (rv_confirm t r) = rvID r" "rvSlotID (rv_confirm t r) = rvSlotID r"
  "rvUserID (rv_confirm t r) = rvUserID r"
  "rvWaitlistEntryID (rv_confirm t r) = rvWaitlistEntryID r"
  "rvExpiresAt (rv_confirm t r) = rvExpiresAt r"
  "rvStatus (rv_confirm t r) = ReservationStatusConfirmed"
  "rvConfirmedAt (rv_confirm t r) = Some t" "\<not> rv_active (rv_confirm t r)"
  by (simp_all add: rv_confirm_def rv_active_def)

lemma rv_cancel_simps [simp]:
  "rvID (rv_cancel r) = rvID r" "rvSlotID (rv_cancel r) = rvSlotID r"
  "rvUserID (rv_cancel r) = rvUserID r" "rvWaitlistEntryID (rv_cancel r) = rvWaitlistEntryID r"
  "rvExpiresAt (rv_cancel r) = rvExpiresAt r" "rvStatus (rv_cancel r) = ReservationStatusCancelled"
  "\<not> rv_active (rv_cancel r)"
  by (simp_all add: rv_cancel_def rv_active_def)

lemma rv_expire_simps [simp]:
  "rvID (rv_expire t r) = rvID r" "rvSlotID (rv_expire t r) = rvSlotID r"
  "rvUserID (rv_expire t r) = rvUserID r"
  "rvWaitlistEntryID (rv_expire t r) = rvWaitlistEntryID r"
  "rvExpiresAt (rv_expire t r) = rvExpiresAt r"
  "rvStatus (rv_expire t r) = ReservationStatusExpired"
  "rvExpiredAt (rv_expire t r) = Some t" "\<not> rv_active (rv_expire t r)"
  by (simp_all add: rv_expire_def rv_active_def)

interpretation rv_confirmed: index_retire rvID "rv_confirm t" rv_active rvSlotID
  by unfold_locales simp_all

interpretation rv_cancelled: index_retire rvID rv_cancel rv_active rvSlotID
  by unfold_locales simp_all

interpretation rv_expired: index_retire rvID "rv_expire t" rv_active rvSlotID
  by unfold_locales simp_all

lemma stored_reservation_simps [simp]:
  "rvID (stored_reservation r) = rvID r" "rvSlotID (stored_reservation r) = rvSlotID r"
  "rvUserID (stored_reservation r) = rvUserID r" "rvStatus (stored_reservation r) = rvStatus r"
  "rvWaitlistEntryID (stored_reservation r) = rvWaitlistEntryID r"
  "rvExpiresAt (stored_reservation r) = timestamptz (rvExpiresAt r)"
  "rv_active (stored_reservation r) = rv_active r"
  by (simp_all add: stored_reservation_def rv_active_def)

section \<open>Effect of the methods\<close>

lemma active_reservation_Some:
  "active_reservation s k = Some r \<Longrightarrow> r \<in> set (reservations s) \<and> rv_active r \<and> rvSlotID r = k"
  by (auto simp: active_reservation_def dest: find_SomeD)

lemma active_reservation_None: "active_reservation s k = None \<longleftrightarrow> \<not> slot_reserved s k"
  by (auto simp: active_reservation_def slot_reserved_def find_None_iff')

lemma active_reservation_unique:
  assumes "reservations_ok s" "r \<in> set (reservations s)" "rv_active r"
  shows "active_reservation s (rvSlotID r) = Some r"
proof -
  obtain r' where r': "active_reservation s (rvSlotID r) = Some r'"
    using assms(2,3) active_reservation_None [of s "rvSlotID r"] by (auto simp: slot_reserved_def)
  then have "r' = r"
    using assms by (auto simp: reservations_ok_def dest: active_reservation_Some index_okD)
  with r' show ?thesis by simp
qed

lemma reservation_reads_Inr [go_run]:
  "run_state (ReservationRepo_GetByID k) w = (Inr x, w') \<longleftrightarrow>
    fault_at (env w) (ticks w) = NoFault \<and> x = find_row rvID k (reservations (db w)) \<and> w' = tick w"
  "run_state (ReservationRepo_GetByIDForUpdate k) w = (Inr x, w') \<longleftrightarrow>
    fault_at (env w) (ticks w) = NoFault \<and> x = find_row rvID k (reservations (db w)) \<and> w' = tick w"
  "run_state (ReservationRepo_GetActiveBySlotForUpdate k) w = (Inr x, w') \<longleftrightarrow>
    fault_at (env w) (ticks w) = NoFault \<and> x = active_reservation (db w) k \<and> w' = tick w"
  by (simp_all add: ReservationRepo_GetByID_def ReservationRepo_GetByIDForUpdate_def
      ReservationRepo_GetActiveBySlotForUpdate_def db_call_select_Inr)

definition reservation_insertable :: "slot_reservation \<Rightarrow> store \<Rightarrow> bool" where
  "reservation_insertable r s \<longleftrightarrow> rvID r \<notin> rvID ` set (reservations s) \<and>
     \<not> index_hit rv_active rvSlotID (reservations s) r \<and> rvSlotID r \<in> slID ` set (slots s) \<and>
     rvUserID r \<in> usrID ` set (users s) \<and>
     (\<forall>e. rvWaitlistEntryID r = Some e \<longrightarrow> e \<in> weID ` set (waitlist s))"

definition add_reservation :: "slot_reservation \<Rightarrow> store \<Rightarrow> store" where
  "add_reservation r s = s\<lparr>reservations := reservations s @ [stored_reservation r]\<rparr>"

lemma ReservationRepo_Create_Inr [go_run]:
  "run_state (ReservationRepo_Create r) w = (Inr x, w') \<longleftrightarrow>
    fault_at (env w) (ticks w) = NoFault \<and> reservation_insertable r (db w) \<and>
    x = stored_reservation r \<and> w' = (tick w)\<lparr>db := add_reservation r (db w)\<rparr>"
  by (auto simp: ReservationRepo_Create_def run_db_call sql_reservation_insert_def
      reservation_insertable_def add_reservation_def split: fault.splits if_splits option.splits)

definition set_reservation ::
  "(slot_reservation \<Rightarrow> slot_reservation) \<Rightarrow> uuid \<Rightarrow> store \<Rightarrow> store" where
  "set_reservation put k s =
     s\<lparr>reservations := update_where (is_active_row k) put (reservations s)\<rparr>"

lemma find_active_row:
  assumes "find_row rvID k (reservations s) = Some r" "rv_active r"
    "distinct (map rvID (reservations s))"
  shows "List.find (is_active_row k) (reservations s) = Some r"
proof -
  have r: "r \<in> set (reservations s)" "rvID r = k"
    using assms(1) find_row_SomeD by fastforce+
  have "List.find (is_active_row k) (reservations s) = find_row rvID k (reservations s)"
    unfolding find_row_def
    by (rule find_cong_set) (use r assms(2,3) in \<open>auto simp: is_active_row_def distinct_map inj_on_def\<close>)
  with assms(1) show ?thesis by simp
qed

lemma reservation_set_Inr:
  assumes "List.find (is_active_row k) (reservations (db w)) = Some r"
  shows "run_state (ReservationRepo_SetConfirmed k t) w = (Inr x, w') \<longleftrightarrow>
      fault_at (env w) (ticks w) = NoFault \<and> x = Some (rv_confirm (timestamptz t) r) \<and>
      w' = (tick w)\<lparr>db := set_reservation (rv_confirm (timestamptz t)) k (db w)\<rparr>"
    and "run_state (ReservationRepo_SetCancelled k) w = (Inr x, w') \<longleftrightarrow>
      fault_at (env w) (ticks w) = NoFault \<and> x = Some (rv_cancel r) \<and>
      w' = (tick w)\<lparr>db := set_reservation rv_cancel k (db w)\<rparr>"
  using assms
  by (auto simp: ReservationRepo_SetConfirmed_def ReservationRepo_SetCancelled_def run_check
      run_db_call sql_reservation_set_def set_reservation_def same_error_def split: fault.splits)

definition expire_rows :: "uuid set \<Rightarrow> time \<Rightarrow> store \<Rightarrow> store" where
  "expire_rows ids t s =
     s\<lparr>reservations := update_where (\<lambda>r. rvID r \<in> ids) (rv_expire t) (reservations s)\<rparr>"

lemma ReservationRepo_ExpireBatch_Inr [go_run]:
  "run_state (ReservationRepo_ExpireBatch now lim) w = (Inr x, w') \<longleftrightarrow>
    fault_at (env w) (ticks w) = NoFault \<and>
    (let ids = set (picked (row_locked (server_of w)) (tie_rank (server_of w)) (timestamptz now) lim (reservations (db w)))
     in x = map (rv_expire (timestamptz now)) (filter (\<lambda>r. rvID r \<in> ids) (reservations (db w))) \<and>
        w' = (tick w)\<lparr>db := expire_rows ids (timestamptz now) (db w)\<rparr>)"
  by (auto simp: ReservationRepo_ExpireBatch_def db_call_Inr sql_reservation_expire_def
      expire_rows_def Let_def)

lemma picked_due:
  assumes "k \<in> set (picked locked tie t lim rows)"
  obtains r where "r \<in> set rows" "rvID r = k" "due locked t r"
proof -
  from assms obtain r where "rvID r = k"
      "r \<in> set (take (nat lim) (sort_key rvExpiresAt (sort_key (\<lambda>r. tie (rvID r)) (filter (due locked t) rows))))"
    by (auto simp: picked_def)
  then have "r \<in> set (sort_key rvExpiresAt (sort_key (\<lambda>r. tie (rvID r)) (filter (due locked t) rows)))"
    by (blast dest: in_set_takeD)
  then show ?thesis
    using that [of r] \<open>rvID r = k\<close> by simp
qed

lemma picked_all:
  assumes "int (length (filter (due locked t) rows)) \<le> lim" "r \<in> set rows" "due locked t r"
  shows "rvID r \<in> set (picked locked tie t lim rows)"
proof -
  have "length (sort_key rvExpiresAt (sort_key (\<lambda>r. tie (rvID r)) (filter (due locked t) rows))) \<le> nat lim"
    using assms(1) by simp
  then show ?thesis
    using assms(2,3) by (auto simp: picked_def)
qed

end
