(* ===== verification/Slot_Repo.thy ===== *)
theory Slot_Repo
  imports Transactions
begin

text \<open>
  \<open>internal/repository/postgres/slot_repo.go\<close>: reading the materialised slots of a room, with the
  availability computed from bookings and reservations, and the batch insert of the generator. A
  day is 24 hours: the session time zone of the database is UTC.
\<close>

definition day_length :: duration where
  "day_length = 86400000000000"

section \<open>Statements\<close>

text \<open>\<open>LEFT JOIN\<close>: every match, or one row with \<open>NULL\<close> when there is none.\<close>

definition left_join :: "('a \<Rightarrow> 'b \<Rightarrow> bool) \<Rightarrow> 'b list \<Rightarrow> 'a \<Rightarrow> 'b option list" where
  "left_join on ys x = (case filter (on x) ys of [] \<Rightarrow> [None] | zs \<Rightarrow> map Some zs)"

definition slot_rows ::
  "store \<Rightarrow> uuid \<Rightarrow> time \<Rightarrow> (slot \<times> booking option \<times> slot_reservation option) list" where
  "slot_rows s roomID date =
     sort_key (\<lambda>(sl, b, r). slStartTime sl)
       (concat (map (\<lambda>sl. concat (map (\<lambda>b. map (\<lambda>r. (sl, b, r))
            (left_join (\<lambda>sl r. rvSlotID r = slID sl \<and> rv_active r) (reservations s) sl))
          (left_join (\<lambda>sl b. bkSlotID b = slID sl \<and> bk_active b) (bookings s) sl)))
        (filter (\<lambda>sl. slRoomID sl = roomID \<and> timestamptz date \<le> slStartTime sl \<and>
            slStartTime sl < timestamptz date + day_length) (slots s))))"

definition available_slots :: "store \<Rightarrow> uuid \<Rightarrow> time \<Rightarrow> slot list" where
  "available_slots s roomID date =
     map fst (filter (\<lambda>(sl, b, r). b = None \<and> r = None) (slot_rows s roomID date))"

definition view_status :: "time \<Rightarrow> slot \<Rightarrow> booking option \<Rightarrow> slot_reservation option \<Rightarrow> slot_status" where
  "view_status now sl b r =
     (if slStartTime sl < now then SlotStatusPast
      else if b \<noteq> None then SlotStatusBooked
      else if r \<noteq> None then SlotStatusReserved
      else SlotStatusAvailable)"

definition make_view :: "time \<Rightarrow> slot \<times> booking option \<times> slot_reservation option \<Rightarrow> slot_view" where
  "make_view now = (\<lambda>(sl, b, r).
     \<lparr>svID = slID sl, svRoomID = slRoomID sl, svStartTime = slStartTime sl,
      svEndTime = slEndTime sl, svStatus = view_status now sl b r,
      svBookingID = map_option bkID b, svReservationID = map_option rvID r,
      svWaitlistEntryID = Option.bind r rvWaitlistEntryID\<rparr>)"

definition all_slots :: "store \<Rightarrow> uuid \<Rightarrow> time \<Rightarrow> time \<Rightarrow> slot_view list" where
  "all_slots s roomID date now = map (make_view (timestamptz now)) (slot_rows s roomID date)"

definition last_start :: "store \<Rightarrow> uuid \<Rightarrow> time option" where
  "last_start s roomID =
     (case sort_key (\<lambda>sl. - slStartTime sl) (filter (\<lambda>sl. slRoomID sl = roomID) (slots s)) of
        [] \<Rightarrow> None | sl # _ \<Rightarrow> Some (slStartTime sl))"

definition stored_slot :: "slot \<Rightarrow> slot" where
  "stored_slot sl = sl\<lparr>slStartTime := timestamptz (slStartTime sl),
     slEndTime := timestamptz (slEndTime sl), slCreatedAt := timestamptz (slCreatedAt sl)\<rparr>"

text \<open>One queued \<open>INSERT \<dots> ON CONFLICT (room_id, start_time) DO NOTHING\<close>.\<close>

definition sql_slot_insert :: "slot \<Rightarrow> store \<Rightarrow> go_error + store" where
  "sql_slot_insert sl s =
     (let row = stored_slot sl
      in if \<not> slStartTime row < slEndTime row then Inl (PgError ''23514'' ''slots_check'')
         else if sl_room_start row \<in> sl_room_start ` set (slots s) then Inr s
         else if slID row \<in> slID ` set (slots s) then Inl (PgError ''23505'' ''slots_pkey'')
         else if \<exists>x \<in> set (slots s). sl_overlap row x then Inl (PgError ''23P01'' ''slots_no_overlap'')
         else if slRoomID row \<notin> rmID ` set (rooms s) then Inl (PgError ''23503'' ''slots_room_id_fkey'')
         else Inr (s\<lparr>slots := slots s @ [row]\<rparr>))"

text \<open>
  The queued statements of a batch run in one implicit transaction: the first error undoes all.
\<close>

fun insert_slots :: "slot list \<Rightarrow> store \<Rightarrow> go_error + store" where
  "insert_slots [] s = Inr s"
| "insert_slots (sl # sls) s =
     (case sql_slot_insert sl s of Inl e \<Rightarrow> Inl e | Inr s' \<Rightarrow> insert_slots sls s')"

definition sql_slots_batch :: "slot list \<Rightarrow> unit stmt" where
  "sql_slots_batch sls = (\<lambda>_ s.
     case insert_slots sls s of Inl e \<Rightarrow> (Inl e, s) | Inr s' \<Rightarrow> (Inr (), s'))"

section \<open>Repository methods\<close>

definition SlotRepo_GetByID :: "uuid \<Rightarrow> slot option result go" where
  "SlotRepo_GetByID slotID = db_call (select (\<lambda>s. find_row slID slotID (slots s)))"

definition SlotRepo_ListAvailableByRoomAndDate :: "uuid \<Rightarrow> time \<Rightarrow> slot list result go" where
  "SlotRepo_ListAvailableByRoomAndDate roomID date =
     db_call (select (\<lambda>s. available_slots s roomID date))"

definition SlotRepo_ListAllByRoomAndDate ::
  "uuid \<Rightarrow> time \<Rightarrow> time \<Rightarrow> slot_view list result go" where
  "SlotRepo_ListAllByRoomAndDate roomID date now =
     db_call (select (\<lambda>s. all_slots s roomID date now))"

definition SlotRepo_GetLastSlotStartByRoomID :: "uuid \<Rightarrow> time option result go" where
  "SlotRepo_GetLastSlotStartByRoomID roomID = db_call (select (\<lambda>s. last_start s roomID))"

definition SlotRepo_InsertBatchIgnoreConflicts :: "slot list \<Rightarrow> unit result go" where
  "SlotRepo_InsertBatchIgnoreConflicts sls =
     (if sls = [] then ok () else db_call (sql_slots_batch sls))"

lemma SlotRepo_GetByID_Inr [go_run]:
  "run_state (SlotRepo_GetByID k) w = (Inr x, w') \<longleftrightarrow>
    fault_at (env w) (ticks w) = NoFault \<and> x = find_row slID k (slots (db w)) \<and> w' = tick w"
  by (simp add: SlotRepo_GetByID_def db_call_select_Inr)

section \<open>What the two listings show\<close>

lemma set_left_join:
  "set (left_join on ys x) =
    (if \<exists>y \<in> set ys. on x y then Some ` {y \<in> set ys. on x y} else {None})"
proof (cases "filter (on x) ys")
  case Nil
  then show ?thesis
    by (auto simp: left_join_def filter_empty_conv)
next
  case (Cons z zs)
  have matches: "set (z # zs) = {y \<in> set ys. on x y}"
    using Cons set_filter [of "on x" ys] by simp
  then have "\<exists>y \<in> set ys. on x y"
    by auto
  moreover have "set (left_join on ys x) = Some ` set (z # zs)"
    using Cons by (simp add: left_join_def)
  ultimately show ?thesis
    unfolding matches by simp
qed

lemma left_join_None: "None \<in> set (left_join on ys x) \<longleftrightarrow> \<not> (\<exists>y \<in> set ys. on x y)"
  by (auto simp: set_left_join)

lemma left_join_None_row:
  "r \<in> set (left_join on ys x) \<Longrightarrow> r = None \<longleftrightarrow> \<not> (\<exists>y \<in> set ys. on x y)"
  by (auto simp: set_left_join split: if_splits)

lemma slot_rows_iff:
  "(sl, b, r) \<in> set (slot_rows s roomID date) \<longleftrightarrow>
    sl \<in> set (slots s) \<and> slRoomID sl = roomID \<and> timestamptz date \<le> slStartTime sl \<and>
    slStartTime sl < timestamptz date + day_length \<and>
    b \<in> set (left_join (\<lambda>sl b. bkSlotID b = slID sl \<and> bk_active b) (bookings s) sl) \<and>
    r \<in> set (left_join (\<lambda>sl r. rvSlotID r = slID sl \<and> rv_active r) (reservations s) sl)"
  by (auto simp: slot_rows_def)

lemma available_slots_iff:
  "sl \<in> set (available_slots s roomID date) \<longleftrightarrow>
    sl \<in> set (slots s) \<and> slRoomID sl = roomID \<and> timestamptz date \<le> slStartTime sl \<and>
    slStartTime sl < timestamptz date + day_length \<and>
    \<not> slot_booked s (slID sl) \<and> \<not> slot_reserved s (slID sl)"
proof -
  have "sl \<in> set (available_slots s roomID date) \<longleftrightarrow> (sl, None, None) \<in> set (slot_rows s roomID date)"
    by (force simp: available_slots_def)
  then show ?thesis
    by (auto simp: slot_rows_iff left_join_None slot_booked_def slot_reserved_def)
qed

lemma all_slots_statusE:
  assumes "v \<in> set (all_slots s roomID date now)"
  obtains sl b r where "v = make_view (timestamptz now) (sl, b, r)"
    "(sl, b, r) \<in> set (slot_rows s roomID date)"
    "b = None \<longleftrightarrow> \<not> slot_booked s (slID sl)" "r = None \<longleftrightarrow> \<not> slot_reserved s (slID sl)"
proof -
  from assms obtain sl b r where v: "v = make_view (timestamptz now) (sl, b, r)"
      and row: "(sl, b, r) \<in> set (slot_rows s roomID date)"
    by (auto simp: all_slots_def)
  from row have b: "b \<in> set (left_join (\<lambda>sl b. bkSlotID b = slID sl \<and> bk_active b) (bookings s) sl)"
    and r: "r \<in> set (left_join (\<lambda>sl r. rvSlotID r = slID sl \<and> rv_active r) (reservations s) sl)"
    by (simp_all add: slot_rows_iff)
  have "b = None \<longleftrightarrow> \<not> slot_booked s (slID sl)"
    using left_join_None_row [OF b] by (auto simp: slot_booked_def)
  moreover have "r = None \<longleftrightarrow> \<not> slot_reserved s (slID sl)"
    using left_join_None_row [OF r] by (auto simp: slot_reserved_def)
  ultimately show thesis using that v row by blast
qed

end
