(* ===== verification/Admin_Repos.thy ===== *)
theory Admin_Repos
  imports Transactions
begin

text \<open>
  \<open>room_repo.go\<close>, \<open>schedule_repo.go\<close> and \<open>user_repo.go\<close> of \<open>internal/repository/postgres\<close>.
  A \<open>TIME\<close> column holds nanoseconds since midnight here; its text input and output are functions of
  the server (\<open>pg_time_in\<close>, \<open>pg_time_out\<close> of \<open>ext\<close>).
\<close>

section \<open>Rooms\<close>

text \<open>Column \<open>capacity\<close> is an \<open>INT\<close>: the driver refuses a value that does not fit 32 bits.\<close>

definition fits_int4 :: "int option \<Rightarrow> bool" where
  "fits_int4 c = (case c of None \<Rightarrow> True | Some n \<Rightarrow> -2147483648 \<le> n \<and> n \<le> 2147483647)"

definition stored_room :: "room \<Rightarrow> room" where
  "stored_room r = r\<lparr>rmCreatedAt := timestamptz (rmCreatedAt r)\<rparr>"

definition sql_room_insert :: "room \<Rightarrow> unit stmt" where
  "sql_room_insert r = (\<lambda>_ s.
     if \<not> fits_int4 (rmCapacity r) then (Inl (TextError ''value is out of range for int4''), s)
     else if rmID r \<in> rmID ` set (rooms s) then (Inl (PgError ''23505'' ''rooms_pkey''), s)
     else (Inr (), s\<lparr>rooms := rooms s @ [stored_room r]\<rparr>))"

definition RoomRepo_GetByID :: "uuid \<Rightarrow> room option result go" where
  "RoomRepo_GetByID k = db_call (select (\<lambda>s. find_row rmID k (rooms s)))"

definition RoomRepo_Create :: "room \<Rightarrow> unit result go" where
  "RoomRepo_Create r = db_call (sql_room_insert r)"

definition RoomRepo_List :: "room list result go" where
  "RoomRepo_List = db_call (select (\<lambda>s. sort_key (\<lambda>r. - rmCreatedAt r) (rooms s)))"

definition rooms_with_schedule :: "store \<Rightarrow> room list" where
  "rooms_with_schedule s =
     sort_key rmID (filter (\<lambda>r. \<exists>x \<in> set (schedules s). scrRoomID x = rmID r) (rooms s))"

definition RoomRepo_ListWithSchedule :: "room list result go" where
  "RoomRepo_ListWithSchedule = db_call (select rooms_with_schedule)"

lemma RoomRepo_GetByID_Inr [go_run]:
  "run_state (RoomRepo_GetByID k) w = (Inr x, w') \<longleftrightarrow>
    fault_at (env w) (ticks w) = NoFault \<and> x = find_row rmID k (rooms (db w)) \<and> w' = tick w"
  by (simp add: RoomRepo_GetByID_def db_call_select_Inr)

lemma RoomRepo_Create_Inr [go_run]:
  "run_state (RoomRepo_Create r) w = (Inr u, w') \<longleftrightarrow>
    fault_at (env w) (ticks w) = NoFault \<and> fits_int4 (rmCapacity r) \<and>
    rmID r \<notin> rmID ` set (rooms (db w)) \<and>
    w' = (tick w)\<lparr>db := (db w)\<lparr>rooms := rooms (db w) @ [stored_room r]\<rparr>\<rparr>"
  by (auto simp: RoomRepo_Create_def db_call_Inr sql_room_insert_def)

section \<open>Schedules\<close>

definition schedule_row_of :: "(string \<Rightarrow> duration option) \<Rightarrow> schedule \<Rightarrow> schedule_row option" where
  "schedule_row_of tin x =
     (case (tin (schStartTime x), tin (schEndTime x)) of
        (Some a, Some b) \<Rightarrow>
          Some \<lparr>scrID = schID x, scrRoomID = schRoomID x, scrDayOfWeek = schDayOfWeek x,
                scrStartTime = a, scrEndTime = b, scrCreatedAt = timestamptz (schCreatedAt x)\<rparr>
      | _ \<Rightarrow> None)"

fun insert_schedules ::
  "(string \<Rightarrow> duration option) \<Rightarrow> schedule list \<Rightarrow> schedule_row list \<Rightarrow> go_error + schedule_row list"
where
  "insert_schedules tin [] rows = Inr rows"
| "insert_schedules tin (x # xs) rows =
     (case schedule_row_of tin x of
        None \<Rightarrow> Inl (PgError ''22007'' '''')
      | Some r \<Rightarrow>
          if \<not> (1 \<le> scrDayOfWeek r \<and> scrDayOfWeek r \<le> 7)
            then Inl (PgError ''23514'' ''schedules_day_of_week_check'')
          else if \<not> scrStartTime r < scrEndTime r then Inl (PgError ''23514'' ''schedules_check'')
          else if scrID r \<in> scrID ` set rows then Inl (PgError ''23505'' ''schedules_pkey'')
          else if scr_room_day r \<in> scr_room_day ` set rows
            then Inl (PgError ''23505'' ''schedules_room_id_day_of_week_key'')
          else insert_schedules tin xs (rows @ [r]))"

definition sql_schedules_batch :: "(string \<Rightarrow> duration option) \<Rightarrow> schedule list \<Rightarrow> unit stmt" where
  "sql_schedules_batch tin xs = (\<lambda>_ s.
     case insert_schedules tin xs (schedules s) of
       Inl e \<Rightarrow> (Inl e, s)
     | Inr rows \<Rightarrow>
         if \<exists>x \<in> set xs. schRoomID x \<notin> rmID ` set (rooms s)
         then (Inl (PgError ''23503'' ''schedules_room_id_fkey''), s)
         else (Inr (), s\<lparr>schedules := rows\<rparr>))"

definition isScheduleUniqueViolation :: "go_error \<Rightarrow> bool" where
  "isScheduleUniqueViolation err =
     (case err of
        PgError code constraint \<Rightarrow> code = ''23505'' \<and>
          constraint \<in> {''schedules_room_id_day_of_week_key'', ''schedules_room_id_key''}
      | _ \<Rightarrow> False)"

definition ScheduleRepo_ExistsByRoomID :: "uuid \<Rightarrow> bool result go" where
  "ScheduleRepo_ExistsByRoomID roomID =
     db_call (select (\<lambda>s. \<exists>x \<in> set (schedules s). scrRoomID x = roomID))"

definition ScheduleRepo_CreateBatch :: "schedule list \<Rightarrow> unit result go" where
  "ScheduleRepo_CreateBatch xs =
     (if xs = [] then ok ()
      else do {
        tin \<leftarrow> asks pg_time_in;
        r \<leftarrow> db_call (sql_schedules_batch tin xs);
        (case r of
           Inl err \<Rightarrow>
             if isScheduleUniqueViolation err
             then fail (NewDomainError ErrorScheduleExists ''schedule already exists'')
             else fail err
         | Inr _ \<Rightarrow> ok ())
      })"

definition schedule_of_row :: "(duration \<Rightarrow> string) \<Rightarrow> schedule_row \<Rightarrow> schedule" where
  "schedule_of_row tout r =
     \<lparr>schID = scrID r, schRoomID = scrRoomID r, schDayOfWeek = scrDayOfWeek r,
      schStartTime = tout (scrStartTime r), schEndTime = tout (scrEndTime r),
      schCreatedAt = scrCreatedAt r\<rparr>"

text \<open>The Go map from room to rows; a key that is absent reads as the empty slice.\<close>

definition schedules_of :: "(duration \<Rightarrow> string) \<Rightarrow> store \<Rightarrow> uuid list \<Rightarrow> uuid \<Rightarrow> schedule list" where
  "schedules_of tout s roomIDs roomID =
     (if roomID \<in> set roomIDs
      then map (schedule_of_row tout)
        (sort_key scrDayOfWeek (sort_key scrID
           (filter (\<lambda>r. scrRoomID r = roomID) (schedules s))))
      else [])"

definition ScheduleRepo_ListByRoomIDs :: "uuid list \<Rightarrow> (uuid \<Rightarrow> schedule list) result go" where
  "ScheduleRepo_ListByRoomIDs roomIDs =
     (if roomIDs = [] then ok (\<lambda>_. [])
      else do {
        tout \<leftarrow> asks pg_time_out;
        db_call (select (\<lambda>s. schedules_of tout s roomIDs))
      })"

section \<open>Users\<close>

definition sql_user_insert :: "user \<Rightarrow> unit stmt" where
  "sql_user_insert u = (\<lambda>_ s.
     if \<not> (usrRole u = RoleAdmin \<or> usrRole u = RoleUser)
       then (Inl (PgError ''23514'' ''users_role_check''), s)
     else if usrID u \<in> usrID ` set (users s) then (Inl (PgError ''23505'' ''users_pkey''), s)
     else if usrEmail u \<in> usrEmail ` set (users s)
       then (Inl (PgError ''23505'' ''users_email_key''), s)
     else (Inr (), s\<lparr>users := users s @ [u\<lparr>usrCreatedAt := timestamptz (usrCreatedAt u)\<rparr>]\<rparr>))"

definition isUsersEmailUniqueViolation :: "go_error \<Rightarrow> bool" where
  "isUsersEmailUniqueViolation err = (err = PgError ''23505'' ''users_email_key'')"

definition UserRepo_GetByEmail :: "string \<Rightarrow> user option result go" where
  "UserRepo_GetByEmail email = db_call (select (\<lambda>s. find_row usrEmail email (users s)))"

definition UserRepo_Create :: "user \<Rightarrow> unit result go" where
  "UserRepo_Create u = do {
     r \<leftarrow> db_call (sql_user_insert u);
     (case r of
        Inl err \<Rightarrow>
          if isUsersEmailUniqueViolation err
          then fail (NewDomainError ErrorInvalidRequest ''email already exists'')
          else fail err
      | Inr _ \<Rightarrow> ok ())
   }"

lemma UserRepo_GetByEmail_Inr [go_run]:
  "run_state (UserRepo_GetByEmail k) w = (Inr x, w') \<longleftrightarrow>
    fault_at (env w) (ticks w) = NoFault \<and> x = find_row usrEmail k (users (db w)) \<and> w' = tick w"
  by (simp add: UserRepo_GetByEmail_def db_call_select_Inr)

definition user_insertable :: "user \<Rightarrow> store \<Rightarrow> bool" where
  "user_insertable u s \<longleftrightarrow> (usrRole u = RoleAdmin \<or> usrRole u = RoleUser) \<and>
     usrID u \<notin> usrID ` set (users s) \<and> usrEmail u \<notin> usrEmail ` set (users s)"

definition add_user :: "user \<Rightarrow> store \<Rightarrow> store" where
  "add_user u s = s\<lparr>users := users s @ [u\<lparr>usrCreatedAt := timestamptz (usrCreatedAt u)\<rparr>]\<rparr>"

lemma UserRepo_Create_Inr [go_run]:
  "run_state (UserRepo_Create u) w = (Inr x, w') \<longleftrightarrow>
    fault_at (env w) (ticks w) = NoFault \<and> user_insertable u (db w) \<and>
    w' = (tick w)\<lparr>db := add_user u (db w)\<rparr>"
  by (auto simp: UserRepo_Create_def run_db_call sql_user_insert_def user_insertable_def add_user_def
      split: fault.splits if_splits)

section \<open>Rows the batch insert produces\<close>

lemma insert_schedules_Inr:
  assumes "insert_schedules tin xs rows = Inr rows'"
  shows "\<exists>new. rows' = rows @ new \<and> map (schedule_row_of tin) xs = map Some new \<and>
    (\<forall>r \<in> set new. 1 \<le> scrDayOfWeek r \<and> scrDayOfWeek r \<le> 7 \<and> scrStartTime r < scrEndTime r)"
  using assms
proof (induction xs arbitrary: rows)
  case Nil
  then show ?case by simp
next
  case (Cons x xs)
  then obtain r where r: "schedule_row_of tin x = Some r"
      and range: "1 \<le> scrDayOfWeek r" "scrDayOfWeek r \<le> 7" "scrStartTime r < scrEndTime r"
      and rest: "insert_schedules tin xs (rows @ [r]) = Inr rows'"
    by (auto split: option.splits if_splits)
  obtain new where "rows' = (rows @ [r]) @ new" "map (schedule_row_of tin) xs = map Some new"
      "\<forall>r \<in> set new. 1 \<le> scrDayOfWeek r \<and> scrDayOfWeek r \<le> 7 \<and> scrStartTime r < scrEndTime r"
    using Cons.IH [OF rest] by blast
  then show ?case
    using r range by (intro exI [of _ "r # new"]) auto
qed

lemma insert_schedules_distinct:
  assumes "insert_schedules tin xs rows = Inr rows'" "distinct (map scrID rows)"
    "distinct (map scr_room_day rows)"
  shows "distinct (map scrID rows') \<and> distinct (map scr_room_day rows')"
  using assms
proof (induction xs arbitrary: rows)
  case Nil
  then show ?case by simp
next
  case (Cons x xs)
  then obtain r where "scrID r \<notin> scrID ` set rows" "scr_room_day r \<notin> scr_room_day ` set rows"
      "insert_schedules tin xs (rows @ [r]) = Inr rows'"
    by (auto split: option.splits if_splits)
  then show ?case
    using Cons.IH [of "rows @ [r]"] Cons.prems(2,3) by simp
qed

lemma schedule_row_of_Some:
  "schedule_row_of tin x = Some r \<Longrightarrow>
    scrRoomID r = schRoomID x \<and> scrDayOfWeek r = schDayOfWeek x \<and> scrID r = schID x \<and>
    tin (schStartTime x) = Some (scrStartTime r) \<and> tin (schEndTime x) = Some (scrEndTime r)"
  by (auto simp: schedule_row_of_def split: option.splits)

end
