(* ===== verification/Invariants.thy ===== *)
theory Invariants
  imports Booking_Repo Waitlist_Repo Reservation_Repo Slot_Repo Admin_Repos
begin

text \<open>
  How the writing statements act on the integrity constraints of the schema (\<open>store_ok\<close>) and on who
  holds a slot. Above the constraints the database enforces stand the rules the use cases keep
  between the tables: a slot is never booked and reserved at once (\<open>exclusive\<close>), a reservation
  belongs to a waitlist entry of the same slot and user that has left the queue (\<open>claims_ok\<close>), and
  nobody waits for a free slot (\<open>queue_served\<close>).
\<close>

section \<open>The application's own rules\<close>

definition exclusive :: "store \<Rightarrow> bool" where
  "exclusive s \<longleftrightarrow> (\<forall>k. \<not> (slot_booked s k \<and> slot_reserved s k))"

definition queue_served :: "store \<Rightarrow> bool" where
  "queue_served s \<longleftrightarrow> (\<forall>k. slot_awaited s k \<longrightarrow> slot_booked s k \<or> slot_reserved s k)"

definition claim_of :: "store \<Rightarrow> slot_reservation \<Rightarrow> waitlist_entry \<Rightarrow> bool" where
  "claim_of s r e \<longleftrightarrow> e \<in> set (waitlist s) \<and> rvWaitlistEntryID r = Some (weID e) \<and>
     weSlotID e = rvSlotID r \<and> weUserID e = rvUserID r \<and> \<not> we_active e"

definition claims_ok :: "store \<Rightarrow> bool" where
  "claims_ok s \<longleftrightarrow> (\<forall>r \<in> set (reservations s). \<exists>e. claim_of s r e) \<and>
     distinct (map rvWaitlistEntryID (reservations s))"

definition app_ok :: "store \<Rightarrow> bool" where
  "app_ok s \<longleftrightarrow> store_ok s \<and> exclusive s \<and> claims_ok s"

lemma app_ok_empty: "app_ok empty_store" "queue_served empty_store"
proof -
  have "exclusive empty_store \<and> claims_ok empty_store" "queue_served empty_store"
    by (simp_all add: exclusive_def claims_ok_def queue_served_def empty_store_def slot_booked_def
        slot_reserved_def slot_awaited_def)
  then show "app_ok empty_store" "queue_served empty_store"
    using store_ok_empty by (simp_all add: app_ok_def)
qed

section \<open>What a statement leaves alone\<close>

lemma frames [simp]:
  "users (add_booking b s) = users s" "rooms (add_booking b s) = rooms s"
  "schedules (add_booking b s) = schedules s" "slots (add_booking b s) = slots s"
  "waitlist (add_booking b s) = waitlist s" "reservations (add_booking b s) = reservations s"
  "position_seq (add_booking b s) = position_seq s" "users (cancel_booking i s) = users s"
  "rooms (cancel_booking i s) = rooms s" "schedules (cancel_booking i s) = schedules s"
  "slots (cancel_booking i s) = slots s" "waitlist (cancel_booking i s) = waitlist s"
  "reservations (cancel_booking i s) = reservations s"
  "position_seq (cancel_booking i s) = position_seq s" "users (add_reservation r s) = users s"
  "rooms (add_reservation r s) = rooms s" "schedules (add_reservation r s) = schedules s"
  "slots (add_reservation r s) = slots s" "bookings (add_reservation r s) = bookings s"
  "waitlist (add_reservation r s) = waitlist s"
  "position_seq (add_reservation r s) = position_seq s"
  "users (set_reservation put i s) = users s" "rooms (set_reservation put i s) = rooms s"
  "schedules (set_reservation put i s) = schedules s" "slots (set_reservation put i s) = slots s"
  "bookings (set_reservation put i s) = bookings s"
  "waitlist (set_reservation put i s) = waitlist s"
  "position_seq (set_reservation put i s) = position_seq s"
  "users (expire_rows ids t s) = users s" "rooms (expire_rows ids t s) = rooms s"
  "schedules (expire_rows ids t s) = schedules s" "slots (expire_rows ids t s) = slots s"
  "bookings (expire_rows ids t s) = bookings s" "waitlist (expire_rows ids t s) = waitlist s"
  "position_seq (expire_rows ids t s) = position_seq s" "users (notify_entry t i s) = users s"
  "rooms (notify_entry t i s) = rooms s" "schedules (notify_entry t i s) = schedules s"
  "slots (notify_entry t i s) = slots s" "bookings (notify_entry t i s) = bookings s"
  "reservations (notify_entry t i s) = reservations s"
  "position_seq (notify_entry t i s) = position_seq s" "users (leave_entry i u s) = users s"
  "rooms (leave_entry i u s) = rooms s" "schedules (leave_entry i u s) = schedules s"
  "slots (leave_entry i u s) = slots s" "bookings (leave_entry i u s) = bookings s"
  "reservations (leave_entry i u s) = reservations s"
  "position_seq (leave_entry i u s) = position_seq s" "users (add_entry e s) = users s"
  "rooms (add_entry e s) = rooms s" "schedules (add_entry e s) = schedules s"
  "slots (add_entry e s) = slots s" "bookings (add_entry e s) = bookings s"
  "reservations (add_entry e s) = reservations s" "rooms (add_user usr s) = rooms s"
  "schedules (add_user usr s) = schedules s" "slots (add_user usr s) = slots s"
  "bookings (add_user usr s) = bookings s" "waitlist (add_user usr s) = waitlist s"
  "reservations (add_user usr s) = reservations s" "position_seq (add_user usr s) = position_seq s"
  by (simp_all add: add_booking_def cancel_booking_def add_reservation_def set_reservation_def
      expire_rows_def notify_entry_def leave_entry_def add_entry_def add_user_def)

section \<open>Who holds a slot after a statement\<close>

lemma slot_booked_after [row_simps, simp]:
  "slot_booked (add_booking b s) k \<longleftrightarrow> slot_booked s k \<or> bk_active b \<and> bkSlotID b = k"
  "slot_booked (notify_entry t i s) k = slot_booked s k"
  "slot_booked (add_reservation r s) k = slot_booked s k"
  "slot_booked (set_reservation put i s) k = slot_booked s k"
  "slot_booked (expire_rows ids t s) k = slot_booked s k"
  "slot_booked (add_entry e s) k = slot_booked s k"
  "slot_booked (leave_entry i u s) k = slot_booked s k"
  "slot_booked (s\<lparr>position_seq := n\<rparr>) k = slot_booked s k"
  by (auto simp: slot_booked_def add_booking_def notify_entry_def add_reservation_def
      set_reservation_def expire_rows_def add_entry_def leave_entry_def bk_active_def)

lemma slot_reserved_after [row_simps, simp]:
  "slot_reserved (add_booking b s) k = slot_reserved s k"
  "slot_reserved (cancel_booking i s) k = slot_reserved s k"
  "slot_reserved (notify_entry t i s) k = slot_reserved s k"
  "slot_reserved (add_reservation r s) k \<longleftrightarrow> slot_reserved s k \<or> rv_active r \<and> rvSlotID r = k"
  "slot_reserved (add_entry e s) k = slot_reserved s k"
  "slot_reserved (leave_entry i u s) k = slot_reserved s k"
  "slot_reserved (s\<lparr>position_seq := n\<rparr>) k = slot_reserved s k"
  by (auto simp: slot_reserved_def add_booking_def notify_entry_def add_reservation_def
      cancel_booking_def add_entry_def leave_entry_def)

lemma slot_awaited_after [row_simps, simp]:
  "slot_awaited (add_booking b s) k = slot_awaited s k"
  "slot_awaited (cancel_booking i s) k = slot_awaited s k"
  "slot_awaited (add_reservation r s) k = slot_awaited s k"
  "slot_awaited (set_reservation put i s) k = slot_awaited s k"
  "slot_awaited (expire_rows ids t s) k = slot_awaited s k"
  "slot_awaited (add_entry e s) k \<longleftrightarrow> slot_awaited s k \<or> we_active e \<and> weSlotID e = k"
  "slot_awaited (s\<lparr>position_seq := n\<rparr>) k = slot_awaited s k"
  by (auto simp: slot_awaited_def add_booking_def add_reservation_def cancel_booking_def
      set_reservation_def expire_rows_def add_entry_def)

lemma slot_booked_cancel:
  "slot_booked (cancel_booking i s) k \<longleftrightarrow>
    (\<exists>b \<in> set (bookings s). bk_active b \<and> bkSlotID b = k \<and> bkID b \<noteq> i)"
  unfolding slot_booked_def cancel_booking_def
  by (simp add: bk.live_after_retire) blast

lemma slot_reserved_cancel:
  "slot_reserved (set_reservation rv_cancel i s) k \<longleftrightarrow>
    (\<exists>r \<in> set (reservations s). rv_active r \<and> rvSlotID r = k \<and> rvID r \<noteq> i)"
  unfolding slot_reserved_def set_reservation_def
  by (simp add: rv_cancelled.live_after_retire is_active_row_def) blast

lemma slot_reserved_confirm:
  "slot_reserved (set_reservation (rv_confirm t) i s) k \<longleftrightarrow>
    (\<exists>r \<in> set (reservations s). rv_active r \<and> rvSlotID r = k \<and> rvID r \<noteq> i)"
  unfolding slot_reserved_def set_reservation_def
  by (simp add: rv_confirmed.live_after_retire is_active_row_def) blast

lemma slot_reserved_expire:
  "slot_reserved (expire_rows ids t s) k \<longleftrightarrow>
    (\<exists>r \<in> set (reservations s). rv_active r \<and> rvSlotID r = k \<and> rvID r \<notin> ids)"
  unfolding slot_reserved_def expire_rows_def
  by (simp add: rv_expired.live_after_retire)

lemma slot_awaited_leave:
  "slot_awaited (leave_entry i u s) k \<longleftrightarrow>
    (\<exists>e \<in> set (waitlist s). we_active e \<and> weSlotID e = k \<and> \<not> leaves i u e)"
  unfolding slot_awaited_def leave_entry_def
  by (simp add: we_active.live_after_retire)

lemma slot_awaited_notify:
  "slot_awaited (notify_entry t i s) k \<longleftrightarrow>
    (\<exists>e \<in> set (waitlist s). we_active e \<and> weSlotID e = k \<and> weID e \<noteq> i)"
  unfolding slot_awaited_def notify_entry_def
  by (simp add: we_notified.live_after_retire)

section \<open>Integrity constraints after a statement\<close>

lemma store_ok_seq: "store_ok s \<Longrightarrow> position_seq s \<le> n \<Longrightarrow> store_ok (s\<lparr>position_seq := n\<rparr>)"
  by (auto simp: store_ok_defs)

lemma store_ok_add_booking:
  assumes "store_ok s" "booking_insertable b s"
  shows "store_ok (add_booking b s)"
proof -
  let ?b = "b\<lparr>bkCreatedAt := timestamptz (bkCreatedAt b)\<rparr>"
  have "\<not> index_hit bk_active bkSlotID (bookings s) ?b"
    using assms(2) by (simp add: booking_insertable_def index_hit_def bk_active_def)
  then have "index_ok bk_active bkSlotID (bookings s @ [?b])"
    using assms(1) by (intro index_ok_insert) (simp_all add: store_ok_defs)
  then show ?thesis
    using assms by (auto simp: store_ok_defs add_booking_def booking_insertable_def)
qed

lemma store_ok_cancel_booking: "store_ok s \<Longrightarrow> store_ok (cancel_booking i s)"
  by (auto simp: store_ok_defs cancel_booking_def bk.keys_after bk.retire_ok set_update_where)

lemma store_ok_notify_entry: 
  assumes "store_ok s"
    and "\<And>e. e \<in> set (waitlist s) \<Longrightarrow> weID e = i \<Longrightarrow> we_pending e"
  shows "store_ok (notify_entry t i s)"
proof -
  have same: "map (we_notify t) [x] = [we_notify t x]" for x by simp
  have "map we_slot_user (filter we_pending (update_where (\<lambda>x. weID x = i) (we_notify t) rows)) =
      map we_slot_user (filter we_pending rows)"
    if "\<And>e. e \<in> set rows \<Longrightarrow> weID e = i \<Longrightarrow> we_pending e" for rows
    using that by (induction rows) auto
  then have "index_ok we_pending we_slot_user (waitlist (notify_entry t i s))"
    using assms by (simp add: index_ok_def notify_entry_def store_ok_defs)
  moreover have "map wePosition (waitlist (notify_entry t i s)) = map wePosition (waitlist s)"
    by (simp add: notify_entry_def map_update_where)
  moreover have "weID ` set (waitlist (notify_entry t i s)) = weID ` set (waitlist s)"
      "map weID (waitlist (notify_entry t i s)) = map weID (waitlist s)"
    by (simp_all add: notify_entry_def we_notified.keys_after we_notified.key_set_after)
  ultimately show ?thesis
    using assms(1)
    by (auto simp: store_ok_defs notify_entry_def set_update_where)
qed

lemma store_ok_add_reservation:
  assumes "store_ok s" "reservation_insertable r s"
  shows "store_ok (add_reservation r s)"
proof -
  have "\<not> index_hit rv_active rvSlotID (reservations s) (stored_reservation r)"
    using assms(2) by (simp add: reservation_insertable_def index_hit_def)
  then have "index_ok rv_active rvSlotID (reservations s @ [stored_reservation r])"
    using assms(1) by (intro index_ok_insert) (simp_all add: store_ok_defs)
  then show ?thesis
    using assms by (auto simp: store_ok_defs add_reservation_def reservation_insertable_def)
qed

lemma store_ok_set_reservation:
  assumes "store_ok s" "put = rv_cancel \<or> put = rv_confirm t"
  shows "store_ok (set_reservation put i s)"
  using assms
  by (auto simp: store_ok_defs set_reservation_def rv_cancelled.keys_after rv_cancelled.retire_ok
      rv_confirmed.keys_after rv_confirmed.retire_ok set_update_where)

lemma store_ok_expire_rows: "store_ok s \<Longrightarrow> store_ok (expire_rows ids t s)"
  by (auto simp: store_ok_defs expire_rows_def rv_expired.keys_after rv_expired.retire_ok
      set_update_where)

lemma store_ok_add_entry:
  assumes "store_ok s" "entry_insertable e s"
  shows "store_ok (add_entry (joined_row e s) s)"
proof -
  have "index_ok we_pending we_slot_user (waitlist s @ [joined_row e s])"
    using assms by (intro index_ok_insert) (simp_all add: store_ok_defs entry_insertable_def)
  then show ?thesis
    using assms by (fastforce simp: store_ok_defs add_entry_def entry_insertable_def)
qed

lemma store_ok_leave_entry:
  assumes "store_ok s"
  shows "store_ok (leave_entry i u s)"
proof -
  have "map wePosition (waitlist (leave_entry i u s)) = map wePosition (waitlist s)"
      "map weID (waitlist (leave_entry i u s)) = map weID (waitlist s)"
      "weID ` set (waitlist (leave_entry i u s)) = weID ` set (waitlist s)"
      "index_ok we_pending we_slot_user (waitlist s) \<Longrightarrow>
        index_ok we_pending we_slot_user (waitlist (leave_entry i u s))"
    by (simp_all add: leave_entry_def we.keys_after we.key_set_after we.retire_ok map_update_where)
  then show ?thesis
    using assms by (auto simp: store_ok_defs leave_entry_def set_update_where)
qed

lemma store_ok_add_user: "store_ok s \<Longrightarrow> user_insertable usr s \<Longrightarrow> store_ok (add_user usr s)"
  by (auto simp: store_ok_defs add_user_def user_insertable_def)

section \<open>Claims after a statement\<close>

lemma claims_ok_cong:
  "waitlist s' = waitlist s \<Longrightarrow> reservations s' = reservations s \<Longrightarrow> claims_ok s' = claims_ok s"
  by (simp add: claims_ok_def claim_of_def)

lemma claims_ok_update:
  assumes "claims_ok s" "reservations s' = reservations s"
    and "waitlist s' = update_where P put (waitlist s)"
    and "\<And>e. weID (put e) = weID e \<and> weSlotID (put e) = weSlotID e \<and> weUserID (put e) = weUserID e \<and>
      \<not> we_active (put e)"
  shows "claims_ok s'"
proof -
  have "claim_of s' r (if P e then put e else e)" if "claim_of s r e" for r e
    using that assms(3,4) by (auto simp: claim_of_def set_update_where)
  then have "\<exists>e. claim_of s' r e" if "r \<in> set (reservations s)" for r
    using that assms(1) unfolding claims_ok_def by meson
  then show ?thesis
    using assms(1,2) by (simp add: claims_ok_def)
qed

lemma claims_ok_retire:
  assumes "claims_ok s" "waitlist s' = waitlist s"
    and "reservations s' = update_where P put (reservations s)"
    and "\<And>r. rvWaitlistEntryID (put r) = rvWaitlistEntryID r \<and> rvSlotID (put r) = rvSlotID r \<and>
      rvUserID (put r) = rvUserID r"
  shows "claims_ok s'"
proof -
  have "map rvWaitlistEntryID (reservations s') = map rvWaitlistEntryID (reservations s)"
    using assms(3,4) by (simp add: map_update_where)
  moreover have "claim_of s' (put r) = claim_of s r" "claim_of s' r = claim_of s r" for r
    using assms(2,4) by (simp_all add: claim_of_def fun_eq_iff)
  ultimately show ?thesis
    using assms(1,3) by (auto simp: claims_ok_def set_update_where)
qed

lemma claims_ok_after [simp, row_simps]:
  "claims_ok (add_booking b s) = claims_ok s"
  "claims_ok (cancel_booking i s) = claims_ok s"
  "claims_ok (s\<lparr>position_seq := n\<rparr>) = claims_ok s"
  by (rule claims_ok_cong; simp add: add_booking_def cancel_booking_def)+

lemma claims_ok_entries:
  assumes "claims_ok s"
  shows "claims_ok (notify_entry t i s)" "claims_ok (leave_entry i u s)" "claims_ok (add_entry e s)"
proof -
  show "claims_ok (notify_entry t i s)"
    using assms by (rule claims_ok_update [where put = "we_notify t"]) (simp_all add: notify_entry_def)
  show "claims_ok (leave_entry i u s)"
    using assms by (rule claims_ok_update [where put = we_cancel]) (simp_all add: leave_entry_def)
  show "claims_ok (add_entry e s)"
    using assms by (fastforce simp: claims_ok_def claim_of_def add_entry_def)
qed

lemma claims_ok_reservations:
  assumes "claims_ok s"
  shows "claims_ok (set_reservation rv_cancel i s)" "claims_ok (set_reservation (rv_confirm t) i s)"
    "claims_ok (expire_rows ids t s)"
proof -
  show "claims_ok (set_reservation rv_cancel i s)"
    using assms by (rule claims_ok_retire [where put = rv_cancel]) (simp_all add: set_reservation_def)
  show "claims_ok (set_reservation (rv_confirm t) i s)"
    using assms by (rule claims_ok_retire [where put = "rv_confirm t"]) (simp_all add: set_reservation_def)
  show "claims_ok (expire_rows ids t s)"
    using assms by (rule claims_ok_retire [where put = "rv_expire t"]) (simp_all add: expire_rows_def)
qed

lemma unclaimed_while_waiting:
  assumes "store_ok s" "claims_ok s" "e \<in> set (waitlist s)" "we_active e" "r \<in> set (reservations s)"
  shows "rvWaitlistEntryID r \<noteq> Some (weID e)"
proof
  assume "rvWaitlistEntryID r = Some (weID e)"
  moreover obtain e' where "claim_of s r e'"
    using assms(2,5) by (auto simp: claims_ok_def)
  ultimately have "e' = e"
    using assms(1,3) by (auto simp: claim_of_def store_ok_defs distinct_map inj_on_def)
  with \<open>claim_of s r e'\<close> assms(4) show False
    by (simp add: claim_of_def)
qed

section \<open>Handing a free slot to the head of its queue\<close>

text \<open>
  The composite literal \<open>domain.SlotReservation{...}\<close> that \<open>CancelBooking\<close>, \<open>CancelReservation\<close>
  and \<open>ExpireDue\<close> build for the claimed entry, and the effect of the two statements around it.
\<close>

definition reservation_for ::
  "uuid \<Rightarrow> uuid \<Rightarrow> waitlist_entry \<Rightarrow> time \<Rightarrow> duration \<Rightarrow> slot_reservation" where
  "reservation_for rid slotID e now ttl =
     \<lparr>rvID = rid, rvSlotID = slotID, rvUserID = weUserID e, rvWaitlistEntryID = Some (weID e),
      rvStatus = ReservationStatusActive, rvExpiresAt = now + ttl, rvCreatedAt = now,
      rvConfirmedAt = None, rvExpiredAt = None\<rparr>"

lemma reservation_for_simps [simp]:
  "rvID (reservation_for rid k e now ttl) = rid" "rvSlotID (reservation_for rid k e now ttl) = k"
  "rvUserID (reservation_for rid k e now ttl) = weUserID e"
  "rvWaitlistEntryID (reservation_for rid k e now ttl) = Some (weID e)"
  "rvStatus (reservation_for rid k e now ttl) = ReservationStatusActive"
  "rvExpiresAt (reservation_for rid k e now ttl) = now + ttl"
  "rvCreatedAt (reservation_for rid k e now ttl) = now"
  "rv_active (reservation_for rid k e now ttl)"
  by (simp_all add: reservation_for_def rv_active_def)

definition hand_over :: "time \<Rightarrow> uuid \<Rightarrow> uuid \<Rightarrow> waitlist_entry \<Rightarrow> time \<Rightarrow> duration \<Rightarrow> store \<Rightarrow> store" where
  "hand_over t rid k e now ttl s =
     add_reservation (reservation_for rid k e now ttl) (notify_entry t (weID e) s)"

lemma reservation_for_notified [simp]:
  "reservation_for rid k (we_notify t e) now ttl = reservation_for rid k e now ttl"
  by (simp add: reservation_for_def)

lemma hand_over_slots [simp, row_simps]:
  "slot_booked (hand_over t rid k e now ttl s) k' = slot_booked s k'"
  "slot_reserved (hand_over t rid k e now ttl s) k' \<longleftrightarrow> slot_reserved s k' \<or> k = k'"
  by (simp_all add: hand_over_def)

lemma hand_over_awaited:
  "slot_awaited (hand_over t rid k e now ttl s) k' \<Longrightarrow> slot_awaited s k'"
  by (auto simp: hand_over_def slot_awaited_notify) (auto simp: slot_awaited_def)

lemma app_ok_hand_over:
  assumes "app_ok s" "next_waiting locked k s = Some e" "\<not> slot_booked s k"
    and "reservation_insertable (reservation_for rid k e now ttl) (notify_entry t (weID e) s)"
  shows "app_ok (hand_over t rid k e now ttl s)"
proof -
  note e = next_waiting_Some(1) [OF assms(2)]
  have s: "store_ok s" "exclusive s" "claims_ok s"
    using assms(1) by (auto simp: app_ok_def)
  let ?s = "notify_entry t (weID e) s" and ?r = "reservation_for rid k e now ttl"
  have head: "x = e" if "x \<in> set (waitlist s)" "weID x = weID e" for x
    using that e s(1) by (auto simp: store_ok_defs distinct_map inj_on_def)
  then have "store_ok ?s"
    using s(1) e by (intro store_ok_notify_entry) (auto intro: we_active_pending)
  then have "store_ok (add_reservation ?r ?s)"
    using assms(4) by (rule store_ok_add_reservation)
  moreover have "exclusive (add_reservation ?r ?s)"
    using s(2) assms(3) by (auto simp: exclusive_def)
  moreover have "claims_ok (add_reservation ?r ?s)"
  proof -
    have notified: "claims_ok ?s"
      using s(3) by (rule claims_ok_entries)
    have "Some (weID e) \<notin> rvWaitlistEntryID ` set (reservations ?s)"
      using unclaimed_while_waiting [OF s(1,3)] e by (force simp: notify_entry_def)
    moreover have "claim_of (add_reservation ?r ?s) (stored_reservation ?r) (we_notify t e)"
      using e by (auto simp: claim_of_def add_reservation_def notify_entry_def set_update_where)
    moreover have "claim_of (add_reservation ?r ?s) x y = claim_of ?s x y" for x y
      by (simp add: claim_of_def add_reservation_def)
    ultimately show ?thesis
      using notified by (auto simp: claims_ok_def add_reservation_def)
  qed
  ultimately show ?thesis
    by (simp add: app_ok_def hand_over_def)
qed

lemma hand_over_insertable:
  assumes "store_ok s" "next_waiting locked k s = Some e" "\<not> slot_reserved s k"
    "i \<notin> rvID ` set (reservations s)"
  shows "reservation_insertable (reservation_for i k e now ttl) (notify_entry t (weID e) s)"
proof -
  note e = next_waiting_Some(1) [OF assms(2)]
  have "weID e \<in> weID ` set (waitlist (notify_entry t (weID e) s))"
    using e by (simp add: notify_entry_def we_notified.key_set_after)
  moreover have "k \<in> slID ` set (slots s)" "weUserID e \<in> usrID ` set (users s)"
    using assms(1) e by (auto simp: store_ok_def waitlist_ok_def)
  moreover have "\<not> index_hit rv_active rvSlotID (reservations s) (reservation_for i k e now ttl)"
    using assms(3) by (auto simp: index_hit_def slot_reserved_def)
  ultimately show ?thesis
    using assms(4) by (simp add: reservation_insertable_def notify_entry_def)
qed

text \<open>Identifiers the environment hands out are new to a table.\<close>

definition fresh_ids :: "env \<Rightarrow> uuid set \<Rightarrow> bool" where
  "fresh_ids e used = (\<forall>n. fresh_at e n \<notin> used)"

text \<open>Nobody waits for a free slot outside \<open>K\<close>.\<close>

definition served_but :: "uuid set \<Rightarrow> store \<Rightarrow> bool" where
  "served_but K s \<longleftrightarrow> (\<forall>k. k \<notin> K \<longrightarrow> slot_awaited s k \<longrightarrow> slot_booked s k \<or> slot_reserved s k)"

lemma queue_served_but: "queue_served s = served_but {} s"
  by (simp add: queue_served_def served_but_def)

lemma served_but_hand_over:
  "served_but (insert k K) s \<Longrightarrow> served_but K (hand_over t rid k e now ttl s)"
  by (auto simp: served_but_def dest: hand_over_awaited)

lemma served_but_none:
  assumes "served_but (insert k K) s" "next_waiting (\<lambda>_. False) k s = None"
  shows "served_but K s"
  using assms by (auto simp: served_but_def next_waiting_None slot_awaited_def)

section \<open>The rules after a statement\<close>

lemma app_ok_add_booking:
  assumes "app_ok s" "booking_insertable b s" "bk_active b \<Longrightarrow> \<not> slot_reserved s (bkSlotID b)"
  shows "app_ok (add_booking b s)"
  using assms store_ok_add_booking by (auto simp: app_ok_def exclusive_def)

lemma app_ok_cancel_booking: "app_ok s \<Longrightarrow> app_ok (cancel_booking i s)"
  by (auto simp: app_ok_def exclusive_def store_ok_cancel_booking slot_booked_cancel)
     (auto simp: slot_booked_def)

lemma app_ok_seq: "app_ok s \<Longrightarrow> position_seq s \<le> n \<Longrightarrow> app_ok (s\<lparr>position_seq := n\<rparr>)"
  by (simp add: app_ok_def store_ok_seq exclusive_def)

lemma app_ok_add_entry:
  "app_ok s \<Longrightarrow> entry_insertable e s \<Longrightarrow> app_ok (add_entry (joined_row e s) s)"
  by (simp add: app_ok_def store_ok_add_entry exclusive_def claims_ok_entries)

lemma app_ok_leave_entry: "app_ok s \<Longrightarrow> app_ok (leave_entry i u s)"
  by (simp add: app_ok_def store_ok_leave_entry exclusive_def claims_ok_entries)

lemma app_ok_cancel_reservation: "app_ok s \<Longrightarrow> app_ok (set_reservation rv_cancel i s)"
  by (auto simp: app_ok_def exclusive_def store_ok_set_reservation claims_ok_reservations
      slot_reserved_cancel) (auto simp: slot_reserved_def)

lemma app_ok_expire_rows: "app_ok s \<Longrightarrow> app_ok (expire_rows ids t s)"
  by (auto simp: app_ok_def exclusive_def store_ok_expire_rows claims_ok_reservations
      slot_reserved_expire) (auto simp: slot_reserved_def)

section \<open>Administration\<close>

lemma app_ok_frame:
  assumes "app_ok s" "store_ok s'" "bookings s' = bookings s" "waitlist s' = waitlist s"
    "reservations s' = reservations s"
  shows "app_ok s'"
  using assms
  by (simp add: app_ok_def exclusive_def slot_booked_def slot_reserved_def claims_ok_def claim_of_def)

lemma served_frame:
  assumes "bookings s' = bookings s" "waitlist s' = waitlist s" "reservations s' = reservations s"
  shows "queue_served s' = queue_served s"
  using assms by (simp add: queue_served_def slot_booked_def slot_reserved_def slot_awaited_def)

lemma app_ok_add_user: "app_ok s \<Longrightarrow> user_insertable usr s \<Longrightarrow> app_ok (add_user usr s)"
  by (rule app_ok_frame) (simp_all add: app_ok_def store_ok_add_user)

lemma app_ok_add_room:
  assumes "app_ok s" "rmID r \<notin> rmID ` set (rooms s)"
  shows "app_ok (s\<lparr>rooms := rooms s @ [r]\<rparr>)"
proof (rule app_ok_frame [OF assms(1)])
  show "store_ok (s\<lparr>rooms := rooms s @ [r]\<rparr>)"
    using assms by (auto simp: app_ok_def store_ok_defs)
qed simp_all

lemma app_ok_add_schedules:
  assumes "app_ok s" "insert_schedules tin xs (schedules s) = Inr rows"
    and "\<forall>x \<in> set xs. schRoomID x \<in> rmID ` set (rooms s)"
  shows "app_ok (s\<lparr>schedules := rows\<rparr>)"
proof (rule app_ok_frame [OF assms(1)])
  have s: "store_ok s"
    using assms(1) by (simp add: app_ok_def)
  obtain new where new: "rows = schedules s @ new" "map (schedule_row_of tin) xs = map Some new"
      "\<forall>r \<in> set new. 1 \<le> scrDayOfWeek r \<and> scrDayOfWeek r \<le> 7 \<and> scrStartTime r < scrEndTime r"
    using insert_schedules_Inr [OF assms(2)] by blast
  have "scrRoomID r \<in> rmID ` set (rooms s)" if "r \<in> set new" for r
  proof -
    have "Some r \<in> set (map (schedule_row_of tin) xs)"
      using that new(2) by simp
    then show ?thesis
      using assms(3) by (auto dest!: sym [of "Some r"] schedule_row_of_Some)
  qed
  moreover have "distinct (map scrID rows) \<and> distinct (map scr_room_day rows)"
    using insert_schedules_distinct [OF assms(2)] s by (simp add: store_ok_def schedules_ok_def)
  ultimately have "schedules_ok (s\<lparr>schedules := rows\<rparr>)"
    using s new unfolding store_ok_def schedules_ok_def by auto
  then show "store_ok (s\<lparr>schedules := rows\<rparr>)"
    using s by (simp add: store_ok_defs)
qed simp_all

lemma sql_slot_insert_Inr:
  assumes "sql_slot_insert sl s = Inr s'"
  shows "s' = s \<and> sl_room_start (stored_slot sl) \<in> sl_room_start ` set (slots s) \<or>
    s' = s\<lparr>slots := slots s @ [stored_slot sl]\<rparr> \<and> slStartTime (stored_slot sl) < slEndTime (stored_slot sl) \<and>
    sl_room_start (stored_slot sl) \<notin> sl_room_start ` set (slots s) \<and>
    slID (stored_slot sl) \<notin> slID ` set (slots s) \<and>
    (\<forall>x \<in> set (slots s). \<not> sl_overlap (stored_slot sl) x) \<and>
    slRoomID (stored_slot sl) \<in> rmID ` set (rooms s)"
  using assms by (auto simp: sql_slot_insert_def Let_def split: if_splits)

lemma sl_overlap_sym: "sl_overlap a b = sl_overlap b a"
  by (auto simp: sl_overlap_def)

lemma app_ok_slot_insert:
  assumes "app_ok s" "sql_slot_insert sl s = Inr s'"
  shows "app_ok s'"
  using sql_slot_insert_Inr [OF assms(2)]
proof
  assume "s' = s \<and> sl_room_start (stored_slot sl) \<in> sl_room_start ` set (slots s)"
  then show ?thesis using assms(1) by simp
next
  let ?r = "stored_slot sl"
  assume new: "s' = s\<lparr>slots := slots s @ [?r]\<rparr> \<and> slStartTime ?r < slEndTime ?r \<and>
    sl_room_start ?r \<notin> sl_room_start ` set (slots s) \<and> slID ?r \<notin> slID ` set (slots s) \<and>
    (\<forall>x \<in> set (slots s). \<not> sl_overlap ?r x) \<and> slRoomID ?r \<in> rmID ` set (rooms s)"
  have s: "store_ok s"
    using assms(1) by (simp add: app_ok_def)
  have "slots_ok s'"
    using s new sl_overlap_sym by (auto simp: store_ok_def slots_ok_def)
  moreover have "slID ` set (slots s) \<subseteq> slID ` set (slots s')"
    using new by auto
  ultimately have "store_ok s'"
    using s new by (auto simp: store_ok_def users_ok_def rooms_ok_def schedules_ok_def
        bookings_ok_def waitlist_ok_def reservations_ok_def)
  then show ?thesis
    using new by (intro app_ok_frame [OF assms(1)]) simp_all
qed

lemma slot_insert_frame:
  "sql_slot_insert sl s = Inr s' \<Longrightarrow> bookings s' = bookings s \<and> waitlist s' = waitlist s \<and>
    reservations s' = reservations s \<and> users s' = users s \<and> rooms s' = rooms s \<and>
    schedules s' = schedules s"
  by (auto dest: sql_slot_insert_Inr)

lemma app_ok_insert_slots:
  "insert_slots sls s = Inr s' \<Longrightarrow> app_ok s \<Longrightarrow> app_ok s'"
  by (induction sls arbitrary: s) (auto split: sum.splits dest: app_ok_slot_insert)

lemma insert_slots_frame:
  "insert_slots sls s = Inr s' \<Longrightarrow> bookings s' = bookings s \<and> waitlist s' = waitlist s \<and>
    reservations s' = reservations s \<and> users s' = users s \<and> rooms s' = rooms s \<and>
    schedules s' = schedules s"
proof (induction sls arbitrary: s)
  case (Cons sl sls)
  then show ?case
    by (auto split: sum.splits dest!: slot_insert_frame)
qed simp

end
