(* ===== verification/Go_Text.thy ===== *)
theory Go_Text
  imports Runtime
begin

text \<open>
  The functions of Go's standard library on strings and clock times that the code calls, on strings
  as sequences of bytes: \<open>strings.TrimSpace\<close>, \<open>strings.ToLower\<close>, \<open>strings.Contains\<close>,
  \<open>strconv.FormatInt\<close>, the text of an error, and \<open>time.Parse\<close> for the layouts \<open>15:04:05\<close> and
  \<open>15:04\<close>.
\<close>

section \<open>Trimming and case\<close>

text \<open>
  The UTF-8 encodings of the code points \<open>unicode.IsSpace\<close> accepts. \<open>TrimSpace\<close> drops them from
  both ends; a byte sequence at the end of the string is the last rune exactly if it is a whole
  encoding, since every encoding begins with a byte that continues no other.
\<close>

definition space_tokens :: "string list" where
  "space_tokens =
     [[CHR 0x09], [CHR 0x0A], [CHR 0x0B], [CHR 0x0C], [CHR 0x0D], [CHR 0x20],
      [CHR 0xC2, CHR 0x85], [CHR 0xC2, CHR 0xA0], [CHR 0xE1, CHR 0x9A, CHR 0x80],
      [CHR 0xE2, CHR 0x80, CHR 0x80], [CHR 0xE2, CHR 0x80, CHR 0x81], [CHR 0xE2, CHR 0x80, CHR 0x82],
      [CHR 0xE2, CHR 0x80, CHR 0x83], [CHR 0xE2, CHR 0x80, CHR 0x84], [CHR 0xE2, CHR 0x80, CHR 0x85],
      [CHR 0xE2, CHR 0x80, CHR 0x86], [CHR 0xE2, CHR 0x80, CHR 0x87], [CHR 0xE2, CHR 0x80, CHR 0x88],
      [CHR 0xE2, CHR 0x80, CHR 0x89], [CHR 0xE2, CHR 0x80, CHR 0x8A], [CHR 0xE2, CHR 0x80, CHR 0xA8],
      [CHR 0xE2, CHR 0x80, CHR 0xA9], [CHR 0xE2, CHR 0x80, CHR 0xAF], [CHR 0xE2, CHR 0x81, CHR 0x9F],
      [CHR 0xE3, CHR 0x80, CHR 0x80]]"

fun starts_with :: "string \<Rightarrow> string \<Rightarrow> bool" where
  "starts_with [] s = True"
| "starts_with (c # p) [] = False"
| "starts_with (c # p) (d # s) = (c = d \<and> starts_with p s)"

lemma starts_with_iff: "starts_with p s \<longleftrightarrow> (\<exists>rest. s = p @ rest)"
  by (induction p s rule: starts_with.induct) auto

function strip :: "string list \<Rightarrow> string \<Rightarrow> string" where
  "strip tokens s =
     (case List.find (\<lambda>t. t \<noteq> [] \<and> starts_with t s) tokens of
        None \<Rightarrow> s
      | Some t \<Rightarrow> strip tokens (drop (length t) s))"
  by pat_completeness auto
termination
proof (relation "measure (length o snd)")
  show "wf (measure (length o snd))" by simp
  show "((tokens, drop (length t) s), tokens, s) \<in> measure (length o snd)"
    if "List.find (\<lambda>t. t \<noteq> [] \<and> starts_with t s) tokens = Some t" for tokens s t
  proof -
    have "t \<noteq> []" "starts_with t s"
      using find_SomeD [OF that] by auto
    then show ?thesis
      by (auto simp: starts_with_iff)
  qed
qed

declare strip.simps [simp del]

definition TrimSpace :: "string \<Rightarrow> string" where
  "TrimSpace s = rev (strip (map rev space_tokens) (rev (strip space_tokens s)))"

lemma strip_fixed: "(\<And>t. t \<in> set tokens \<Longrightarrow> t \<noteq> [] \<Longrightarrow> \<not> starts_with t s) \<Longrightarrow> strip tokens s = s"
  by (subst strip.simps) (auto split: option.splits dest: find_SomeD)

lemma strip_done: "t \<in> set tokens \<Longrightarrow> t \<noteq> [] \<Longrightarrow> \<not> starts_with t (strip tokens s)"
proof (induction tokens s rule: strip.induct)
  case (1 tokens s)
  then show ?case
    by (subst strip.simps) (auto simp: find_None_iff' split: option.splits)
qed

lemma strip_idem [simp]: "strip tokens (strip tokens s) = strip tokens s"
  by (rule strip_fixed) (rule strip_done)

text \<open>What \<open>strip\<close> takes away is a sequence of tokens.\<close>

lemma strip_suffix: "\<exists>ts. set ts \<subseteq> set tokens \<and> s = concat ts @ strip tokens s"
proof (induction tokens s rule: strip.induct)
  case (1 tokens s)
  show ?case
  proof (cases "List.find (\<lambda>t. t \<noteq> [] \<and> starts_with t s) tokens")
    case None
    then have "strip tokens s = s"
      by (subst strip.simps) simp
    then show ?thesis
      by (intro exI [of _ "[]"]) simp
  next
    case (Some t)
    then obtain ts where ts: "set ts \<subseteq> set tokens"
        "drop (length t) s = concat ts @ strip tokens (drop (length t) s)"
      using 1 by blast
    have t: "t \<in> set tokens" "starts_with t s"
      using find_SomeD [OF Some] by auto
    then have "s = t @ drop (length t) s"
      by (auto simp: starts_with_iff)
    moreover have "strip tokens s = strip tokens (drop (length t) s)"
      using Some by (subst strip.simps) simp
    ultimately show ?thesis
      using ts t(1) by (intro exI [of _ "t # ts"]) auto
  qed
qed

lemma TrimSpace_idem [simp]: "TrimSpace (TrimSpace s) = TrimSpace s"
proof -
  let ?x = "strip space_tokens s" and ?R = "map rev space_tokens"
  obtain ts where "rev ?x = concat ts @ strip ?R (rev ?x)"
    using strip_suffix [of ?R "rev ?x"] by blast
  then have x: "?x = TrimSpace s @ rev (concat ts)"
    unfolding TrimSpace_def by (metis rev_append rev_rev_ident)
  have "\<not> starts_with t (TrimSpace s)" if "t \<in> set space_tokens" "t \<noteq> []" for t
    using strip_done [OF that, of s] x by (auto simp: starts_with_iff)
  then have "strip space_tokens (TrimSpace s) = TrimSpace s"
    by (rule strip_fixed)
  then show ?thesis
    by (simp add: TrimSpace_def)
qed

definition is_ascii :: "char \<Rightarrow> bool" where
  "is_ascii c \<longleftrightarrow> of_char c < (128 :: nat)"

definition lower_ascii :: "char \<Rightarrow> char" where
  "lower_ascii c =
     (if 65 \<le> (of_char c :: nat) \<and> (of_char c :: nat) \<le> 90 then char_of ((of_char c :: nat) + 32) else c)"

text \<open>A string with a byte above 127 is mapped rune by rune, with the Unicode tables.\<close>

definition ToLower :: "ext \<Rightarrow> string \<Rightarrow> string" where
  "ToLower x s = (if list_all is_ascii s then map lower_ascii s else unicode_ToLower x s)"

fun Contains :: "string \<Rightarrow> string \<Rightarrow> bool" where
  "Contains [] p = (p = [])"
| "Contains (c # s) p = (starts_with p (c # s) \<or> Contains s p)"

section \<open>Numbers and error texts\<close>

fun digits :: "nat \<Rightarrow> string" where
  "digits n = (if n < 10 then [char_of (48 + n)] else digits (n div 10) @ [char_of (48 + n mod 10)])"

declare digits.simps [simp del]

definition FormatInt :: "int \<Rightarrow> string" where
  "FormatInt i = (if i < 0 then ''-'' @ digits (nat (- i)) else digits (nat i))"

fun Error_text :: "ext \<Rightarrow> go_error \<Rightarrow> string" where
  "Error_text x (DomainError code message err) = error_text code message"
| "Error_text x (PgError code constraint) = pg_Error x code constraint"
| "Error_text x ConnError = conn_Error x"
| "Error_text x CtxError = ''context canceled''"
| "Error_text x (TextError t) = t"
| "Error_text x (FmtError t err) = t @ '': '' @ Error_text x err"

section \<open>Clock times\<close>

definition is_digit :: "char \<Rightarrow> bool" where
  "is_digit c \<longleftrightarrow> 48 \<le> (of_char c :: nat) \<and> (of_char c :: nat) \<le> 57"

definition digit_val :: "char \<Rightarrow> int" where
  "digit_val c = of_char c - 48"

fun getnum :: "bool \<Rightarrow> string \<Rightarrow> (int \<times> string) option" where
  "getnum fixed [] = None"
| "getnum fixed [c] = (if is_digit c \<and> \<not> fixed then Some (digit_val c, []) else None)"
| "getnum fixed (c # d # s) =
     (if \<not> is_digit c then None
      else if is_digit d then Some (10 * digit_val c + digit_val d, s)
      else if fixed then None
      else Some (digit_val c, d # s))"

fun skip_colon :: "string \<Rightarrow> string option" where
  "skip_colon [] = None"
| "skip_colon (c # s) = (if c = CHR '':'' then Some s else None)"

fun span_digits :: "string \<Rightarrow> string \<times> string" where
  "span_digits [] = ([], [])"
| "span_digits (c # s) =
     (if is_digit c then (case span_digits s of (ds, rest) \<Rightarrow> (c # ds, rest)) else ([], c # s))"

definition digits_val :: "string \<Rightarrow> int" where
  "digits_val ds = foldl (\<lambda>n c. 10 * n + digit_val c) 0 ds"

text \<open>
  A fractional second after the seconds is read although the layout has none: a dot or comma and at
  least one digit, of which nine count.
\<close>

definition fraction :: "string \<Rightarrow> int \<times> string" where
  "fraction s =
     (case s of
        c # d # rest \<Rightarrow>
          if (c = CHR ''.'' \<or> c = CHR '','') \<and> is_digit d
          then (case span_digits (d # rest) of (ds, tail) \<Rightarrow>
                  (digits_val (take 9 ds) * 10 ^ (9 - length (take 9 ds)), tail))
          else (0, s)
      | _ \<Rightarrow> (0, s))"

record clock =
  clHour :: int
  clMinute :: int
  clSecond :: int
  clNano :: int

definition parse_hm :: "string \<Rightarrow> (int \<times> int \<times> string) option" where
  "parse_hm s =
     (case getnum False s of
        None \<Rightarrow> None
      | Some (h, s1) \<Rightarrow> if h \<ge> 24 then None else
          (case skip_colon s1 of
             None \<Rightarrow> None
           | Some s2 \<Rightarrow>
               (case getnum True s2 of
                  None \<Rightarrow> None
                | Some (m, s3) \<Rightarrow> if m \<ge> 60 then None else Some (h, m, s3))))"

text \<open>\<open>time.ParseInLocation("15:04:05", s, time.UTC)\<close>\<close>

definition parse_hms_layout :: "string \<Rightarrow> clock option" where
  "parse_hms_layout s =
     (case parse_hm s of
        None \<Rightarrow> None
      | Some (h, m, s1) \<Rightarrow>
          (case skip_colon s1 of
             None \<Rightarrow> None
           | Some s2 \<Rightarrow>
               (case getnum True s2 of
                  None \<Rightarrow> None
                | Some (sec, s3) \<Rightarrow>
                    if sec \<ge> 60 then None
                    else (case fraction s3 of (ns, tail) \<Rightarrow>
                      if tail = [] then Some \<lparr>clHour = h, clMinute = m, clSecond = sec, clNano = ns\<rparr>
                      else None))))"

text \<open>\<open>time.ParseInLocation("15:04", s, time.UTC)\<close>\<close>

definition parse_hm_layout :: "string \<Rightarrow> clock option" where
  "parse_hm_layout s =
     (case parse_hm s of
        None \<Rightarrow> None
      | Some (h, m, tail) \<Rightarrow>
          if tail = [] then Some \<lparr>clHour = h, clMinute = m, clSecond = 0, clNano = 0\<rparr> else None)"

text \<open>The loop over the two layouts: the first that parses.\<close>

definition parse_layouts :: "string \<Rightarrow> clock option" where
  "parse_layouts s =
     (case parse_hms_layout s of Some c \<Rightarrow> Some c | None \<Rightarrow> parse_hm_layout s)"

section \<open>What the formatters write is read back\<close>

definition two_digits :: "nat \<Rightarrow> string" where
  "two_digits n = [char_of (48 + n div 10), char_of (48 + n mod 10)]"

definition hm_text :: "nat \<Rightarrow> nat \<Rightarrow> string" where
  "hm_text h m = two_digits h @ '':'' @ two_digits m"

definition hms_text :: "nat \<Rightarrow> nat \<Rightarrow> nat \<Rightarrow> string" where
  "hms_text h m s = hm_text h m @ '':'' @ two_digits s"

lemma of_char_digit: "(n :: nat) < 10 \<Longrightarrow> (of_char (char_of (48 + n)) :: nat) = 48 + n"
  by (simp add: take_bit_nat_eq_self)

lemma is_digit_digit [simp]: "(n :: nat) < 10 \<Longrightarrow> is_digit (char_of (48 + n))"
  using of_char_digit [of n] by (simp add: is_digit_def)

lemma of_char_int: "(of_char c :: int) = int (of_char c)"
  by (rule of_nat_of_char [symmetric])

lemma digit_val_digit [simp]: "(n :: nat) < 10 \<Longrightarrow> digit_val (char_of (48 + n)) = int n"
  using of_char_digit [of n] unfolding digit_val_def of_char_int by simp

lemma getnum_two_digits [simp]:
  assumes "n < 100"
  shows "getnum fixed (two_digits n @ s) = Some (int n, s)"
proof -
  have "n div 10 < 10" "n mod 10 < 10"
    using assms by auto
  moreover have "10 * int (n div 10) + int (n mod 10) = int n"
    by presburger
  ultimately show ?thesis
    by (simp add: two_digits_def)
qed

lemma parse_hm_text [simp]:
  "h < 24 \<Longrightarrow> m < 60 \<Longrightarrow> parse_hm (hm_text h m @ s) = Some (int h, int m, s)"
  by (simp add: parse_hm_def hm_text_def)

lemma parse_layouts_hm:
  assumes "h < 24" "m < 60"
  shows "parse_layouts (hm_text h m) = Some \<lparr>clHour = int h, clMinute = int m, clSecond = 0, clNano = 0\<rparr>"
  using parse_hm_text [OF assms, of "[]"]
  by (simp add: parse_layouts_def parse_hms_layout_def parse_hm_layout_def)

lemma parse_layouts_hms:
  assumes "h < 24" "m < 60" "sec < 60"
  shows "parse_layouts (hms_text h m sec) =
    Some \<lparr>clHour = int h, clMinute = int m, clSecond = int sec, clNano = 0\<rparr>"
proof -
  have "getnum True (two_digits sec) = Some (int sec, [])"
    using getnum_two_digits [of sec True "[]"] assms(3) by simp
  then show ?thesis
    using assms by (simp add: parse_layouts_def parse_hms_layout_def hms_text_def fraction_def)
qed

lemma parse_hm_range:
  assumes "parse_hm s = Some (h, m, tail)"
  shows "0 \<le> h \<and> h < 24 \<and> 0 \<le> m \<and> m < 60"
proof -
  have val: "0 \<le> digit_val c" if "is_digit c" for c
    using that unfolding digit_val_def of_char_int is_digit_def by simp
  have "0 \<le> n" if "getnum fixed s = Some (n, s')" for fixed s n s'
    using that val
    by (induction fixed s rule: getnum.induct) (auto split: if_splits intro!: add_nonneg_nonneg)
  then show ?thesis
    using assms by (auto simp: parse_hm_def split: option.splits if_splits)
qed

end
