(* ===== verification/Json.thy ===== *)
theory Json
  imports Go_Text
begin

text \<open>
  \<open>encoding/json\<close> as far as the code uses it, on strings of bytes: the scanner with its limit on
  nesting, the values, \<open>json.Marshal\<close> with its escapes, \<open>strconv.ParseInt\<close>, and the rules by which
  the members of an object reach the fields of a struct. A value that \<open>Marshal\<close> writes is read back
  as it was.
\<close>

section \<open>Runes\<close>

abbreviation code :: "char \<Rightarrow> nat" where
  "code c \<equiv> of_char c"

definition continues :: "nat \<Rightarrow> nat \<Rightarrow> string \<Rightarrow> bool" where
  "continues lo hi s = (case s of [] \<Rightarrow> False | c # _ \<Rightarrow> lo \<le> code c \<and> code c \<le> hi)"

text \<open>The bytes of the UTF-8 encoding the string begins with; none if it begins with no encoding.\<close>

definition rune_len :: "string \<Rightarrow> nat" where
  "rune_len s = (case s of [] \<Rightarrow> 0 | c # r \<Rightarrow>
     (let b = code c; cont = continues 0x80 0xBF
      in if b < 0x80 then 1
         else if 0xC2 \<le> b \<and> b \<le> 0xDF \<and> cont r then 2
         else if 0xE0 \<le> b \<and> b \<le> 0xEF \<and>
           continues (if b = 0xE0 then 0xA0 else 0x80) (if b = 0xED then 0x9F else 0xBF) r \<and>
           cont (drop 1 r) then 3
         else if 0xF0 \<le> b \<and> b \<le> 0xF4 \<and>
           continues (if b = 0xF0 then 0x90 else 0x80) (if b = 0xF4 then 0x8F else 0xBF) r \<and>
           cont (drop 1 r) \<and> cont (drop 2 r) then 4
         else 0))"

definition utf8_encode :: "nat \<Rightarrow> string" where
  "utf8_encode n =
     (if n < 0x80 then [char_of n]
      else if n < 0x800 then [char_of (0xC0 + n div 64), char_of (0x80 + n mod 64)]
      else if n < 0x10000
      then [char_of (0xE0 + n div 4096), char_of (0x80 + n div 64 mod 64), char_of (0x80 + n mod 64)]
      else [char_of (0xF0 + n div 262144), char_of (0x80 + n div 4096 mod 64),
        char_of (0x80 + n div 64 mod 64), char_of (0x80 + n mod 64)])"

definition replacement_rune :: string where
  "replacement_rune = utf8_encode 0xFFFD"

section \<open>Strings\<close>

abbreviation quote_mark :: char where "quote_mark \<equiv> CHR 0x22"
abbreviation backslash :: char where "backslash \<equiv> CHR 0x5C"

definition hex_digit :: "nat \<Rightarrow> char" where
  "hex_digit n = ''0123456789abcdef'' ! (n mod 16)"

definition hex_value :: "char \<Rightarrow> nat option" where
  "hex_value c =
     (if 48 \<le> code c \<and> code c \<le> 57 then Some (code c - 48)
      else if 97 \<le> code c \<and> code c \<le> 102 then Some (code c - 87)
      else if 65 \<le> code c \<and> code c \<le> 70 then Some (code c - 55)
      else None)"

definition escape_ascii :: "char \<Rightarrow> string" where
  "escape_ascii c =
     (if c = backslash \<or> c = quote_mark then [backslash, c]
      else if c = CHR 0x08 then [backslash, CHR ''b'']
      else if c = CHR 0x0C then [backslash, CHR ''f'']
      else if c = CHR 0x0A then [backslash, CHR ''n'']
      else if c = CHR 0x0D then [backslash, CHR ''r'']
      else if c = CHR 0x09 then [backslash, CHR ''t'']
      else if code c < 32 \<or> c \<in> {CHR ''<'', CHR ''>'', CHR ''&''}
      then backslash # ''u00'' @ [hex_digit (code c div 16), hex_digit (code c)]
      else [c])"

function escape :: "string \<Rightarrow> string" where
  "escape [] = []"
| "escape (c # s) =
     (if code c < 0x80 then escape_ascii c @ escape s
      else let n = rune_len (c # s); r = take n (c # s)
        in if n = 0 then backslash # ''ufffd'' @ escape s
           else if r = [CHR 0xE2, CHR 0x80, CHR 0xA8] then backslash # ''u2028'' @ escape (drop (n - 1) s)
           else if r = [CHR 0xE2, CHR 0x80, CHR 0xA9] then backslash # ''u2029'' @ escape (drop (n - 1) s)
           else r @ escape (drop (n - 1) s))"
  by pat_completeness auto
termination by (relation "measure length") auto

definition hex4 :: "string \<Rightarrow> nat option" where
  "hex4 s = (case s of
     a # b # c # d # _ \<Rightarrow>
       (case (hex_value a, hex_value b, hex_value c, hex_value d) of
          (Some a, Some b, Some c, Some d) \<Rightarrow> Some (a * 4096 + b * 256 + c * 16 + d)
        | _ \<Rightarrow> None)
   | _ \<Rightarrow> None)"

definition simple_escape :: "char \<Rightarrow> char" where
  "simple_escape d =
     (if d = CHR ''b'' then CHR 0x08 else if d = CHR ''f'' then CHR 0x0C
      else if d = CHR ''n'' then CHR 0x0A else if d = CHR ''r'' then CHR 0x0D
      else if d = CHR ''t'' then CHR 0x09 else d)"

text \<open>The text after \<open>\u\<close>: the rune and how many bytes it takes. A lone surrogate is replaced.\<close>

definition unescape_rune :: "string \<Rightarrow> string \<times> nat" where
  "unescape_rune s =
     (case hex4 s of
        None \<Rightarrow> (replacement_rune, 4)
      | Some r \<Rightarrow>
          if r < 0xD800 \<or> 0xE000 \<le> r then (utf8_encode r, 4)
          else if r < 0xDC00 \<and> take 2 (drop 4 s) = [backslash, CHR ''u'']
          then (case hex4 (drop 6 s) of
              Some r1 \<Rightarrow>
                if 0xDC00 \<le> r1 \<and> r1 < 0xE000
                then (utf8_encode (0x10000 + (r - 0xD800) * 1024 + (r1 - 0xDC00)), 10)
                else (replacement_rune, 4)
            | None \<Rightarrow> (replacement_rune, 4))
          else (replacement_rune, 4))"

function unescape :: "string \<Rightarrow> string" where
  "unescape [] = []"
| "unescape (c # s) =
     (if c = backslash then
        (case s of
           [] \<Rightarrow> []
         | d # r \<Rightarrow>
             if d = CHR ''u''
             then fst (unescape_rune r) @ unescape (drop (snd (unescape_rune r)) r)
             else simple_escape d # unescape r)
      else if code c < 0x80 then c # unescape s
      else let n = rune_len (c # s)
        in if n = 0 then replacement_rune @ unescape s
           else take n (c # s) @ unescape (drop (n - 1) s))"
  by pat_completeness auto
termination by (relation "measure length") auto

declare escape.simps(2) [simp del] unescape.simps(2) [simp del]

section \<open>The scanner\<close>

datatype json =
    JNull
  | JBool bool
  | JNum string
  | JStr string
  | JArr "json list"
  | JObj "(string \<times> json) list"

text \<open>Reading a value: it is there, the input ends before it does, or no value begins like this.\<close>

datatype 'a parsed = Done 'a string | Short | Bad

fun then_parsed :: "'a parsed \<Rightarrow> ('a \<Rightarrow> string \<Rightarrow> 'b parsed) \<Rightarrow> 'b parsed" where
  "then_parsed (Done x rest) k = k x rest"
| "then_parsed Short k = Short"
| "then_parsed Bad k = Bad"

definition is_space :: "char \<Rightarrow> bool" where
  "is_space c \<longleftrightarrow> c \<in> {CHR 0x20, CHR 0x09, CHR 0x0D, CHR 0x0A}"

definition next_byte :: "string \<Rightarrow> (char \<Rightarrow> string \<Rightarrow> 'a parsed) \<Rightarrow> 'a parsed" where
  "next_byte s k = (case dropWhile is_space s of [] \<Rightarrow> Short | c # r \<Rightarrow> k c r)"

datatype in_string = Plain | Escaped | Hex nat

fun scan_string :: "in_string \<Rightarrow> string \<Rightarrow> string parsed" where
  "scan_string st [] = Short"
| "scan_string Plain (c # s) =
     (if c = quote_mark then Done [] s
      else if c = backslash then then_parsed (scan_string Escaped s) (\<lambda>r. Done (c # r))
      else if code c < 32 then Bad
      else then_parsed (scan_string Plain s) (\<lambda>r. Done (c # r)))"
| "scan_string Escaped (c # s) =
     (if c \<in> {CHR ''b'', CHR ''f'', CHR ''n'', CHR ''r'', CHR ''t'', backslash, CHR ''/'', quote_mark}
      then then_parsed (scan_string Plain s) (\<lambda>r. Done (c # r))
      else if c = CHR ''u'' then then_parsed (scan_string (Hex 3) s) (\<lambda>r. Done (c # r))
      else Bad)"
| "scan_string (Hex n) (c # s) =
     (if hex_value c \<noteq> None
      then then_parsed (scan_string (if n = 0 then Plain else Hex (n - 1)) s) (\<lambda>r. Done (c # r))
      else Bad)"

datatype in_number = NumSign | NumZero | NumInt | NumDot | NumFrac | NumExp | NumExpSign | NumExpInt

fun number_step :: "in_number \<Rightarrow> char \<Rightarrow> in_number option" where
  "number_step NumSign c = (if c = CHR ''0'' then Some NumZero else if is_digit c then Some NumInt else None)"
| "number_step NumZero c =
     (if c = CHR ''.'' then Some NumDot else if c \<in> {CHR ''e'', CHR ''E''} then Some NumExp else None)"
| "number_step NumInt c =
     (if is_digit c then Some NumInt else if c = CHR ''.'' then Some NumDot
      else if c \<in> {CHR ''e'', CHR ''E''} then Some NumExp else None)"
| "number_step NumDot c = (if is_digit c then Some NumFrac else None)"
| "number_step NumFrac c =
     (if is_digit c then Some NumFrac else if c \<in> {CHR ''e'', CHR ''E''} then Some NumExp else None)"
| "number_step NumExp c =
     (if c \<in> {CHR ''+'', CHR ''-''} then Some NumExpSign else if is_digit c then Some NumExpInt else None)"
| "number_step NumExpSign c = (if is_digit c then Some NumExpInt else None)"
| "number_step NumExpInt c = (if is_digit c then Some NumExpInt else None)"

definition number_ends :: "in_number \<Rightarrow> bool" where
  "number_ends st \<longleftrightarrow> st \<in> {NumZero, NumInt, NumFrac, NumExpInt}"

fun scan_number :: "in_number \<Rightarrow> string \<Rightarrow> string parsed" where
  "scan_number st [] = (if number_ends st then Done [] [] else Short)"
| "scan_number st (c # s) =
     (case number_step st c of
        Some st' \<Rightarrow> then_parsed (scan_number st' s) (\<lambda>r. Done (c # r))
      | None \<Rightarrow> if number_ends st then Done [] (c # s) else Bad)"

fun scan_literal :: "string \<Rightarrow> json \<Rightarrow> string \<Rightarrow> json parsed" where
  "scan_literal [] v s = Done v s"
| "scan_literal (p # ps) v [] = Short"
| "scan_literal (p # ps) v (c # s) = (if c = p then scan_literal ps v s else Bad)"

definition maxNestingDepth :: nat where
  "maxNestingDepth = 10000"

text \<open>
  Two calls deeper at least one byte is consumed, so twice the length of the input is fuel enough.
\<close>

fun scan_value :: "nat \<Rightarrow> nat \<Rightarrow> string \<Rightarrow> json parsed"
  and scan_items :: "nat \<Rightarrow> nat \<Rightarrow> string \<Rightarrow> json list parsed"
  and scan_members :: "nat \<Rightarrow> nat \<Rightarrow> string \<Rightarrow> (string \<times> json) list parsed" where
  "scan_value 0 d s = Bad"
| "scan_value (Suc n) d s =
     next_byte s (\<lambda>c r.
       if c = CHR ''{'' then
         if maxNestingDepth \<le> d then Bad
         else next_byte r (\<lambda>c' r'.
           if c' = CHR ''}'' then Done (JObj []) r'
           else then_parsed (scan_members n (Suc d) r) (\<lambda>ms. Done (JObj ms)))
       else if c = CHR ''['' then
         if maxNestingDepth \<le> d then Bad
         else next_byte r (\<lambda>c' r'.
           if c' = CHR '']'' then Done (JArr []) r'
           else then_parsed (scan_items n (Suc d) r) (\<lambda>vs. Done (JArr vs)))
       else if c = quote_mark then then_parsed (scan_string Plain r) (\<lambda>t. Done (JStr (unescape t)))
       else if c = CHR ''-'' then then_parsed (scan_number NumSign r) (\<lambda>t. Done (JNum (c # t)))
       else if c = CHR ''0'' then then_parsed (scan_number NumZero r) (\<lambda>t. Done (JNum (c # t)))
       else if is_digit c then then_parsed (scan_number NumInt r) (\<lambda>t. Done (JNum (c # t)))
       else if c = CHR ''t'' then scan_literal ''rue'' (JBool True) r
       else if c = CHR ''f'' then scan_literal ''alse'' (JBool False) r
       else if c = CHR ''n'' then scan_literal ''ull'' JNull r
       else Bad)"
| "scan_items 0 d s = Bad"
| "scan_items (Suc n) d s =
     then_parsed (scan_value n d s) (\<lambda>v rest. next_byte rest (\<lambda>c r.
       if c = CHR '']'' then Done [v] r
       else if c = CHR '','' then then_parsed (scan_items n d r) (\<lambda>vs. Done (v # vs))
       else Bad))"
| "scan_members 0 d s = Bad"
| "scan_members (Suc n) d s =
     next_byte s (\<lambda>c r.
       if c \<noteq> quote_mark then Bad
       else then_parsed (scan_string Plain r) (\<lambda>k rest. next_byte rest (\<lambda>c r.
         if c \<noteq> CHR '':'' then Bad
         else then_parsed (scan_value n d r) (\<lambda>v rest. next_byte rest (\<lambda>c r.
           if c = CHR ''}'' then Done [(unescape k, v)] r
           else if c = CHR '','' then then_parsed (scan_members n d r) (\<lambda>ms. Done ((unescape k, v) # ms))
           else Bad)))))"

definition scan :: "string \<Rightarrow> json parsed" where
  "scan s = scan_value (Suc (2 * length s)) 0 s"

text \<open>\<open>json.Unmarshal\<close> wants the whole input to be one value.\<close>

definition Unmarshal :: "string \<Rightarrow> json option" where
  "Unmarshal s =
     (case scan s of Done v rest \<Rightarrow> if dropWhile is_space rest = [] then Some v else None | _ \<Rightarrow> None)"

section \<open>Enough fuel\<close>

lemma then_parsed_Done:
  "then_parsed p k = Done y rest \<longleftrightarrow> (\<exists>x r. p = Done x r \<and> k x r = Done y rest)"
  by (cases p) auto

lemma next_byte_Done:
  assumes "next_byte s k = Done v rest"
  obtains c r where "k c r = Done v rest" "length r < length s"
proof -
  obtain c r where cr: "dropWhile is_space s = c # r" "k c r = Done v rest"
    using assms by (auto simp: next_byte_def split: list.splits)
  have "length (c # r) \<le> length s"
    using length_dropWhile_le [of is_space s] cr(1) by simp
  then show thesis
    using that [OF cr(2)] by simp
qed

lemma then_parsed_cong:
  "p = q \<Longrightarrow> (\<And>x r. q = Done x r \<Longrightarrow> k x r = k' x r) \<Longrightarrow> then_parsed p k = then_parsed q k'"
  by (cases q) auto

lemma next_byte_cong:
  assumes "\<And>c r. length r < length s \<Longrightarrow> k c r = k' c r"
  shows "next_byte s k = next_byte s k'"
proof (cases "dropWhile is_space s")
  case (Cons c r)
  then have "length r < length s"
    using length_dropWhile_le [of is_space s] by simp
  with Cons show ?thesis
    by (simp add: next_byte_def assms)
qed (simp only: next_byte_def list.case)

lemma scan_string_shorter: "scan_string st s = Done t rest \<Longrightarrow> length rest < length s"
  by (induction st s arbitrary: t rest rule: scan_string.induct)
    (auto simp: then_parsed_Done less_Suc_eq split: if_splits)

lemma scan_number_shorter: "scan_number st s = Done t rest \<Longrightarrow> length rest \<le> length s"
  by (induction st s arbitrary: t rest rule: scan_number.induct)
    (auto simp: then_parsed_Done le_Suc_eq split: if_splits option.splits)

lemma scan_literal_shorter: "scan_literal p v s = Done u rest \<Longrightarrow> length rest \<le> length s"
  by (induction p v s rule: scan_literal.induct) (auto simp: le_Suc_eq split: if_splits)

lemma scan_shorter_all:
  "(\<forall>d s v rest. scan_value n d s = Done v rest \<longrightarrow> length rest < length s) \<and>
   (\<forall>d s vs rest. scan_items n d s = Done vs rest \<longrightarrow> length rest < length s) \<and>
   (\<forall>d s ms rest. scan_members n d s = Done ms rest \<longrightarrow> length rest < length s)"
proof (induction n)
  case (Suc n)
  then have ih: "scan_value n d s = Done v rest \<Longrightarrow> length rest < length s"
      "scan_items n d s = Done vs rest \<Longrightarrow> length rest < length s"
      "scan_members n d s = Done ms rest \<Longrightarrow> length rest < length s" for d s v vs ms rest
    by blast+
  have "length rest < length s" if "scan_value (Suc n) d s = Done v rest" for d s v rest
    using that
    by (auto split: if_splits elim!: next_byte_Done simp: then_parsed_Done
        dest!: scan_string_shorter scan_number_shorter scan_literal_shorter ih(2,3))
  moreover have "length rest < length s" if "scan_items (Suc n) d s = Done vs rest" for d s vs rest
    using that by (auto simp: then_parsed_Done elim!: next_byte_Done split: if_splits dest!: ih)
  moreover have "length rest < length s" if "scan_members (Suc n) d s = Done ms rest" for d s ms rest
    using that
    by (auto simp: then_parsed_Done elim!: next_byte_Done split: if_splits
        dest!: ih scan_string_shorter)
  ultimately show ?case
    by blast
qed simp

lemma scan_shorter:
  "scan_value n d s = Done v rest \<Longrightarrow> length rest < length s"
  "scan_items n d s = Done vs rest \<Longrightarrow> length rest < length s"
  "scan_members n d s = Done ms rest \<Longrightarrow> length rest < length s"
  using scan_shorter_all by blast+

lemma scan_fuel_step:
  "(\<forall>d s. 2 * length s < n \<longrightarrow> scan_value (Suc n) d s = scan_value n d s) \<and>
   (\<forall>d s. 2 * length s + 1 < n \<longrightarrow> scan_items (Suc n) d s = scan_items n d s) \<and>
   (\<forall>d s. 2 * length s < n \<longrightarrow> scan_members (Suc n) d s = scan_members n d s)"
proof (induction n)
  case (Suc n)
  then have ih: "2 * length s < n \<Longrightarrow> scan_value (Suc n) d s = scan_value n d s"
      "2 * length s + 1 < n \<Longrightarrow> scan_items (Suc n) d s = scan_items n d s"
      "2 * length s < n \<Longrightarrow> scan_members (Suc n) d s = scan_members n d s" for d s
    by blast+
  have "scan_value (Suc (Suc n)) d s = scan_value (Suc n) d s" if "2 * length s < Suc n" for d s
    unfolding scan_value.simps(2) [of "Suc n" d s] scan_value.simps(2) [of n d s]
    by (intro next_byte_cong if_cong refl then_parsed_cong ih) (use that in auto)
  moreover have "scan_items (Suc (Suc n)) d s = scan_items (Suc n) d s" if "2 * length s + 1 < Suc n" for d s
    unfolding scan_items.simps(2) [of "Suc n" d s] scan_items.simps(2) [of n d s]
    by (intro next_byte_cong if_cong refl then_parsed_cong ih; (drule scan_shorter)?) (use that in auto)
  moreover have "scan_members (Suc (Suc n)) d s = scan_members (Suc n) d s" if "2 * length s < Suc n" for d s
    unfolding scan_members.simps(2) [of "Suc n" d s] scan_members.simps(2) [of n d s]
    by (intro next_byte_cong if_cong refl then_parsed_cong ih;
        (drule scan_shorter)?; (drule scan_string_shorter)?) (use that in auto)
  ultimately show ?case
    by blast
qed simp

lemma scan_value_fuel:
  assumes "2 * length s < n" "n \<le> m"
  shows "scan_value m d s = scan_value n d s"
  using assms(2,1)
proof (induction m rule: dec_induct)
  case (step m)
  then show ?case
    using scan_fuel_step [of m] by (metis dual_order.strict_trans1)
qed simp

section \<open>Writing\<close>

fun join :: "string \<Rightarrow> string list \<Rightarrow> string" where
  "join sep [] = []"
| "join sep [x] = x"
| "join sep (x # y # xs) = x @ sep @ join sep (y # xs)"

definition json_quote :: "string \<Rightarrow> string" where
  "json_quote s = quote_mark # escape s @ [quote_mark]"

fun Marshal :: "json \<Rightarrow> string" where
  "Marshal JNull = ''null''"
| "Marshal (JBool b) = (if b then ''true'' else ''false'')"
| "Marshal (JNum t) = t"
| "Marshal (JStr s) = json_quote s"
| "Marshal (JArr vs) = ''['' @ join '','' (map Marshal vs) @ '']''"
| "Marshal (JObj ms) =
     ''{'' @ join '','' (map (\<lambda>m. json_quote (fst m) @ '':'' @ Marshal (snd m)) ms) @ ''}''"

section \<open>What is written is read\<close>

definition number_start :: "char \<Rightarrow> in_number option" where
  "number_start c =
     (if c = CHR ''-'' then Some NumSign else if c = CHR ''0'' then Some NumZero
      else if is_digit c then Some NumInt else None)"

definition number_ok :: "string \<Rightarrow> bool" where
  "number_ok t = (case t of [] \<Rightarrow> False | c # r \<Rightarrow>
     (case number_start c of None \<Rightarrow> False | Some st \<Rightarrow> scan_number st r = Done r []))"

text \<open>ASCII strings, numbers as JSON wants them, and not nested too deep below level \<open>d\<close>.\<close>

fun plain :: "nat \<Rightarrow> json \<Rightarrow> bool" where
  "plain d (JNum t) = number_ok t"
| "plain d (JStr s) = list_all is_ascii s"
| "plain d (JArr vs) = (d < maxNestingDepth \<and> list_all (plain (Suc d)) vs)"
| "plain d (JObj ms) =
     (d < maxNestingDepth \<and> list_all (\<lambda>m. list_all is_ascii (fst m) \<and> plain (Suc d) (snd m)) ms)"
| "plain d _ = True"

definition delimiter :: "char \<Rightarrow> bool" where
  "delimiter c \<longleftrightarrow> c \<in> {CHR '','', CHR '']'', CHR ''}''}"

definition delimited :: "string \<Rightarrow> bool" where
  "delimited s = (case s of [] \<Rightarrow> True | c # _ \<Rightarrow> delimiter c)"

lemma hex_value_digit [simp]: "hex_value (hex_digit n) = Some (n mod 16)"
proof -
  have "\<forall>k < 16. hex_value (''0123456789abcdef'' ! k) = Some k"
    by (simp add: All_less_Suc eval_nat_numeral hex_value_def)
  then show ?thesis
    by (simp add: hex_digit_def)
qed

lemma hex_value_0 [simp]: "hex_value (CHR ''0'') = Some 0"
  by (simp add: hex_value_def)

text \<open>The three ways an ASCII byte is written.\<close>

lemma escape_ascii_cases:
  obtains (short) e where "escape_ascii c = [backslash, e]" "simple_escape e = c" "e \<noteq> CHR ''u''"
      "e \<in> {CHR ''b'', CHR ''f'', CHR ''n'', CHR ''r'', CHR ''t'', backslash, CHR ''/'', quote_mark}"
  | (hex) "escape_ascii c = backslash # ''u00'' @ [hex_digit (code c div 16), hex_digit (code c)]"
  | (same) "escape_ascii c = [c]" "c \<noteq> backslash" "c \<noteq> quote_mark" "\<not> code c < 32"
proof -
  consider "c = backslash" | "c = quote_mark" | "c = CHR 0x08" | "c = CHR 0x0C" | "c = CHR 0x0A"
    | "c = CHR 0x0D" | "c = CHR 0x09"
    | "c \<notin> {backslash, quote_mark, CHR 0x08, CHR 0x0C, CHR 0x0A, CHR 0x0D, CHR 0x09}"
    by blast
  then show thesis
  proof cases
    case 1 then show thesis by (intro short [of backslash]) (simp_all add: escape_ascii_def simple_escape_def)
  next
    case 2 then show thesis by (intro short [of quote_mark]) (simp_all add: escape_ascii_def simple_escape_def)
  next
    case 3 then show thesis by (intro short [of "CHR ''b''"]) (simp_all add: escape_ascii_def simple_escape_def)
  next
    case 4 then show thesis by (intro short [of "CHR ''f''"]) (simp_all add: escape_ascii_def simple_escape_def)
  next
    case 5 then show thesis by (intro short [of "CHR ''n''"]) (simp_all add: escape_ascii_def simple_escape_def)
  next
    case 6 then show thesis by (intro short [of "CHR ''r''"]) (simp_all add: escape_ascii_def simple_escape_def)
  next
    case 7 then show thesis by (intro short [of "CHR ''t''"]) (simp_all add: escape_ascii_def simple_escape_def)
  next
    case 8
    show thesis
    proof (cases "code c < 32 \<or> c \<in> {CHR ''<'', CHR ''>'', CHR ''&''}")
      case True
      with 8 have "escape_ascii c = backslash # ''u00'' @ [hex_digit (code c div 16), hex_digit (code c)]"
        unfolding escape_ascii_def by simp
      then show thesis by (rule hex)
    next
      case False
      with 8 have "escape_ascii c = [c]"
        unfolding escape_ascii_def by simp
      then show thesis
        using 8 False by (intro same) simp_all
    qed
  qed
qed

lemma unescape_ascii:
  assumes "is_ascii c"
  shows "unescape (escape_ascii c @ r) = c # unescape r"
proof (cases rule: escape_ascii_cases [of c])
  case (short e)
  show ?thesis
    by (simp add: short(1-3) unescape.simps(2) [of backslash])
next
  case hex
  have small: "code c < 128"
    using assms by (simp add: is_ascii_def)
  have "code c div 16 mod 16 = code c div 16"
    using small by (intro mod_less) (simp add: less_mult_imp_div_less)
  then have "code c div 16 mod 16 * 16 + code c mod 16 = code c"
    by (simp only: div_mult_mod_eq)
  then have "hex4 (CHR ''0'' # CHR ''0'' # hex_digit (code c div 16) # hex_digit (code c) # r) = Some (code c)"
    by (simp add: hex4_def)
  moreover have "utf8_encode (code c) = [c]"
    using small by (simp add: utf8_encode_def)
  ultimately show ?thesis
    using small by (simp add: hex unescape.simps(2) [of backslash] unescape_rune_def)
next
  case same
  show ?thesis
    using assms by (simp add: same unescape.simps(2) [of c] is_ascii_def)
qed

lemma unescape_escape: "list_all is_ascii s \<Longrightarrow> unescape (escape s) = s"
  by (induction s) (auto simp: escape.simps(2) unescape_ascii is_ascii_def)

lemma scan_escape_ascii:
  "scan_string Plain (escape_ascii c @ r) = then_parsed (scan_string Plain r) (\<lambda>t. Done (escape_ascii c @ t))"
proof (cases rule: escape_ascii_cases [of c])
  case (short e)
  show ?thesis
    by (cases "scan_string Plain r") (simp_all only: short(1) append_Cons append_Nil scan_string.simps
        short(4) if_True then_parsed.simps char.inject simp_thms refl if_False)
next
  case hex
  show ?thesis
    by (cases "scan_string Plain r") (simp_all add: hex)
next
  case same
  show ?thesis
    by (cases "scan_string Plain r") (simp_all add: same)
qed

lemma scan_escape:
  "list_all is_ascii s \<Longrightarrow> scan_string Plain (escape s @ quote_mark # rest) = Done (escape s) rest"
  by (induction s) (auto simp: escape.simps(2) scan_escape_ascii is_ascii_def)

lemma scan_number_extend:
  "scan_number st t = Done t [] \<Longrightarrow> delimited rest \<Longrightarrow> scan_number st (t @ rest) = Done t rest"
proof (induction st t rule: scan_number.induct)
  case (1 st)
  then show ?case
    by (cases rest; cases st) (auto simp: delimited_def delimiter_def number_ends_def is_digit_def split: if_splits)
next
  case (2 st c s)
  then show ?case
    by (auto simp: then_parsed_Done split: option.splits if_splits)
qed

lemma scan_number_value:
  assumes "number_ok t" "delimited rest"
  shows "scan_value (Suc n) d (t @ rest) = Done (JNum t) rest"
proof -
  obtain c r st where t: "t = c # r" "number_start c = Some st" "scan_number st r = Done r []"
    using assms(1) by (auto simp: number_ok_def split: list.splits option.splits)
  have "scan_number st (r @ rest) = Done r rest"
    using t(3) assms(2) by (rule scan_number_extend)
  moreover have "\<not> is_space c"
    using t(2) by (auto simp: number_start_def is_space_def is_digit_def split: if_splits)
  moreover have "c \<noteq> CHR ''{'' \<and> c \<noteq> CHR ''['' \<and> c \<noteq> quote_mark"
    using t(2) by (auto simp: number_start_def is_digit_def split: if_splits)
  ultimately show ?thesis
    using t(1,2) by (simp add: next_byte_def number_start_def split: if_splits) auto
qed

lemma scan_string_value:
  "list_all is_ascii s \<Longrightarrow> scan_value (Suc n) d (json_quote s @ rest) = Done (JStr s) rest"
  by (simp add: next_byte_def is_space_def json_quote_def scan_escape unescape_escape)

lemma next_byte_head [simp]: "\<not> is_space c \<Longrightarrow> next_byte (c # r) k = k c r"
  by (simp add: next_byte_def)

lemma punctuation [simp]:
  "\<not> is_space quote_mark" "\<not> is_space CHR '',''" "\<not> is_space CHR '':''" "\<not> is_space CHR ''}''"
  "\<not> is_space CHR '']''" "\<not> is_space CHR ''{''" "\<not> is_space CHR ''[''"
  "\<not> is_space CHR ''n''" "\<not> is_space CHR ''t''" "\<not> is_space CHR ''f''"
  by (simp_all add: is_space_def)

lemma Marshal_head:
  assumes "plain d j"
  obtains c r where "Marshal j = c # r" "\<not> is_space c" "c \<noteq> CHR '']''" "c \<noteq> CHR ''}''"
proof (cases j)
  case (JNum t)
  obtain c r where t: "t = c # r" "number_start c \<noteq> None"
    using assms JNum by (auto simp: number_ok_def split: list.splits option.splits)
  then have "\<not> is_space c \<and> c \<noteq> CHR '']'' \<and> c \<noteq> CHR ''}''"
    by (auto simp: number_start_def is_space_def is_digit_def split: if_splits)
  with JNum t show thesis
    by (intro that) auto
next
  case (JBool b)
  then show thesis
    by (cases b) (auto intro: that)
qed (auto simp: json_quote_def intro: that)

lemma scan_items_written:
  assumes "\<And>v n rest. v \<in> set vs \<Longrightarrow> delimited rest \<Longrightarrow> 2 * length (Marshal v @ rest) < n \<Longrightarrow>
      scan_value n d (Marshal v @ rest) = Done v rest"
    and "vs \<noteq> []" "2 * length (join '','' (map Marshal vs) @ '']'' @ rest) + 1 < n"
  shows "scan_items n d (join '','' (map Marshal vs) @ '']'' @ rest) = Done vs rest"
  using assms
proof (induction vs arbitrary: n)
  case (Cons v vs)
  obtain m where n: "n = Suc m"
    using Cons.prems(3) by (cases n) auto
  show ?case
  proof (cases vs)
    case Nil
    then show ?thesis
      using Cons.prems(1) [of v "CHR '']'' # rest" m] Cons.prems(3)
      by (simp add: n delimited_def delimiter_def)
  next
    case (Cons v' vs')
    let ?rest = "join '','' (map Marshal vs) @ '']'' @ rest"
    have "scan_value m d (Marshal v @ CHR '','' # ?rest) = Done v (CHR '','' # ?rest)"
      using Cons.prems(1) [of v "CHR '','' # ?rest" m] Cons.prems(3) Cons
      by (simp add: n delimited_def delimiter_def)
    moreover have "scan_items m d ?rest = Done vs rest"
      using Cons.IH [of m] Cons.prems Cons by (simp add: n)
    ultimately show ?thesis
      by (simp add: n Cons)
  qed
qed simp

definition member_text :: "string \<times> json \<Rightarrow> string" where
  "member_text m = json_quote (fst m) @ '':'' @ Marshal (snd m)"

lemma Marshal_JObj: "Marshal (JObj ms) = ''{'' @ join '','' (map member_text ms) @ ''}''"
  by (simp add: member_text_def [abs_def])

lemma scan_members_written:
  assumes "\<And>m n rest. m \<in> set ms \<Longrightarrow> delimited rest \<Longrightarrow> 2 * length (Marshal (snd m) @ rest) < n \<Longrightarrow>
      scan_value n d (Marshal (snd m) @ rest) = Done (snd m) rest"
    and "\<And>m. m \<in> set ms \<Longrightarrow> list_all is_ascii (fst m)"
    and "ms \<noteq> []" "2 * length (join '','' (map member_text ms) @ ''}'' @ rest) < n"
  shows "scan_members n d (join '','' (map member_text ms) @ ''}'' @ rest) = Done ms rest"
  using assms
proof (induction ms arbitrary: n)
  case (Cons m ms)
  obtain l where n: "n = Suc l"
    using Cons.prems(4) by (cases n) auto
  have key: "list_all is_ascii (fst m)"
    using Cons.prems(2) by simp
  show ?case
  proof (cases ms)
    case Nil
    then show ?thesis
      using Cons.prems(1) [of m "CHR ''}'' # rest" l] Cons.prems(4) key
      by (simp add: n delimited_def delimiter_def member_text_def json_quote_def scan_escape unescape_escape)
  next
    case (Cons m' ms')
    let ?rest = "join '','' (map member_text ms) @ ''}'' @ rest"
    have "scan_value l d (Marshal (snd m) @ CHR '','' # ?rest) = Done (snd m) (CHR '','' # ?rest)"
      using Cons.prems(1) [of m "CHR '','' # ?rest" l] Cons.prems(4) Cons
      by (simp add: n delimited_def delimiter_def member_text_def [of m])
    moreover have "scan_members l d ?rest = Done ms rest"
      using Cons.IH [of l] Cons.prems Cons by (simp add: n)
    ultimately show ?thesis
      using key by (simp add: n Cons member_text_def [of m] json_quote_def scan_escape unescape_escape)
  qed
qed simp

lemma letters: "\<not> is_digit CHR ''t''" "\<not> is_digit CHR ''f''" "\<not> is_digit CHR ''n''"
  by (simp_all add: is_digit_def)

theorem scan_written:
  "plain d j \<Longrightarrow> delimited rest \<Longrightarrow> 2 * length (Marshal j @ rest) < n \<Longrightarrow>
    scan_value n d (Marshal j @ rest) = Done j rest"
proof (induction j arbitrary: d rest n)
  case (JArr vs)
  obtain m where n: "n = Suc m"
    using JArr.prems(3) by (cases n) auto
  show ?case
  proof (cases vs)
    case Nil
    then show ?thesis
      using JArr.prems(1) by (simp add: n)
  next
    case (Cons v vs')
    have items: "scan_items m (Suc d) (join '','' (map Marshal vs) @ '']'' @ rest) = Done vs rest"
      using JArr.prems Cons by (intro scan_items_written JArr.IH) (auto simp: n list_all_iff)
    from JArr.prems(1) Cons have "plain (Suc d) v"
      by simp
    then obtain c r where "Marshal v = c # r" "\<not> is_space c" "c \<noteq> CHR '']''"
      by (rule Marshal_head)
    then obtain r' where "join '','' (map Marshal vs) @ '']'' @ rest = c # r'"
      using Cons by (cases vs') auto
    then show ?thesis
      using items JArr.prems(1) \<open>\<not> is_space c\<close> \<open>c \<noteq> CHR '']''\<close> by (simp add: n)
  qed
next
  case (JObj ms)
  obtain m where n: "n = Suc m"
    using JObj.prems(3) by (cases n) auto
  show ?case
  proof (cases ms)
    case Nil
    then show ?thesis
      using JObj.prems(1) by (simp add: n)
  next
    case (Cons x ms')
    have members: "scan_members m (Suc d) (join '','' (map member_text ms) @ ''}'' @ rest) = Done ms rest"
      using JObj.prems Cons
      by (intro scan_members_written JObj.IH) (auto simp: n list_all_iff Marshal_JObj simp del: Marshal.simps)
    obtain r' where "join '','' (map member_text ms) @ ''}'' @ rest = quote_mark # r'"
      using Cons by (cases ms') (auto simp: member_text_def json_quote_def)
    then show ?thesis
      using members JObj.prems(1) by (simp add: n Marshal_JObj del: Marshal.simps)
  qed
next
  case (JNum t)
  then show ?case
    by (cases n) (simp_all add: scan_number_value del: scan_value.simps)
next
  case (JStr s)
  then show ?case
    by (cases n) (simp_all add: scan_string_value del: scan_value.simps)
next
  case (JBool b)
  then show ?case
    by (cases n; cases b) (simp_all add: letters)
next
  case JNull
  then show ?case
    by (cases n) (simp_all add: letters)
qed

lemma Unmarshal_Marshal: "plain 0 j \<Longrightarrow> Unmarshal (Marshal j) = Some j"
  using scan_written [of 0 j "[]" "Suc (2 * length (Marshal j))"]
  by (simp add: Unmarshal_def scan_def delimited_def)

section \<open>Integers\<close>

definition int64_min :: int where "int64_min = - 9223372036854775808"
definition int64_max :: int where "int64_max = 9223372036854775807"

text \<open>\<open>strconv.ParseInt(s, 10, 64)\<close> and \<open>strconv.Atoi\<close>.\<close>

definition ParseInt :: "string \<Rightarrow> int option" where
  "ParseInt s =
     (let (neg, ds) = (case s of
         [] \<Rightarrow> (False, [])
       | c # r \<Rightarrow> if c = CHR ''-'' then (True, r) else if c = CHR ''+'' then (False, r) else (False, s))
      in if ds = [] \<or> \<not> list_all is_digit ds then None
         else let v = (if neg then - digits_val ds else digits_val ds)
           in if int64_min \<le> v \<and> v \<le> int64_max then Some v else None)"

section \<open>Members and fields\<close>

text \<open>
  A member reaches the field with its name, or else the one whose name is equal up to case; under
  simple case folding two letters outside ASCII count as \<open>S\<close> and \<open>K\<close>. Members that reach no field
  are skipped, a later member overwrites an earlier one, \<open>null\<close> leaves the field alone, and a value
  of another type is an error of the whole call.
\<close>

fun fold_name :: "string \<Rightarrow> string" where
  "fold_name [] = []"
| "fold_name (c # s) =
     (if starts_with [CHR 0xC5, CHR 0xBF] (c # s) then CHR ''s'' # fold_name (drop 1 s)
      else if starts_with [CHR 0xE2, CHR 0x84, CHR 0xAA] (c # s) then CHR ''k'' # fold_name (drop 2 s)
      else lower_ascii c # fold_name s)"

definition field_values :: "string \<Rightarrow> (string \<times> json) list \<Rightarrow> json list" where
  "field_values name ms = map snd (filter (\<lambda>m. fold_name (fst m) = fold_name name) ms)"

fun set_field :: "(json \<Rightarrow> 'a \<Rightarrow> 'a option) \<Rightarrow> json list \<Rightarrow> 'a \<Rightarrow> 'a option" where
  "set_field put [] x = Some x"
| "set_field put (v # vs) x = (case put v x of None \<Rightarrow> None | Some x' \<Rightarrow> set_field put vs x')"

fun put_string :: "json \<Rightarrow> string \<Rightarrow> string option" where
  "put_string JNull x = Some x"
| "put_string (JStr s) x = Some s"
| "put_string _ x = None"

fun put_bool :: "json \<Rightarrow> bool \<Rightarrow> bool option" where
  "put_bool JNull x = Some x"
| "put_bool (JBool b) x = Some b"
| "put_bool _ x = None"

fun put_int :: "json \<Rightarrow> int \<Rightarrow> int option" where
  "put_int JNull x = Some x"
| "put_int (JNum t) x = ParseInt t"
| "put_int _ x = None"

fun put_pointer :: "(json \<Rightarrow> 'a \<Rightarrow> 'a option) \<Rightarrow> 'a \<Rightarrow> json \<Rightarrow> 'a option \<Rightarrow> 'a option option" where
  "put_pointer put zero JNull x = Some None"
| "put_pointer put zero v x = map_option Some (put v (case x of None \<Rightarrow> zero | Some y \<Rightarrow> y))"

fun put_elements :: "(json \<Rightarrow> 'a \<Rightarrow> 'a option) \<Rightarrow> 'a \<Rightarrow> json list \<Rightarrow> 'a list \<Rightarrow> 'a list option" where
  "put_elements put zero [] old = Some []"
| "put_elements put zero (v # vs) old =
     (case put v (case old of [] \<Rightarrow> zero | y # _ \<Rightarrow> y) of
        None \<Rightarrow> None
      | Some y \<Rightarrow> map_option (Cons y) (put_elements put zero vs (tl old)))"

fun put_slice :: "(json \<Rightarrow> 'a \<Rightarrow> 'a option) \<Rightarrow> 'a \<Rightarrow> json \<Rightarrow> 'a list \<Rightarrow> 'a list option" where
  "put_slice put zero JNull x = Some []"
| "put_slice put zero (JArr vs) x = put_elements put zero vs x"
| "put_slice put zero _ x = None"

definition into_struct :: "((string \<times> json) list \<Rightarrow> 'a option) \<Rightarrow> json \<Rightarrow> 'a option" where
  "into_struct get j = (case j of JObj ms \<Rightarrow> get ms | JNull \<Rightarrow> get [] | _ \<Rightarrow> None)"

lemma digits_val_snoc [simp]: "digits_val (ds @ [c]) = 10 * digits_val ds + digit_val c"
  by (simp add: digits_val_def)

lemma digit_char [simp]:
  assumes "k < 10"
  shows "is_digit (char_of (48 + k))" "digit_val (char_of (48 + k)) = int k"
proof -
  have "code (char_of (48 + k) :: char) = 48 + k"
    using assms by simp
  then show "is_digit (char_of (48 + k))"
    using assms by (simp add: is_digit_def)
  have "of_char (char_of (48 + k) :: char) = int (48 + k)"
    using assms by (metis \<open>code (char_of (48 + k) :: char) = 48 + k\<close> of_nat_of_char)
  then show "digit_val (char_of (48 + k)) = int k"
    by (simp add: digit_val_def)
qed

lemma digits_parse: "digits n \<noteq> [] \<and> list_all is_digit (digits n) \<and> digits_val (digits n) = int n"
proof (induction n rule: digits.induct)
  case (1 n)
  show ?case
  proof (cases "n < 10")
    case True
    then show ?thesis
      by (simp add: digits.simps [of n] digits_val_def [of "[_]"])
  next
    case False
    then have "digits_val (digits (n div 10)) = int (n div 10)" "list_all is_digit (digits (n div 10))"
      using 1 by simp_all
    then show ?thesis
      using False by (simp add: digits.simps [of n] zdiv_int zmod_int)
  qed
qed

lemma ParseInt_FormatInt:
  assumes "int64_min \<le> i" "i \<le> int64_max"
  shows "ParseInt (FormatInt i) = Some i"
proof (cases "i < 0")
  case True
  then show ?thesis
    using assms digits_parse [of "nat (- i)"] by (simp add: ParseInt_def FormatInt_def)
next
  case False
  obtain c r where c: "digits (nat i) = c # r" "is_digit c"
    using digits_parse [of "nat i"] by (cases "digits (nat i)") auto
  then have "c \<noteq> CHR ''-''" "c \<noteq> CHR ''+''"
    by (auto simp: is_digit_def)
  with c show ?thesis
    using assms False digits_parse [of "nat i"] by (simp add: ParseInt_def FormatInt_def)
qed

lemma scan_digits: "list_all is_digit ds \<Longrightarrow> scan_number NumInt ds = Done ds []"
  by (induction ds) (auto simp: number_ends_def)

lemma digits_head: "0 < n \<Longrightarrow> \<exists>c r. digits n = c # r \<and> c \<noteq> CHR ''0''"
proof (induction n rule: digits.induct)
  case (1 n)
  show ?case
  proof (cases "n < 10")
    case True
    have "digit_val CHR ''0'' = 0"
      by (simp add: digit_val_def)
    then have "char_of (48 + n) \<noteq> CHR ''0''"
      using digit_char(2) [OF True] 1(2) by (metis of_nat_0_less_iff less_irrefl)
    then show ?thesis
      using True by (simp add: digits.simps [of n])
  next
    case False
    then have "0 < n div 10"
      by simp
    then obtain c r where "digits (n div 10) = c # r" "c \<noteq> CHR ''0''"
      using 1(1) False by blast
    then show ?thesis
      using False by (simp add: digits.simps [of n])
  qed
qed

lemma number_digits: "number_ok (digits n) \<and> (0 < n \<longrightarrow> scan_number NumSign (digits n) = Done (digits n) [])"
proof (cases "n = 0")
  case True
  then show ?thesis
    by (simp add: digits.simps number_ok_def number_start_def char_of_def bit_0 number_ends_def)
next
  case False
  then obtain c r where c: "digits n = c # r" "c \<noteq> CHR ''0''"
    using digits_head [of n] by blast
  then have "is_digit c" "list_all is_digit r"
    using digits_parse [of n] by auto
  then show ?thesis
    using c by (auto simp: number_ok_def number_start_def scan_digits is_digit_def)
qed

lemma number_FormatInt [simp]: "number_ok (FormatInt i)"
  using number_digits [of "nat i"] number_digits [of "nat (- i)"]
  by (cases "i < 0") (auto simp: FormatInt_def number_ok_def number_start_def)

end
