(* ===== verification/Events.thy ===== *)
theory Events
  imports Transactions Json
begin

text \<open>
  Realtime events (\<open>internal/realtime/event.go\<close>, \<open>message.go\<close>), their JSON form and the Redis
  publisher (\<open>redis_publisher.go\<close>). The calls of the interface \<open>EventPublisher\<close> of the use cases are values of
  \<open>pub_call\<close>; \<open>publish\<close> runs one on a publisher, the Redis one or the no-op one of the use cases.
  Publishing is best effort: locale \<open>best_effort\<close> states what the use cases rely on.
\<close>

section \<open>Event types and targets\<close>

definition EventTypeSlotBooked :: string where "EventTypeSlotBooked = ''slot_booked''"
definition EventTypeSlotReleased :: string where "EventTypeSlotReleased = ''slot_released''"
definition EventTypeSlotAvailable :: string where "EventTypeSlotAvailable = ''slot_available''"
definition EventTypeSlotReserved :: string where "EventTypeSlotReserved = ''slot_reserved''"
definition EventTypeSlotReservationExpired :: string where
  "EventTypeSlotReservationExpired = ''slot_reservation_expired''"
definition EventTypeWaitlistSlotAvailable :: string where
  "EventTypeWaitlistSlotAvailable = ''waitlist_slot_available''"
definition EventTypeWaitlistSlotReserved :: string where
  "EventTypeWaitlistSlotReserved = ''waitlist_slot_reserved''"
definition EventTypeReservationExpired :: string where
  "EventTypeReservationExpired = ''reservation_expired''"
definition EventTargetRoom :: string where "EventTargetRoom = ''room''"
definition EventTargetUser :: string where "EventTargetUser = ''user''"

lemmas event_names = EventTypeSlotBooked_def EventTypeSlotReleased_def EventTypeSlotAvailable_def
  EventTypeSlotReserved_def EventTypeSlotReservationExpired_def EventTypeWaitlistSlotAvailable_def
  EventTypeWaitlistSlotReserved_def EventTypeReservationExpired_def EventTargetRoom_def
  EventTargetUser_def

definition room_event_types :: "string list" where
  "room_event_types = [EventTypeSlotBooked, EventTypeSlotReleased, EventTypeSlotAvailable,
     EventTypeSlotReserved, EventTypeSlotReservationExpired]"

definition user_event_types :: "string list" where
  "user_event_types =
     [EventTypeWaitlistSlotAvailable, EventTypeWaitlistSlotReserved, EventTypeReservationExpired]"

section \<open>Constructors\<close>

definition no_event :: event where
  "no_event = \<lparr>evType = '''', evTarget = '''', evRoomID = '''', evUserID = '''', evSlotID = '''',
     evBookingID = '''', evReservationID = '''', evWaitlistEntryID = '''', evExpiresAt = '''',
     evTimestamp = ''''\<rparr>"

definition NewRoomEvent :: "ext \<Rightarrow> string \<Rightarrow> uuid \<Rightarrow> uuid \<Rightarrow> uuid \<Rightarrow> time \<Rightarrow> event" where
  "NewRoomEvent x eventType roomID slotID bookingID now =
     no_event\<lparr>evType := eventType, evTarget := EventTargetRoom, evRoomID := uuid_String x roomID,
       evSlotID := uuid_String x slotID, evBookingID := uuid_String x bookingID,
       evTimestamp := format_RFC3339 x now\<rparr>"

definition NewUserEvent ::
  "ext \<Rightarrow> string \<Rightarrow> uuid \<Rightarrow> uuid \<Rightarrow> uuid \<Rightarrow> uuid \<Rightarrow> time \<Rightarrow> event" where
  "NewUserEvent x eventType roomID slotID userID waitlistEntryID now =
     no_event\<lparr>evType := eventType, evTarget := EventTargetUser, evRoomID := uuid_String x roomID,
       evUserID := uuid_String x userID, evSlotID := uuid_String x slotID,
       evWaitlistEntryID := uuid_String x waitlistEntryID, evTimestamp := format_RFC3339 x now\<rparr>"

definition NewReservationRoomEvent ::
  "ext \<Rightarrow> string \<Rightarrow> uuid \<Rightarrow> uuid \<Rightarrow> uuid \<Rightarrow> time \<Rightarrow> event" where
  "NewReservationRoomEvent x eventType roomID slotID reservationID now =
     no_event\<lparr>evType := eventType, evTarget := EventTargetRoom, evRoomID := uuid_String x roomID,
       evSlotID := uuid_String x slotID, evReservationID := uuid_String x reservationID,
       evTimestamp := format_RFC3339 x now\<rparr>"

definition NewSlotAvailableEvent :: "ext \<Rightarrow> uuid \<Rightarrow> uuid \<Rightarrow> time \<Rightarrow> event" where
  "NewSlotAvailableEvent x roomID slotID now =
     no_event\<lparr>evType := EventTypeSlotAvailable, evTarget := EventTargetRoom,
       evRoomID := uuid_String x roomID, evSlotID := uuid_String x slotID,
       evTimestamp := format_RFC3339 x now\<rparr>"

definition NewWaitlistReservationEvent ::
  "ext \<Rightarrow> string \<Rightarrow> uuid \<Rightarrow> uuid \<Rightarrow> uuid \<Rightarrow> uuid \<Rightarrow> uuid \<Rightarrow> time \<Rightarrow> time \<Rightarrow> event" where
  "NewWaitlistReservationEvent x eventType roomID slotID userID reservationID waitlistEntryID
      expiresAt now =
     no_event\<lparr>evType := eventType, evTarget := EventTargetUser, evRoomID := uuid_String x roomID,
       evUserID := uuid_String x userID, evSlotID := uuid_String x slotID,
       evReservationID := uuid_String x reservationID,
       evWaitlistEntryID := uuid_String x waitlistEntryID,
       evExpiresAt := format_RFC3339 x expiresAt, evTimestamp := format_RFC3339 x now\<rparr>"

definition NewReservationExpiredEvent ::
  "ext \<Rightarrow> string \<Rightarrow> uuid \<Rightarrow> uuid \<Rightarrow> uuid \<Rightarrow> uuid \<Rightarrow> time \<Rightarrow> event" where
  "NewReservationExpiredEvent x eventType roomID slotID userID reservationID now =
     no_event\<lparr>evType := eventType, evTarget := EventTargetUser, evRoomID := uuid_String x roomID,
       evUserID := uuid_String x userID, evSlotID := uuid_String x slotID,
       evReservationID := uuid_String x reservationID, evTimestamp := format_RFC3339 x now\<rparr>"

section \<open>Validation\<close>

definition RoomUUID :: "ext \<Rightarrow> event \<Rightarrow> uuid option" where
  "RoomUUID x e = uuid_Parse x (evRoomID e)"

definition UserUUID :: "ext \<Rightarrow> event \<Rightarrow> uuid option" where
  "UserUUID x e = uuid_Parse x (evUserID e)"

definition Validate :: "ext \<Rightarrow> event \<Rightarrow> go_error option" where
  "Validate x e =
     (if evType e \<notin> set (room_event_types @ user_event_types)
        then Some (TextError (''unsupported event type: '' @ evType e))
      else if evTarget e \<noteq> EventTargetRoom \<and> evTarget e \<noteq> EventTargetUser
        then Some (TextError (''unsupported event target: '' @ evTarget e))
      else if evType e \<in> set room_event_types \<and> evTarget e \<noteq> EventTargetRoom
        then Some (TextError (''event type '' @ evType e @ '' requires room target''))
      else if evType e \<in> set user_event_types \<and> evTarget e \<noteq> EventTargetUser
        then Some (TextError (''event type '' @ evType e @ '' requires user target''))
      else if RoomUUID x e = None then Some (TextError ''invalid roomId'')
      else if evTarget e = EventTargetUser \<and> UserUUID x e = None
        then Some (TextError ''invalid userId'')
      else if uuid_Parse x (evSlotID e) = None then Some (TextError ''invalid slotId'')
      else if evType e \<in> {EventTypeSlotBooked, EventTypeSlotReleased} \<and>
          uuid_Parse x (evBookingID e) = None then Some (TextError ''invalid bookingId'')
      else if evType e \<in> {EventTypeSlotReserved, EventTypeSlotReservationExpired,
            EventTypeReservationExpired} \<and>
          uuid_Parse x (evReservationID e) = None then Some (TextError ''invalid reservationId'')
      else if evType e \<in> {EventTypeWaitlistSlotAvailable, EventTypeWaitlistSlotReserved} \<and>
          uuid_Parse x (evWaitlistEntryID e) = None
        then Some (TextError ''invalid waitlistEntryId'')
      else if evType e = EventTypeWaitlistSlotReserved \<and> uuid_Parse x (evReservationID e) = None
        then Some (TextError ''invalid reservationId'')
      else if evType e = EventTypeWaitlistSlotReserved \<and> parse_RFC3339 x (evExpiresAt e) = None
        then Some (TextError ''invalid expiresAt'')
      else if parse_RFC3339 x (evTimestamp e) = None then Some (TextError ''invalid timestamp'')
      else None)"

record server_message =
  smType :: string
  smRoomID :: string
  smUserID :: string
  smSlotID :: string
  smBookingID :: string
  smReservationID :: string
  smWaitlistEntryID :: string
  smExpiresAt :: string
  smTimestamp :: string
  smMessage :: string

definition ToServerMessage :: "event \<Rightarrow> server_message" where
  "ToServerMessage e =
     \<lparr>smType = evType e, smRoomID = evRoomID e, smUserID = evUserID e, smSlotID = evSlotID e,
      smBookingID = evBookingID e, smReservationID = evReservationID e,
      smWaitlistEntryID = evWaitlistEntryID e, smExpiresAt = evExpiresAt e,
      smTimestamp = evTimestamp e, smMessage = ''''\<rparr>"

section \<open>Publishing\<close>

datatype pub_call =
    SlotBooked uuid uuid uuid
  | SlotReleased uuid uuid uuid
  | SlotAvailable uuid uuid
  | SlotReserved uuid uuid uuid
  | SlotReservationExpired uuid uuid uuid
  | WaitlistSlotAvailable uuid uuid uuid uuid
  | WaitlistSlotReserved uuid uuid uuid uuid uuid time
  | ReservationExpiredCall uuid uuid uuid uuid

fun event_of :: "ext \<Rightarrow> time \<Rightarrow> pub_call \<Rightarrow> event" where
  "event_of x now (SlotBooked roomID slotID bookingID) =
     NewRoomEvent x EventTypeSlotBooked roomID slotID bookingID now"
| "event_of x now (SlotReleased roomID slotID bookingID) =
     NewRoomEvent x EventTypeSlotReleased roomID slotID bookingID now"
| "event_of x now (SlotAvailable roomID slotID) = NewSlotAvailableEvent x roomID slotID now"
| "event_of x now (SlotReserved roomID slotID reservationID) =
     NewReservationRoomEvent x EventTypeSlotReserved roomID slotID reservationID now"
| "event_of x now (SlotReservationExpired roomID slotID reservationID) =
     NewReservationRoomEvent x EventTypeSlotReservationExpired roomID slotID reservationID now"
| "event_of x now (WaitlistSlotAvailable roomID slotID userID waitlistEntryID) =
     NewUserEvent x EventTypeWaitlistSlotAvailable roomID slotID userID waitlistEntryID now"
| "event_of x now (WaitlistSlotReserved roomID slotID userID reservationID waitlistEntryID expiresAt) =
     NewWaitlistReservationEvent x EventTypeWaitlistSlotReserved roomID slotID userID reservationID
       waitlistEntryID expiresAt now"
| "event_of x now (ReservationExpiredCall roomID slotID userID reservationID) =
     NewReservationExpiredEvent x EventTypeReservationExpired roomID slotID userID reservationID now"

text \<open>The members \<open>json.Marshal\<close> writes for an \<open>Event\<close>; \<open>omitempty\<close> leaves empty strings out.\<close>

definition omit_empty :: "string \<Rightarrow> string \<Rightarrow> (string \<times> json) list" where
  "omit_empty name v = (if v = [] then [] else [(name, JStr v)])"

definition event_json :: "event \<Rightarrow> json" where
  "event_json e =
     JObj ([(''type'', JStr (evType e)), (''target'', JStr (evTarget e))] @
       omit_empty ''roomId'' (evRoomID e) @ omit_empty ''userId'' (evUserID e) @
       [(''slotId'', JStr (evSlotID e))] @ omit_empty ''bookingId'' (evBookingID e) @
       omit_empty ''reservationId'' (evReservationID e) @
       omit_empty ''waitlistEntryId'' (evWaitlistEntryID e) @
       omit_empty ''expiresAt'' (evExpiresAt e) @ [(''timestamp'', JStr (evTimestamp e))])"

record redis_publisher =
  rpClient :: bool
  rpChannel :: string

definition sanitizeLabel :: "string \<Rightarrow> string \<Rightarrow> string" where
  "sanitizeLabel v fallback = (if v = [] then fallback else v)"

definition IncRedisRealtimePublish :: "string \<Rightarrow> string \<Rightarrow> unit go" where
  "IncRedisRealtimePublish eventType result =
     inc (RedisPublish (sanitizeLabel eventType ''unknown'') (sanitizeLabel result ''unknown''))"

definition redis_send :: "string \<Rightarrow> string \<Rightarrow> bool go" where
  "redis_send channel payload = State (\<lambda>w.
     if redis_down_at (env w) (ticks w) then (False, tick w)
     else (True, (tick w)\<lparr>outbox := outbox w @ [(channel, payload)]\<rparr>))"

definition publishEvent :: "redis_publisher \<Rightarrow> event \<Rightarrow> unit go" where
  "publishEvent p e =
     (if \<not> rpClient p then State_Monad.return ()
      else if rpChannel p = '''' then IncRedisRealtimePublish (evType e) ''error''
      else do {
        sent \<leftarrow> redis_send (rpChannel p) (Marshal (event_json e));
        (if sent then IncRedisRealtimePublish (evType e) ''success''
         else IncRedisRealtimePublish (evType e) ''error'')
      })"

datatype publisher = NoopPublisher | RedisPublisher redis_publisher

text \<open>Without a publisher the services use one whose methods do nothing.\<close>

definition noopEventPublisher :: "pub_call \<Rightarrow> unit go" where [simp]:
  "noopEventPublisher c = State_Monad.return ()"

fun publish :: "publisher \<Rightarrow> pub_call \<Rightarrow> unit go" where
  "publish NoopPublisher c = noopEventPublisher c"
| "publish (RedisPublisher p) c = do {
     now \<leftarrow> now_utc;
     x \<leftarrow> asks id;
     publishEvent p (event_of x now c)
   }"

fun publish_all :: "publisher \<Rightarrow> pub_call list \<Rightarrow> unit go" where
  "publish_all p [] = State_Monad.return ()"
| "publish_all p (c # cs) = do { publish p c; publish_all p cs }"

section \<open>What the use cases rely on\<close>

text \<open>
  A computation that leaves the database and the outside alone. Metrics and publishing are of this
  kind, whatever happens to Redis, so the outcome of a use case does not depend on them.
\<close>

locale best_effort =
  fixes act :: "'c \<Rightarrow> unit go"
  assumes keeps_db: "db (snd (run_state (act c) w)) = db w"
    and keeps_env: "env (snd (run_state (act c) w)) = env w"
begin

lemma runD: "run_state (act c) w = (u, w') \<Longrightarrow> db w' = db w \<and> env w' = env w"
  using keeps_db [of c w] keeps_env [of c w] by simp

lemma then_db: "run_state (State_Monad.bind (act c) (\<lambda>_. k)) w = run_state k (snd (run_state (act c) w))"
  by (simp split: prod.split)

lemma then_ok_db:
  "run_state (State_Monad.bind (act c) (\<lambda>_. ok x)) w = (Inr x, snd (run_state (act c) w))"
  "run_state (State_Monad.bind (act c) (\<lambda>_. fail e)) w = (Inl e, snd (run_state (act c) w))"
  by (simp_all add: ok_def fail_def split: prod.split)

end

interpretation metric: best_effort inc
  by unfold_locales simp_all

interpretation publishing: best_effort "publish p" for p
  by unfold_locales
    (cases p; simp add: publishEvent_def redis_send_def IncRedisRealtimePublish_def del: Marshal.simps split: prod.split)+

interpretation publishing_all: best_effort "publish_all p" for p
proof
  show "db (snd (run_state (publish_all p cs) w)) = db w" for cs w
    using publishing.keeps_db
    by (induction cs arbitrary: w) (simp_all split: prod.split, metis snd_conv)
  show "env (snd (run_state (publish_all p cs) w)) = env w" for cs w
    using publishing.keeps_env
    by (induction cs arbitrary: w) (simp_all split: prod.split, metis snd_conv)
qed

end
