(* ===== verification/Sample.thy ===== *)
theory Sample
  imports Invariants Events
begin

text \<open>
  A small concrete world: three users and an administrator beside the owner of a booking, a room with
  three slots, one of them booked with two users waiting, one reserved for a waiting user. It shows
  that the hypotheses of the theorems can hold; the third-party functions are simple stand-ins.
\<close>

definition sample_ext :: ext where
  "sample_ext = \<lparr>uuid_String = (\<lambda>u. ''id''), uuid_Parse = (\<lambda>s. Some 1),
     uuid_NewSHA1 = (\<lambda>u s. u + of_nat (length s)),
     pg_Error = (\<lambda>c k. ''duplicate key''), conn_Error = ''closed'',
     pg_time_in = (\<lambda>s. if s = ''09:00'' then Some 32400000000000
        else if s = ''18:00'' then Some 64800000000000 else None),
     pg_time_out = (\<lambda>d. if d = 32400000000000 then ''09:00:00'' else ''18:00:00''),
     bcrypt_Hash = (\<lambda>n p. Some (''#'' @ p)), bcrypt_Compare = (\<lambda>h p. h = ''#'' @ p),
     mail_ParseAddress = Some, unicode_ToLower = id, hmac_SHA256 = (\<lambda>k m. k @ m),
     format_RFC3339 = (\<lambda>t. ''time''), parse_RFC3339 = (\<lambda>s. Some 0)\<rparr>"

definition sample_env :: env where
  "sample_env = \<lparr>clock_at = (\<lambda>n. 100000000000), fresh_at = (\<lambda>n. 1000), fault_at = (\<lambda>n. NoFault),
     locked_at = (\<lambda>n k. False), tie_at = (\<lambda>n k. 0), ctx_done_at = (\<lambda>n. False), redis_down_at = (\<lambda>n. False),
     libs = sample_ext\<rparr>"

definition sample_user :: "uuid \<Rightarrow> string \<Rightarrow> user_role \<Rightarrow> user" where
  "sample_user i email role =
     \<lparr>usrID = i, usrEmail = email, usrPasswordHash = Some ''#password'', usrRole = role,
      usrCreatedAt = 0\<rparr>"

definition alice :: user where "alice = sample_user 1 ''a@x'' RoleUser"
definition bob :: user where "bob = sample_user 2 ''b@x'' RoleUser"
definition carol :: user where "carol = sample_user 3 ''c@x'' RoleUser"
definition dave :: user where "dave = sample_user 5 ''d@x'' RoleUser"
definition root_user :: user where "root_user = sample_user 4 ''r@x'' RoleAdmin"

definition sample_slot :: "uuid \<Rightarrow> time \<Rightarrow> slot" where
  "sample_slot i t = \<lparr>slID = i, slRoomID = 10, slStartTime = t, slEndTime = t + 1800000000000,
     slCreatedAt = 0\<rparr>"

definition sample_entry :: "uuid \<Rightarrow> uuid \<Rightarrow> uuid \<Rightarrow> waitlist_status \<Rightarrow> int \<Rightarrow> waitlist_entry" where
  "sample_entry i k u st p = \<lparr>weID = i, weSlotID = k, weUserID = u, weStatus = st, wePosition = p,
     weCreatedAt = 0, weNotifiedAt = None\<rparr>"

definition sample_booking :: booking where
  "sample_booking = \<lparr>bkID = 30, bkUserID = 1, bkSlotID = 20, bkStatus = BookingStatusActive,
     bkConferenceLink = None, bkCreatedAt = 0\<rparr>"

definition sample_reservation :: slot_reservation where
  "sample_reservation = \<lparr>rvID = 50, rvSlotID = 21, rvUserID = 2, rvWaitlistEntryID = Some 42,
     rvStatus = ReservationStatusActive, rvExpiresAt = 200000000000, rvCreatedAt = 0,
     rvConfirmedAt = None, rvExpiredAt = None\<rparr>"

definition sample_store :: store where
  "sample_store = \<lparr>users = [alice, bob, carol, dave, root_user],
     rooms = [\<lparr>rmID = 10, rmName = ''R'', rmDescription = None, rmCapacity = None, rmCreatedAt = 0\<rparr>],
     schedules = [],
     slots = [sample_slot 20 3600000000000, sample_slot 21 7200000000000, sample_slot 22 10800000000000],
     bookings = [sample_booking],
     waitlist = [sample_entry 40 20 2 WaitlistStatusActive 1, sample_entry 41 20 3 WaitlistStatusActive 2,
       sample_entry 42 21 2 WaitlistStatusNotified 3],
     reservations = [sample_reservation],
     position_seq = 4\<rparr>"

definition sample_world :: world where
  "sample_world = \<lparr>db = sample_store, outbox = [], counters = (\<lambda>m. 0), ticks = 0, env = sample_env\<rparr>"

lemmas sample_defs = sample_store_def sample_slot_def sample_entry_def sample_booking_def
  sample_reservation_def sample_user_def alice_def bob_def carol_def dave_def root_user_def

lemma sample_db [simp]: "db sample_world = sample_store" "env sample_world = sample_env"
    "ticks sample_world = 0"
  by (simp_all add: sample_world_def)

lemma sample_env_simps [simp]:
  "calm sample_env" "unlocked sample_env" "clock_at sample_env n = 100000000000"
  "fresh_at sample_env n = 1000" "libs sample_env = sample_ext" "fault_at sample_env n = NoFault"
  "locked_at sample_env n k = False" "ctx_done_at sample_env n = False"
  by (simp_all add: sample_env_def calm_def unlocked_def)

lemma sample_store_ok: "store_ok sample_store"
  by (simp add: store_ok_defs sample_defs index_ok_def scr_room_day_def sl_room_start_def
      sl_overlap_def bk_active_def rv_active_def we_pending_def we_slot_user_def timestamptz_def)

lemma sample_exclusive: "exclusive sample_store"
  by (auto simp: exclusive_def slot_booked_def slot_reserved_def sample_defs)

lemma sample_claims: "claims_ok sample_store"
  by (simp add: claims_ok_def claim_of_def sample_defs we_active_def conj_disj_distribR ex_disj_distrib)

lemma sample_app_ok: "app_ok sample_store"
  by (simp add: app_ok_def sample_store_ok sample_exclusive sample_claims)

lemma sample_served: "queue_served sample_store"
  by (auto simp: queue_served_def slot_awaited_def slot_booked_def slot_reserved_def sample_defs
      we_active_def bk_active_def rv_active_def)

lemma sample_fresh:
  "fresh_ids sample_env (rvID ` set (reservations sample_store))"
  "fresh_ids sample_env (bkID ` set (bookings sample_store))"
  "fresh_ids sample_env (weID ` set (waitlist sample_store))"
  "fresh_ids sample_env (usrID ` set (users sample_store))"
  by (simp_all add: fresh_ids_def sample_defs)

lemma sample_rows:
  "find_row bkID 30 (bookings sample_store) = Some sample_booking"
  "find_row rvID 50 (reservations sample_store) = Some sample_reservation"
  by (simp_all add: sample_defs)

lemma sample_active:
  "bk_active sample_booking" "bkSlotID sample_booking = 20" "bkUserID sample_booking = usrID alice"
  "rv_active sample_reservation" "rvSlotID sample_reservation = 21"
  "rvUserID sample_reservation = usrID bob" "rvExpiresAt sample_reservation = 200000000000"
  "usrRole alice = RoleUser" "usrRole bob = RoleUser" "usrRole carol = RoleUser" "usrRole dave = RoleUser"
  "usrRole root_user = RoleAdmin"
  by (simp_all add: sample_defs bk_active_def rv_active_def)

lemma sample_awaited: "slot_awaited sample_store 20" "\<not> slot_awaited sample_store 21"
  by (auto simp: sample_defs slot_awaited_def we_active_def)

lemma sample_members:
  "usrID alice \<in> usrID ` set (users sample_store)" "usrID bob \<in> usrID ` set (users sample_store)"
  "usrID carol \<in> usrID ` set (users sample_store)"
  by (simp_all add: sample_defs)

lemmas sample_facts = sample_members sample_app_ok sample_store_ok sample_served sample_fresh sample_rows
  sample_active sample_awaited

end
