(* ===== verification/Auth_Service.thy ===== *)
theory Auth_Service
  imports Sample Json
begin

text \<open>
  \<open>internal/usecase/auth/service.go\<close>: registration, login and the signing of access tokens. The
  password hash and the keyed digest are third-party functions; a salt is what the environment hands
  out at the call.
\<close>

section \<open>Tokens\<close>

definition b64_alphabet :: string where
  "b64_alphabet = ''ABCDEFGHIJKLMNOPQRSTUVWXYZabcdefghijklmnopqrstuvwxyz0123456789-_''"

definition b64_char :: "nat \<Rightarrow> char" where
  "b64_char n = b64_alphabet ! (n mod 64)"

text \<open>\<open>base64.RawURLEncoding.EncodeToString\<close>\<close>

fun RawURLEncode :: "string \<Rightarrow> string" where
  "RawURLEncode [] = []"
| "RawURLEncode [a] =
     (let x = (of_char a :: nat) * 65536
      in [b64_char (x div 262144), b64_char (x div 4096)])"
| "RawURLEncode [a, b] =
     (let x = (of_char a :: nat) * 65536 + of_char b * 256
      in [b64_char (x div 262144), b64_char (x div 4096), b64_char (x div 64)])"
| "RawURLEncode (a # b # c # s) =
     (let x = (of_char a :: nat) * 65536 + of_char b * 256 + of_char c
      in b64_char (x div 262144) # b64_char (x div 4096) # b64_char (x div 64) # b64_char x #
         RawURLEncode s)"

definition token_lifetime :: duration where
  "token_lifetime = 86400000000000"

definition unix_seconds :: "time \<Rightarrow> int" where
  "unix_seconds t = t div 1000000000"

text \<open>\<open>json.Marshal\<close> writes the keys of a map in sorted order.\<close>

definition jwt_header :: string where
  "jwt_header = Marshal (JObj [(''alg'', JStr ''HS256''), (''typ'', JStr ''JWT'')])"

definition jwt_payload :: "ext \<Rightarrow> uuid \<Rightarrow> user_role \<Rightarrow> int \<Rightarrow> string" where
  "jwt_payload x userID role expiry =
     Marshal (JObj [(''exp'', JNum (FormatInt expiry)), (''role'', JStr role),
       (''user_id'', JStr (uuid_String x userID))])"

definition sign_token :: "ext \<Rightarrow> string \<Rightarrow> uuid \<Rightarrow> user_role \<Rightarrow> time \<Rightarrow> string" where
  "sign_token x secret userID role now =
     (let unsigned = RawURLEncode jwt_header @ ''.'' @
        RawURLEncode (jwt_payload x userID role (unix_seconds (now + token_lifetime)))
      in unsigned @ ''.'' @ RawURLEncode (hmac_SHA256 x secret unsigned))"

definition Sign :: "string \<Rightarrow> uuid \<Rightarrow> user_role \<Rightarrow> string result go" where
  "Sign secret userID role = do {
     now \<leftarrow> now_utc;
     x \<leftarrow> asks id;
     ok (sign_token x secret userID role now)
   }"

section \<open>Passwords and addresses\<close>

definition Hash :: "string \<Rightarrow> string result go" where
  "Hash password = State (\<lambda>w.
     (case bcrypt_Hash (libs (env w)) (ticks w) password of
        None \<Rightarrow> Inl (TextError ''bcrypt'')
      | Some h \<Rightarrow> Inr h, tick w))"

lemma run_Hash: "run_state (Hash password) w =
    (case bcrypt_Hash (libs (env w)) (ticks w) password of
       None \<Rightarrow> Inl (TextError ''bcrypt'') | Some h \<Rightarrow> Inr h, tick w)"
  by (simp add: Hash_def)

definition normalizeEmail :: "ext \<Rightarrow> string \<Rightarrow> string" where
  "normalizeEmail x email = ToLower x (TrimSpace email)"

definition isValidEmail :: "ext \<Rightarrow> string \<Rightarrow> bool" where
  "isValidEmail x email =
     (if email = '''' then False
      else case mail_ParseAddress x email of None \<Rightarrow> False | Some address \<Rightarrow> address = email)"

section \<open>The service\<close>

record auth_service =
  asUsers :: bool
  asSecret :: string

definition auth_NewService :: "string \<Rightarrow> bool \<Rightarrow> auth_service" where
  "auth_NewService secret userRepo = \<lparr>asUsers = userRepo, asSecret = secret\<rparr>"

definition new_user :: "uuid \<Rightarrow> string \<Rightarrow> string \<Rightarrow> user_role \<Rightarrow> time \<Rightarrow> user" where
  "new_user i email hash role now =
     \<lparr>usrID = i, usrEmail = email, usrPasswordHash = Some hash, usrRole = role, usrCreatedAt = now\<rparr>"

definition store_user :: "string \<Rightarrow> string \<Rightarrow> user_role \<Rightarrow> user result go" where
  "store_user email hash role = do {
     i \<leftarrow> uuid_New;
     now \<leftarrow> now_utc;
     r \<leftarrow> UserRepo_Create (new_user i email hash role now);
     (case r of
        Inl err \<Rightarrow> if AsDomainError err \<noteq> None then fail err
          else fail (wrapped ErrorInternalError ''create user'' err)
      | Inr _ \<Rightarrow> ok (new_user i email hash role now))
   }"

definition Register :: "auth_service \<Rightarrow> string \<Rightarrow> string \<Rightarrow> user_role \<Rightarrow> user result go" where
  "Register s email0 password0 role =
     (if \<not> asUsers s
      then fail (NewDomainError ErrorInternalError ''user repository is not configured'')
      else do {
        x \<leftarrow> asks id;
        let email = normalizeEmail x email0;
        let password = TrimSpace password0;
        (if \<not> isValidEmail x email
         then fail (NewDomainError ErrorInvalidRequest ''invalid email'')
         else if password = ''''
         then fail (NewDomainError ErrorInvalidRequest ''password is required'')
         else if length password < 8
         then fail (NewDomainError ErrorInvalidRequest ''password must be at least 8 characters'')
         else if role \<noteq> RoleAdmin \<and> role \<noteq> RoleUser
         then fail (NewDomainError ErrorInvalidRequest ''invalid role'')
         else check (wrapped ErrorInternalError ''get user by email'') (UserRepo_GetByEmail email)
           (\<lambda>existing.
             if existing \<noteq> None
             then fail (NewDomainError ErrorInvalidRequest ''email already exists'')
             else check (wrapped ErrorInternalError ''hash password'') (Hash password)
               (\<lambda>hash. store_user email hash role)))
      })"

definition Login :: "auth_service \<Rightarrow> string \<Rightarrow> string \<Rightarrow> string result go" where
  "Login s email0 password =
     (if \<not> asUsers s
      then fail (NewDomainError ErrorInternalError ''user repository is not configured'')
      else do {
        x \<leftarrow> asks id;
        let email = normalizeEmail x email0;
        (if \<not> isValidEmail x email \<or> TrimSpace password = ''''
         then fail (NewDomainError ErrorUnauthorized ''invalid credentials'')
         else check (wrapped ErrorInternalError ''get user by email'') (UserRepo_GetByEmail email)
           (\<lambda>row. case row of
               None \<Rightarrow> fail (NewDomainError ErrorUnauthorized ''invalid credentials'')
             | Some u \<Rightarrow>
                 (case usrPasswordHash u of
                    None \<Rightarrow> fail (NewDomainError ErrorUnauthorized ''invalid credentials'')
                  | Some hash \<Rightarrow>
                      if \<not> bcrypt_Compare x hash password
                      then fail (NewDomainError ErrorUnauthorized ''invalid credentials'')
                      else check (wrapped ErrorInternalError ''sign token'')
                        (Sign (asSecret s) (usrID u) (usrRole u)) ok)))
      })"

definition dummy_admin_id :: uuid where
  "dummy_admin_id = 0x11111111111111111111111111111111"

definition dummy_user_id :: uuid where
  "dummy_user_id = 0x22222222222222222222222222222222"

definition DummyLogin :: "auth_service \<Rightarrow> user_role \<Rightarrow> string result go" where
  "DummyLogin s role =
     (if role = RoleAdmin then Sign (asSecret s) dummy_admin_id role
      else if role = RoleUser then Sign (asSecret s) dummy_user_id role
      else fail (NewDomainError ErrorInvalidRequest ''invalid role''))"

section \<open>What registration does\<close>

lemma new_user_simps [simp]:
  "usrID (new_user i e h r t) = i" "usrEmail (new_user i e h r t) = e"
  "usrPasswordHash (new_user i e h r t) = Some h" "usrRole (new_user i e h r t) = r"
  by (simp_all add: new_user_def)

lemma store_user_InrE:
  assumes "run_state (store_user email hash role) w = (Inr u, w')"
  obtains i now where "u = new_user i email hash role now" "user_insertable u (db w)"
    "db w' = add_user u (db w)" "env w' = env w"
proof -
  let ?u = "new_user (fresh_at (env w) (ticks w)) email hash role (clock_at (env w) (Suc (ticks w)))"
  have "u = ?u" "run_state (UserRepo_Create ?u) (tick (tick w)) = (Inr (), w')"
    using assms by (auto simp: store_user_def split: prod.splits sum.splits if_splits)
  then show thesis
    using that by (auto simp: UserRepo_Create_Inr)
qed

lemma Register_InrE:
  assumes "run_state (Register s email password role) w = (Inr u, w')"
  obtains i h n now where
    "u = new_user i (normalizeEmail (libs (env w)) email) h role now"
    "bcrypt_Hash (libs (env w)) n (TrimSpace password) = Some h"
    "isValidEmail (libs (env w)) (usrEmail u)" "8 \<le> length (TrimSpace password)"
    "role = RoleAdmin \<or> role = RoleUser" "user_insertable u (db w)" "db w' = add_user u (db w)"
    "env w' = env w"
proof -
  obtain h n w1 where h: "bcrypt_Hash (libs (env w)) n (TrimSpace password) = Some h"
    and valid: "isValidEmail (libs (env w)) (normalizeEmail (libs (env w)) email)"
      "8 \<le> length (TrimSpace password)" "role = RoleAdmin \<or> role = RoleUser"
    and w1: "db w1 = db w" "env w1 = env w"
    and store: "run_state (store_user (normalizeEmail (libs (env w)) email) h role) w1 = (Inr u, w')"
    using assms
    by (auto simp: Register_def Let_def UserRepo_GetByEmail_Inr run_Hash not_less elim!: check_InrE
        split: if_splits option.splits) (metis tick_simps(1,4))+
  from store show thesis
  proof (rule store_user_InrE)
    fix i now
    assume u: "u = new_user i (normalizeEmail (libs (env w)) email) h role now"
      and "user_insertable u (db w1)" "db w' = add_user u (db w1)" "env w' = env w1"
    then show thesis
      using that [OF u h _ valid(2,3)] valid(1) w1 by simp
  qed
qed

lemma UserRepo_Create_db:
  "db (snd (run_state (UserRepo_Create u) w)) = db w \<or>
    user_insertable u (db w) \<and> db (snd (run_state (UserRepo_Create u) w)) = add_user u (db w)"
  by (auto simp: UserRepo_Create_def run_db_call sql_user_insert_def user_insertable_def add_user_def
      split: fault.splits)

lemma Register_db:
  "db (snd (run_state (Register s email password role) w)) = db w \<or>
    (\<exists>u. user_insertable u (db w) \<and>
      db (snd (run_state (Register s email password role) w)) = add_user u (db w))"
proof -
  have store: "db w' = db w1 \<or> (\<exists>u. user_insertable u (db w1) \<and> db w' = add_user u (db w1))"
    if "run_state (store_user e h r) w1 = (y, w')" for e h r w1 y w'
    using that UserRepo_Create_db [of _ "tick (tick w1)"]
    by (auto simp: store_user_def split: prod.splits sum.splits if_splits) (metis snd_conv tick_simps(1))+
  have get: "db w' = db w1" if "run_state (UserRepo_GetByEmail e) w1 = (y, w')" for e w1 y w'
    using that by (auto simp: UserRepo_GetByEmail_def run_db_call select_def split: fault.splits)
  have hash: "db w' = db w1" if "run_state (Hash p) w1 = (y, w')" for p w1 y w'
    using that by (auto simp: run_Hash)
  show ?thesis
    by (auto simp: Register_def Let_def run_check split: prod.splits sum.splits
        dest!: get hash) (metis store eq_snd_iff)+
qed

lemma Register_app_ok:
  assumes "app_ok (db w)"
  shows "app_ok (db (snd (run_state (Register s email password role) w)))"
  using Register_db [of s email password role w] assms by (auto intro: app_ok_add_user)

lemma Login_calm:
  assumes "calm (env w)" "asUsers s" "isValidEmail (libs (env w)) (normalizeEmail (libs (env w)) email)"
    "TrimSpace password \<noteq> []"
    "find_row usrEmail (normalizeEmail (libs (env w)) email) (users (db w)) = Some u"
    "usrPasswordHash u = Some h"
  shows "if bcrypt_Compare (libs (env w)) h password
    then \<exists>w' now. run_state (Login s email password) w =
      (Inr (sign_token (libs (env w)) (asSecret s) (usrID u) (usrRole u) now), w') \<and> db w' = db w
    else \<exists>e w'. run_state (Login s email password) w = (Inl e, w') \<and> has_code e ErrorUnauthorized \<and>
      db w' = db w"
  using assms
  by (auto simp: Login_def Let_def run_check UserRepo_GetByEmail_def run_db_call_calm select_def Sign_def)

lemma find_added_user:
  assumes "user_insertable u s"
  shows "\<exists>v. find_row usrEmail (usrEmail u) (users (add_user u s)) = Some v \<and> usrID v = usrID u \<and>
    usrRole v = usrRole u \<and> usrPasswordHash v = usrPasswordHash u"
proof -
  have "find_row usrEmail (usrEmail u) (users s) = None"
    using assms by (simp add: user_insertable_def find_row_None_iff)
  then show ?thesis
    by (simp add: add_user_def find_row_append)
qed

lemma normalize_nonempty: "isValidEmail x e \<Longrightarrow> e \<noteq> []"
  by (auto simp: isValidEmail_def)

section \<open>Registering, then logging in\<close>

text \<open>The documented behaviour of the password hash: it accepts the password it was made from.\<close>

definition bcrypt_ok :: "ext \<Rightarrow> bool" where
  "bcrypt_ok x \<longleftrightarrow> (\<forall>n p h. bcrypt_Hash x n p = Some h \<longrightarrow> bcrypt_Compare x h p)"

text \<open>
  C13. Whoever has registered can log in with the same address and the password without the white
  space around it, and gets a token signed for the account just made with its role; until then the
  address was free.
\<close>

theorem register_then_login:
  assumes "run_state (Register s email password role) w = (Inr u, w1)" "bcrypt_ok (libs (env w))"
    "db v = db w1" "libs (env v) = libs (env w)" "calm (env v)"
  shows "usrEmail u \<notin> usrEmail ` set (users (db w)) \<and> db w1 = add_user u (db w) \<and>
    (\<exists>now v'. run_state (Login s email (TrimSpace password)) v =
      (Inr (sign_token (libs (env w)) (asSecret s) (usrID u) role now), v') \<and> db v' = db v)"
proof -
  have conf: "asUsers s"
    using assms(1) by (auto simp: Register_def split: if_splits)
  from assms(1) obtain i h n now where
    u: "u = new_user i (normalizeEmail (libs (env w)) email) h role now"
    and h: "bcrypt_Hash (libs (env w)) n (TrimSpace password) = Some h"
    and ok: "isValidEmail (libs (env w)) (usrEmail u)" "8 \<le> length (TrimSpace password)"
    and ins: "user_insertable u (db w)" "db w1 = add_user u (db w)"
    by (rule Register_InrE)
  obtain r where r: "find_row usrEmail (usrEmail u) (users (db v)) = Some r" "usrID r = usrID u"
      "usrRole r = role" "usrPasswordHash r = Some h"
    using find_added_user [OF ins(1)] assms(3) ins(2) u by auto
  have e: "usrEmail u = normalizeEmail (libs (env v)) email"
    using u assms(4) by simp
  have "bcrypt_Compare (libs (env v)) h (TrimSpace password)"
    using h assms(2,4) by (auto simp: bcrypt_ok_def)
  moreover have "TrimSpace (TrimSpace password) \<noteq> []"
    using ok(2) by auto
  ultimately have "\<exists>v' now. run_state (Login s email (TrimSpace password)) v =
      (Inr (sign_token (libs (env v)) (asSecret s) (usrID r) (usrRole r) now), v') \<and> db v' = db v"
    using Login_calm [OF assms(5) conf _ _ _ r(4), of email "TrimSpace password"] ok(1) r(1) assms(4)
    by (simp add: e)
  then show ?thesis
    using ins r(2,3) assms(4) by (auto simp: user_insertable_def)
qed

definition sample_auth :: auth_service where
  "sample_auth = auth_NewService ''secret'' True"

lemma sample_ext_simps [simp]:
  "bcrypt_Hash sample_ext n p = Some (''#'' @ p)" "bcrypt_Compare sample_ext h p \<longleftrightarrow> h = ''#'' @ p"
  "mail_ParseAddress sample_ext = Some" "bcrypt_ok sample_ext"
  by (simp_all add: sample_ext_def bcrypt_ok_def)

lemma trim_examples:
  "TrimSpace '' pass word '' = ''pass word''" "TrimSpace '' E@x'' = ''E@x''"
  "ToLower sample_ext ''E@x'' = ''e@x''"
  by code_simp+

lemma sample_register:
  "\<exists>u w1. run_state (Register sample_auth '' E@x'' '' pass word '' RoleUser) sample_world = (Inr u, w1) \<and>
    env w1 = sample_env"
proof -
  let ?u = "new_user 1000 ''e@x'' ''#pass word'' RoleUser 100000000000"
  have "user_insertable ?u sample_store"
    by (simp add: user_insertable_def sample_defs new_user_def)
  then have create: "run_state (UserRepo_Create ?u) w = (Inr (), (tick w)\<lparr>db := add_user ?u sample_store\<rparr>)"
    if "db w = sample_store" "env w = sample_env" for w
    using that by (simp add: UserRepo_Create_Inr)
  have store: "\<exists>w1. run_state (store_user ''e@x'' ''#pass word'' RoleUser) w = (Inr ?u, w1) \<and> env w1 = sample_env"
    if "db w = sample_store" "env w = sample_env" for w
    using create [of "tick (tick w)"] that by (simp add: store_user_def)
  have email: "normalizeEmail sample_ext '' E@x'' = ''e@x''"
    by (simp add: normalizeEmail_def trim_examples)
  have free: "find_row usrEmail ''e@x'' (users sample_store) = None"
    by (simp add: sample_defs)
  show ?thesis
    using store [of "tick ((tick sample_world)\<lparr>db := sample_store\<rparr>)"]
    by (auto simp: Register_def Let_def sample_auth_def auth_NewService_def email trim_examples isValidEmail_def
        run_check UserRepo_GetByEmail_def run_db_call_calm select_def free run_Hash)
qed

lemma register_then_login_witness:
  "\<exists>t v. run_state (Register sample_auth '' E@x'' '' pass word '' RoleUser) sample_world = v \<and>
    fst (run_state (Login sample_auth '' E@x'' ''pass word'') (snd v)) = Inr t"
proof -
  obtain u w1 where run: "run_state (Register sample_auth '' E@x'' '' pass word '' RoleUser) sample_world =
      (Inr u, w1)" "env w1 = sample_env"
    using sample_register by blast
  then show ?thesis
    using register_then_login [OF run(1), of w1] by (auto simp: trim_examples)
qed

text \<open>
  C14. Registration removes white space around the password before hashing it and login does not:
  after an account was made, logging in with the very same two strings is refused as unauthorised
  whenever the hash of the trimmed password does not accept the string as typed.
\<close>

theorem login_does_not_trim:
  assumes "run_state (Register s email password role) w = (Inr u, w1)"
    "usrPasswordHash u = Some h" "\<not> bcrypt_Compare (libs (env w)) h password"
    "db v = db w1" "libs (env v) = libs (env w)" "calm (env v)"
  shows "\<exists>e v'. run_state (Login s email password) v = (Inl e, v') \<and> has_code e ErrorUnauthorized \<and>
    db v' = db v"
proof -
  have conf: "asUsers s"
    using assms(1) by (auto simp: Register_def split: if_splits)
  from assms(1) obtain i h' now where
    u: "u = new_user i (normalizeEmail (libs (env w)) email) h' role now"
    and ok: "isValidEmail (libs (env w)) (usrEmail u)" "8 \<le> length (TrimSpace password)"
    and ins: "user_insertable u (db w)" "db w1 = add_user u (db w)"
    by (rule Register_InrE)
  obtain r where r: "find_row usrEmail (usrEmail u) (users (db v)) = Some r" "usrPasswordHash r = Some h"
    using find_added_user [OF ins(1)] assms(2,4) ins(2) by auto
  have e: "usrEmail u = normalizeEmail (libs (env v)) email"
    using u assms(5) by simp
  have "TrimSpace password \<noteq> []"
    using ok(2) by auto
  then show ?thesis
    using Login_calm [OF assms(6) conf _ _ _ r(2), of email password] ok(1) r(1) assms(3,5)
    by (simp add: e)
qed

lemma login_does_not_trim_witness:
  "\<exists>u v e v'. run_state (Register sample_auth '' E@x'' '' pass word '' RoleUser) sample_world = (Inr u, v) \<and>
    run_state (Login sample_auth '' E@x'' '' pass word '') v = (Inl e, v') \<and> has_code e ErrorUnauthorized"
proof -
  obtain u w1 where run: "run_state (Register sample_auth '' E@x'' '' pass word '' RoleUser) sample_world =
      (Inr u, w1)" "env w1 = sample_env"
    using sample_register by blast
  from run(1) have "usrPasswordHash u = Some ''#pass word''"
    by (rule Register_InrE) (auto simp: trim_examples)
  then show ?thesis
    using login_does_not_trim [OF run(1), of "''#pass word''" w1] run by auto
qed

end
