(* ===== verification/Tokens.thy ===== *)
theory Tokens
  imports Auth_Service
begin

text \<open>
  \<open>internal/transport/http/middleware/auth.go\<close>: the check of access tokens, the counterpart of
  \<open>Sign\<close>. What the service signs is accepted until it expires, and only what carries the keyed
  digest is accepted at all.
\<close>

section \<open>Decoding\<close>

text \<open>\<open>base64.RawURLEncoding.DecodeString\<close>: line breaks are skipped, unused bits are ignored.\<close>

definition b64_value :: "char \<Rightarrow> nat option" where
  "b64_value c =
     (let k = code c
      in if 65 \<le> k \<and> k \<le> 90 then Some (k - 65)
         else if 97 \<le> k \<and> k \<le> 122 then Some (k - 71)
         else if 48 \<le> k \<and> k \<le> 57 then Some (k + 4)
         else if c = CHR ''-'' then Some 62
         else if c = CHR ''_'' then Some 63
         else None)"

definition b64_number :: "nat \<Rightarrow> nat \<Rightarrow> nat \<Rightarrow> nat \<Rightarrow> nat" where
  "b64_number a b c d = a * 262144 + b * 4096 + c * 64 + d"

definition byte_at :: "nat \<Rightarrow> nat \<Rightarrow> char" where
  "byte_at shift x = char_of (x div shift mod 256)"

fun b64_quanta :: "nat list \<Rightarrow> string option" where
  "b64_quanta [] = Some []"
| "b64_quanta [a] = None"
| "b64_quanta [a, b] = Some [byte_at 65536 (b64_number a b 0 0)]"
| "b64_quanta [a, b, c] =
     Some [byte_at 65536 (b64_number a b c 0), byte_at 256 (b64_number a b c 0)]"
| "b64_quanta (a # b # c # d # vs) =
     map_option (\<lambda>s. byte_at 65536 (b64_number a b c d) # byte_at 256 (b64_number a b c d) #
       byte_at 1 (b64_number a b c d) # s) (b64_quanta vs)"

definition RawURLDecode :: "string \<Rightarrow> string option" where
  "RawURLDecode s =
     (let cs = filter (\<lambda>c. c \<noteq> CHR 0x0A \<and> c \<noteq> CHR 0x0D) s
      in if list_all (\<lambda>c. b64_value c \<noteq> None) cs then b64_quanta (map (the o b64_value) cs) else None)"

text \<open>\<open>strings.Split\<close> at a single byte.\<close>

fun split_at :: "char \<Rightarrow> string \<Rightarrow> string list" where
  "split_at sep [] = [[]]"
| "split_at sep (c # s) =
     (if c = sep then [] # split_at sep s
      else (case split_at sep s of [] \<Rightarrow> [[c]] | p # ps \<Rightarrow> (c # p) # ps))"

section \<open>Checking a token\<close>

record jwtClaims =
  clmUserID :: string
  clmRole :: string
  clmExp :: int

definition unmarshal_claims :: "string \<Rightarrow> jwtClaims option" where
  "unmarshal_claims payload =
     Option.bind (Unmarshal payload) (into_struct (\<lambda>ms.
       Option.bind (set_field put_string (field_values ''user_id'' ms) []) (\<lambda>i.
       Option.bind (set_field put_string (field_values ''role'' ms) []) (\<lambda>r.
       Option.bind (set_field put_int (field_values ''exp'' ms) 0) (\<lambda>e.
       Some \<lparr>clmUserID = i, clmRole = r, clmExp = e\<rparr>)))))"

definition zero_time :: time where
  "zero_time = - 62135596800000000000"

definition token_user :: "uuid \<Rightarrow> user_role \<Rightarrow> user" where
  "token_user i role = \<lparr>usrID = i, usrEmail = [], usrPasswordHash = None, usrRole = role,
     usrCreatedAt = zero_time\<rparr>"

definition parseUserID :: "ext \<Rightarrow> string \<Rightarrow> go_error + uuid" where
  "parseUserID x raw =
     (case uuid_Parse x raw of
        None \<Rightarrow> Inl (wrapped ErrorUnauthorized ''invalid user id in token'' (TextError ''invalid UUID''))
      | Some i \<Rightarrow> Inr i)"

definition user_from_claims :: "ext \<Rightarrow> jwtClaims \<Rightarrow> user result go" where
  "user_from_claims x claims =
     (case parseUserID x (clmUserID claims) of
        Inl err \<Rightarrow> fail err
      | Inr userID \<Rightarrow>
          if clmRole claims \<noteq> RoleAdmin \<and> clmRole claims \<noteq> RoleUser
          then fail (NewDomainError ErrorUnauthorized ''invalid role claim'')
          else ok (token_user userID (clmRole claims)))"

definition check_claims :: "ext \<Rightarrow> jwtClaims \<Rightarrow> user result go" where
  "check_claims x claims =
     (if clmExp claims > 0
      then do {
        now \<leftarrow> now_utc;
        (if unix_seconds now \<ge> clmExp claims
         then fail (NewDomainError ErrorUnauthorized ''token is expired'')
         else user_from_claims x claims)
      }
      else user_from_claims x claims)"

definition check_payload :: "ext \<Rightarrow> string \<Rightarrow> user result go" where
  "check_payload x part =
     (case RawURLDecode part of
        None \<Rightarrow> fail (wrapped ErrorUnauthorized ''invalid token payload'' (TextError ''illegal base64 data''))
      | Some payload \<Rightarrow>
          (case unmarshal_claims payload of
             None \<Rightarrow> fail (wrapped ErrorUnauthorized ''invalid token claims'' (TextError ''json''))
           | Some claims \<Rightarrow> check_claims x claims))"

definition parseAndValidateToken :: "string \<Rightarrow> string \<Rightarrow> user result go" where
  "parseAndValidateToken secret token = do {
     x \<leftarrow> asks id;
     (case split_at (CHR ''.'') token of
        [header, payload, sig] \<Rightarrow>
          (let unsigned = header @ ''.'' @ payload
           in case RawURLDecode sig of
                None \<Rightarrow> fail (wrapped ErrorUnauthorized ''invalid token signature'' (TextError ''illegal base64 data''))
              | Some signature \<Rightarrow>
                  if signature \<noteq> hmac_SHA256 x secret unsigned
                  then fail (NewDomainError ErrorUnauthorized ''invalid token signature'')
                  else check_payload x payload)
      | _ \<Rightarrow> fail (NewDomainError ErrorUnauthorized ''invalid token format''))
   }"

definition AuthenticateToken :: "string \<Rightarrow> string \<Rightarrow> user result go" where
  "AuthenticateToken secret token = parseAndValidateToken secret token"

text \<open>The value of the \<open>Authorization\<close> header; a missing header is the empty string.\<close>

definition bearer_prefix :: string where
  "bearer_prefix = ''Bearer ''"

definition bearerToken :: "string \<Rightarrow> string" where
  "bearerToken authHeader =
     (if \<not> starts_with bearer_prefix authHeader then []
      else TrimSpace (drop (length bearer_prefix) authHeader))"

definition AuthenticateRequest :: "string \<Rightarrow> string \<Rightarrow> user result go" where
  "AuthenticateRequest secret authHeader =
     (let token = bearerToken authHeader
      in if token = [] then fail (NewDomainError ErrorUnauthorized ''missing bearer token'')
         else AuthenticateToken secret token)"

section \<open>Decoding what was encoded\<close>

lemma b64_value_char [simp]: "b64_value (b64_char n) = Some (n mod 64)"
proof -
  have "map b64_value b64_alphabet = map Some [0..<64]"
    by (simp add: b64_alphabet_def b64_value_def upt_conv_Cons)
  then have "b64_value (b64_alphabet ! k) = Some k" if "k < 64" for k
    using that nth_map [of k "[0..<64]" Some] nth_map [of k b64_alphabet b64_value]
    by (simp add: b64_alphabet_def)
  then show ?thesis
    by (simp add: b64_char_def)
qed

lemma b64_char_plain [simp]: "b64_char n \<noteq> CHR 0x0A" "b64_char n \<noteq> CHR 0x0D" "b64_char n \<noteq> CHR ''.''"
proof -
  have "b64_value (CHR 0x0A) = None" "b64_value (CHR 0x0D) = None" "b64_value (CHR ''.'') = None"
    by (simp_all add: b64_value_def)
  then show "b64_char n \<noteq> CHR 0x0A" "b64_char n \<noteq> CHR 0x0D" "b64_char n \<noteq> CHR ''.''"
    by (metis b64_value_char option.distinct(1))+
qed

lemma base64_digits:
  assumes "x < 16777216"
  shows "b64_number (x div 262144 mod 64) (x div 4096 mod 64) (x div 64 mod 64) (x mod 64) = x"
proof -
  have "x div 262144 mod 64 = x div 262144"
    using assms by (intro mod_less) (simp add: less_mult_imp_div_less)
  moreover have "x div 262144 * 64 + x div 4096 mod 64 = x div 4096"
    using div_mult_mod_eq [of "x div 4096" 64] by (simp add: div_mult2_eq [symmetric])
  moreover have "x div 4096 * 64 + x div 64 mod 64 = x div 64"
    using div_mult_mod_eq [of "x div 64" 64] by (simp add: div_mult2_eq [symmetric])
  moreover have "x div 64 * 64 + x mod 64 = x"
    by (rule div_mult_mod_eq)
  ultimately show ?thesis
    unfolding b64_number_def by linarith
qed

lemma code_less: "code c < 256"
  by (rule nat_of_char_less_256)

lemma RawURL_values:
  "filter (\<lambda>c. c \<noteq> CHR 0x0A \<and> c \<noteq> CHR 0x0D) (RawURLEncode s) = RawURLEncode s"
  "list_all (\<lambda>c. b64_value c \<noteq> None) (RawURLEncode s)"
  "CHR ''.'' \<notin> set (RawURLEncode s)"
  by (induction s rule: RawURLEncode.induct) (auto simp: Let_def dest: sym)

lemma three_bytes:
  fixes a b c :: nat
  assumes "a < 256" "b < 256" "c < 256"
  defines "x \<equiv> a * 65536 + b * 256 + c"
  shows "x < 16777216" "x div 65536 = a" "x div 256 mod 256 = b" "x mod 256 = c"
proof -
  have x: "x = c + 256 * (b + 256 * a)"
    unfolding x_def by simp
  have y: "x div 256 = b + 256 * a" "x mod 256 = c"
    using assms(3) by (simp_all only: x mod_mult_self2 mod_less div_mult_self2 div_less)
  then show "x div 256 mod 256 = b" "x mod 256 = c"
    using assms(2) by simp_all
  have "x div 65536 = x div 256 div 256"
    by (simp add: div_mult2_eq [symmetric])
  then show "x div 65536 = a"
    unfolding y using assms(2) by simp
  show "x < 16777216"
    unfolding x_def using assms by simp
qed

lemma b64_quanta_bytes:
  fixes a b c :: nat
  assumes "a < 256" "b < 256" "c < 256"
  defines "x \<equiv> a * 65536 + b * 256 + c"
  shows "b64_quanta (x div 262144 mod 64 # x div 4096 mod 64 # x div 64 mod 64 # x mod 64 # vs) =
    map_option (\<lambda>s. char_of a # char_of b # char_of c # s) (b64_quanta vs)"
proof -
  note x = three_bytes [OF assms(1-3), folded x_def]
  have "byte_at 65536 x = char_of a" "byte_at 256 x = char_of b" "byte_at 1 x = char_of c"
    using x(2-4) assms(1) by (simp_all only: byte_at_def div_by_1 mod_less)
  then show ?thesis
    by (simp only: b64_quanta.simps base64_digits [OF x(1)])
qed

lemma RawURLDecode_Encode: "RawURLDecode (RawURLEncode s) = Some s"
proof -
  have sextet: "the (b64_value (b64_char n)) = n mod 64" for n
    by simp
  have "b64_quanta (map (the o b64_value) (RawURLEncode s)) = Some s"
  proof (induction s rule: RawURLEncode.induct)
    case (2 a)
    have "b64_quanta [code a * 65536 div 262144 mod 64, code a * 65536 div 4096 mod 64, 0, 0] =
        Some [a, char_of (0 :: nat), char_of (0 :: nat)]"
      using b64_quanta_bytes [OF code_less [of a], of 0 0 "[]"] by simp
    then show ?case
      by (simp add: Let_def)
  next
    case (3 a b)
    have "b64_quanta [(code a * 65536 + code b * 256) div 262144 mod 64,
        (code a * 65536 + code b * 256) div 4096 mod 64, (code a * 65536 + code b * 256) div 64 mod 64, 0] =
      Some [a, b, char_of (0 :: nat)]"
      using b64_quanta_bytes [OF code_less [of a] code_less [of b], of 0 "[]"] by simp
    then show ?case
      by (simp add: Let_def)
  next
    case (4 a b c s)
    then show ?case
      using b64_quanta_bytes [OF code_less [of a] code_less [of b] code_less [of c]]
      by (simp only: RawURLEncode.simps Let_def list.map comp_apply sextet option.map char_of_char)
  qed simp
  then show ?thesis
    using RawURL_values [of s] by (simp add: RawURLDecode_def)
qed

lemma split_at_cons: "sep \<notin> set a \<Longrightarrow> split_at sep (a @ sep # s) = a # split_at sep s"
  by (induction a) auto

lemma split_at_none: "sep \<notin> set a \<Longrightarrow> split_at sep a = [a]"
  by (induction a) auto

lemma split_at_back: "split_at sep s \<noteq> [] \<and> s = join [sep] (split_at sep s)"
proof (induction s)
  case (Cons c s)
  then show ?case
    by (cases "split_at sep s"; cases "tl (split_at sep s)") (auto split: list.splits)
qed simp

lemma claim_names:
  "fold_name ''exp'' = ''exp''" "fold_name ''role'' = ''role''" "fold_name ''user_id'' = ''user_id''"
  by (simp_all add: lower_ascii_def)

lemma unmarshal_payload:
  assumes "list_all is_ascii (uuid_String x i)" "list_all is_ascii role"
    "int64_min \<le> e" "e \<le> int64_max"
  shows "unmarshal_claims (jwt_payload x i role e) =
    Some \<lparr>clmUserID = uuid_String x i, clmRole = role, clmExp = e\<rparr>"
proof -
  have "plain 0 (JObj [(''exp'', JNum (FormatInt e)), (''role'', JStr role),
      (''user_id'', JStr (uuid_String x i))])"
    using assms by (simp add: is_ascii_def maxNestingDepth_def)
  from Unmarshal_Marshal [OF this] show ?thesis
    using assms(3,4)
    by (simp add: unmarshal_claims_def jwt_payload_def into_struct_def field_values_def claim_names
        ParseInt_FormatInt del: Marshal.simps)
qed

text \<open>White space is trimmed from the ends only; a string of visible ASCII characters stays as it is.\<close>

definition visible :: "char \<Rightarrow> bool" where
  "visible c \<longleftrightarrow> 33 \<le> code c \<and> code c \<le> 126"

lemma space_tokens_invisible:
  "t \<in> set space_tokens \<Longrightarrow> t \<noteq> [] \<and> \<not> visible (hd t) \<and> \<not> visible (last t)"
  by (simp add: space_tokens_def) (elim disjE; simp add: visible_def)

lemma TrimSpace_visible:
  assumes "list_all visible s"
  shows "TrimSpace s = s"
proof -
  have "\<not> starts_with t s" if "t \<in> set space_tokens" "t \<noteq> []" for t
    using space_tokens_invisible [OF that(1)] assms by (cases t) (auto simp: starts_with_iff list_all_iff)
  then have "strip space_tokens s = s"
    by (rule strip_fixed)
  moreover have "\<not> starts_with t (rev s)" if t: "t \<in> set (map rev space_tokens)" "t \<noteq> []" for t
  proof
    assume "starts_with t (rev s)"
    then have "hd t \<in> set s"
      using t(2) by (metis starts_with_iff append_is_Nil_conv hd_append2 list.set_sel(1) set_rev)
    moreover obtain t' where "t = rev t'" "t' \<in> set space_tokens"
      using t(1) by auto
    ultimately show False
      using space_tokens_invisible [of t'] assms by (simp add: hd_rev list_all_iff)
  qed
  then have "strip (map rev space_tokens) (rev s) = rev s"
    by (rule strip_fixed)
  ultimately show ?thesis
    by (simp add: TrimSpace_def)
qed

lemma b64_visible: "list_all visible (RawURLEncode s)"
proof -
  have "b64_value c \<noteq> None \<Longrightarrow> visible c" for c
    by (auto simp: b64_value_def visible_def Let_def split: if_splits)
  then show ?thesis
    using RawURL_values(2) [of s] by (auto simp: list_all_iff)
qed

section \<open>Signed tokens are accepted until they expire\<close>

text \<open>The documented behaviour of \<open>uuid\<close>: the text of an identifier is ASCII and parses to it.\<close>

definition uuid_text_ok :: "ext \<Rightarrow> bool" where
  "uuid_text_ok x \<longleftrightarrow> (\<forall>i. uuid_Parse x (uuid_String x i) = Some i \<and> list_all is_ascii (uuid_String x i))"

lemma AuthenticateRequest_signed:
  assumes "list_all visible t" "t \<noteq> []"
  shows "AuthenticateRequest secret (bearer_prefix @ t) = AuthenticateToken secret t"
  using assms
  by (simp add: AuthenticateRequest_def bearerToken_def Let_def TrimSpace_visible starts_with_iff)

lemma sign_token_visible: "list_all visible (sign_token x secret i role t)" "sign_token x secret i role t \<noteq> []"
proof -
  have "visible (CHR ''.'')"
    by (simp add: visible_def)
  then show "list_all visible (sign_token x secret i role t)" "sign_token x secret i role t \<noteq> []"
    using b64_visible by (simp_all add: sign_token_def Let_def)
qed

lemma role_ascii: "role = RoleAdmin \<or> role = RoleUser \<Longrightarrow> list_all is_ascii role"
  by (auto simp: RoleAdmin_def RoleUser_def is_ascii_def)

text \<open>A signed token that is presented as it is leads to the check of the claims it was made of.\<close>

lemma AuthenticateRequest_sign_token:
  assumes "uuid_text_ok (libs (env w))" "role = RoleAdmin \<or> role = RoleUser"
    "0 < unix_seconds (signedAt + token_lifetime)" "unix_seconds (signedAt + token_lifetime) \<le> int64_max"
  shows "run_state (AuthenticateRequest secret
      (bearer_prefix @ sign_token (libs (env w)) secret i role signedAt)) w =
    (if unix_seconds (clock_at (env w) (ticks w)) < unix_seconds (signedAt + token_lifetime)
     then Inr (token_user i role)
     else Inl (NewDomainError ErrorUnauthorized ''token is expired''), tick w)"
proof -
  let ?x = "libs (env w)" and ?e = "unix_seconds (signedAt + token_lifetime)"
  let ?h = "RawURLEncode jwt_header" and ?p = "RawURLEncode (jwt_payload ?x i role ?e)"
  let ?m = "hmac_SHA256 ?x secret (?h @ ''.'' @ ?p)"
  have "sign_token ?x secret i role signedAt = ?h @ CHR ''.'' # ?p @ CHR ''.'' # RawURLEncode ?m"
    by (simp add: sign_token_def Let_def)
  then have parts: "split_at (CHR ''.'') (sign_token ?x secret i role signedAt) = [?h, ?p, RawURLEncode ?m]"
    using RawURL_values(3) by (simp add: split_at_cons split_at_none)
  have "int64_min \<le> ?e"
    using assms(3) by (simp add: int64_min_def)
  then have claims: "unmarshal_claims (jwt_payload ?x i role ?e) =
      Some \<lparr>clmUserID = uuid_String ?x i, clmRole = role, clmExp = ?e\<rparr>"
    using assms role_ascii by (intro unmarshal_payload) (auto simp: uuid_text_ok_def)
  have "uuid_Parse ?x (uuid_String ?x i) = Some i"
    using assms(1) by (simp add: uuid_text_ok_def)
  then show ?thesis
    using assms(2,3) parts claims
    by (auto simp: AuthenticateRequest_signed [OF sign_token_visible] AuthenticateToken_def
        parseAndValidateToken_def RawURLDecode_Encode check_payload_def check_claims_def
        user_from_claims_def parseUserID_def)
qed

text \<open>
  C26. A token the service signed is accepted from an \<open>Authorization: Bearer\<close> header until it
  expires, twenty-four hours after it was signed, and stands for the user and the role it was signed
  for; from that second on it is refused as unauthorised.
\<close>

theorem token_round_trip:
  assumes "uuid_text_ok (libs (env w))" "role = RoleAdmin \<or> role = RoleUser"
    "0 < unix_seconds (signedAt + token_lifetime)" "unix_seconds (signedAt + token_lifetime) \<le> int64_max"
  shows "\<exists>r. run_state (AuthenticateRequest secret
      (bearer_prefix @ sign_token (libs (env w)) secret i role signedAt)) w = (r, tick w) \<and>
    (if unix_seconds (clock_at (env w) (ticks w)) < unix_seconds (signedAt + token_lifetime)
     then r = Inr (token_user i role)
     else \<exists>e. r = Inl e \<and> has_code e ErrorUnauthorized)"
  using AuthenticateRequest_sign_token [OF assms] by simp

text \<open>Identifiers written in decimal, as an example of such a library.\<close>

definition token_ext :: ext where
  "token_ext = sample_ext\<lparr>uuid_String := (\<lambda>i. digits (nat (uint i))),
     uuid_Parse := (\<lambda>s. Some (of_int (digits_val s)))\<rparr>"

definition token_world :: world where
  "token_world = sample_world\<lparr>env := sample_env\<lparr>libs := token_ext\<rparr>\<rparr>"

lemma token_ext_ok: "uuid_text_ok token_ext"
proof -
  have "list_all is_ascii (digits n)" for n
    using digits_parse [of n] by (auto simp: list_all_iff is_digit_def is_ascii_def)
  then show ?thesis
    by (simp add: uuid_text_ok_def token_ext_def digits_parse)
qed

lemma token_world_simps [simp]:
  "libs (env token_world) = token_ext" "ticks token_world = 0"
  "clock_at (env token_world) n = 100000000000"
  by (simp_all add: token_world_def sample_env_def sample_world_def)

lemma token_round_trip_witness:
  "run_state (AuthenticateRequest ''key'' (bearer_prefix @ sign_token token_ext ''key'' 7 RoleUser 0)) token_world =
    (Inr (token_user 7 RoleUser), tick token_world)"
  using token_round_trip [of token_world RoleUser 0 "''key''" 7]
  by (auto simp: token_ext_ok unix_seconds_def token_lifetime_def int64_max_def)

text \<open>
  C27. No token gets in without the key: whoever is accepted presented three parts, the last of which
  decodes to the keyed digest of the first two, and is the user, with the role, that the signed claims
  in the second part name; the role is one of the two the service knows, and claims with a positive
  expiry have not expired.
\<close>

theorem tokens_need_the_key:
  assumes "run_state (AuthenticateToken secret token) w = (Inr u, w')"
  shows "\<exists>header part sig payload claims.
    token = header @ ''.'' @ part @ ''.'' @ sig \<and>
    RawURLDecode sig = Some (hmac_SHA256 (libs (env w)) secret (header @ ''.'' @ part)) \<and>
    RawURLDecode part = Some payload \<and> unmarshal_claims payload = Some claims \<and>
    uuid_Parse (libs (env w)) (clmUserID claims) = Some (usrID u) \<and> usrRole u = clmRole claims \<and>
    (usrRole u = RoleAdmin \<or> usrRole u = RoleUser) \<and>
    (0 < clmExp claims \<longrightarrow> unix_seconds (clock_at (env w) (ticks w)) < clmExp claims) \<and> db w' = db w"
proof -
  let ?x = "libs (env w)"
  obtain h p s where split: "split_at (CHR ''.'') token = [h, p, s]"
    and sig: "RawURLDecode s = Some (hmac_SHA256 ?x secret (h @ ''.'' @ p))"
    and payload: "run_state (check_payload ?x p) w = (Inr u, w')"
    using assms
    by (auto simp: AuthenticateToken_def parseAndValidateToken_def Let_def split: list.splits option.splits if_splits)
  have token: "token = h @ ''.'' @ p @ ''.'' @ s"
    using split_at_back [of "CHR ''.''" token] split by simp
  from payload obtain pl claims where pl: "RawURLDecode p = Some pl" "unmarshal_claims pl = Some claims"
    and claims: "run_state (check_claims ?x claims) w = (Inr u, w')"
    by (auto simp: check_payload_def split: option.splits)
  then have "uuid_Parse ?x (clmUserID claims) = Some (usrID u) \<and> usrRole u = clmRole claims \<and>
      (usrRole u = RoleAdmin \<or> usrRole u = RoleUser) \<and>
      (0 < clmExp claims \<longrightarrow> unix_seconds (clock_at (env w) (ticks w)) < clmExp claims) \<and> db w' = db w"
    by (auto simp: check_claims_def user_from_claims_def parseUserID_def token_user_def
        split: if_splits option.splits)
  with token sig pl show ?thesis
    by blast
qed

lemma tokens_need_the_key_witness:
  "\<exists>header part sig. sign_token token_ext ''key'' 7 RoleUser 0 = header @ ''.'' @ part @ ''.'' @ sig \<and>
    RawURLDecode sig = Some (hmac_SHA256 token_ext ''key'' (header @ ''.'' @ part))"
proof -
  have "run_state (AuthenticateToken ''key'' (sign_token token_ext ''key'' 7 RoleUser 0)) token_world =
      (Inr (token_user 7 RoleUser), tick token_world)"
    using token_round_trip_witness by (simp add: AuthenticateRequest_signed [OF sign_token_visible])
  from tokens_need_the_key [OF this] show ?thesis
    by auto
qed

end
