(* ===== verification/Http_Base.thy ===== *)
theory Http_Base
  imports Tokens
begin

text \<open>
  Requests and responses, \<open>response/response.go\<close>, the middleware of
  \<open>internal/transport/http/middleware\<close> and the parsing of query parameters. What the router and the
  server hand to the code is the record \<open>request\<close>: the pattern that matched, the parameters in the
  path, the first value of a query parameter or header (the empty string if there is none), and the
  body. A response is its status, its headers and the bytes of its body.
\<close>

record request =
  rqMethod :: string
  rqPattern :: string
  rqParam :: "string \<Rightarrow> string"
  rqQuery :: "string \<Rightarrow> string"
  rqHeader :: "string \<Rightarrow> string"
  rqBody :: string

record response =
  rsStatus :: int
  rsHeaders :: "(string \<times> string) list"
  rsBody :: string

section \<open>Writing responses\<close>

definition StatusOK :: int where "StatusOK = 200"
definition StatusCreated :: int where "StatusCreated = 201"
definition StatusNoContent :: int where "StatusNoContent = 204"
definition StatusBadRequest :: int where "StatusBadRequest = 400"
definition StatusUnauthorized :: int where "StatusUnauthorized = 401"
definition StatusForbidden :: int where "StatusForbidden = 403"
definition StatusNotFound :: int where "StatusNotFound = 404"
definition StatusConflict :: int where "StatusConflict = 409"
definition StatusInternalServerError :: int where "StatusInternalServerError = 500"

lemmas statuses = StatusOK_def StatusCreated_def StatusNoContent_def StatusBadRequest_def
  StatusUnauthorized_def StatusForbidden_def StatusNotFound_def StatusConflict_def
  StatusInternalServerError_def

definition WriteJSON :: "int \<Rightarrow> json \<Rightarrow> response" where
  "WriteJSON status payload =
     \<lparr>rsStatus = status, rsHeaders = [(''Content-Type'', ''application/json'')],
      rsBody = Marshal payload @ [CHR 0x0A]\<rparr>"

definition errorBody :: "string \<Rightarrow> string \<Rightarrow> json" where
  "errorBody c message =
     JObj [(''error'', JObj [(''code'', JStr c), (''message'', JStr message)])]"

fun StatusFromDomainCode :: "error_code \<Rightarrow> int" where
  "StatusFromDomainCode ErrorInvalidRequest = StatusBadRequest"
| "StatusFromDomainCode ErrorUnauthorized = StatusUnauthorized"
| "StatusFromDomainCode ErrorForbidden = StatusForbidden"
| "StatusFromDomainCode ErrorNotFound = StatusNotFound"
| "StatusFromDomainCode ErrorRoomNotFound = StatusNotFound"
| "StatusFromDomainCode ErrorSlotNotFound = StatusNotFound"
| "StatusFromDomainCode ErrorBookingNotFound = StatusNotFound"
| "StatusFromDomainCode ErrorWaitlistNotFound = StatusNotFound"
| "StatusFromDomainCode ErrorReservationNotFound = StatusNotFound"
| "StatusFromDomainCode ErrorSlotAlreadyBooked = StatusConflict"
| "StatusFromDomainCode ErrorScheduleExists = StatusConflict"
| "StatusFromDomainCode ErrorWaitlistJoined = StatusConflict"
| "StatusFromDomainCode ErrorSlotNotBooked = StatusConflict"
| "StatusFromDomainCode ErrorSlotReserved = StatusConflict"
| "StatusFromDomainCode ErrorInternalError = StatusInternalServerError"

definition WriteError :: "go_error \<Rightarrow> response" where
  "WriteError err =
     (case AsDomainError err of
        Some (c, message) \<Rightarrow> WriteJSON (StatusFromDomainCode c) (errorBody (code_string c) message)
      | None \<Rightarrow> WriteJSON StatusInternalServerError
          (errorBody (code_string ErrorInternalError) ''internal server error''))"

section \<open>Reading bodies\<close>

definition MaxBody :: nat where
  "MaxBody = 1048576"

definition composite :: "json \<Rightarrow> bool" where
  "composite j = (case j of JObj _ \<Rightarrow> True | JArr _ \<Rightarrow> True | _ \<Rightarrow> False)"

definition body_too_large :: go_error where
  "body_too_large = NewDomainError ErrorInvalidRequest ''request body too large''"

definition invalid_body :: go_error where
  "invalid_body = wrapped ErrorInvalidRequest ''invalid json body'' (TextError ''json'')"

text \<open>
  \<open>Decoder.Decode\<close> reads one value and leaves what follows. It meets the limit only if the value has
  not ended before; a value that is no object or array ends with the byte after it.
\<close>

definition DecodeJSON :: "(json \<Rightarrow> 'a option) \<Rightarrow> string \<Rightarrow> go_error + 'a" where
  "DecodeJSON dst body =
     (let cut = MaxBody < length body
      in case scan (take MaxBody body) of
           Done v rest \<Rightarrow>
             if cut \<and> rest = [] \<and> \<not> composite v then Inl body_too_large
             else (case dst v of None \<Rightarrow> Inl invalid_body | Some x \<Rightarrow> Inr x)
         | Short \<Rightarrow> Inl (if cut then body_too_large else invalid_body)
         | Bad \<Rightarrow> Inl invalid_body)"

section \<open>Query parameters\<close>

definition parsePagination :: "request \<Rightarrow> go_error + (int \<times> int)" where
  "parsePagination r =
     (case (if rqQuery r ''page'' = [] then Some 1 else ParseInt (rqQuery r ''page'')) of
        None \<Rightarrow> Inl (wrapped ErrorInvalidRequest ''invalid page'' (TextError ''strconv.Atoi''))
      | Some page \<Rightarrow>
          (case (if rqQuery r ''pageSize'' = [] then Some 20 else ParseInt (rqQuery r ''pageSize'')) of
             None \<Rightarrow> Inl (wrapped ErrorInvalidRequest ''invalid pageSize'' (TextError ''strconv.Atoi''))
           | Some pageSize \<Rightarrow>
               if page < 1 \<or> pageSize < 1 \<or> pageSize > 100
               then Inl (NewDomainError ErrorInvalidRequest
                 ''page must be >= 1 and pageSize between 1 and 100'')
               else Inr (page, pageSize)))"

text \<open>The proleptic Gregorian calendar, and \<open>time.Parse\<close> for the layout \<open>2006-01-02\<close>.\<close>

definition leap_year :: "int \<Rightarrow> bool" where
  "leap_year y \<longleftrightarrow> y mod 4 = 0 \<and> (y mod 100 \<noteq> 0 \<or> y mod 400 = 0)"

definition days_in :: "int \<Rightarrow> int \<Rightarrow> int" where
  "days_in y m = (if m = 2 then (if leap_year y then 29 else 28) else if m \<in> {4, 6, 9, 11} then 30 else 31)"

definition days_before_year :: "int \<Rightarrow> int" where
  "days_before_year y = 365 * y + (y - 1) div 4 - (y - 1) div 100 + (y - 1) div 400"

definition epoch_days :: "int \<Rightarrow> int \<Rightarrow> int \<Rightarrow> int" where
  "epoch_days y m d =
     days_before_year y - days_before_year 1970 + sum_list (map (days_in y) [1..m - 1]) + d - 1"

definition parse_date :: "string \<Rightarrow> time option" where
  "parse_date s =
     (case s of
        [y1, y2, y3, y4, s1, m1, m2, s2, d1, d2] \<Rightarrow>
          (let y = digits_val [y1, y2, y3, y4]; m = digits_val [m1, m2]; d = digits_val [d1, d2]
           in if list_all is_digit [y1, y2, y3, y4, m1, m2, d1, d2] \<and> s1 = CHR ''-'' \<and> s2 = CHR ''-'' \<and>
                1 \<le> m \<and> m \<le> 12 \<and> 1 \<le> d \<and> d \<le> days_in y m
              then Some (epoch_days y m d * day_length) else None)
      | _ \<Rightarrow> None)"

definition parseDateQuery :: "request \<Rightarrow> go_error + time" where
  "parseDateQuery r =
     (if rqQuery r ''date'' = []
      then Inl (NewDomainError ErrorInvalidRequest ''date query parameter is required'')
      else case parse_date (rqQuery r ''date'') of
        None \<Rightarrow> Inl (wrapped ErrorInvalidRequest ''invalid date'' (TextError ''parsing time''))
      | Some date \<Rightarrow> Inr date)"

section \<open>Middleware\<close>

type_synonym http_handler = "request \<Rightarrow> response go"

definition RequestIDHeader :: string where
  "RequestIDHeader = ''X-Request-ID''"

definition add_headers :: "(string \<times> string) list \<Rightarrow> response \<Rightarrow> response" where
  "add_headers hs r = r\<lparr>rsHeaders := hs @ rsHeaders r\<rparr>"

definition RequestID :: "http_handler \<Rightarrow> http_handler" where
  "RequestID inner r = do {
     x \<leftarrow> asks id;
     i \<leftarrow> (let given = TrimSpace (rqHeader r RequestIDHeader)
           in if given = [] then do { u \<leftarrow> uuid_New; State_Monad.return (uuid_String x u) }
              else State_Monad.return given);
     rs \<leftarrow> inner r;
     State_Monad.return (add_headers [(RequestIDHeader, i)] rs)
   }"

definition allow_any :: "string list \<Rightarrow> bool" where
  "allow_any allowedOrigins \<longleftrightarrow> ''*'' \<in> set allowedOrigins"

definition allowed_origins :: "string list \<Rightarrow> string list" where
  "allowed_origins allowedOrigins = map TrimSpace (filter (\<lambda>s. s \<noteq> ''*'') allowedOrigins)"

definition cors_headers :: "string list \<Rightarrow> request \<Rightarrow> (string \<times> string) list" where
  "cors_headers allowedOrigins r =
     (let origin = TrimSpace (rqHeader r ''Origin'');
          more = [(''Access-Control-Allow-Methods'', ''GET,POST,PUT,PATCH,DELETE,OPTIONS''),
            (''Access-Control-Allow-Headers'', ''Authorization,Content-Type,X-Request-ID''),
            (''Access-Control-Expose-Headers'', RequestIDHeader),
            (''Access-Control-Max-Age'', ''600'')]
      in if origin = [] then []
         else if allow_any allowedOrigins then (''Access-Control-Allow-Origin'', ''*'') # more
         else if origin \<in> set (allowed_origins allowedOrigins)
         then (''Access-Control-Allow-Origin'', origin) # (''Vary'', ''Origin'') # more
         else [])"

definition CORS :: "string list \<Rightarrow> http_handler \<Rightarrow> http_handler" where
  "CORS allowedOrigins inner r =
     (let hs = cors_headers allowedOrigins r
      in if rqMethod r = ''OPTIONS''
         then State_Monad.return \<lparr>rsStatus = StatusNoContent, rsHeaders = hs, rsBody = []\<rparr>
         else do { rs \<leftarrow> inner r; State_Monad.return (add_headers hs rs) })"

text \<open>
  \<open>HTTPMetrics\<close> and \<open>ObserveHTTPRequest\<close> count the request under the pattern of its route, which is
  empty when the request was answered before it was routed; the histogram of durations is left out.
\<close>

definition ObserveHTTPRequest :: "string \<Rightarrow> string \<Rightarrow> int \<Rightarrow> unit go" where
  "ObserveHTTPRequest method path status = inc (HTTPRequests method path (FormatInt status))"

definition HTTPMetrics :: "http_handler \<Rightarrow> http_handler" where
  "HTTPMetrics inner r = do {
     rs \<leftarrow> inner r;
     ObserveHTTPRequest (rqMethod r) (if rqPattern r = [] then ''unknown'' else rqPattern r) (rsStatus rs);
     State_Monad.return rs
   }"

text \<open>\<open>user, ok := UserFromContext(ctx)\<close> is the argument of the handlers behind \<open>RequireUser\<close>.\<close>

definition RequireUser :: "string \<Rightarrow> (user option \<Rightarrow> http_handler) \<Rightarrow> http_handler" where
  "RequireUser secret inner r = do {
     u \<leftarrow> AuthenticateRequest secret (rqHeader r ''Authorization'');
     (case u of Inl err \<Rightarrow> State_Monad.return (WriteError err) | Inr u \<Rightarrow> inner (Some u) r)
   }"

definition panic_response :: response where
  "panic_response = WriteError (NewDomainError ErrorInternalError ''internal server error'')"

end
