(* ===== verification/Hub.thy ===== *)
theory Hub
  imports Http_Base
begin

text \<open>
  \<open>internal/realtime\<close>: the hub with its rooms and users (\<open>hub.go\<close>), the websocket clients
  (\<open>client.go\<close>), the manager, the Redis subscriber and the websocket handler. Clients are numbered in
  the order of their connections. The mutexes make every operation of the hub and every section of a
  client atomic; \<open>perform\<close> runs one round of one goroutine, all its sections one after the other. The
  sections of \<open>Close\<close> and of \<open>subscribe\<close> are definitions of their own, for what happens between them.
\<close>

section \<open>Messages\<close>

definition MessageTypeSubscribe :: string where "MessageTypeSubscribe = ''subscribe''"
definition MessageTypeUnsubscribe :: string where "MessageTypeUnsubscribe = ''unsubscribe''"
definition MessageTypeSubscribed :: string where "MessageTypeSubscribed = ''subscribed''"
definition MessageTypeUnsubscribed :: string where "MessageTypeUnsubscribed = ''unsubscribed''"
definition MessageTypeError :: string where "MessageTypeError = ''error''"

definition string_field :: "string \<Rightarrow> (string \<times> json) list \<Rightarrow> string option" where
  "string_field name ms = set_field put_string (field_values name ms) []"

record client_message =
  cmType :: string
  cmRoomID :: string

definition unmarshal_client_message :: "string \<Rightarrow> client_message option" where
  "unmarshal_client_message data =
     Option.bind (Unmarshal data) (into_struct (\<lambda>ms.
       Option.bind (string_field ''type'' ms) (\<lambda>t.
       Option.bind (string_field ''roomId'' ms) (\<lambda>r. Some \<lparr>cmType = t, cmRoomID = r\<rparr>))))"

definition unmarshal_event :: "string \<Rightarrow> event option" where
  "unmarshal_event payload =
     Option.bind (Unmarshal payload) (into_struct (\<lambda>ms.
       Option.bind (string_field ''type'' ms) (\<lambda>t.
       Option.bind (string_field ''target'' ms) (\<lambda>tg.
       Option.bind (string_field ''roomId'' ms) (\<lambda>r.
       Option.bind (string_field ''userId'' ms) (\<lambda>u.
       Option.bind (string_field ''slotId'' ms) (\<lambda>s.
       Option.bind (string_field ''bookingId'' ms) (\<lambda>b.
       Option.bind (string_field ''reservationId'' ms) (\<lambda>rv.
       Option.bind (string_field ''waitlistEntryId'' ms) (\<lambda>wl.
       Option.bind (string_field ''expiresAt'' ms) (\<lambda>e.
       Option.bind (string_field ''timestamp'' ms) (\<lambda>ts.
       Some \<lparr>evType = t, evTarget = tg, evRoomID = r, evUserID = u, evSlotID = s, evBookingID = b,
         evReservationID = rv, evWaitlistEntryID = wl, evExpiresAt = e, evTimestamp = ts\<rparr>))))))))))))"

definition server_message_json :: "server_message \<Rightarrow> json" where
  "server_message_json m =
     JObj ((''type'', JStr (smType m)) # omit_empty ''roomId'' (smRoomID m) @
       omit_empty ''userId'' (smUserID m) @ omit_empty ''slotId'' (smSlotID m) @
       omit_empty ''bookingId'' (smBookingID m) @ omit_empty ''reservationId'' (smReservationID m) @
       omit_empty ''waitlistEntryId'' (smWaitlistEntryID m) @ omit_empty ''expiresAt'' (smExpiresAt m) @
       omit_empty ''timestamp'' (smTimestamp m) @ omit_empty ''message'' (smMessage m))"

definition extractMessageType :: "string \<Rightarrow> string" where
  "extractMessageType payload =
     (case Option.bind (Unmarshal payload) (into_struct (string_field ''type'')) of
        None \<Rightarrow> ''unknown''
      | Some t \<Rightarrow> if t = [] then ''unknown'' else t)"

section \<open>State\<close>

record outboundMessage =
  obPayload :: string
  obType :: string

text \<open>
  A client: its user, its channel \<open>send\<close> and whether that is closed, the rooms it subscribed to,
  whether \<open>closeOnce\<close> was used, its connection (closed or not, and what was written on it), and
  whether the goroutines of its two pumps still run.
\<close>

record client =
  clUser :: user
  clSend :: "outboundMessage list"
  clSendClosed :: bool
  clSubscribed :: "uuid list"
  clClosed :: bool
  clConnClosed :: bool
  clWritten :: "string list"
  clReading :: bool
  clWriting :: bool

type_synonym registry = "uuid \<Rightarrow> nat list option"

record hub_state =
  hubRooms :: registry
  hubUsers :: registry
  hubClients :: "nat \<Rightarrow> client"
  hubNext :: nat
  hubCounters :: "metric \<Rightarrow> int"

definition maxMessageSize :: nat where "maxMessageSize = 1024"
definition outboundQueueSize :: nat where "outboundQueueSize = 64"
definition maxSubscriptions :: nat where "maxSubscriptions = 100"

definition client_for :: "user \<Rightarrow> client" where
  "client_for u = \<lparr>clUser = u, clSend = [], clSendClosed = False, clSubscribed = [], clClosed = False,
     clConnClosed = False, clWritten = [], clReading = True, clWriting = True\<rparr>"

definition NewHub :: hub_state where
  "NewHub = \<lparr>hubRooms = (\<lambda>_. None), hubUsers = (\<lambda>_. None),
     hubClients = (\<lambda>_. client_for (token_user 0 RoleUser)), hubNext = 0, hubCounters = (\<lambda>_. 0)\<rparr>"

definition with_client :: "nat \<Rightarrow> (client \<Rightarrow> client) \<Rightarrow> hub_state \<Rightarrow> hub_state" where
  "with_client c f st = st\<lparr>hubClients := (hubClients st)(c := f (hubClients st c))\<rparr>"

definition count :: "metric \<Rightarrow> int \<Rightarrow> hub_state \<Rightarrow> hub_state" where
  "count m d st = st\<lparr>hubCounters := (hubCounters st)(m := hubCounters st m + d)\<rparr>"

section \<open>The hub\<close>

definition members :: "registry \<Rightarrow> uuid \<Rightarrow> nat list" where
  "members m k = (case m k of None \<Rightarrow> [] | Some cs \<Rightarrow> cs)"

definition enter :: "uuid \<Rightarrow> nat \<Rightarrow> registry \<Rightarrow> registry" where
  "enter k c m =
     (case m k of None \<Rightarrow> m(k \<mapsto> [c]) | Some cs \<Rightarrow> m(k \<mapsto> (if c \<in> set cs then cs else cs @ [c])))"

definition without :: "nat \<Rightarrow> nat list \<Rightarrow> nat list option" where
  "without c cs = (let rest = removeAll c cs in if rest = [] then None else Some rest)"

definition leave :: "uuid \<Rightarrow> nat \<Rightarrow> registry \<Rightarrow> registry" where
  "leave k c m = (case m k of None \<Rightarrow> m | Some cs \<Rightarrow> m(k := without c cs))"

definition leave_all :: "nat \<Rightarrow> registry \<Rightarrow> registry" where
  "leave_all c m = (\<lambda>k. case m k of None \<Rightarrow> None | Some cs \<Rightarrow> without c cs)"

definition Subscribe :: "uuid \<Rightarrow> nat \<Rightarrow> hub_state \<Rightarrow> hub_state" where
  "Subscribe roomID c st = st\<lparr>hubRooms := enter roomID c (hubRooms st)\<rparr>"

definition Unsubscribe :: "uuid \<Rightarrow> nat \<Rightarrow> hub_state \<Rightarrow> hub_state" where
  "Unsubscribe roomID c st = st\<lparr>hubRooms := leave roomID c (hubRooms st)\<rparr>"

definition UnsubscribeAll :: "nat \<Rightarrow> hub_state \<Rightarrow> hub_state" where
  "UnsubscribeAll c st = st\<lparr>hubRooms := leave_all c (hubRooms st)\<rparr>"

definition RegisterUser :: "uuid \<Rightarrow> nat \<Rightarrow> hub_state \<Rightarrow> hub_state" where
  "RegisterUser userID c st = st\<lparr>hubUsers := enter userID c (hubUsers st)\<rparr>"

definition UnregisterUser :: "uuid \<Rightarrow> nat \<Rightarrow> hub_state \<Rightarrow> hub_state" where
  "UnregisterUser userID c st = st\<lparr>hubUsers := leave userID c (hubUsers st)\<rparr>"

section \<open>Clients\<close>

text \<open>
  \<open>Close\<close> by its sections, between which other goroutines run: \<open>closeOnce\<close> and the section under the
  mutex of the client, the gauges, and then the connection, the rooms and the users of the hub, each
  under the mutex of the hub, and the channel.
\<close>

definition Close_mark :: "nat \<Rightarrow> hub_state \<Rightarrow> hub_state" where
  "Close_mark c = with_client c (\<lambda>cl. cl\<lparr>clClosed := True, clSubscribed := []\<rparr>)"

definition Close_gauges :: "nat \<Rightarrow> hub_state \<Rightarrow> hub_state" where
  "Close_gauges remaining st =
     count WSConnections (- 1) (if remaining > 0 then count WSSubscriptions (- int remaining) st else st)"

definition Close_finish :: "nat \<Rightarrow> hub_state \<Rightarrow> hub_state" where
  "Close_finish c st =
     (let st = with_client c (clConnClosed_update (\<lambda>_. True)) st;
        st = UnsubscribeAll c st;
        st = UnregisterUser (usrID (clUser (hubClients st c))) c st
      in with_client c (clSendClosed_update (\<lambda>_. True)) st)"

definition Close :: "nat \<Rightarrow> hub_state \<Rightarrow> hub_state" where
  "Close c st =
     (if clClosed (hubClients st c) then st
      else
        let remaining = length (clSubscribed (hubClients st c))
        in Close_finish c (Close_gauges remaining (Close_mark c st)))"

text \<open>A send on the closed channel panics, which \<open>enqueue\<close> recovers from; a full one is not waited for.\<close>

definition enqueue :: "nat \<Rightarrow> string \<Rightarrow> string \<Rightarrow> hub_state \<Rightarrow> bool \<times> hub_state" where
  "enqueue c payload messageType st =
     (if clSendClosed (hubClients st c) then (False, st)
      else if length (clSend (hubClients st c)) < outboundQueueSize
      then (True, with_client c (\<lambda>cl. cl\<lparr>clSend := clSend cl @
        [\<lparr>obPayload = payload, obType = messageType\<rparr>]\<rparr>) st)
      else (False, st))"

definition no_message :: server_message where
  "no_message = \<lparr>smType = [], smRoomID = [], smUserID = [], smSlotID = [], smBookingID = [],
     smReservationID = [], smWaitlistEntryID = [], smExpiresAt = [], smTimestamp = [], smMessage = []\<rparr>"

definition sendServerMessage :: "nat \<Rightarrow> server_message \<Rightarrow> hub_state \<Rightarrow> hub_state" where
  "sendServerMessage c msg st =
     (case enqueue c (Marshal (server_message_json msg)) (smType msg) st of
        (done, st) \<Rightarrow> if done then st else Close c st)"

definition sendError :: "nat \<Rightarrow> string \<Rightarrow> hub_state \<Rightarrow> hub_state" where
  "sendError c msg = sendServerMessage c (no_message\<lparr>smType := MessageTypeError, smMessage := msg\<rparr>)"

text \<open>\<open>subscribe\<close> in two parts: the section under the mutex of the client, and what follows.\<close>

definition subscribe_mark :: "nat \<Rightarrow> uuid \<Rightarrow> hub_state \<Rightarrow> hub_state" where
  "subscribe_mark c roomID st =
     count WSSubscriptions 1 (with_client c (\<lambda>cl. cl\<lparr>clSubscribed := clSubscribed cl @ [roomID]\<rparr>) st)"

definition subscribe_finish :: "ext \<Rightarrow> nat \<Rightarrow> uuid \<Rightarrow> hub_state \<Rightarrow> hub_state" where
  "subscribe_finish x c roomID st =
     sendServerMessage c (no_message\<lparr>smType := MessageTypeSubscribed, smRoomID := uuid_String x roomID\<rparr>)
       (Subscribe roomID c st)"

definition subscribe :: "ext \<Rightarrow> nat \<Rightarrow> uuid \<Rightarrow> hub_state \<Rightarrow> hub_state" where
  "subscribe x c roomID st =
     (if roomID \<in> set (clSubscribed (hubClients st c)) then st
      else if length (clSubscribed (hubClients st c)) \<ge> maxSubscriptions
      then sendError c ''too many subscriptions'' st
      else subscribe_finish x c roomID (subscribe_mark c roomID st))"

definition unsubscribe :: "ext \<Rightarrow> nat \<Rightarrow> uuid \<Rightarrow> hub_state \<Rightarrow> hub_state" where
  "unsubscribe x c roomID st =
     (if roomID \<notin> set (clSubscribed (hubClients st c)) then st
      else
        let st = with_client c (\<lambda>cl. cl\<lparr>clSubscribed := removeAll roomID (clSubscribed cl)\<rparr>) st;
          st = count WSSubscriptions (- 1) st;
          st = Unsubscribe roomID c st
        in sendServerMessage c
          (no_message\<lparr>smType := MessageTypeUnsubscribed, smRoomID := uuid_String x roomID\<rparr>) st)"

section \<open>The pumps\<close>

text \<open>One round of \<open>readPump\<close>: what \<open>ReadMessage\<close> returned, \<open>None\<close> for an error.\<close>

definition read_message :: "ext \<Rightarrow> nat \<Rightarrow> string \<Rightarrow> hub_state \<Rightarrow> hub_state" where
  "read_message x c data st =
     (case unmarshal_client_message data of
        None \<Rightarrow> sendError c ''invalid message'' st
      | Some msg \<Rightarrow>
          if cmType msg = MessageTypeSubscribe then
            (case uuid_Parse x (cmRoomID msg) of
               None \<Rightarrow> sendError c ''invalid roomId'' st
             | Some roomID \<Rightarrow> subscribe x c roomID st)
          else if cmType msg = MessageTypeUnsubscribe then
            (case uuid_Parse x (cmRoomID msg) of
               None \<Rightarrow> sendError c ''invalid roomId'' st
             | Some roomID \<Rightarrow> unsubscribe x c roomID st)
          else sendError c ''unsupported message type'' st)"

definition readPump :: "ext \<Rightarrow> nat \<Rightarrow> string option \<Rightarrow> hub_state \<Rightarrow> hub_state" where
  "readPump x c input st =
     (if \<not> clReading (hubClients st c) then st
      else case input of
        Some data \<Rightarrow>
          if length data \<le> maxMessageSize then read_message x c data st
          else Close c (with_client c (clReading_update (\<lambda>_. False)) st)
      | None \<Rightarrow> Close c (with_client c (clReading_update (\<lambda>_. False)) st))"

text \<open>
  One round of \<open>writePump\<close>: the channel is ready or the ticker fired, and the network took the bytes or
  not. A closed connection takes none.
\<close>

datatype wakeup = FromSend | FromTicker

definition stop_writing :: "nat \<Rightarrow> hub_state \<Rightarrow> hub_state" where
  "stop_writing c st = Close c (with_client c (clWriting_update (\<lambda>_. False)) st)"

definition writePump :: "nat \<Rightarrow> wakeup \<Rightarrow> bool \<Rightarrow> hub_state \<Rightarrow> hub_state" where
  "writePump c wake sent st =
     (let cl = hubClients st c; written = sent \<and> \<not> clConnClosed cl
      in if \<not> clWriting cl then st
         else case wake of
           FromTicker \<Rightarrow> if written then st else stop_writing c st
         | FromSend \<Rightarrow>
             (case clSend cl of
                [] \<Rightarrow> if clSendClosed cl then stop_writing c st else st
              | outbound # rest \<Rightarrow>
                  let st = with_client c (clSend_update (\<lambda>_. rest)) st
                  in if written
                     then count (WSMessageSent (sanitizeLabel (obType outbound) ''unknown'')) 1
                       (with_client c (\<lambda>cl. cl\<lparr>clWritten := clWritten cl @ [obPayload outbound]\<rparr>) st)
                     else stop_writing c st))"

text \<open>\<open>NewClient\<close> and \<open>Run\<close> up to the start of the pumps.\<close>

definition NewClient :: "user \<Rightarrow> hub_state \<Rightarrow> nat \<times> hub_state" where
  "NewClient u st =
     (hubNext st, (with_client (hubNext st) (\<lambda>_. client_for u) st)\<lparr>hubNext := Suc (hubNext st)\<rparr>)"

definition client_Run :: "nat \<Rightarrow> hub_state \<Rightarrow> hub_state" where
  "client_Run c st = RegisterUser (usrID (clUser (hubClients st c))) c (count WSConnections 1 st)"

section \<open>Broadcasts\<close>

fun enqueue_each :: "string \<Rightarrow> string \<Rightarrow> nat list \<Rightarrow> hub_state \<Rightarrow> nat list \<times> hub_state" where
  "enqueue_each payload messageType [] st = ([], st)"
| "enqueue_each payload messageType (c # cs) st =
     (case enqueue c payload messageType st of (done, st) \<Rightarrow>
      case enqueue_each payload messageType cs st of (slow, st) \<Rightarrow>
      ((if done then slow else c # slow), st))"

definition send_all :: "string \<Rightarrow> nat list \<Rightarrow> hub_state \<Rightarrow> hub_state" where
  "send_all payload cs st =
     (case enqueue_each payload (extractMessageType payload) cs st of (slow, st) \<Rightarrow> fold Close slow st)"

definition Broadcast :: "uuid \<Rightarrow> string \<Rightarrow> hub_state \<Rightarrow> hub_state" where
  "Broadcast roomID payload st = send_all payload (members (hubRooms st) roomID) st"

definition SendToUser :: "uuid \<Rightarrow> string \<Rightarrow> hub_state \<Rightarrow> hub_state" where
  "SendToUser userID payload st = send_all payload (members (hubUsers st) userID) st"

text \<open>\<open>Manager\<close>: broadcasts without Redis; the flag says whether it has a hub.\<close>

definition Manager_publish ::
  "ext \<Rightarrow> bool \<Rightarrow> string \<Rightarrow> uuid \<Rightarrow> uuid \<Rightarrow> uuid \<Rightarrow> time \<Rightarrow> hub_state \<Rightarrow> hub_state" where
  "Manager_publish x hub msgType roomID slotID bookingID now st =
     (if \<not> hub then st
      else Broadcast roomID (Marshal (server_message_json (no_message\<lparr>smType := msgType,
        smRoomID := uuid_String x roomID, smSlotID := uuid_String x slotID,
        smBookingID := uuid_String x bookingID, smTimestamp := format_RFC3339 x now\<rparr>))) st)"

section \<open>The Redis subscriber\<close>

definition eventTypeLabel :: "string \<Rightarrow> string" where
  "eventTypeLabel eventType = (if eventType = [] then ''unknown'' else eventType)"

definition received :: "string \<Rightarrow> string \<Rightarrow> hub_state \<Rightarrow> hub_state" where
  "received eventType result =
     count (RedisEventReceived (sanitizeLabel eventType ''unknown'') (sanitizeLabel result ''unknown'')) 1"

definition handleMessage :: "ext \<Rightarrow> string \<Rightarrow> hub_state \<Rightarrow> go_error option \<times> hub_state" where
  "handleMessage x payload st =
     (case unmarshal_event payload of
        None \<Rightarrow> (Some (FmtError ''unmarshal event'' (TextError ''json'')), received ''unknown'' ''error'' st)
      | Some e \<Rightarrow>
          let label = eventTypeLabel (evType e)
          in case Validate x e of
               Some err \<Rightarrow> (Some (FmtError ''invalid event'' err), received label ''error'' st)
             | None \<Rightarrow>
                 let outboundPayload = Marshal (server_message_json (ToServerMessage e))
                 in if evTarget e = EventTargetRoom then
                      (case RoomUUID x e of
                         None \<Rightarrow> (Some (FmtError ''invalid room uuid'' (TextError ''invalid UUID'')),
                           received label ''error'' st)
                       | Some roomID \<Rightarrow> (None, received label ''success'' (Broadcast roomID outboundPayload st)))
                    else if evTarget e = EventTargetUser then
                      (case UserUUID x e of
                         None \<Rightarrow> (Some (FmtError ''invalid user uuid'' (TextError ''invalid UUID'')),
                           received label ''error'' st)
                       | Some userID \<Rightarrow> (None, received label ''success'' (SendToUser userID outboundPayload st)))
                    else (Some (TextError (''unsupported target: '' @ evTarget e)), received label ''error'' st))"

text \<open>
  What happens to the subscriber: Redis confirms or refuses the subscription, sends a message, closes
  the connection, or the context is cancelled. The list of what happens is finite: at its end the
  context is cancelled. \<open>consume\<close> returns whether it ended with an error.
\<close>

datatype redis_input = Confirmed | Refused | Payload string | ChannelClosed | Cancelled

fun receive :: "ext \<Rightarrow> redis_input list \<Rightarrow> hub_state \<Rightarrow> bool \<times> redis_input list \<times> hub_state" where
  "receive x [] st = (False, [], st)"
| "receive x (Payload p # ins) st = receive x ins (snd (handleMessage x p st))"
| "receive x (ChannelClosed # ins) st = (True, ins, st)"
| "receive x (Cancelled # ins) st = (False, [], st)"
| "receive x (i # ins) st = receive x ins st"

fun consume :: "ext \<Rightarrow> redis_input list \<Rightarrow> hub_state \<Rightarrow> bool \<times> redis_input list \<times> hub_state" where
  "consume x [] st = (False, [], st)"
| "consume x (Refused # ins) st = (True, ins, st)"
| "consume x (ChannelClosed # ins) st = (True, ins, st)"
| "consume x (Cancelled # ins) st = (True, [], st)"
| "consume x (i # ins) st = receive x ins st"

lemma receive_shorter: "receive x ins st = (err, rest, st') \<Longrightarrow> length rest \<le> length ins"
  by (induction x ins st rule: receive.induct) (fastforce simp: le_Suc_eq)+

lemma consume_shorter: "consume x ins st = (True, rest, st') \<Longrightarrow> length rest < length ins"
  by (cases "(x, ins, st)" rule: consume.cases) (auto dest: receive_shorter simp: less_Suc_eq_le)

function retry :: "ext \<Rightarrow> redis_input list \<Rightarrow> hub_state \<Rightarrow> hub_state" where
  "retry x ins st =
     (case consume x ins st of (err, rest, st') \<Rightarrow>
      if \<not> err \<or> rest = [] then st'
      else retry x rest (count RedisSubscriberReconnect 1 st'))"
  by pat_completeness auto
termination
  by (relation "measure (\<lambda>(x, ins, st). length ins)") (auto dest: consume_shorter [OF sym])

declare retry.simps [simp del]

record redis_subscriber =
  rsubClient :: bool
  rsubChannel :: string
  rsubHub :: bool

definition subscriber_Run ::
  "ext \<Rightarrow> redis_subscriber option \<Rightarrow> redis_input list \<Rightarrow> hub_state \<Rightarrow> go_error option \<times> hub_state" where
  "subscriber_Run x s ins st =
     (case s of
        None \<Rightarrow> (None, st)
      | Some s \<Rightarrow>
          if \<not> rsubClient s then (Some (TextError ''redis subscriber client is nil''), st)
          else if \<not> rsubHub s then (Some (TextError ''redis subscriber hub is nil''), st)
          else if rsubChannel s = [] then (Some (TextError ''redis subscriber channel is empty''), st)
          else (None, retry x ins st))"

section \<open>The websocket handler\<close>

definition ws_authenticate :: "string \<Rightarrow> request \<Rightarrow> user result go" where
  "ws_authenticate secret r = do {
     a \<leftarrow> AuthenticateRequest secret (rqHeader r ''Authorization'');
     (case a of
        Inr u \<Rightarrow> ok u
      | Inl _ \<Rightarrow>
          let token = rqQuery r ''token''
          in if token = [] then fail (NewDomainError ErrorUnauthorized ''missing bearer token'')
             else AuthenticateToken secret token)
   }"

text \<open>The answer of the handler, if the connection is not upgraded to a websocket, and the hub.\<close>

definition ws_ServeHTTP ::
  "string \<Rightarrow> bool \<Rightarrow> request \<Rightarrow> hub_state \<Rightarrow> (response option \<times> hub_state) go" where
  "ws_ServeHTTP secret upgraded r st = do {
     a \<leftarrow> ws_authenticate secret r;
     State_Monad.return (case a of
        Inl err \<Rightarrow> (Some (WriteError err), st)
      | Inr u \<Rightarrow>
          if \<not> upgraded then (None, st)
          else (case NewClient u st of (c, st) \<Rightarrow> (None, client_Run c st)))
   }"

section \<open>Steps\<close>

datatype hub_action =
    Connect user
  | Read nat "string option"
  | Write nat wakeup bool
  | Receive string

text \<open>A goroutine acts only for a client that connected.\<close>

fun perform :: "ext \<Rightarrow> hub_action \<Rightarrow> hub_state \<Rightarrow> hub_state" where
  "perform x (Connect u) st = (case NewClient u st of (c, st) \<Rightarrow> client_Run c st)"
| "perform x (Read c input) st = (if c < hubNext st then readPump x c input st else st)"
| "perform x (Write c wake sent) st = (if c < hubNext st then writePump c wake sent st else st)"
| "perform x (Receive payload) st = snd (handleMessage x payload st)"

end
