(* ===== verification/Hub_Invariant.thy ===== *)
theory Hub_Invariant
  imports Hub
begin

text \<open>
  The invariant of the hub: its rooms and users mirror the subscriptions and connections of the
  clients and the gauges count them. Every action of a goroutine keeps it. Sending to many clients is
  described client by client.
\<close>

section \<open>Registries\<close>

text \<open>
  The rooms and the users of the hub obey the same laws: who is entered is a member until it leaves.
\<close>

locale membership =
  fixes mem :: "'m \<Rightarrow> 'k \<Rightarrow> 'c \<Rightarrow> bool"
    and good :: "'m \<Rightarrow> bool"
    and add :: "'k \<Rightarrow> 'c \<Rightarrow> 'm \<Rightarrow> 'm"
    and del :: "'k \<Rightarrow> 'c \<Rightarrow> 'm \<Rightarrow> 'm"
    and del_all :: "'c \<Rightarrow> 'm \<Rightarrow> 'm"
  assumes add_good: "good m \<Longrightarrow> good (add k c m)"
    and del_good: "good m \<Longrightarrow> good (del k c m)"
    and del_all_good: "good m \<Longrightarrow> good (del_all c m)"
    and mem_add: "mem (add k c m) k' x \<longleftrightarrow> mem m k' x \<or> k' = k \<and> x = c"
    and mem_del: "mem (del k c m) k' x \<longleftrightarrow> mem m k' x \<and> \<not> (k' = k \<and> x = c)"
    and mem_del_all: "mem (del_all c m) k' x \<longleftrightarrow> mem m k' x \<and> x \<noteq> c"
begin

lemma del_add: "\<not> mem m k c \<Longrightarrow> mem (del k c (add k c m)) = mem m"
  by (auto simp: fun_eq_iff mem_add mem_del)

lemma del_all_dels: "mem (del_all c (del k c m)) = mem (del_all c m)"
  by (auto simp: fun_eq_iff mem_del mem_del_all)

lemma add_after_del_all: "mem (add k c (del_all c m)) k' c \<longleftrightarrow> k' = k"
  by (auto simp: mem_add mem_del_all)

lemma swap_del_all: "mem (del_all c (del_all d m)) = mem (del_all d (del_all c m))"
  by (auto simp: fun_eq_iff mem_del_all)

end

definition registry_ok :: "registry \<Rightarrow> bool" where
  "registry_ok m \<longleftrightarrow> (\<forall>k cs. m k = Some cs \<longrightarrow> cs \<noteq> [] \<and> distinct cs)"

definition member :: "registry \<Rightarrow> uuid \<Rightarrow> nat \<Rightarrow> bool" where
  "member m k c \<longleftrightarrow> c \<in> set (members m k)"

lemma members_distinct: "registry_ok m \<Longrightarrow> distinct (members m k)"
  by (simp add: registry_ok_def members_def split: option.split)

interpretation reg: membership member registry_ok enter leave leave_all
proof
  show "registry_ok m \<Longrightarrow> registry_ok (enter k c m)" for m k c
    by (auto simp: registry_ok_def enter_def split: option.split)
  show "registry_ok m \<Longrightarrow> registry_ok (leave k c m)" for m k c
    by (auto simp: registry_ok_def leave_def without_def Let_def distinct_removeAll split: option.split)
  show "registry_ok m \<Longrightarrow> registry_ok (leave_all c m)" for m c
    by (auto simp: registry_ok_def leave_all_def without_def Let_def distinct_removeAll
        split: option.splits if_splits)
  show "member (enter k c m) k' x \<longleftrightarrow> member m k' x \<or> k' = k \<and> x = c" for m k c k' x
    by (auto simp: member_def members_def enter_def split: option.split)
  show "member (leave k c m) k' x \<longleftrightarrow> member m k' x \<and> \<not> (k' = k \<and> x = c)" for m k c k' x
    by (auto simp: member_def members_def leave_def without_def Let_def removeAll_filter_not_eq
        filter_empty_conv split: option.split)
  show "member (leave_all c m) k' x \<longleftrightarrow> member m k' x \<and> x \<noteq> c" for m c k' x
    by (auto simp: member_def members_def leave_all_def without_def Let_def removeAll_filter_not_eq
        filter_empty_conv split: option.split)
qed

section \<open>Closing a client\<close>

definition closed_client :: "client \<Rightarrow> client" where
  "closed_client cl = cl\<lparr>clClosed := True, clSubscribed := [], clConnClosed := True, clSendClosed := True\<rparr>"

lemma with_client_simps [simp]:
  "hubNext (with_client c f st) = hubNext st" "hubRooms (with_client c f st) = hubRooms st"
  "hubUsers (with_client c f st) = hubUsers st" "hubCounters (with_client c f st) = hubCounters st"
  "hubClients (with_client c f st) = (hubClients st)(c := f (hubClients st c))"
  by (simp_all add: with_client_def)

lemmas close_sections = Close_def Let_def Close_mark_def Close_gauges_def Close_finish_def with_client_def
  count_def UnsubscribeAll_def UnregisterUser_def closed_client_def

lemma Close_closed: "clClosed (hubClients st c) \<Longrightarrow> Close c st = st"
  by (simp add: Close_def)

lemma Close_open:
  assumes "\<not> clClosed (hubClients st c)"
  shows "hubClients (Close c st) = (hubClients st)(c := closed_client (hubClients st c))"
    "hubRooms (Close c st) = leave_all c (hubRooms st)"
    "hubUsers (Close c st) = leave (usrID (clUser (hubClients st c))) c (hubUsers st)"
    "hubNext (Close c st) = hubNext st"
    "hubCounters (Close c st) WSSubscriptions =
      hubCounters st WSSubscriptions - int (length (clSubscribed (hubClients st c)))"
    "hubCounters (Close c st) WSConnections = hubCounters st WSConnections - 1"
    "m \<noteq> WSSubscriptions \<Longrightarrow> m \<noteq> WSConnections \<Longrightarrow> hubCounters (Close c st) m = hubCounters st m"
  using assms
  by (simp_all add: close_sections)

section \<open>The invariant\<close>

definition client_ok :: "client \<Rightarrow> bool" where
  "client_ok cl \<longleftrightarrow> distinct (clSubscribed cl) \<and> length (clSubscribed cl) \<le> maxSubscriptions \<and>
     length (clSend cl) \<le> outboundQueueSize \<and> clSendClosed cl = clClosed cl \<and> clConnClosed cl = clClosed cl"

definition hub_ok :: "hub_state \<Rightarrow> bool" where
  "hub_ok st \<longleftrightarrow> registry_ok (hubRooms st) \<and> registry_ok (hubUsers st) \<and>
     (\<forall>c. client_ok (hubClients st c)) \<and>
     (\<forall>r c. member (hubRooms st) r c \<longleftrightarrow> c < hubNext st \<and> r \<in> set (clSubscribed (hubClients st c))) \<and>
     (\<forall>u c. member (hubUsers st) u c \<longleftrightarrow>
       c < hubNext st \<and> \<not> clClosed (hubClients st c) \<and> usrID (clUser (hubClients st c)) = u) \<and>
     hubCounters st WSSubscriptions = (\<Sum>c<hubNext st. int (length (clSubscribed (hubClients st c)))) \<and>
     hubCounters st WSConnections = (\<Sum>c<hubNext st. if clClosed (hubClients st c) then 0 else 1)"

lemma sum_upd:
  fixes f :: "nat \<Rightarrow> int"
  assumes "c < n" "\<And>i. i \<noteq> c \<Longrightarrow> g i = f i"
  shows "(\<Sum>i<n. g i) = (\<Sum>i<n. f i) - f c + g c"
proof -
  have "(\<Sum>i<n. g i) = g c + (\<Sum>i\<in>{..<n} - {c}. g i)" "(\<Sum>i<n. f i) = f c + (\<Sum>i\<in>{..<n} - {c}. f i)"
    using assms(1) by (simp_all add: sum.remove)
  moreover have "(\<Sum>i\<in>{..<n} - {c}. g i) = (\<Sum>i\<in>{..<n} - {c}. f i)"
    using assms(2) by (intro sum.cong) auto
  ultimately show ?thesis
    by simp
qed

lemma hub_ok_Close:
  assumes "hub_ok st" "c < hubNext st"
  shows "hub_ok (Close c st)"
proof (cases "clClosed (hubClients st c)")
  case False
  note inv = assms(1) [unfolded hub_ok_def]
  note close = Close_open [OF False]
  let ?cl = "hubClients st" and ?cl' = "hubClients (Close c st)"
  have "(\<Sum>i<hubNext st. int (length (clSubscribed (?cl' i)))) =
      (\<Sum>i<hubNext st. int (length (clSubscribed (?cl i)))) - int (length (clSubscribed (?cl c)))"
    using sum_upd [OF assms(2), of "\<lambda>i. int (length (clSubscribed (?cl' i)))" "\<lambda>i. int (length (clSubscribed (?cl i)))"]
    by (simp add: close closed_client_def)
  moreover have "(\<Sum>i<hubNext st. if clClosed (?cl' i) then 0 else 1) =
      (\<Sum>i<hubNext st. if clClosed (?cl i) then 0 else 1) - (1 :: int)"
    using sum_upd [OF assms(2), of "\<lambda>i. if clClosed (?cl' i) then 0 else 1" "\<lambda>i. if clClosed (?cl i) then 0 else 1"]
      False by (simp add: close closed_client_def)
  moreover have "\<forall>i. client_ok (?cl' i)"
    using inv by (simp add: close closed_client_def client_ok_def)
  moreover have "\<forall>r i. member (hubRooms (Close c st)) r i \<longleftrightarrow> i < hubNext st \<and> r \<in> set (clSubscribed (?cl' i))"
    using inv by (auto simp: close reg.mem_del_all closed_client_def)
  moreover have "\<forall>u i. member (hubUsers (Close c st)) u i \<longleftrightarrow>
      i < hubNext st \<and> \<not> clClosed (?cl' i) \<and> usrID (clUser (?cl' i)) = u"
    using inv by (auto simp: close reg.mem_del closed_client_def)
  ultimately show ?thesis
    using inv by (simp add: hub_ok_def close reg.del_good reg.del_all_good)
qed (simp add: Close_closed assms)

text \<open>Changes of the queue, the connection and the pumps of a client.\<close>

lemma hub_ok_quiet:
  assumes "hub_ok st" "client_ok (f (hubClients st c))"
    "clSubscribed (f (hubClients st c)) = clSubscribed (hubClients st c)"
    "clClosed (f (hubClients st c)) = clClosed (hubClients st c)"
    "clUser (f (hubClients st c)) = clUser (hubClients st c)"
  shows "hub_ok (with_client c f st)"
proof -
  have "clSubscribed (((hubClients st)(c := f (hubClients st c))) i) = clSubscribed (hubClients st i)"
    "clClosed (((hubClients st)(c := f (hubClients st c))) i) = clClosed (hubClients st i)"
    "clUser (((hubClients st)(c := f (hubClients st c))) i) = clUser (hubClients st i)" for i
    using assms(3-5) by simp_all
  with assms(1,2) show ?thesis
    unfolding hub_ok_def with_client_def by simp
qed

lemma hub_ok_count: "hub_ok st \<Longrightarrow> m \<noteq> WSSubscriptions \<Longrightarrow> m \<noteq> WSConnections \<Longrightarrow> hub_ok (count m d st)"
  by (simp add: hub_ok_def count_def)

lemma hub_ok_client: "hub_ok st \<Longrightarrow> client_ok (hubClients st c)"
  by (simp add: hub_ok_def)

lemma hub_ok_enqueue:
  assumes "hub_ok st" "enqueue c payload t st = (done, st')"
  shows "hub_ok st' \<and> hubNext st' = hubNext st"
proof -
  have "hub_ok (with_client c (\<lambda>cl. cl\<lparr>clSend := clSend cl @ [m]\<rparr>) st)"
    if "length (clSend (hubClients st c)) < outboundQueueSize" for m
    using assms(1) hub_ok_client [OF assms(1), of c] that by (intro hub_ok_quiet) (auto simp: client_ok_def)
  with assms show ?thesis
    by (auto simp: enqueue_def with_client_def split: if_splits)
qed

lemma Close_next [simp]: "hubNext (Close c st) = hubNext st"
  by (cases "clClosed (hubClients st c)") (simp_all add: Close_closed Close_open)

lemma hub_ok_sendServerMessage:
  assumes "hub_ok st" "c < hubNext st"
  shows "hub_ok (sendServerMessage c msg st) \<and> hubNext (sendServerMessage c msg st) = hubNext st"
  using assms hub_ok_enqueue [OF assms(1)] hub_ok_Close
  by (auto simp: sendServerMessage_def split: prod.split)

lemma hub_ok_sendError:
  assumes "hub_ok st" "c < hubNext st"
  shows "hub_ok (sendError c msg st) \<and> hubNext (sendError c msg st) = hubNext st"
  unfolding sendError_def by (rule hub_ok_sendServerMessage [OF assms])

text \<open>The two halves of \<open>subscribe\<close> keep the invariant together.\<close>

lemma hub_ok_subscribed:
  assumes "hub_ok st" "c < hubNext st" "r \<notin> set (clSubscribed (hubClients st c))"
    "length (clSubscribed (hubClients st c)) < maxSubscriptions"
  shows "hub_ok (Subscribe r c (subscribe_mark c r st))"
proof -
  note inv = assms(1) [unfolded hub_ok_def]
  let ?st = "Subscribe r c (subscribe_mark c r st)"
  have st: "hubClients ?st = (hubClients st)(c := (hubClients st c)\<lparr>clSubscribed := clSubscribed (hubClients st c) @ [r]\<rparr>)"
      "hubRooms ?st = enter r c (hubRooms st)" "hubUsers ?st = hubUsers st" "hubNext ?st = hubNext st"
      "hubCounters ?st = (hubCounters st)(WSSubscriptions := hubCounters st WSSubscriptions + 1)"
    by (simp_all add: Subscribe_def subscribe_mark_def count_def with_client_def)
  have "(\<Sum>i<hubNext st. int (length (clSubscribed (hubClients ?st i)))) =
      (\<Sum>i<hubNext st. int (length (clSubscribed (hubClients st i)))) + 1"
    using sum_upd [OF assms(2), of "\<lambda>i. int (length (clSubscribed (hubClients ?st i)))"
        "\<lambda>i. int (length (clSubscribed (hubClients st i)))"] by (simp add: st)
  moreover have "clClosed (hubClients ?st i) = clClosed (hubClients st i)"
      "clUser (hubClients ?st i) = clUser (hubClients st i)" for i
    by (simp_all add: st)
  moreover have "\<forall>i. client_ok (hubClients ?st i)"
    using inv assms(3,4) by (simp add: st client_ok_def)
  moreover have "\<forall>k i. member (hubRooms ?st) k i \<longleftrightarrow> i < hubNext st \<and> k \<in> set (clSubscribed (hubClients ?st i))"
    using inv assms(2) by (auto simp: st reg.mem_add)
  ultimately show ?thesis
    using inv unfolding hub_ok_def by (simp add: st(2-5) reg.add_good)
qed

lemma hub_ok_subscribe:
  assumes "hub_ok st" "c < hubNext st"
  shows "hub_ok (subscribe x c r st)"
proof -
  have "hubNext (Subscribe r c (subscribe_mark c r st)) = hubNext st"
    by (simp add: Subscribe_def subscribe_mark_def count_def with_client_def)
  then show ?thesis
    using assms hub_ok_subscribed hub_ok_sendServerMessage hub_ok_sendError
    by (simp add: subscribe_def subscribe_finish_def)
qed

lemma hub_ok_unsubscribe:
  assumes "hub_ok st" "c < hubNext st"
  shows "hub_ok (unsubscribe x c r st)"
proof (cases "r \<in> set (clSubscribed (hubClients st c))")
  case True
  note inv = assms(1) [unfolded hub_ok_def]
  let ?cl = "(hubClients st c)\<lparr>clSubscribed := removeAll r (clSubscribed (hubClients st c))\<rparr>"
  let ?st = "Unsubscribe r c (count WSSubscriptions (- 1)
      (with_client c (\<lambda>cl. cl\<lparr>clSubscribed := removeAll r (clSubscribed cl)\<rparr>) st))"
  have st: "hubClients ?st = (hubClients st)(c := ?cl)"
      "hubRooms ?st = leave r c (hubRooms st)" "hubUsers ?st = hubUsers st" "hubNext ?st = hubNext st"
      "hubCounters ?st = (hubCounters st)(WSSubscriptions := hubCounters st WSSubscriptions - 1)"
    by (simp_all add: Unsubscribe_def count_def with_client_def)
  have d: "distinct (clSubscribed (hubClients st c))"
    using inv by (simp add: client_ok_def)
  then have len: "length (removeAll r (clSubscribed (hubClients st c))) = length (clSubscribed (hubClients st c)) - 1"
    using True by (simp add: distinct_remove1_removeAll [symmetric] length_remove1)
  have "0 < length (clSubscribed (hubClients st c))"
    using True by (cases "clSubscribed (hubClients st c)") auto
  then have ilen: "int (length (removeAll r (clSubscribed (hubClients st c)))) =
      int (length (clSubscribed (hubClients st c))) - 1"
    using len by linarith
  have "(\<Sum>i<hubNext st. int (length (clSubscribed (hubClients ?st i)))) =
      (\<Sum>i<hubNext st. int (length (clSubscribed (hubClients st i)))) - 1"
    using sum_upd [OF assms(2), of "\<lambda>i. int (length (clSubscribed (hubClients ?st i)))"
        "\<lambda>i. int (length (clSubscribed (hubClients st i)))"] ilen by (simp add: st(1))
  moreover have "clClosed (hubClients ?st i) = clClosed (hubClients st i)"
      "clUser (hubClients ?st i) = clUser (hubClients st i)" for i
    by (simp_all add: st)
  moreover have "\<forall>i. client_ok (hubClients ?st i)"
    using inv len by (auto simp: st client_ok_def distinct_removeAll intro: le_trans [OF diff_le_self])
  moreover have "\<forall>k i. member (hubRooms ?st) k i \<longleftrightarrow> i < hubNext st \<and> k \<in> set (clSubscribed (hubClients ?st i))"
    using inv by (auto simp: st reg.mem_del)
  ultimately have "hub_ok ?st"
    using inv unfolding hub_ok_def by (simp add: st(2-5) reg.del_good)
  then show ?thesis
    using True hub_ok_sendServerMessage [of ?st c] assms(2) st(4) by (simp add: unsubscribe_def Let_def)
qed (simp add: unsubscribe_def assms)

lemma hub_ok_stop:
  assumes "hub_ok st" "c < hubNext st" "\<And>cl. clSubscribed (f cl) = clSubscribed cl \<and> clClosed (f cl) = clClosed cl \<and>
      clUser (f cl) = clUser cl \<and> clSend (f cl) = clSend cl \<and> clSendClosed (f cl) = clSendClosed cl \<and>
      clConnClosed (f cl) = clConnClosed cl"
  shows "hub_ok (Close c (with_client c f st))"
proof -
  have "hub_ok (with_client c f st)"
    using assms(1,3) hub_ok_client [OF assms(1), of c] by (intro hub_ok_quiet) (simp_all add: client_ok_def)
  then show ?thesis
    using assms(2) by (intro hub_ok_Close) (simp_all add: with_client_def)
qed

lemma hub_ok_readPump:
  assumes "hub_ok st" "c < hubNext st"
  shows "hub_ok (readPump x c input st)"
  using assms hub_ok_sendError hub_ok_subscribe hub_ok_unsubscribe hub_ok_stop [of st c "clReading_update (\<lambda>_. False)"]
  by (auto simp: readPump_def read_message_def split: option.split)

lemma hub_ok_writePump:
  assumes "hub_ok st" "c < hubNext st"
  shows "hub_ok (writePump c wake sent st)"
proof -
  have stop: "hub_ok (stop_writing c st')" if "hub_ok st'" "c < hubNext st'" for st'
    unfolding stop_writing_def using that by (intro hub_ok_stop) simp_all
  have pop: "hub_ok (with_client c (clSend_update (\<lambda>_. rest)) st) \<and>
      hubNext (with_client c (clSend_update (\<lambda>_. rest)) st) = hubNext st"
    if "clSend (hubClients st c) = m # rest" for m rest
    using assms(1) hub_ok_client [OF assms(1), of c] that
    by (auto intro!: hub_ok_quiet simp: client_ok_def)
  have wrote: "hub_ok (count (WSMessageSent t) 1 (with_client c (\<lambda>cl. cl\<lparr>clWritten := clWritten cl @ [p]\<rparr>) st'))"
    if "hub_ok st'" for st' t p
    using that hub_ok_client [OF that, of c] by (intro hub_ok_count hub_ok_quiet) (simp_all add: client_ok_def)
  show ?thesis
    using assms stop pop wrote by (auto simp: writePump_def Let_def split: list.split wakeup.split)
qed

lemma hub_ok_connect:
  assumes "hub_ok st"
  shows "hub_ok (perform x (Connect u) st)"
proof -
  note inv = assms [unfolded hub_ok_def]
  let ?c = "hubNext st"
  define st' where "st' = perform x (Connect u) st"
  have st: "hubClients st' = (hubClients st)(?c := client_for u)" "hubRooms st' = hubRooms st"
      "hubUsers st' = enter (usrID u) ?c (hubUsers st)" "hubNext st' = Suc ?c"
      "hubCounters st' = (hubCounters st)(WSConnections := hubCounters st WSConnections + 1)"
    by (simp_all add: NewClient_def client_Run_def RegisterUser_def count_def with_client_def client_for_def st'_def)
  have "\<forall>i. client_ok (hubClients st' i)"
    using inv by (simp add: st client_ok_def client_for_def)
  moreover have "\<forall>r i. member (hubRooms st') r i \<longleftrightarrow> i < hubNext st' \<and> r \<in> set (clSubscribed (hubClients st' i))"
    using inv by (auto simp: st client_for_def)
  moreover have "\<forall>v i. member (hubUsers st') v i \<longleftrightarrow>
      i < hubNext st' \<and> \<not> clClosed (hubClients st' i) \<and> usrID (clUser (hubClients st' i)) = v"
    using inv by (auto simp: st reg.mem_add client_for_def)
  ultimately show ?thesis
    using inv unfolding st'_def [symmetric] by (simp add: hub_ok_def st reg.add_good client_for_def)
qed

section \<open>Sending to many\<close>

definition accepts :: "client \<Rightarrow> bool" where
  "accepts cl \<longleftrightarrow> \<not> clSendClosed cl \<and> length (clSend cl) < outboundQueueSize"

text \<open>What a message does to a client it is for: queued, or else the client is disconnected.\<close>

definition after_send :: "outboundMessage \<Rightarrow> client \<Rightarrow> client" where
  "after_send m cl =
     (if accepts cl then cl\<lparr>clSend := clSend cl @ [m]\<rparr> else if clClosed cl then cl else closed_client cl)"

lemma enqueue_accepts:
  "enqueue c p t st = (accepts (hubClients st c),
    if accepts (hubClients st c)
    then with_client c (\<lambda>cl. cl\<lparr>clSend := clSend cl @ [\<lparr>obPayload = p, obType = t\<rparr>]\<rparr>) st else st)"
  by (simp add: enqueue_def accepts_def)

lemma enqueue_each_ok: "hub_ok st \<Longrightarrow> enqueue_each p t cs st = (slow, st') \<Longrightarrow> hub_ok st' \<and> hubNext st' = hubNext st"
proof (induction cs arbitrary: st slow)
  case (Cons c cs)
  obtain b st1 where e: "enqueue c p t st = (b, st1)"
    by (cases "enqueue c p t st")
  obtain slow1 st2 where r: "enqueue_each p t cs st1 = (slow1, st2)"
    by (cases "enqueue_each p t cs st1")
  show ?case
    using Cons.IH [of st1 slow1] hub_ok_enqueue [OF Cons.prems(1) e] Cons.prems(2) e r by simp
qed simp

lemma enqueue_each_eq:
  assumes "distinct cs"
  shows "enqueue_each p t cs st = (filter (\<lambda>c. \<not> accepts (hubClients st c)) cs,
    st\<lparr>hubClients := (\<lambda>c. if c \<in> set cs \<and> accepts (hubClients st c)
      then (hubClients st c)\<lparr>clSend := clSend (hubClients st c) @ [\<lparr>obPayload = p, obType = t\<rparr>]\<rparr>
      else hubClients st c)\<rparr>)"
  using assms
proof (induction cs arbitrary: st)
  case (Cons c cs)
  let ?m = "\<lparr>obPayload = p, obType = t\<rparr>"
  let ?cl = "(hubClients st)(c := (hubClients st c)\<lparr>clSend := clSend (hubClients st c) @ [?m]\<rparr>)"
  have "filter (\<lambda>i. \<not> accepts (?cl i)) cs = filter (\<lambda>i. \<not> accepts (hubClients st i)) cs"
    using Cons.prems by (intro filter_cong) auto
  then show ?case
    using Cons.IH Cons.prems
    by (cases "accepts (hubClients st c)")
      (auto simp: enqueue_accepts with_client_def fun_eq_iff simp del: fun_upd_apply intro!: hub_state.equality,
       auto)
qed simp

lemma fold_Close:
  assumes "hub_ok st" "list_all (\<lambda>c. c < hubNext st) cs"
  shows "hub_ok (fold Close cs st) \<and> hubNext (fold Close cs st) = hubNext st \<and>
    hubClients (fold Close cs st) =
      (\<lambda>c. if c \<in> set cs \<and> \<not> clClosed (hubClients st c) then closed_client (hubClients st c) else hubClients st c)"
  using assms
proof (induction cs arbitrary: st)
  case (Cons c cs)
  then have "hub_ok (Close c st)" "list_all (\<lambda>i. i < hubNext (Close c st)) cs"
    by (simp_all add: hub_ok_Close)
  note IH = Cons.IH [OF this]
  show ?case
  proof (cases "clClosed (hubClients st c)")
    case True
    then show ?thesis
      using IH by (auto simp: Close_closed fun_eq_iff)
  next
    case False
    then show ?thesis
      using IH by (auto simp: Close_open fun_eq_iff closed_client_def)
  qed
qed simp

lemma send_all_clients:
  assumes "hub_ok st" "distinct cs" "list_all (\<lambda>c. c < hubNext st) cs"
  shows "hub_ok (send_all p cs st) \<and> hubNext (send_all p cs st) = hubNext st \<and>
    hubClients (send_all p cs st) = (\<lambda>c. if c \<in> set cs
      then after_send \<lparr>obPayload = p, obType = extractMessageType p\<rparr> (hubClients st c) else hubClients st c)"
proof -
  let ?slow = "filter (\<lambda>c. \<not> accepts (hubClients st c)) cs"
  obtain st1 where st1: "enqueue_each p (extractMessageType p) cs st = (?slow, st1)"
    and cl: "hubClients st1 = (\<lambda>c. if c \<in> set cs \<and> accepts (hubClients st c)
      then (hubClients st c)\<lparr>clSend := clSend (hubClients st c) @ [\<lparr>obPayload = p, obType = extractMessageType p\<rparr>]\<rparr>
      else hubClients st c)"
    using enqueue_each_eq [OF assms(2), of p "extractMessageType p" st] by simp
  have ok: "hub_ok st1" "hubNext st1 = hubNext st"
    using enqueue_each_ok [OF assms(1) st1] by simp_all
  have "list_all (\<lambda>c. c < hubNext st1) ?slow"
    using assms(3) by (simp add: ok(2) list_all_iff)
  from fold_Close [OF ok(1) this] show ?thesis
    by (auto simp: send_all_def st1 cl ok(2) after_send_def fun_eq_iff)
qed

text \<open>Go visits a map in any order; the clients end up the same.\<close>

lemma send_all_any_order:
  assumes "hub_ok st" "distinct cs" "distinct ds" "set cs = set ds" "list_all (\<lambda>c. c < hubNext st) cs"
  shows "hubClients (send_all p cs st) = hubClients (send_all p ds st)"
proof -
  have "list_all (\<lambda>c. c < hubNext st) ds"
    using assms(4,5) by (simp add: list_all_iff)
  then show ?thesis
    using send_all_clients [OF assms(1,2,5)] send_all_clients [OF assms(1,3)] assms(4) by simp
qed

lemma members_known:
  assumes "hub_ok st"
  shows "list_all (\<lambda>c. c < hubNext st) (members (hubRooms st) r)" "distinct (members (hubRooms st) r)"
    "list_all (\<lambda>c. c < hubNext st) (members (hubUsers st) u)" "distinct (members (hubUsers st) u)"
  using assms members_distinct unfolding hub_ok_def member_def list_all_iff by blast+

lemma hub_ok_handleMessage:
  assumes "hub_ok st"
  shows "hub_ok (snd (handleMessage x payload st))"
proof -
  have rec: "hub_ok (received t r st')" if "hub_ok st'" for t r st'
    unfolding received_def using that by (rule hub_ok_count) simp_all
  have "hub_ok (Broadcast r p st)" "hub_ok (SendToUser u p st)" for r u p
    using send_all_clients [OF assms] members_known [OF assms] by (simp_all add: Broadcast_def SendToUser_def)
  then show ?thesis
    using assms rec by (simp add: handleMessage_def Let_def split: option.split)
qed

lemma hub_ok_perform: "hub_ok st \<Longrightarrow> hub_ok (perform x a st)"
proof (cases a)
  case (Connect u)
  then show "hub_ok st \<Longrightarrow> hub_ok (perform x a st)"
    using hub_ok_connect by blast
qed (auto simp: hub_ok_readPump hub_ok_writePump hub_ok_handleMessage)

lemma hub_ok_NewHub: "hub_ok NewHub"
  by (simp add: hub_ok_def NewHub_def registry_ok_def member_def members_def client_ok_def client_for_def)

end
