(* ===== verification/Hub_Contract.thy ===== *)
theory Hub_Contract
  imports Hub_Invariant
begin

text \<open>
  What the hub guarantees: an event comes through from the publisher to exactly the clients it is for,
  reachable states mirror the clients, what is queued is written in order, and what is left behind
  when a client that was closed still subscribes.
\<close>

section \<open>Events on the wire\<close>

lemma field_values_append [simp]: "field_values n (xs @ ys) = field_values n xs @ field_values n ys"
  by (simp add: field_values_def)

lemma field_values_Cons: "field_values n (m # ms) =
    (if fold_name (fst m) = fold_name n then [snd m] else []) @ field_values n ms"
  by (simp add: field_values_def)

lemma field_values_Nil [simp]: "field_values n [] = []"
  by (simp add: field_values_def)

definition present :: "string \<Rightarrow> json list" where
  "present v = (if v = [] then [] else [JStr v])"

lemma field_values_omit:
  "field_values n (omit_empty n' v) = (if fold_name n' = fold_name n then present v else [])"
  by (simp add: omit_empty_def field_values_Cons present_def)

lemma set_field_present [simp]: "set_field put_string (present v) [] = Some v"
  by (simp add: present_def)

lemma field_names:
  "fold_name ''type'' = ''type''" "fold_name ''target'' = ''target''" "fold_name ''roomId'' = ''roomid''"
  "fold_name ''userId'' = ''userid''" "fold_name ''slotId'' = ''slotid''"
  "fold_name ''bookingId'' = ''bookingid''" "fold_name ''reservationId'' = ''reservationid''"
  "fold_name ''waitlistEntryId'' = ''waitlistentryid''" "fold_name ''expiresAt'' = ''expiresat''"
  "fold_name ''timestamp'' = ''timestamp''" "fold_name ''message'' = ''message''"
  by (simp_all add: lower_ascii_def char_of_def bit_0)

lemmas json_fields = string_field_def field_values_Cons field_values_omit field_names into_struct_def

definition event_ascii :: "event \<Rightarrow> bool" where
  "event_ascii e \<longleftrightarrow> list_all (list_all is_ascii) [evType e, evTarget e, evRoomID e, evUserID e, evSlotID e,
     evBookingID e, evReservationID e, evWaitlistEntryID e, evExpiresAt e, evTimestamp e]"

definition plain_member :: "string \<times> json \<Rightarrow> bool" where
  "plain_member m \<longleftrightarrow> list_all is_ascii (fst m) \<and> plain 1 (snd m)"

lemma plain_object: "plain 0 (JObj ms) \<longleftrightarrow> list_all plain_member ms"
  by (simp add: plain_member_def [abs_def] maxNestingDepth_def)

lemma plain_omit: "list_all is_ascii n \<Longrightarrow> list_all is_ascii v \<Longrightarrow> list_all plain_member (omit_empty n v)"
  by (simp add: omit_empty_def plain_member_def)

lemma plain_pair: "list_all is_ascii n \<Longrightarrow> plain_member (n, JStr v) \<longleftrightarrow> list_all is_ascii v"
  by (simp add: plain_member_def)

lemma plain_event_json: "event_ascii e \<Longrightarrow> plain 0 (event_json e)"
  unfolding event_json_def plain_object list_all_append
  by (simp add: event_ascii_def plain_omit plain_pair is_ascii_def)

lemma unmarshal_event_json: "event_ascii e \<Longrightarrow> unmarshal_event (Marshal (event_json e)) = Some e"
  unfolding unmarshal_event_def Unmarshal_Marshal [OF plain_event_json]
  by (simp add: event_json_def json_fields del: fold_name.simps)

lemma plain_server_message:
  "event_ascii e \<Longrightarrow> plain 0 (server_message_json (ToServerMessage e))"
  unfolding server_message_json_def plain_object list_all_append list.pred_inject
  by (simp add: event_ascii_def ToServerMessage_def plain_omit plain_pair is_ascii_def)

lemma extract_server_message:
  assumes "event_ascii e" "evType e \<noteq> []"
  shows "extractMessageType (Marshal (server_message_json (ToServerMessage e))) = evType e"
  unfolding extractMessageType_def Unmarshal_Marshal [OF plain_server_message [OF assms(1)]]
  using assms(2) by (simp add: server_message_json_def json_fields ToServerMessage_def del: fold_name.simps)

text \<open>
  The documented behaviour of \<open>time\<close>: for the times the service meets (years of four digits),
  \<open>RFC3339\<close> text is ASCII and parses.
\<close>

definition time_text_ok :: "ext \<Rightarrow> time \<Rightarrow> bool" where
  "time_text_ok x t \<longleftrightarrow> parse_RFC3339 x (format_RFC3339 x t) \<noteq> None \<and> list_all is_ascii (format_RFC3339 x t)"

fun call_times :: "pub_call \<Rightarrow> time list" where
  "call_times (WaitlistSlotReserved _ _ _ _ _ expiresAt) = [expiresAt]"
| "call_times _ = []"

lemma event_names_ascii:
  "list_all is_ascii EventTypeSlotBooked" "list_all is_ascii EventTypeSlotReleased"
  "list_all is_ascii EventTypeSlotAvailable" "list_all is_ascii EventTypeSlotReserved"
  "list_all is_ascii EventTypeSlotReservationExpired" "list_all is_ascii EventTypeWaitlistSlotAvailable"
  "list_all is_ascii EventTypeWaitlistSlotReserved" "list_all is_ascii EventTypeReservationExpired"
  "list_all is_ascii EventTargetRoom" "list_all is_ascii EventTargetUser"
  by (simp_all add: event_names is_ascii_def)

lemmas event_constructors = NewRoomEvent_def NewUserEvent_def NewReservationRoomEvent_def
  NewSlotAvailableEvent_def NewWaitlistReservationEvent_def NewReservationExpiredEvent_def no_event_def

lemma event_of_ascii:
  assumes "uuid_text_ok x" "list_all (time_text_ok x) (now # call_times c)"
  shows "event_ascii (event_of x now c)"
  using assms by (cases c)
    (simp_all add: event_ascii_def event_constructors event_names_ascii uuid_text_ok_def time_text_ok_def)

lemma event_of_valid:
  assumes "uuid_text_ok x" "list_all (time_text_ok x) (now # call_times c)"
  shows "Validate x (event_of x now c) = None" "evType (event_of x now c) \<noteq> []"
  using assms by (cases c;
    simp add: Validate_def event_constructors event_names room_event_types_def user_event_types_def
      uuid_text_ok_def time_text_ok_def RoomUUID_def UserUUID_def)+

text \<open>Whom a call of the publisher is for.\<close>

datatype audience = Room uuid | User uuid

fun audience_of :: "pub_call \<Rightarrow> audience" where
  "audience_of (SlotBooked r _ _) = Room r"
| "audience_of (SlotReleased r _ _) = Room r"
| "audience_of (SlotAvailable r _) = Room r"
| "audience_of (SlotReserved r _ _) = Room r"
| "audience_of (SlotReservationExpired r _ _) = Room r"
| "audience_of (WaitlistSlotAvailable _ _ u _) = User u"
| "audience_of (WaitlistSlotReserved _ _ u _ _ _) = User u"
| "audience_of (ReservationExpiredCall _ _ u _) = User u"

fun addressed :: "audience \<Rightarrow> client \<Rightarrow> bool" where
  "addressed (Room r) cl \<longleftrightarrow> r \<in> set (clSubscribed cl)"
| "addressed (User u) cl \<longleftrightarrow> \<not> clClosed cl \<and> usrID (clUser cl) = u"

definition outbound_of :: "ext \<Rightarrow> time \<Rightarrow> pub_call \<Rightarrow> outboundMessage" where
  "outbound_of x now c =
     \<lparr>obPayload = Marshal (server_message_json (ToServerMessage (event_of x now c))),
      obType = evType (event_of x now c)\<rparr>"

lemma event_of_target:
  assumes "uuid_text_ok x"
  shows "case audience_of c of
      Room r \<Rightarrow> evTarget (event_of x now c) = EventTargetRoom \<and> RoomUUID x (event_of x now c) = Some r
    | User u \<Rightarrow> evTarget (event_of x now c) = EventTargetUser \<and> UserUUID x (event_of x now c) = Some u"
  using assms by (cases c) (simp_all add: event_constructors uuid_text_ok_def RoomUUID_def UserUUID_def)

lemma hub_ok_members:
  assumes "hub_ok st"
  shows "c \<in> set (members (hubRooms st) r) \<longleftrightarrow> c < hubNext st \<and> addressed (Room r) (hubClients st c)"
    "c \<in> set (members (hubUsers st) u) \<longleftrightarrow> c < hubNext st \<and> addressed (User u) (hubClients st c)"
  using assms by (simp_all add: hub_ok_def member_def)

lemma handleMessage_delivers:
  assumes "hub_ok st" "uuid_text_ok x" "list_all (time_text_ok x) (now # call_times c)"
  shows "\<exists>st'. handleMessage x (Marshal (event_json (event_of x now c))) st = (None, st') \<and>
    hub_ok st' \<and> hubNext st' = hubNext st \<and>
    hubClients st' = (\<lambda>i. if i < hubNext st \<and> addressed (audience_of c) (hubClients st i)
      then after_send (outbound_of x now c) (hubClients st i) else hubClients st i)"
proof -
  let ?e = "event_of x now c"
  let ?out = "Marshal (server_message_json (ToServerMessage ?e))"
  have e: "unmarshal_event (Marshal (event_json ?e)) = Some ?e" "Validate x ?e = None"
      "extractMessageType ?out = evType ?e"
    using assms(2,3) event_of_ascii event_of_valid
    by (simp_all add: unmarshal_event_json extract_server_message del: Marshal.simps)
  have run: "handleMessage x (Marshal (event_json ?e)) st = (None, received (eventTypeLabel (evType ?e)) ''success''
      (case audience_of c of Room r \<Rightarrow> Broadcast r ?out st | User u \<Rightarrow> SendToUser u ?out st))"
    using event_of_target [OF assms(2), where c = c and now = now] e(1,2)
    by (cases "audience_of c") (simp_all add: handleMessage_def event_names del: Marshal.simps)
  have sent: "hubClients (send_all ?out cs st) = (\<lambda>i. if i \<in> set cs
      then after_send (outbound_of x now c) (hubClients st i) else hubClients st i) \<and>
      hubNext (send_all ?out cs st) = hubNext st"
    if "distinct cs" "list_all (\<lambda>i. i < hubNext st) cs" for cs
    using send_all_clients [OF assms(1) that, of ?out] unfolding e(3) outbound_of_def by blast
  have "hub_ok (snd (handleMessage x (Marshal (event_json ?e)) st))"
    by (rule hub_ok_handleMessage [OF assms(1)])
  moreover have "hubNext (received t r st') = hubNext st' \<and> hubClients (received t r st') = hubClients st'"
    for t r st'
    by (simp add: received_def count_def)
  moreover have "hubClients (case audience_of c of Room r \<Rightarrow> Broadcast r ?out st | User u \<Rightarrow> SendToUser u ?out st) =
      (\<lambda>i. if i < hubNext st \<and> addressed (audience_of c) (hubClients st i)
        then after_send (outbound_of x now c) (hubClients st i) else hubClients st i) \<and>
      hubNext (case audience_of c of Room r \<Rightarrow> Broadcast r ?out st | User u \<Rightarrow> SendToUser u ?out st) = hubNext st"
    using sent members_known [OF assms(1)] hub_ok_members [OF assms(1)]
    by (cases "audience_of c") (simp_all add: Broadcast_def SendToUser_def del: Marshal.simps)
  ultimately show ?thesis
    unfolding run by (simp del: Marshal.simps)
qed

text \<open>
  C34. An event the use cases publish comes through: the payload of \<open>RedisPublisher\<close> is accepted by
  the subscriber, and the message made of it, with the type and the identifiers of the event, is
  queued for exactly the clients it is for, those subscribed to the room or those of the user; of
  these a client whose queue is full is disconnected instead, and no other client notices.
\<close>

theorem published_event_is_delivered:
  assumes "hub_ok st" "uuid_text_ok x" "list_all (time_text_ok x) (now # call_times c)"
  shows "\<exists>st'. handleMessage x (Marshal (event_json (event_of x now c))) st = (None, st') \<and>
    hubClients st' = (\<lambda>i. if i < hubNext st \<and> addressed (audience_of c) (hubClients st i)
      then after_send (outbound_of x now c) (hubClients st i) else hubClients st i)"
  using handleMessage_delivers [OF assms] by blast

definition one_client :: hub_state where
  "one_client = perform token_ext (Connect carol) NewHub"

lemma one_client_simps [simp]:
  "hubNext one_client = 1" "hubClients one_client = (hubClients NewHub)(0 := client_for carol)"
  "hubCounters one_client WSConnections = 1"
  by (simp_all add: one_client_def NewClient_def client_Run_def RegisterUser_def count_def NewHub_def)

lemma one_client_ok: "hub_ok one_client"
  unfolding one_client_def by (intro hub_ok_perform hub_ok_NewHub)

lemma token_time_ok [simp]: "time_text_ok token_ext t"
  by (simp add: time_text_ok_def token_ext_def sample_ext_def is_ascii_def)

lemma published_event_is_delivered_witness:
  "\<exists>st'. handleMessage token_ext (Marshal (event_json (event_of token_ext 0 (ReservationExpiredCall 10 20 3 50))))
      one_client = (None, st') \<and>
    clSend (hubClients st' 0) = [outbound_of token_ext 0 (ReservationExpiredCall 10 20 3 50)]"
proof -
  have "usrID carol = 3" "accepts (client_for carol)"
    by (simp_all add: sample_defs accepts_def client_for_def outboundQueueSize_def)
  then show ?thesis
    using published_event_is_delivered [OF one_client_ok token_ext_ok, of 0 "ReservationExpiredCall 10 20 3 50"]
    by (auto simp: after_send_def client_for_def simp del: Marshal.simps)
qed

section \<open>Reachable states\<close>

inductive hub_reach :: "ext \<Rightarrow> hub_state \<Rightarrow> bool" for x where
  start: "hub_reach x NewHub"
| act: "hub_reach x st \<Longrightarrow> hub_reach x (perform x a st)"

lemma hub_reach_ok: "hub_reach x st \<Longrightarrow> hub_ok st"
  by (induction rule: hub_reach.induct) (auto intro: hub_ok_NewHub hub_ok_perform)

text \<open>
  C35. Whatever clients, network and Redis do, in any order, as long as the actions of the goroutines are
  each run as a whole, namely the handling of a message of a client, the closing of a client, and the
  delivery of an event to its clients (\<open>subscribe_inside_close\<close> and \<open>close_inside_subscribe\<close> show that the
  sections of \<open>Close\<close> and of \<open>subscribe\<close> can mix otherwise, and that this then fails for good): the rooms and users of the hub list exactly the subscriptions and the open connections of the
  clients, no client has more than a hundred subscriptions or sixty-four queued messages, and the two
  gauges show the numbers of open connections and of subscriptions.
\<close>

theorem hub_mirrors_clients:
  assumes "hub_reach x st"
  shows "(\<forall>r c. c \<in> set (members (hubRooms st) r) \<longleftrightarrow>
      c < hubNext st \<and> r \<in> set (clSubscribed (hubClients st c))) \<and>
    (\<forall>u c. c \<in> set (members (hubUsers st) u) \<longleftrightarrow>
      c < hubNext st \<and> \<not> clClosed (hubClients st c) \<and> usrID (clUser (hubClients st c)) = u) \<and>
    (\<forall>c. length (clSubscribed (hubClients st c)) \<le> 100 \<and> length (clSend (hubClients st c)) \<le> 64) \<and>
    hubCounters st WSConnections = int (card {c. c < hubNext st \<and> \<not> clClosed (hubClients st c)}) \<and>
    hubCounters st WSSubscriptions = (\<Sum>c<hubNext st. int (length (clSubscribed (hubClients st c))))"
proof -
  have ok: "hub_ok st"
    using assms by (rule hub_reach_ok)
  have "(\<Sum>c<hubNext st. if clClosed (hubClients st c) then 0 else (1 :: int)) =
      int (card {c. c < hubNext st \<and> \<not> clClosed (hubClients st c)})"
    by (simp add: sum.If_cases lessThan_def Int_def Collect_neg_eq [symmetric] conj_commute)
  then show ?thesis
    using ok hub_ok_members [OF ok] unfolding hub_ok_def client_ok_def maxSubscriptions_def outboundQueueSize_def
    by simp
qed

lemma one_client_reach: "hub_reach token_ext one_client"
  unfolding one_client_def by (intro hub_reach.intros)

lemma hub_mirrors_clients_witness: "0 \<in> set (members (hubUsers one_client) 3)"
proof -
  have "usrID carol = 3" "\<not> clClosed (client_for carol)"
    by (simp_all add: sample_defs client_for_def)
  then show ?thesis
    using hub_mirrors_clients [OF one_client_reach] by (simp add: client_for_def)
qed

section \<open>A closed client that subscribes\<close>














text \<open>
  The other order of the same race: if the connection is closed between the two parts of \<open>subscribe\<close>,
  the room lists a client that has no subscription, and no \<open>unsubscribe\<close> can remove it.
\<close>

lemma close_inside_subscribe:
  fixes x :: ext and r :: uuid
  assumes "hub_ok st" "c < hubNext st" "\<not> clClosed (hubClients st c)"
  defines "st' \<equiv> subscribe_finish x c r (Close c (subscribe_mark c r st))"
  shows "c \<in> set (members (hubRooms st') r)" "clSubscribed (hubClients st' c) = []"
    "unsubscribe x c r st' = st'" "Close c st' = st'"
proof -
  let ?m = "subscribe_mark c r st"
  have m: "\<not> clClosed (hubClients ?m c)"
    using assms(3) by (simp add: subscribe_mark_def count_def)
  then have st': "st' = Subscribe r c (Close c ?m)"
    by (simp add: st'_def subscribe_finish_def sendServerMessage_def enqueue_accepts accepts_def Subscribe_def
        close_sections)
  then have rooms: "hubRooms st' = enter r c (leave_all c (hubRooms ?m))"
      and cl: "hubClients st' c = closed_client (hubClients ?m c)"
    by (simp_all add: Subscribe_def Close_open [OF m])
  show "c \<in> set (members (hubRooms st') r)"
    using reg.add_after_del_all [of r c "hubRooms ?m" r] by (simp add: rooms member_def)
  show subs: "clSubscribed (hubClients st' c) = []"
    by (simp add: cl closed_client_def)
  then show "unsubscribe x c r st' = st'"
    by (simp add: unsubscribe_def)
  show "Close c st' = st'"
    by (simp add: cl Close_closed closed_client_def)
qed

text \<open>
  And the other way round: a message read before the connection was closed, handled between the first
  section of \<open>Close\<close>, which empties the subscriptions, and the one that takes the client out of the
  rooms, leaves a subscription, counted by the gauge, that no room lists. \<open>Close\<close> never runs again, and
  to subscribe once more changes nothing.
\<close>

lemma subscribe_inside_close:
  fixes x :: ext and r :: uuid
  assumes "\<not> clClosed (hubClients st c)"
  defines "remaining \<equiv> length (clSubscribed (hubClients st c))"
  defines "st' \<equiv> Close_finish c (subscribe x c r (Close_gauges remaining (Close_mark c st)))"
  shows "clSubscribed (hubClients st' c) = [r]" "clClosed (hubClients st' c)"
    "c \<notin> set (members (hubRooms st') k)"
    "hubCounters st' WSSubscriptions = hubCounters st WSSubscriptions - int remaining + 1"
    "subscribe x c r st' = st'" "Close c st' = st'"
proof -
  define m where "m = Close_gauges remaining (Close_mark c st)"
  have m: "clClosed (hubClients m c)" "clSubscribed (hubClients m c) = []"
      "hubCounters m WSSubscriptions = hubCounters st WSSubscriptions - int remaining"
    by (simp_all add: m_def Close_gauges_def Close_mark_def count_def)
  define s where "s = Subscribe r c (subscribe_mark c r m)"
  have s: "clClosed (hubClients s c)" "clSubscribed (hubClients s c) = [r]"
      "hubCounters s WSSubscriptions = hubCounters m WSSubscriptions + 1"
    by (simp_all add: s_def Subscribe_def subscribe_mark_def count_def m)
  have run: "subscribe x c r m = sendServerMessage c
      (no_message\<lparr>smType := MessageTypeSubscribed, smRoomID := uuid_String x r\<rparr>) s"
    by (simp add: subscribe_def m(2) maxSubscriptions_def subscribe_finish_def s_def)
  have sent: "clClosed (hubClients (subscribe x c r m) c)" "clSubscribed (hubClients (subscribe x c r m) c) = [r]"
      "hubCounters (subscribe x c r m) = hubCounters s"
    using s unfolding run by (auto simp: sendServerMessage_def enqueue_accepts Close_closed simp del: Marshal.simps)
  have st': "st' = Close_finish c (subscribe x c r m)"
    by (simp add: st'_def m_def)
  show subs: "clSubscribed (hubClients st' c) = [r]" and closed: "clClosed (hubClients st' c)"
    using sent unfolding st' by (simp_all add: Close_finish_def Let_def UnsubscribeAll_def UnregisterUser_def)
  have "\<not> member (hubRooms st') k c"
    unfolding st' by (simp add: Close_finish_def Let_def UnsubscribeAll_def UnregisterUser_def reg.mem_del_all)
  then show "c \<notin> set (members (hubRooms st') k)"
    by (simp add: member_def)
  show "hubCounters st' WSSubscriptions = hubCounters st WSSubscriptions - int remaining + 1"
    using sent(3) s(3) m(3) unfolding st'
    by (simp add: Close_finish_def Let_def UnsubscribeAll_def UnregisterUser_def)
  show "subscribe x c r st' = st'"
    by (simp add: subscribe_def subs)
  show "Close c st' = st'"
    using closed by (rule Close_closed)
qed

section \<open>Writing what was queued\<close>

lemma write_queue:
  assumes "clWriting (hubClients st c)" "\<not> clConnClosed (hubClients st c)" "c < hubNext st"
    "n = length (clSend (hubClients st c))"
  shows "hubClients ((perform x (Write c FromSend True) ^^ n) st) c =
    (hubClients st c)\<lparr>clSend := [], clWritten := clWritten (hubClients st c) @ map obPayload (clSend (hubClients st c))\<rparr>"
  using assms
proof (induction n arbitrary: st)
  case 0
  then show ?case
    by simp
next
  case (Suc n)
  then obtain m ms where send: "clSend (hubClients st c) = m # ms"
    by (cases "clSend (hubClients st c)") auto
  define st1 where "st1 = perform x (Write c FromSend True) st"
  have st1: "hubClients st1 c = (hubClients st c)\<lparr>clSend := ms, clWritten := clWritten (hubClients st c) @ [obPayload m]\<rparr>"
      "hubNext st1 = hubNext st"
    using Suc.prems send by (simp_all add: st1_def writePump_def count_def)
  have "hubClients ((perform x (Write c FromSend True) ^^ n) st1) c =
    (hubClients st1 c)\<lparr>clSend := [], clWritten := clWritten (hubClients st1 c) @ map obPayload (clSend (hubClients st1 c))\<rparr>"
    using Suc.prems send st1 by (intro Suc.IH) simp_all
  then show ?case
    unfolding funpow_Suc_right comp_apply st1_def [symmetric] by (simp add: st1(1) send)
qed

end
