(* ===== verification/Booking_Service.thy ===== *)
theory Booking_Service
  imports Sample
begin

text \<open>
  \<open>internal/usecase/booking/service.go\<close>. The repositories are those of \<open>postgres\<close>; the fields
  that \<open>With\<dots>\<close> methods fill in afterwards are flags and options of \<open>booking_service\<close>. A closure
  passed to \<open>WithinTransaction\<close> returns the variables it assigns. Logging is left out.
\<close>

datatype metrics_sink = NoopMetrics | PrometheusMetrics

fun inc_on :: "metrics_sink \<Rightarrow> metric \<Rightarrow> unit go" where
  "inc_on NoopMetrics m = State_Monad.return ()"
| "inc_on PrometheusMetrics m = inc m"

interpretation metric_sink: best_effort "inc_on k" for k
  by unfold_locales (cases k; simp)+

record booking_service =
  bsWaitlists :: bool
  bsReservations :: bool
  bsEvents :: "publisher option"
  bsMetrics :: "metrics_sink option"
  bsTTL :: duration

definition defaultReservationTTL :: duration where
  "defaultReservationTTL = 300000000000"

definition eventPublisher :: "booking_service \<Rightarrow> publisher" where
  "eventPublisher s = (case bsEvents s of None \<Rightarrow> NoopPublisher | Some p \<Rightarrow> p)"

definition bookingMetrics :: "booking_service \<Rightarrow> metrics_sink" where
  "bookingMetrics s = (case bsMetrics s of None \<Rightarrow> NoopMetrics | Some m \<Rightarrow> m)"

definition booking_NewService :: "publisher option list \<Rightarrow> booking_service" where
  "booking_NewService events =
     \<lparr>bsWaitlists = False, bsReservations = False,
      bsEvents = Some (case events of Some p # _ \<Rightarrow> p | _ \<Rightarrow> NoopPublisher),
      bsMetrics = Some NoopMetrics, bsTTL = defaultReservationTTL\<rparr>"

definition WithWaitlistRepository :: "booking_service \<Rightarrow> booking_service" where
  "WithWaitlistRepository s = s\<lparr>bsWaitlists := True\<rparr>"

definition WithReservationRepository :: "duration \<Rightarrow> booking_service \<Rightarrow> booking_service" where
  "WithReservationRepository ttl s =
     (let s = s\<lparr>bsReservations := True\<rparr> in if ttl > 0 then s\<lparr>bsTTL := ttl\<rparr> else s)"

definition WithMetrics :: "metrics_sink option \<Rightarrow> booking_service \<Rightarrow> booking_service" where
  "WithMetrics metrics s = (case metrics of None \<Rightarrow> s | Some _ \<Rightarrow> s\<lparr>bsMetrics := metrics\<rparr>)"

definition reservationTTLValue :: "booking_service \<Rightarrow> duration" where
  "reservationTTLValue s = (if bsTTL s > 0 then bsTTL s else defaultReservationTTL)"

lemma reservationTTLValue_pos: "reservationTTLValue s > 0"
  by (simp add: reservationTTLValue_def defaultReservationTTL_def)

section \<open>CreateBooking\<close>

definition new_booking :: "uuid \<Rightarrow> user \<Rightarrow> uuid \<Rightarrow> time \<Rightarrow> booking" where
  "new_booking i u slotID now =
     \<lparr>bkID = i, bkUserID = usrID u, bkSlotID = slotID, bkStatus = BookingStatusActive,
      bkConferenceLink = None, bkCreatedAt = now\<rparr>"

definition check_reservation :: "booking_service \<Rightarrow> uuid \<Rightarrow> unit result go" where
  "check_reservation s slotID =
     (if bsReservations s
      then check (wrapped ErrorInternalError ''check slot reservation'')
        (ReservationRepo_GetActiveBySlotForUpdate slotID) (\<lambda>activeReservation.
          if activeReservation \<noteq> None
          then fail (NewDomainError ErrorSlotReserved ''slot is reserved'') else ok ())
      else ok ())"

definition insert_booking :: "booking \<Rightarrow> unit result go" where
  "insert_booking created = do {
     r \<leftarrow> BookingRepo_Create created;
     (case r of
        Inl err \<Rightarrow> if has_code err ErrorSlotAlreadyBooked then fail err
          else fail (wrapped ErrorInternalError ''create booking'' err)
      | Inr _ \<Rightarrow> ok ())
   }"

definition CreateBooking_tx ::
  "booking_service \<Rightarrow> user \<Rightarrow> uuid \<Rightarrow> time \<Rightarrow> (booking \<times> uuid) result go" where
  "CreateBooking_tx s u slotID now =
     check (wrapped ErrorInternalError ''get slot'') (SlotRepo_GetByID slotID) (\<lambda>row.
       case row of
         None \<Rightarrow> fail (NewDomainError ErrorSlotNotFound ''slot not found'')
       | Some slot \<Rightarrow>
           if slStartTime slot < now
           then fail (NewDomainError ErrorInvalidRequest ''cannot create booking for past slot'')
           else check same_error (check_reservation s slotID) (\<lambda>_. do {
             i \<leftarrow> uuid_New;
             check same_error (insert_booking (new_booking i u slotID now)) (\<lambda>_.
               ok (new_booking i u slotID now, slRoomID slot))
           }))"

definition CreateBooking :: "booking_service \<Rightarrow> user \<Rightarrow> uuid \<Rightarrow> bool \<Rightarrow> booking result go" where
  "CreateBooking s u slotID createConferenceLink =
     (if usrRole u \<noteq> RoleUser then do {
        inc_on (bookingMetrics s) BookingCreateError;
        fail (NewDomainError ErrorForbidden ''booking is allowed only for user role'')
      } else do {
        now \<leftarrow> now_utc;
        r \<leftarrow> WithinTransaction (CreateBooking_tx s u slotID now);
        (case r of
           Inl err \<Rightarrow> do {
             (if has_code err ErrorSlotAlreadyBooked \<or> has_code err ErrorSlotReserved
              then inc_on (bookingMetrics s) BookingConflict
              else inc_on (bookingMetrics s) BookingCreateError);
             fail err
           }
         | Inr (created, roomID) \<Rightarrow> do {
             inc_on (bookingMetrics s) BookingCreated;
             publish (eventPublisher s) (SlotBooked roomID (bkSlotID created) (bkID created));
             ok created
           })
      })"

lemma new_booking_simps [simp]:
  "bkID (new_booking i u k now) = i" "bkUserID (new_booking i u k now) = usrID u"
  "bkSlotID (new_booking i u k now) = k" "bkStatus (new_booking i u k now) = BookingStatusActive"
  "bkCreatedAt (new_booking i u k now) = now" "bk_active (new_booking i u k now)"
  by (simp_all add: new_booking_def bk_active_def)

lemma insert_booking_Inr [go_run]:
  "run_state (insert_booking b) w = (Inr x, w') \<longleftrightarrow>
    fault_at (env w) (ticks w) = NoFault \<and> booking_insertable b (db w) \<and>
    w' = (tick w)\<lparr>db := add_booking b (db w)\<rparr>"
  using BookingRepo_Create_Inr [of b w x w']
  by (auto simp: insert_booking_def split: sum.splits prod.splits if_splits)

lemma check_reservation_Inr:
  assumes "run_state (check_reservation s k) w = (Inr x, w')"
  shows "db w' = db w \<and> env w' = env w \<and> (bsReservations s \<longrightarrow> \<not> slot_reserved (db w) k)"
  using assms
  by (auto simp: check_reservation_def reservation_reads_Inr active_reservation_None
      elim!: check_InrE split: if_splits)

lemma CreateBooking_tx_InrE:
  assumes "run_state (CreateBooking_tx s u k now) w = (Inr x, w')"
  obtains slot i where "find_row slID k (slots (db w)) = Some slot" "now \<le> slStartTime slot"
    "bsReservations s \<Longrightarrow> \<not> slot_reserved (db w) k"
    "booking_insertable (new_booking i u k now) (db w)"
    "x = (new_booking i u k now, slRoomID slot)" "db w' = add_booking (new_booking i u k now) (db w)"
proof -
  from assms obtain slot w1 where slot: "find_row slID k (slots (db w)) = Some slot" "now \<le> slStartTime slot"
    and w1: "run_state (check_reservation s k) (tick w) = (Inr (), w1)"
    and rest: "run_state (insert_booking (new_booking (fresh_at (env w1) (ticks w1)) u k now)) (tick w1)
        = (Inr (), w')" "x = (new_booking (fresh_at (env w1) (ticks w1)) u k now, slRoomID slot)"
    by (auto simp: CreateBooking_tx_def SlotRepo_GetByID_Inr elim!: check_InrE
        split: option.splits if_splits)
  show thesis
    using that [OF slot] check_reservation_Inr [OF w1] rest by (auto simp: insert_booking_Inr)
qed

lemmas effort = metric_sink.runD publishing.runD

lemma CreateBooking_outcome:
  "tx_outcome (CreateBooking_tx s u k (clock_at (env w) (ticks w))) w
     (db (snd (run_state (CreateBooking s u k link) w)))"
proof (cases "usrRole u = RoleUser")
  case False
  then show ?thesis
    by (auto simp: CreateBooking_def tx_outcome_same split: prod.splits dest!: effort)
next
  case True
  let ?fn = "CreateBooking_tx s u k (clock_at (env w) (ticks w))"
  have "db (snd (run_state (CreateBooking s u k link) w)) =
      db (snd (run_state (WithinTransaction ?fn) (tick w)))"
    using True by (auto simp: CreateBooking_def dest!: effort split: prod.splits sum.splits)
  then show ?thesis
    by (simp add: tx_outcome_run)
qed

lemma CreateBooking_app_ok:
  assumes "app_ok (db w)" "bsReservations s"
  shows "app_ok (db (snd (run_state (CreateBooking s u k link) w)))"
  using CreateBooking_outcome assms(1)
proof (rule tx_outcome_invariant)
  show "app_ok (db w2)" if "db w1 = db w" "run_state (CreateBooking_tx s u k
      (clock_at (env w) (ticks w))) w1 = (Inr x, w2)" for w1 x w2
    using that(2) assms by (auto simp: that(1) intro!: app_ok_add_booking elim!: CreateBooking_tx_InrE)
qed (rule app_ok_seq [OF assms(1)])

text \<open>The decision of \<open>CreateBooking\<close>: the code it refuses with, if it refuses.\<close>

definition create_refusal :: "booking_service \<Rightarrow> user \<Rightarrow> uuid \<Rightarrow> time \<Rightarrow> store \<Rightarrow> error_code option" where
  "create_refusal s u k now st =
     (if usrRole u \<noteq> RoleUser then Some ErrorForbidden
      else case find_row slID k (slots st) of
        None \<Rightarrow> Some ErrorSlotNotFound
      | Some slot \<Rightarrow>
          if slStartTime slot < now then Some ErrorInvalidRequest
          else if bsReservations s \<and> slot_reserved st k then Some ErrorSlotReserved
          else if slot_booked st k then Some ErrorSlotAlreadyBooked
          else None)"

lemma rollback_to_same [simp]: "rollback_to s s = s"
  by (simp add: rollback_to_def)

lemma check_reservation_calm:
  assumes "calm (env w)"
  shows "bsReservations s \<and> slot_reserved (db w) k \<Longrightarrow>
      \<exists>e. run_state (check_reservation s k) w = (Inl e, tick w) \<and> has_code e ErrorSlotReserved"
    and "\<not> (bsReservations s \<and> slot_reserved (db w) k) \<Longrightarrow>
      \<exists>w'. run_state (check_reservation s k) w = (Inr (), w') \<and> db w' = db w \<and> env w' = env w"
  using assms active_reservation_None [of "db w" k]
  by (cases "active_reservation (db w) k"; simp add: check_reservation_def run_check
      run_db_call_calm select_def ReservationRepo_GetActiveBySlotForUpdate_def)+

lemma insert_booking_calm:
  assumes "calm (env w)" "bk_active b"
  shows "slot_booked (db w) (bkSlotID b) \<Longrightarrow>
      \<exists>e. run_state (insert_booking b) w = (Inl e, tick w) \<and> has_code e ErrorSlotAlreadyBooked"
    and "booking_insertable b (db w) \<Longrightarrow>
      run_state (insert_booking b) w = (Inr (), (tick w)\<lparr>db := add_booking b (db w)\<rparr>)"
  using assms
  by (auto simp: insert_booking_def BookingRepo_Create_def run_check run_db_call_calm same_error_def
      sql_booking_insert_def booking_insertable_def add_booking_def index_hit_def slot_booked_def)

lemma CreateBooking_tx_refused:
  assumes "calm (env w)" "usrRole u = RoleUser" "create_refusal s u k now (db w) = Some c"
  shows "\<exists>e w'. run_state (CreateBooking_tx s u k now) w = (Inl e, w') \<and> has_code e c \<and>
    db w' = db w \<and> env w' = env w"
proof -
  consider (missing) "find_row slID k (slots (db w)) = None" "c = ErrorSlotNotFound"
    | (past) slot where "find_row slID k (slots (db w)) = Some slot" "slStartTime slot < now"
        "c = ErrorInvalidRequest"
    | (reserved) slot where "find_row slID k (slots (db w)) = Some slot" "\<not> slStartTime slot < now"
        "bsReservations s \<and> slot_reserved (db w) k" "c = ErrorSlotReserved"
    | (booked) slot where "find_row slID k (slots (db w)) = Some slot" "\<not> slStartTime slot < now"
        "\<not> (bsReservations s \<and> slot_reserved (db w) k)" "slot_booked (db w) k"
        "c = ErrorSlotAlreadyBooked"
    using assms(2,3) by (auto simp: create_refusal_def split: option.splits if_splits)
  then show ?thesis
  proof cases
    case reserved
    then show ?thesis
      using check_reservation_calm(1) [of "tick w" s k] assms(1)
      by (fastforce simp: CreateBooking_tx_def run_check SlotRepo_GetByID_def run_db_call_calm
          select_def same_error_def)
  next
    case booked
    obtain w1 where w1: "run_state (check_reservation s k) (tick w) = (Inr (), w1)" "db w1 = db w"
        "env w1 = env w"
      using check_reservation_calm(2) [of "tick w" s k] assms(1) booked by auto
    then show ?thesis
      using insert_booking_calm(1) [of "tick w1" "new_booking (fresh_at (env w1) (ticks w1)) u k now"]
        assms(1) booked
      by (fastforce simp: CreateBooking_tx_def run_check SlotRepo_GetByID_def run_db_call_calm
          select_def same_error_def)
  qed (use assms(1) in \<open>auto simp: CreateBooking_tx_def run_check SlotRepo_GetByID_def run_db_call_calm
          select_def same_error_def\<close>)
qed

lemma CreateBooking_tx_accepted:
  assumes "calm (env w)" "create_refusal s u k now (db w) = None" "usrID u \<in> usrID ` set (users (db w))"
    "fresh_ids (env w) (bkID ` set (bookings (db w)))"
  shows "\<exists>slot i w'. find_row slID k (slots (db w)) = Some slot \<and>
    run_state (CreateBooking_tx s u k now) w = (Inr (new_booking i u k now, slRoomID slot), w') \<and>
    db w' = add_booking (new_booking i u k now) (db w) \<and> env w' = env w"
proof -
  obtain slot where slot: "find_row slID k (slots (db w)) = Some slot" "\<not> slStartTime slot < now"
      "\<not> (bsReservations s \<and> slot_reserved (db w) k)" "\<not> slot_booked (db w) k"
    using assms(2) by (auto simp: create_refusal_def split: option.splits if_splits)
  obtain w1 where w1: "run_state (check_reservation s k) (tick w) = (Inr (), w1)" "db w1 = db w"
      "env w1 = env w"
    using check_reservation_calm(2) [of "tick w" s k] assms(1) slot by auto
  let ?b = "new_booking (fresh_at (env w1) (ticks w1)) u k now"
  have "booking_insertable ?b (db w)"
    using slot assms(3,4) find_row_SomeD [OF slot(1)]
    by (auto simp: booking_insertable_def index_hit_def fresh_ids_def slot_booked_def w1)
  then show ?thesis
    using w1 slot assms(1) insert_booking_calm(2) [of "tick w1" ?b]
    by (auto simp: CreateBooking_tx_def run_check SlotRepo_GetByID_def run_db_call_calm
          select_def same_error_def)
qed

text \<open>
  The functional contract of \<open>CreateBooking\<close> over a database that answers: it refuses with the code of
  \<open>create_refusal\<close> and changes nothing, or it stores the booking it returns.
\<close>

lemma CreateBooking_refused:
  assumes "calm (env w)" "create_refusal s u k (clock_at (env w) (ticks w)) (db w) = Some c"
  shows "\<exists>e w'. run_state (CreateBooking s u k link) w = (Inl e, w') \<and> has_code e c \<and> db w' = db w"
proof (cases "usrRole u = RoleUser")
  case False
  then show ?thesis
    using assms
    by (auto simp: CreateBooking_def create_refusal_def split: prod.splits dest!: effort)
next
  case True
  let ?now = "clock_at (env w) (ticks w)"
  obtain e w2 where tx: "run_state (CreateBooking_tx s u k ?now) (tick (tick w)) = (Inl e, w2)"
      "has_code e c" "db w2 = db w" "env w2 = env w"
    using CreateBooking_tx_refused [of "tick (tick w)" u s k ?now c] assms True by auto
  have "run_state (WithinTransaction (CreateBooking_tx s u k ?now)) (tick w) =
      (Inl e, (tick w2)\<lparr>db := db w\<rparr>)"
    using WithinTransaction_calm_error [of "tick w" "CreateBooking_tx s u k ?now" e w2] tx assms(1)
    by simp
  then show ?thesis
    using True tx(2) by (auto simp: CreateBooking_def split: prod.splits dest!: effort)
qed

lemma CreateBooking_accepted:
  assumes "calm (env w)" "create_refusal s u k (clock_at (env w) (ticks w)) (db w) = None"
    "usrID u \<in> usrID ` set (users (db w))" "fresh_ids (env w) (bkID ` set (bookings (db w)))"
  shows "\<exists>i w'. run_state (CreateBooking s u k link) w =
      (Inr (new_booking i u k (clock_at (env w) (ticks w))), w') \<and>
    db w' = add_booking (new_booking i u k (clock_at (env w) (ticks w))) (db w)"
proof -
  let ?now = "clock_at (env w) (ticks w)"
  have role: "usrRole u = RoleUser"
    using assms(2) by (simp add: create_refusal_def split: if_splits)
  obtain roomID i w2 where tx: "run_state (CreateBooking_tx s u k ?now) (tick (tick w)) =
        (Inr (new_booking i u k ?now, roomID), w2)"
      "db w2 = add_booking (new_booking i u k ?now) (db w)" "env w2 = env w"
    using CreateBooking_tx_accepted [of "tick (tick w)" s u k ?now] assms
    unfolding tick_simps by blast
  have "run_state (WithinTransaction (CreateBooking_tx s u k ?now)) (tick w) =
      (Inr (new_booking i u k ?now, roomID), tick w2)"
    using WithinTransaction_calm [of "tick w" "CreateBooking_tx s u k ?now" _ w2] tx assms(1) by simp
  then show ?thesis
    using role tx(2) by (auto simp: CreateBooking_def split: prod.splits dest!: effort)
qed

text \<open>
  A token proves who signed it, not that its user still has a row: then the foreign key refuses the
  booking the rules would allow.
\<close>

lemma CreateBooking_tx_orphan:
  assumes "calm (env w)" "create_refusal s u k now (db w) = None" "usrID u \<notin> usrID ` set (users (db w))"
    "fresh_ids (env w) (bkID ` set (bookings (db w)))"
  shows "\<exists>e w'. run_state (CreateBooking_tx s u k now) w = (Inl e, w') \<and> has_code e ErrorInternalError \<and>
    db w' = db w \<and> env w' = env w"
proof -
  obtain slot where slot: "find_row slID k (slots (db w)) = Some slot" "\<not> slStartTime slot < now"
      "\<not> (bsReservations s \<and> slot_reserved (db w) k)" "\<not> slot_booked (db w) k"
    using assms(2) by (auto simp: create_refusal_def split: option.splits if_splits)
  obtain w1 where w1: "run_state (check_reservation s k) (tick w) = (Inr (), w1)" "db w1 = db w"
      "env w1 = env w"
    using check_reservation_calm(2) [of "tick w" s k] assms(1) slot by auto
  let ?b = "new_booking (fresh_at (env w1) (ticks w1)) u k now"
  have free: "\<not> index_hit bk_active bkSlotID (bookings (db w)) ?b" "bkID ?b \<notin> bkID ` set (bookings (db w))"
    using slot(4) assms(4) by (auto simp: index_hit_def slot_booked_def fresh_ids_def w1)
  have "(tick (tick w1))\<lparr>db := db w\<rparr> = tick (tick w1)"
    by (simp add: tick_def w1)
  then have "\<exists>e. run_state (insert_booking ?b) (tick w1) = (Inl e, tick (tick w1)) \<and> has_code e ErrorInternalError"
    using free assms(1,3) w1
    by (simp add: insert_booking_def BookingRepo_Create_def run_check run_db_call_calm same_error_def
        sql_booking_insert_def)
  then show ?thesis
    using w1 slot assms(1)
    by (auto simp: CreateBooking_tx_def run_check SlotRepo_GetByID_def run_db_call_calm select_def same_error_def)
qed

lemma CreateBooking_orphan:
  assumes "calm (env w)" "create_refusal s u k (clock_at (env w) (ticks w)) (db w) = None"
    "usrID u \<notin> usrID ` set (users (db w))" "fresh_ids (env w) (bkID ` set (bookings (db w)))"
  shows "\<exists>e w'. run_state (CreateBooking s u k link) w = (Inl e, w') \<and> has_code e ErrorInternalError \<and>
    db w' = db w"
proof -
  let ?now = "clock_at (env w) (ticks w)"
  have role: "usrRole u = RoleUser"
    using assms(2) by (simp add: create_refusal_def split: if_splits)
  obtain e w2 where tx: "run_state (CreateBooking_tx s u k ?now) (tick (tick w)) = (Inl e, w2)"
      "has_code e ErrorInternalError" "db w2 = db w" "env w2 = env w"
    using CreateBooking_tx_orphan [of "tick (tick w)" s u k ?now] assms by auto
  have "run_state (WithinTransaction (CreateBooking_tx s u k ?now)) (tick w) =
      (Inl e, (tick w2)\<lparr>db := db w\<rparr>)"
    using WithinTransaction_calm_error [of "tick w" "CreateBooking_tx s u k ?now" e w2] tx assms(1)
    by simp
  then show ?thesis
    using role tx(2) by (auto simp: CreateBooking_def split: prod.splits dest!: effort)
qed

section \<open>CancelBooking\<close>

text \<open>
  The variables the closure of \<open>CancelBooking\<close> assigns: \<open>result\<close>, \<open>roomID\<close>, \<open>slotReleased\<close>,
  \<open>notifiedEntry\<close> and \<open>createdReservation\<close>. \<open>uuid.Nil\<close> is 0.
\<close>

record cancel_result =
  crResult :: booking
  crRoomID :: uuid
  crSlotReleased :: bool
  crNotifiedEntry :: "waitlist_entry option"
  crCreatedReservation :: "slot_reservation option"

definition claim_for_cancelled ::
  "booking_service \<Rightarrow> uuid \<Rightarrow> (waitlist_entry option \<times> slot_reservation option) result go" where
  "claim_for_cancelled s slotID =
     (if \<not> bsWaitlists s then ok (None, None)
      else check (wrapped ErrorInternalError ''claim waitlist entry'')
        (WaitlistRepo_ClaimNextForNotify slotID) (\<lambda>row.
          case row of
            None \<Rightarrow> ok (None, None)
          | Some entry \<Rightarrow>
              if \<not> bsReservations s
              then fail (NewDomainError ErrorInternalError ''reservation repository is not configured'')
              else do {
                reservationNow \<leftarrow> now_utc;
                i \<leftarrow> uuid_New;
                check (wrapped ErrorInternalError ''create slot reservation'')
                  (ReservationRepo_Create
                    (reservation_for i slotID entry reservationNow (reservationTTLValue s)))
                  (\<lambda>created. ok (Some entry, Some created))
              }))"

definition CancelBooking_tx :: "booking_service \<Rightarrow> user \<Rightarrow> uuid \<Rightarrow> cancel_result result go" where
  "CancelBooking_tx s u bookingID =
     check (wrapped ErrorInternalError ''get booking'') (BookingRepo_GetByID bookingID) (\<lambda>row.
       case row of
         None \<Rightarrow> fail (NewDomainError ErrorBookingNotFound ''booking not found'')
       | Some existing \<Rightarrow>
           if bkUserID existing \<noteq> usrID u
           then fail (NewDomainError ErrorForbidden ''cannot cancel another user's booking'')
           else check (wrapped ErrorInternalError ''cancel booking'')
             (BookingRepo_SetCancelled bookingID) (\<lambda>row.
               case row of
                 None \<Rightarrow> fail (NewDomainError ErrorBookingNotFound ''booking not found'')
               | Some updated \<Rightarrow>
                   check (wrapped ErrorInternalError ''get slot'')
                     (SlotRepo_GetByID (bkSlotID updated)) (\<lambda>slot.
                   let roomID = (case slot of None \<Rightarrow> 0 | Some sl \<Rightarrow> slRoomID sl) in
                   if bkStatus existing = BookingStatusActive
                   then check same_error (claim_for_cancelled s (bkSlotID updated))
                     (\<lambda>(entry, created). ok \<lparr>crResult = updated, crRoomID = roomID,
                        crSlotReleased = True, crNotifiedEntry = entry,
                        crCreatedReservation = created\<rparr>)
                   else ok \<lparr>crResult = updated, crRoomID = roomID, crSlotReleased = False,
                        crNotifiedEntry = None, crCreatedReservation = None\<rparr>)))"

definition announce_cancel :: "booking_service \<Rightarrow> cancel_result \<Rightarrow> unit go" where
  "announce_cancel s r =
     (if crSlotReleased r \<and> crRoomID r \<noteq> 0
      then case (crCreatedReservation r, crNotifiedEntry r) of
          (Some reservation, Some entry) \<Rightarrow> do {
            inc WaitlistNotification;
            inc ReservationCreated;
            publish (eventPublisher s)
              (SlotReserved (crRoomID r) (bkSlotID (crResult r)) (rvID reservation));
            publish (eventPublisher s)
              (WaitlistSlotReserved (crRoomID r) (bkSlotID (crResult r)) (weUserID entry)
                (rvID reservation) (weID entry) (rvExpiresAt reservation))
          }
        | _ \<Rightarrow> publish (eventPublisher s)
            (SlotReleased (crRoomID r) (bkSlotID (crResult r)) (bkID (crResult r)))
      else State_Monad.return ())"

definition CancelBooking :: "booking_service \<Rightarrow> user \<Rightarrow> uuid \<Rightarrow> booking result go" where
  "CancelBooking s u bookingID =
     (if usrRole u \<noteq> RoleUser then do {
        inc_on (bookingMetrics s) BookingCancelError;
        fail (NewDomainError ErrorForbidden ''cancel is allowed only for user role'')
      } else do {
        r \<leftarrow> WithinTransaction (CancelBooking_tx s u bookingID);
        (case r of
           Inl err \<Rightarrow> do { inc_on (bookingMetrics s) BookingCancelError; fail err }
         | Inr result \<Rightarrow> do {
             inc_on (bookingMetrics s) BookingCancelled;
             announce_cancel s result;
             ok (crResult result)
           })
      })"

section \<open>Listings\<close>

definition ListBookings ::
  "booking_service \<Rightarrow> user \<Rightarrow> int \<Rightarrow> int \<Rightarrow> (booking list \<times> pagination) result go" where
  "ListBookings s u page pageSize =
     (if usrRole u \<noteq> RoleAdmin then fail (NewDomainError ErrorForbidden ''admin only'')
      else if page \<le> 0 \<or> pageSize \<le> 0
        then fail (NewDomainError ErrorInvalidRequest ''page and pageSize must be > 0'')
      else if pageSize > 100
        then fail (NewDomainError ErrorInvalidRequest ''pageSize must be <= 100'')
      else check (wrapped ErrorInternalError ''list bookings'') (BookingRepo_List page pageSize)
        (\<lambda>(bks, total). ok (bks, \<lparr>pgPage = page, pgPageSize = pageSize, pgTotal = total\<rparr>)))"

definition ListMyBookings :: "booking_service \<Rightarrow> user \<Rightarrow> booking list result go" where
  "ListMyBookings s u =
     (if usrRole u \<noteq> RoleUser
      then fail (NewDomainError ErrorForbidden ''only user role can access own bookings'')
      else do {
        now \<leftarrow> now_utc;
        check (wrapped ErrorInternalError ''list my bookings'')
          (BookingRepo_ListFutureByUser (usrID u) now) ok
      })"

section \<open>What a cancellation does to the store\<close>

lemma row_locked_server [simp]:
  "row_locked (server_of w) = locked_at (env w) (ticks w)" "tie_rank (server_of w) = tie_at (env w) (ticks w)"
  by (simp_all add: server_of_def)

lemma claim_for_cancelled_InrE:
  assumes "run_state (claim_for_cancelled s k) w = (Inr out, w')"
  obtains (nobody) "out = (None, None)" "db w' = db w" "env w' = env w"
      "bsWaitlists s \<Longrightarrow> next_waiting (locked_at (env w) (ticks w)) k (db w) = None"
  | (head) e t i now where "next_waiting (locked_at (env w) (ticks w)) k (db w) = Some e"
      "out = (Some (we_notify t e),
        Some (stored_reservation (reservation_for i k e now (reservationTTLValue s))))"
      "reservation_insertable (reservation_for i k e now (reservationTTLValue s))
        (notify_entry t (weID e) (db w))"
      "db w' = hand_over t i k e now (reservationTTLValue s) (db w)"
      "env w' = env w" "bsWaitlists s" "bsReservations s"
proof (cases "bsWaitlists s")
  case False
  then show ?thesis
    using assms nobody by (auto simp: claim_for_cancelled_def)
next
  case True
  then obtain row w1 where claim: "run_state (WaitlistRepo_ClaimNextForNotify k) w = (Inr row, w1)"
    and rest: "run_state (case row of
            None \<Rightarrow> ok (None, None)
          | Some entry \<Rightarrow>
              if \<not> bsReservations s
              then fail (NewDomainError ErrorInternalError ''reservation repository is not configured'')
              else do {
                reservationNow \<leftarrow> now_utc;
                i \<leftarrow> uuid_New;
                check (wrapped ErrorInternalError ''create slot reservation'')
                  (ReservationRepo_Create
                    (reservation_for i k entry reservationNow (reservationTTLValue s)))
                  (\<lambda>created. ok (Some entry, Some created))
              }) w1 = (Inr out, w')"
    using assms by (auto simp: claim_for_cancelled_def elim!: check_InrE)
  show ?thesis
  proof (cases "next_waiting (locked_at (env w) (ticks w)) k (db w)")
    case None
    then show ?thesis
      using claim rest by (intro nobody) (auto simp: Claim_Inr)
  next
    case (Some e)
    then show ?thesis
      using claim rest True
      by (intro head) (auto simp: Claim_Inr ReservationRepo_Create_Inr hand_over_def
          elim!: check_InrE split: if_splits)
  qed
qed

lemma find_active_booking:
  assumes "find_row bkID k (bookings s) = Some b" "distinct (map bkID (bookings s))"
  shows "List.find (\<lambda>x. bkID x = k \<and> bk_active x) (bookings s) = (if bk_active b then Some b else None)"
proof -
  have b: "b \<in> set (bookings s)" "bkID b = k"
    using assms(1) find_row_SomeD by fastforce+
  have same: "x = b" if "x \<in> set (bookings s)" "bkID x = k" for x
    using that b assms(2) by (auto simp: distinct_map inj_on_def)
  show ?thesis
  proof (cases "bk_active b")
    case True
    have "List.find (\<lambda>x. bkID x = k \<and> bk_active x) (bookings s) = find_row bkID k (bookings s)"
      unfolding find_row_def by (rule find_cong_set) (use same True in auto)
    with True assms(1) show ?thesis by simp
  next
    case False
    then show ?thesis
      using same by (auto simp: find_None_iff')
  qed
qed

lemma BookingRepo_SetCancelled_row:
  assumes "run_state (BookingRepo_SetCancelled k) w = (Inr x, w')"
    and "find_row bkID k (bookings (db w)) = Some b" "distinct (map bkID (bookings (db w)))"
  shows "env w' = env w \<and> (if bk_active b then x = Some (bk_cancel b) \<and> db w' = cancel_booking k (db w)
    else x = Some b \<and> db w' = db w)"
proof (cases "bk_active b")
  case True
  then show ?thesis
    using assms find_active_booking [OF assms(2,3)] by (simp add: BookingRepo_SetCancelled_active)
next
  case False
  then show ?thesis
    using assms find_active_booking [OF assms(2,3)] by (simp add: BookingRepo_SetCancelled_inactive)
qed

lemma CancelBooking_tx_InrE:
  assumes "run_state (CancelBooking_tx s u k) w = (Inr r, w')" "distinct (map bkID (bookings (db w)))"
  obtains (again) b where "find_row bkID k (bookings (db w)) = Some b" "bkUserID b = usrID u"
      "\<not> bk_active b" "crResult r = b" "\<not> crSlotReleased r" "db w' = db w" "env w' = env w"
  | (released) b out w1 where "find_row bkID k (bookings (db w)) = Some b" "bkUserID b = usrID u"
      "bk_active b" "crResult r = bk_cancel b" "crSlotReleased r"
      "crNotifiedEntry r = fst out" "crCreatedReservation r = snd out"
      "db w1 = cancel_booking k (db w)" "env w1 = env w"
      "run_state (claim_for_cancelled s (bkSlotID b)) w1 = (Inr out, w')"
proof -
  obtain b w1 upd w2 where b: "find_row bkID k (bookings (db w)) = Some b" "bkUserID b = usrID u"
    and w1: "w1 = tick w"
    and upd: "run_state (BookingRepo_SetCancelled k) w1 = (Inr upd, w2)"
    and rest: "run_state (case upd of
                 None \<Rightarrow> fail (NewDomainError ErrorBookingNotFound ''booking not found'')
               | Some updated \<Rightarrow>
                   check (wrapped ErrorInternalError ''get slot'')
                     (SlotRepo_GetByID (bkSlotID updated)) (\<lambda>slot.
                   let roomID = (case slot of None \<Rightarrow> 0 | Some sl \<Rightarrow> slRoomID sl) in
                   if bkStatus b = BookingStatusActive
                   then check same_error (claim_for_cancelled s (bkSlotID updated))
                     (\<lambda>(entry, created). ok \<lparr>crResult = updated, crRoomID = roomID,
                        crSlotReleased = True, crNotifiedEntry = entry,
                        crCreatedReservation = created\<rparr>)
                   else ok \<lparr>crResult = updated, crRoomID = roomID, crSlotReleased = False,
                        crNotifiedEntry = None, crCreatedReservation = None\<rparr>)) w2 = (Inr r, w')"
    using assms(1)
    by (auto simp: CancelBooking_tx_def BookingRepo_GetByID_Inr elim!: check_InrE
        split: option.splits if_splits)
  note row = BookingRepo_SetCancelled_row [OF upd]
  have row: "env w2 = env w \<and> (if bk_active b then upd = Some (bk_cancel b) \<and> db w2 = cancel_booking k (db w)
      else upd = Some b \<and> db w2 = db w)"
    using row b assms(2) by (simp add: w1)
  show thesis
  proof (cases "bk_active b")
    case False
    then show ?thesis
      using rest row b
      by (intro again [of b]) (auto simp: SlotRepo_GetByID_Inr bk_active_def Let_def elim!: check_InrE)
  next
    case True
    then show ?thesis
      using rest row b
      by (auto simp: SlotRepo_GetByID_Inr bk_active_def Let_def elim!: check_InrE
          intro!: released [of b _ "tick w2"])
  qed
qed

lemma next_waiting_cancel_booking [simp, row_simps]:
  "next_waiting locked k (cancel_booking i s) = next_waiting locked k s"
  by (simp add: next_waiting_def cancel_booking_def)

lemma cancel_booking_frees:
  assumes "bookings_ok s" "find_row bkID i (bookings s) = Some b" "bk_active b"
  shows "\<not> slot_booked (cancel_booking i s) (bkSlotID b)"
    and "k \<noteq> bkSlotID b \<Longrightarrow> slot_booked (cancel_booking i s) k = slot_booked s k"
proof -
  have b: "b \<in> set (bookings s)" "bkID b = i"
    using assms(2) find_row_SomeD by fastforce+
  have only: "x = b" if "x \<in> set (bookings s)" "bk_active x" "bkSlotID x = bkSlotID b" for x
    using that b assms by (auto simp: bookings_ok_def dest: index_okD)
  then show "\<not> slot_booked (cancel_booking i s) (bkSlotID b)"
    using b by (auto simp: slot_booked_cancel)
  have "x = b" if "x \<in> set (bookings s)" "bkID x = i" for x
    using that b assms(1) by (auto simp: bookings_ok_def distinct_map inj_on_def)
  then show "slot_booked (cancel_booking i s) k = slot_booked s k" if "k \<noteq> bkSlotID b"
    using that by (auto simp: slot_booked_cancel) (auto simp: slot_booked_def)
qed

lemma announce_cancel_runD:
  "run_state (announce_cancel s r) w = (x, w') \<Longrightarrow> db w' = db w \<and> env w' = env w"
  by (auto simp: announce_cancel_def split: if_splits option.splits prod.splits dest!: effort)

lemma CancelBooking_outcome:
  "tx_outcome (CancelBooking_tx s u k) w (db (snd (run_state (CancelBooking s u k) w)))"
proof (cases "usrRole u = RoleUser")
  case False
  then show ?thesis
    by (auto simp: CancelBooking_def tx_outcome_same split: prod.splits dest!: effort)
next
  case True
  have "db (snd (run_state (CancelBooking s u k) w)) =
      db (snd (run_state (WithinTransaction (CancelBooking_tx s u k)) w))"
    using True
    by (auto simp: CancelBooking_def dest!: effort announce_cancel_runD split: prod.splits sum.splits)
  then show ?thesis
    by (simp add: tx_outcome_run)
qed

lemma CancelBooking_InrE:
  assumes "run_state (CancelBooking s u k) w = (Inr b, w')"
  obtains r w1 w2 where "usrRole u = RoleUser" "db w1 = db w" "env w1 = env w"
    "run_state (CancelBooking_tx s u k) w1 = (Inr r, w2)" "b = crResult r" "db w' = db w2"
proof -
  have role: "usrRole u = RoleUser"
    using assms by (auto simp: CancelBooking_def split: if_splits prod.splits)
  obtain r w3 where tx: "run_state (WithinTransaction (CancelBooking_tx s u k)) w = (Inr r, w3)"
      "b = crResult r" "db w' = db w3"
    using assms role
    by (auto simp: CancelBooking_def split: prod.splits sum.splits dest!: effort announce_cancel_runD)
  then obtain w2 where "run_state (CancelBooking_tx s u k) (tick w) = (Inr r, w2)" "db w3 = db w2"
    by (auto simp: WithinTransaction_Inr)
  then show thesis
    using that [of "tick w" r w2] role tx by simp
qed

lemma CancelBooking_tx_app_ok:
  assumes "run_state (CancelBooking_tx s u k) w = (Inr r, w')" "app_ok (db w)"
  shows "app_ok (db w')"
proof -
  have ok: "store_ok (db w)" "distinct (map bkID (bookings (db w)))"
    using assms(2) by (auto simp: app_ok_def store_ok_defs)
  show ?thesis
    using assms(1) ok(2)
  proof (cases rule: CancelBooking_tx_InrE)
    case (again b)
    with assms(2) show ?thesis by simp
  next
    case (released b out w1)
    have w1: "app_ok (db w1)" "\<not> slot_booked (db w1) (bkSlotID b)"
      using released assms(2) ok(1) by (auto simp: app_ok_cancel_booking store_ok_def cancel_booking_frees)
    show ?thesis
      using released(10) by (cases rule: claim_for_cancelled_InrE) (auto simp: w1 intro: app_ok_hand_over)
  qed
qed

lemma CancelBooking_app_ok:
  assumes "app_ok (db w)"
  shows "app_ok (db (snd (run_state (CancelBooking s u k) w)))"
  using CancelBooking_outcome assms
  by (rule tx_outcome_invariant)
    (auto intro: app_ok_seq CancelBooking_tx_app_ok assms simp: assms)

lemma served_but_cancel_booking:
  assumes "bookings_ok s" "find_row bkID i (bookings s) = Some b" "bk_active b" "queue_served s"
  shows "served_but {bkSlotID b} (cancel_booking i s)"
  using assms(4) cancel_booking_frees(2) [OF assms(1-3)]
  by (auto simp: queue_served_but served_but_def)

lemma CancelBooking_tx_served:
  assumes "run_state (CancelBooking_tx s u k) w = (Inr r, w')" "store_ok (db w)"
    "queue_served (db w)" "unlocked (env w)" "bsWaitlists s"
  shows "queue_served (db w')"
proof -
  have "distinct (map bkID (bookings (db w)))"
    using assms(2) by (auto simp: store_ok_defs)
  with assms(1) show ?thesis
  proof (cases rule: CancelBooking_tx_InrE)
    case (again b)
    with assms(3) show ?thesis by simp
  next
    case (released b out w1)
    have w1: "served_but (insert (bkSlotID b) {}) (db w1)"
      using released assms(2,3) by (simp add: served_but_cancel_booking store_ok_def)
    have "locked_at (env w1) n = (\<lambda>_. False)" for n
      using assms(4) released(9) by (auto simp: unlocked_def)
    with released(10) show ?thesis
      using w1 assms(5)
      by (cases rule: claim_for_cancelled_InrE)
        (auto simp: queue_served_but intro: served_but_hand_over served_but_none)
  qed
qed

lemma queue_served_seq [simp]: "queue_served (s\<lparr>position_seq := n\<rparr>) = queue_served s"
  by (simp add: queue_served_def)

lemma CancelBooking_served:
  assumes "store_ok (db w)" "queue_served (db w)" "unlocked (env w)" "bsWaitlists s"
  shows "queue_served (db (snd (run_state (CancelBooking s u k) w)))"
  using CancelBooking_outcome assms(2)
  by (rule tx_outcome_invariant) (auto intro: CancelBooking_tx_served simp: assms)

lemma CreateBooking_served:
  assumes "queue_served (db w)"
  shows "queue_served (db (snd (run_state (CreateBooking s u k link) w)))"
  using CreateBooking_outcome assms
  by (rule tx_outcome_invariant) (auto simp: assms queue_served_def elim!: CreateBooking_tx_InrE
      dest: assms [unfolded queue_served_def, rule_format])

lemma claim_for_cancelled_calm:
  assumes "calm (env w)" "store_ok (db w)" "\<not> slot_reserved (db w) k" "bsReservations s"
    "fresh_ids (env w) (rvID ` set (reservations (db w)))"
  shows "\<exists>out w'. run_state (claim_for_cancelled s k) w = (Inr out, w') \<and> env w' = env w"
proof (cases "next_waiting (locked_at (env w) (ticks w)) k (db w)")
  case None
  then have "run_state (WaitlistRepo_ClaimNextForNotify k) w = (Inr None, tick w)"
    using assms(1) by (simp add: Claim_Inr)
  then show ?thesis
    by (auto simp: claim_for_cancelled_def run_check)
next
  case (Some e)
  define t where "t = server_now (server_of w)"
  define w1 where "w1 = (tick w)\<lparr>db := notify_entry t (weID e) (db w)\<rparr>"
  have w1: "run_state (WaitlistRepo_ClaimNextForNotify k) w = (Inr (Some (we_notify t e)), w1)"
    using assms(1) Some by (simp add: Claim_Inr w1_def t_def)
  let ?r = "reservation_for (fresh_at (env w) (Suc (Suc (ticks w)))) k e
    (clock_at (env w) (Suc (ticks w))) (reservationTTLValue s)"
  have "reservation_insertable ?r (db w1)"
    using hand_over_insertable [OF assms(2) Some assms(3)] assms(5)
    by (simp add: w1_def fresh_ids_def)
  then have "run_state (ReservationRepo_Create ?r) (tick (tick w1)) =
      (Inr (stored_reservation ?r), (tick (tick (tick w1)))\<lparr>db := add_reservation ?r (db w1)\<rparr>)"
    using assms(1) by (simp add: ReservationRepo_Create_Inr w1_def)
  moreover have "env w1 = env w" "ticks w1 = Suc (ticks w)"
    by (simp_all add: w1_def)
  ultimately show ?thesis
    using assms(4) by (auto simp: claim_for_cancelled_def run_check w1)
qed

lemma CancelBooking_succeeds:
  assumes "calm (env w)" "app_ok (db w)" "bsReservations s" "usrRole u = RoleUser"
    "fresh_ids (env w) (rvID ` set (reservations (db w)))"
    "find_row bkID k (bookings (db w)) = Some b" "bkUserID b = usrID u"
  shows "\<exists>b' w'. run_state (CancelBooking s u k) w = (Inr b', w')"
proof -
  let ?w1 = "tick (tick w)"
  have ok: "store_ok (db w)" "distinct (map bkID (bookings (db w)))" "exclusive (db w)"
    using assms(2) by (auto simp: app_ok_def store_ok_defs)
  have "\<exists>upd w2. run_state (BookingRepo_SetCancelled k) ?w1 = (Inr upd, w2)"
    using find_active_booking [OF assms(6) ok(2)] assms(1)
    by (cases "bk_active b") (auto simp: BookingRepo_SetCancelled_active BookingRepo_SetCancelled_inactive)
  then obtain upd w2 where upd: "run_state (BookingRepo_SetCancelled k) ?w1 = (Inr upd, w2)"
    by blast
  have w2: "env w2 = env w" "if bk_active b then upd = Some (bk_cancel b) \<and> db w2 = cancel_booking k (db w)
      else upd = Some b \<and> db w2 = db w"
    using BookingRepo_SetCancelled_row [OF upd] assms(6) ok(2) by (simp_all split: if_splits)
  have slot: "run_state (SlotRepo_GetByID j) w2 = (Inr (find_row slID j (slots (db w2))), tick w2)" for j
    using assms(1) w2(1) by (simp add: SlotRepo_GetByID_Inr)
  have get: "run_state (BookingRepo_GetByID k) (tick w) = (Inr (Some b), ?w1)"
    using assms(1,6) by (simp add: BookingRepo_GetByID_Inr)
  have "\<exists>r w3. run_state (CancelBooking_tx s u k) (tick w) = (Inr r, w3) \<and> env w3 = env w"
  proof (cases "bk_active b")
    case False
    then show ?thesis
      using get upd w2 slot assms(7)
      by (auto simp: CancelBooking_tx_def run_check bk_active_def Let_def)
  next
    case True
    have b: "b \<in> set (bookings (db w))"
      using assms(6) find_row_SomeD by fastforce
    have "slot_booked (db w) (bkSlotID b)"
      using b True by (auto simp: slot_booked_def)
    then have free: "\<not> slot_reserved (db w2) (bkSlotID b)"
      using ok(3) True w2(2) by (auto simp: exclusive_def)
    have "\<exists>out w3. run_state (claim_for_cancelled s (bkSlotID b)) (tick w2) = (Inr out, w3) \<and>
        env w3 = env (tick w2)"
      by (rule claim_for_cancelled_calm)
        (use assms(1,3,5) ok(1) True w2 free store_ok_cancel_booking in auto)
    then show ?thesis
      using get upd w2 slot assms(7) True
      by (auto simp: CancelBooking_tx_def run_check bk_active_def Let_def same_error_def)
  qed
  then obtain r w3 where "run_state (CancelBooking_tx s u k) (tick w) = (Inr r, w3)" "env w3 = env w"
    by blast
  then have "run_state (WithinTransaction (CancelBooking_tx s u k)) w = (Inr r, tick w3)"
    using assms(1) by (simp add: WithinTransaction_calm)
  then show ?thesis
    using assms(4) by (auto simp: CancelBooking_def split: prod.splits)
qed

section \<open>What the listings return\<close>

definition bookings_page :: "(uuid \<Rightarrow> nat) \<Rightarrow> store \<Rightarrow> int \<Rightarrow> int \<Rightarrow> booking list" where
  "bookings_page tie st page pageSize =
     take (nat pageSize) (drop (nat (int64 ((page - 1) * pageSize))) (by_creation tie (bookings st)))"

lemma int64_small: "0 \<le> x \<Longrightarrow> x < 2 ^ 63 \<Longrightarrow> int64 x = x"
  by (simp add: int64_def)

lemma ListBookings_calm:
  assumes "calm (env w)" "usrRole u = RoleAdmin" "1 \<le> page" "1 \<le> pageSize" "pageSize \<le> 100"
    "0 \<le> int64 ((page - 1) * pageSize)"
  shows "run_state (ListBookings s u page pageSize) w =
    (Inr (bookings_page (tie_at (env w) (Suc (ticks w))) (db w) page pageSize, \<lparr>pgPage = page, pgPageSize = pageSize,
       pgTotal = int (length (bookings (db w)))\<rparr>), tick (tick w))"
  using assms
  by (simp add: ListBookings_def BookingRepo_List_def run_check run_db_call_calm select_def
      same_error_def sql_bookings_page_def bookings_page_def server_of_def)

lemma pages_partition:
  "concat (map (\<lambda>p. take n (drop (p * n) xs)) [0..<m]) = take (m * n) xs"
proof (induction m)
  case (Suc m)
  have "take (Suc m * n) xs = take (m * n) xs @ take n (drop (m * n) xs)"
    using take_add [of "m * n" n xs] by (simp add: add.commute)
  with Suc show ?case by simp
qed simp

lemma future_bookings_iff:
  "b \<in> set (future_bookings u now st) \<longleftrightarrow>
    b \<in> set (bookings st) \<and> bkUserID b = u \<and> bk_active b \<and>
    (\<exists>sl \<in> set (slots st). slID sl = bkSlotID b \<and> timestamptz now \<le> slStartTime sl)"
  by (force simp: future_bookings_def)

section \<open>Outcomes of the two commands\<close>

lemma CreateBooking_InrE:
  assumes "run_state (CreateBooking s u k link) w = (Inr b, w')"
  obtains roomID w1 w2 where "usrRole u = RoleUser" "db w1 = db w" "env w1 = env w"
    "run_state (CreateBooking_tx s u k (clock_at (env w) (ticks w))) w1 = (Inr (b, roomID), w2)"
    "db w' = db w2"
proof -
  have role: "usrRole u = RoleUser"
    using assms by (auto simp: CreateBooking_def split: if_splits prod.splits)
  obtain roomID w3 where tx: "run_state (WithinTransaction
        (CreateBooking_tx s u k (clock_at (env w) (ticks w)))) (tick w) = (Inr (b, roomID), w3)"
      "db w' = db w3"
    using assms role
    by (auto simp: CreateBooking_def split: prod.splits sum.splits dest!: effort)
  then obtain w2 where "run_state (CreateBooking_tx s u k (clock_at (env w) (ticks w)))
      (tick (tick w)) = (Inr (b, roomID), w2)" "db w3 = db w2"
    by (auto simp: WithinTransaction_Inr)
  then show thesis
    using that [of "tick (tick w)" roomID w2] role tx by simp
qed

definition cancel_refusal :: "user \<Rightarrow> uuid \<Rightarrow> store \<Rightarrow> error_code option" where
  "cancel_refusal u k st =
     (if usrRole u \<noteq> RoleUser then Some ErrorForbidden
      else case find_row bkID k (bookings st) of
        None \<Rightarrow> Some ErrorBookingNotFound
      | Some b \<Rightarrow> if bkUserID b \<noteq> usrID u then Some ErrorForbidden else None)"

lemma CancelBooking_refused:
  assumes "calm (env w)" "cancel_refusal u k (db w) = Some c"
  shows "\<exists>e w'. run_state (CancelBooking s u k) w = (Inl e, w') \<and> has_code e c \<and> db w' = db w"
proof (cases "usrRole u = RoleUser")
  case False
  then show ?thesis
    using assms
    by (auto simp: CancelBooking_def cancel_refusal_def split: prod.splits dest!: effort)
next
  case True
  have get: "run_state (BookingRepo_GetByID k) (tick w) =
      (Inr (find_row bkID k (bookings (db w))), tick (tick w))"
    using assms(1) by (simp add: BookingRepo_GetByID_Inr)
  obtain e where tx: "run_state (CancelBooking_tx s u k) (tick w) = (Inl e, tick (tick w))" "has_code e c"
    using get assms(2) True
    by (auto simp: cancel_refusal_def CancelBooking_tx_def run_check split: option.splits if_splits)
  then have "run_state (WithinTransaction (CancelBooking_tx s u k)) w =
      (Inl e, (tick (tick (tick w)))\<lparr>db := db w\<rparr>)"
    using WithinTransaction_calm_error [of w "CancelBooking_tx s u k" e "tick (tick w)"] assms(1)
    by simp
  then show ?thesis
    using True tx(2) by (auto simp: CancelBooking_def split: prod.splits dest!: effort)
qed

lemma bk_cancel_inactive: "\<not> bk_active b \<Longrightarrow> bk_cancel b = b"
  by (cases b; cases "bkStatus b") (simp_all add: bk_active_def bk_cancel_def)

lemma CancelBooking_result:
  assumes "run_state (CancelBooking s u k) w = (Inr b', w')" "distinct (map bkID (bookings (db w)))"
  shows "\<exists>b. usrRole u = RoleUser \<and> find_row bkID k (bookings (db w)) = Some b \<and>
    bkUserID b = usrID u \<and> b' = bk_cancel b"
proof -
  obtain r w1 w2 where "usrRole u = RoleUser" "db w1 = db w" "b' = crResult r"
    and tx: "run_state (CancelBooking_tx s u k) w1 = (Inr r, w2)"
    using CancelBooking_InrE [OF assms(1)] by metis
  moreover have "\<exists>b. find_row bkID k (bookings (db w)) = Some b \<and> bkUserID b = usrID u \<and>
      crResult r = bk_cancel b"
    using tx assms(2) [folded \<open>db w1 = db w\<close>]
  proof (cases rule: CancelBooking_tx_InrE)
    case (again b)
    then show ?thesis using \<open>db w1 = db w\<close> bk_cancel_inactive by auto
  next
    case (released b out w3)
    then show ?thesis using \<open>db w1 = db w\<close> by auto
  qed
  ultimately show ?thesis by blast
qed

lemma CancelBooking_effect:
  assumes "run_state (CancelBooking s u k) w = (Inr b', w')" "distinct (map bkID (bookings (db w)))"
    "find_row bkID k (bookings (db w)) = Some b"
  obtains (again) "\<not> bk_active b" "db w' = db w"
  | (nobody) n where "bk_active b" "db w' = cancel_booking k (db w)"
      "bsWaitlists s \<Longrightarrow> next_waiting (locked_at (env w) n) (bkSlotID b) (db w) = None"
  | (head) n e t i now where "bk_active b"
      "next_waiting (locked_at (env w) n) (bkSlotID b) (db w) = Some e"
      "db w' = hand_over t i (bkSlotID b) e now (reservationTTLValue s) (cancel_booking k (db w))"
proof -
  obtain r w1 w2 where w1: "db w1 = db w" "env w1 = env w" "db w' = db w2"
    and tx: "run_state (CancelBooking_tx s u k) w1 = (Inr r, w2)"
    using CancelBooking_InrE [OF assms(1)] by metis
  have d: "distinct (map bkID (bookings (db w1)))"
    using assms(2) w1 by simp
  from tx d show thesis
  proof (cases rule: CancelBooking_tx_InrE)
    case (again b0)
    then show ?thesis using that(1) w1 assms(3) by auto
  next
    case (released b0 out w3)
    then have b0: "b0 = b" using w1 assms(3) by simp
    from released(10) show ?thesis
    proof (cases rule: claim_for_cancelled_InrE)
      case nobody
      then show ?thesis using that(2) [of "ticks w3"] released w1 b0 by simp
    next
      case (head e t i now)
      then show ?thesis using that(3) [of "ticks w3" e t i now] released w1 b0 by simp
    qed
  qed
qed

end
