(* ===== verification/Reservation_Service.thy ===== *)
theory Reservation_Service
  imports Booking_Service
begin

text \<open>
  \<open>internal/usecase/reservation/service.go\<close>: confirming and cancelling a reservation, and the
  periodic expiry with its hand-over to the next user in the queue. The repository of the waitlist
  may be absent (a nil interface), the others are not tested for nil by the code.
\<close>

record reservation_service =
  rsWaitlists :: bool
  rsEvents :: publisher
  rsMetrics :: "metrics_sink option"
  rsTTL :: duration

definition defaultExpirationBatchLimit :: int where
  "defaultExpirationBatchLimit = 100"

definition reservation_NewService :: "bool \<Rightarrow> publisher option \<Rightarrow> duration \<Rightarrow> reservation_service" where
  "reservation_NewService waitlists events reservationTTL =
     \<lparr>rsWaitlists = waitlists,
      rsEvents = (case events of None \<Rightarrow> NoopPublisher | Some p \<Rightarrow> p),
      rsMetrics = Some NoopMetrics,
      rsTTL = (if reservationTTL \<le> 0 then defaultReservationTTL else reservationTTL)\<rparr>"

definition reservation_WithMetrics ::
  "metrics_sink option \<Rightarrow> reservation_service \<Rightarrow> reservation_service" where
  "reservation_WithMetrics metrics s =
     (case metrics of None \<Rightarrow> s | Some _ \<Rightarrow> s\<lparr>rsMetrics := metrics\<rparr>)"

definition reservationMetrics :: "reservation_service \<Rightarrow> metrics_sink" where
  "reservationMetrics s = (case rsMetrics s of None \<Rightarrow> NoopMetrics | Some m \<Rightarrow> m)"

definition reservation_TTLValue :: "reservation_service \<Rightarrow> duration" where
  "reservation_TTLValue s = (if rsTTL s > 0 then rsTTL s else defaultReservationTTL)"

definition ListMyActiveReservations ::
  "reservation_service \<Rightarrow> user \<Rightarrow> slot_reservation list result go" where
  "ListMyActiveReservations s u =
     (if usrRole u \<noteq> RoleUser
      then fail (NewDomainError ErrorForbidden
        ''list active reservations is allowed only for user role'')
      else do {
        now \<leftarrow> now_utc;
        check (wrapped ErrorInternalError ''list active reservations'')
          (ReservationRepo_ListActiveByUser (usrID u) now) ok
      })"

section \<open>ConfirmReservation\<close>

definition book_reserved ::
  "user \<Rightarrow> slot_reservation \<Rightarrow> time \<Rightarrow> uuid \<Rightarrow> (booking \<times> slot_reservation \<times> uuid) result go" where
  "book_reserved u existing now roomID = do {
     i \<leftarrow> uuid_New;
     check same_error (insert_booking (new_booking i u (rvSlotID existing) now)) (\<lambda>_.
       check (wrapped ErrorInternalError ''confirm reservation'')
         (ReservationRepo_SetConfirmed (rvID existing) now) (\<lambda>row.
           case row of
             None \<Rightarrow> fail (NewDomainError ErrorReservationNotFound ''reservation not found'')
           | Some confirmed \<Rightarrow>
               ok (new_booking i u (rvSlotID existing) now, confirmed, roomID)))
   }"

definition ConfirmReservation_tx ::
  "user \<Rightarrow> uuid \<Rightarrow> time \<Rightarrow> (booking \<times> slot_reservation \<times> uuid) result go" where
  "ConfirmReservation_tx u reservationID now =
     check (wrapped ErrorInternalError ''get reservation'')
       (ReservationRepo_GetByIDForUpdate reservationID) (\<lambda>row.
         case row of
           None \<Rightarrow> fail (NewDomainError ErrorReservationNotFound ''reservation not found'')
         | Some existing \<Rightarrow>
             if rvUserID existing \<noteq> usrID u
             then fail (NewDomainError ErrorForbidden ''cannot confirm another user's reservation'')
             else if rvStatus existing \<noteq> ReservationStatusActive
             then fail (NewDomainError ErrorInvalidRequest ''reservation is not active'')
             else if \<not> now < rvExpiresAt existing
             then fail (NewDomainError ErrorInvalidRequest ''reservation is expired'')
             else check (wrapped ErrorInternalError ''check active booking'')
               (BookingRepo_GetActiveBySlotForUpdate (rvSlotID existing)) (\<lambda>activeBooking.
                 if activeBooking \<noteq> None
                 then fail (NewDomainError ErrorSlotAlreadyBooked ''slot already booked'')
                 else check (wrapped ErrorInternalError ''get slot'')
                   (SlotRepo_GetByID (rvSlotID existing)) (\<lambda>row.
                     case row of
                       None \<Rightarrow> fail (NewDomainError ErrorSlotNotFound ''slot not found'')
                     | Some slot \<Rightarrow>
                         if slStartTime slot < now
                         then fail (NewDomainError ErrorInvalidRequest
                           ''cannot confirm reservation for past slot'')
                         else book_reserved u existing now (slRoomID slot))))"

definition ConfirmReservation ::
  "reservation_service \<Rightarrow> user \<Rightarrow> uuid \<Rightarrow> (booking \<times> slot_reservation) result go" where
  "ConfirmReservation s u reservationID =
     (if usrRole u \<noteq> RoleUser
      then fail (NewDomainError ErrorForbidden
        ''confirm reservation is allowed only for user role'')
      else do {
        now \<leftarrow> now_utc;
        check same_error (WithinTransaction (ConfirmReservation_tx u reservationID now))
          (\<lambda>(createdBooking, confirmed, roomID). do {
             inc_on (reservationMetrics s) ReservationConfirmed;
             (if roomID \<noteq> 0
              then publish (rsEvents s) (SlotBooked roomID (bkSlotID createdBooking) (bkID createdBooking))
              else State_Monad.return ());
             ok (createdBooking, confirmed)
           })
      })"

section \<open>CancelReservation\<close>

record reservation_cancel_result =
  rcCancelled :: slot_reservation
  rcChanged :: bool
  rcRoomID :: uuid
  rcNotifiedEntry :: "waitlist_entry option"
  rcNextReservation :: "slot_reservation option"

definition claim_next ::
  "string \<Rightarrow> reservation_service \<Rightarrow> uuid \<Rightarrow> time \<Rightarrow>
   (waitlist_entry option \<times> slot_reservation option) result go" where
  "claim_next message s slotID now =
     (if \<not> rsWaitlists s then ok (None, None)
      else check (wrapped ErrorInternalError ''claim next waitlist entry'')
        (WaitlistRepo_ClaimNextForNotify slotID) (\<lambda>row.
          case row of
            None \<Rightarrow> ok (None, None)
          | Some entry \<Rightarrow> do {
              i \<leftarrow> uuid_New;
              check (wrapped ErrorInternalError message)
                (ReservationRepo_Create
                  (reservation_for i slotID entry now (reservation_TTLValue s)))
                (\<lambda>created. ok (Some entry, Some created))
            }))"

definition cancel_existing ::
  "reservation_service \<Rightarrow> slot_reservation \<Rightarrow> time \<Rightarrow> uuid \<Rightarrow> reservation_cancel_result result go" where
  "cancel_existing s existing now roomID =
     (if rvStatus existing \<noteq> ReservationStatusActive
      then ok \<lparr>rcCancelled = existing, rcChanged = False, rcRoomID = roomID,
        rcNotifiedEntry = None, rcNextReservation = None\<rparr>
      else check (wrapped ErrorInternalError ''cancel reservation'')
        (ReservationRepo_SetCancelled (rvID existing)) (\<lambda>row.
          case row of
            None \<Rightarrow> fail (NewDomainError ErrorReservationNotFound ''reservation not found'')
          | Some updated \<Rightarrow>
              check same_error
                (claim_next ''create next reservation'' s (rvSlotID existing) now)
                (\<lambda>(entry, created). ok \<lparr>rcCancelled = updated, rcChanged = True,
                  rcRoomID = roomID, rcNotifiedEntry = entry,
                  rcNextReservation = created\<rparr>)))"

definition CancelReservation_tx ::
  "reservation_service \<Rightarrow> user \<Rightarrow> uuid \<Rightarrow> time \<Rightarrow> reservation_cancel_result result go" where
  "CancelReservation_tx s u reservationID now =
     check (wrapped ErrorInternalError ''get reservation'')
       (ReservationRepo_GetByIDForUpdate reservationID) (\<lambda>row.
         case row of
           None \<Rightarrow> fail (NewDomainError ErrorReservationNotFound ''reservation not found'')
         | Some existing \<Rightarrow>
             if rvUserID existing \<noteq> usrID u
             then fail (NewDomainError ErrorForbidden ''cannot cancel another user's reservation'')
             else check (wrapped ErrorInternalError ''get slot'')
               (SlotRepo_GetByID (rvSlotID existing)) (\<lambda>slot.
                 cancel_existing s existing now
                   (case slot of None \<Rightarrow> 0 | Some sl \<Rightarrow> slRoomID sl)))"

definition announce_reservation_cancel ::
  "reservation_service \<Rightarrow> reservation_cancel_result \<Rightarrow> unit go" where
  "announce_reservation_cancel s r = do {
     inc_on (reservationMetrics s) ReservationCancelled;
     (case (rcNextReservation r, rcNotifiedEntry r) of
        (Some next, Some entry) \<Rightarrow> do {
          inc WaitlistNotification;
          inc_on (reservationMetrics s) ReservationCreated;
          (if rcRoomID r \<noteq> 0
           then publish (rsEvents s)
             (SlotReserved (rcRoomID r) (rvSlotID (rcCancelled r)) (rvID next))
           else State_Monad.return ());
          publish (rsEvents s)
            (WaitlistSlotReserved (rcRoomID r) (rvSlotID (rcCancelled r)) (weUserID entry)
              (rvID next) (weID entry) (rvExpiresAt next))
        }
      | _ \<Rightarrow>
        (if rcRoomID r \<noteq> 0
         then publish (rsEvents s) (SlotAvailable (rcRoomID r) (rvSlotID (rcCancelled r)))
         else State_Monad.return ()))
   }"

definition CancelReservation ::
  "reservation_service \<Rightarrow> user \<Rightarrow> uuid \<Rightarrow> slot_reservation result go" where
  "CancelReservation s u reservationID =
     (if usrRole u \<noteq> RoleUser
      then fail (NewDomainError ErrorForbidden
        ''cancel reservation is allowed only for user role'')
      else do {
        now \<leftarrow> now_utc;
        check same_error (WithinTransaction (CancelReservation_tx s u reservationID now)) (\<lambda>r.
          if \<not> rcChanged r then ok (rcCancelled r)
          else do {
            announce_reservation_cancel s r;
            ok (rcCancelled r)
          })
      })"

section \<open>ExpireDue\<close>

text \<open>
  The variables of \<open>ExpireDue\<close>: the Go maps read as zero for an absent key.
\<close>

record replacement =
  rpRoomID :: uuid
  rpWaitlist :: waitlist_entry
  rpReservation :: slot_reservation

record expire_vars =
  xvSlotRooms :: "uuid \<Rightarrow> uuid"
  xvHasReplacement :: "uuid \<Rightarrow> bool"
  xvReplacements :: "replacement list"

definition note_room :: "slot_reservation \<Rightarrow> slot option \<Rightarrow> expire_vars \<Rightarrow> expire_vars" where
  "note_room item slot v =
     (case slot of
        None \<Rightarrow> v
      | Some sl \<Rightarrow> v\<lparr>xvSlotRooms := (xvSlotRooms v)(rvSlotID item := slRoomID sl)\<rparr>)"

definition note_replacement ::
  "slot_reservation \<Rightarrow> waitlist_entry option \<times> slot_reservation option \<Rightarrow> expire_vars \<Rightarrow> expire_vars" where
  "note_replacement item out v =
     (case out of
        (Some entry, Some created) \<Rightarrow>
          v\<lparr>xvReplacements := xvReplacements v @
              [\<lparr>rpRoomID = xvSlotRooms v (rvSlotID item), rpWaitlist = entry,
                rpReservation = created\<rparr>],
            xvHasReplacement := (xvHasReplacement v)(rvSlotID item := True)\<rparr>
      | _ \<Rightarrow> v)"

fun expire_loop ::
  "reservation_service \<Rightarrow> time \<Rightarrow> slot_reservation list \<Rightarrow> expire_vars \<Rightarrow> expire_vars result go" where
  "expire_loop s now [] v = ok v"
| "expire_loop s now (item # items) v =
     check (wrapped ErrorInternalError ''get slot'') (SlotRepo_GetByID (rvSlotID item)) (\<lambda>slot.
     check same_error
       (claim_next ''create reservation for next waitlist user'' s (rvSlotID item) now) (\<lambda>out.
     expire_loop s now items (note_replacement item out (note_room item slot v))))"

definition ExpireDue_tx ::
  "reservation_service \<Rightarrow> time \<Rightarrow> int \<Rightarrow> (slot_reservation list \<times> expire_vars) result go" where
  "ExpireDue_tx s now limit =
     check (wrapped ErrorInternalError ''expire reservations'')
       (ReservationRepo_ExpireBatch now limit) (\<lambda>expired.
         check same_error
           (expire_loop s now expired
             \<lparr>xvSlotRooms = (\<lambda>_. 0), xvHasReplacement = (\<lambda>_. False), xvReplacements = []\<rparr>)
           (\<lambda>v. ok (expired, v)))"

fun announce_expired :: "reservation_service \<Rightarrow> expire_vars \<Rightarrow> slot_reservation list \<Rightarrow> unit go" where
  "announce_expired s v [] = State_Monad.return ()"
| "announce_expired s v (item # items) = do {
     inc_on (reservationMetrics s) ReservationExpired;
     publish (rsEvents s)
       (ReservationExpiredCall (xvSlotRooms v (rvSlotID item)) (rvSlotID item) (rvUserID item) (rvID item));
     (if xvSlotRooms v (rvSlotID item) \<noteq> 0 then do {
        publish (rsEvents s)
          (SlotReservationExpired (xvSlotRooms v (rvSlotID item)) (rvSlotID item) (rvID item));
        (if \<not> xvHasReplacement v (rvSlotID item)
         then publish (rsEvents s) (SlotAvailable (xvSlotRooms v (rvSlotID item)) (rvSlotID item))
         else State_Monad.return ())
      } else State_Monad.return ());
     announce_expired s v items
   }"

fun announce_replacements :: "reservation_service \<Rightarrow> replacement list \<Rightarrow> unit go" where
  "announce_replacements s [] = State_Monad.return ()"
| "announce_replacements s (item # items) = do {
     inc WaitlistNotification;
     inc_on (reservationMetrics s) ReservationCreated;
     (if rpRoomID item \<noteq> 0
      then publish (rsEvents s)
        (SlotReserved (rpRoomID item) (rvSlotID (rpReservation item)) (rvID (rpReservation item)))
      else State_Monad.return ());
     publish (rsEvents s)
       (WaitlistSlotReserved (rpRoomID item) (rvSlotID (rpReservation item))
         (weUserID (rpWaitlist item)) (rvID (rpReservation item)) (weID (rpWaitlist item))
         (rvExpiresAt (rpReservation item)));
     announce_replacements s items
   }"

definition ExpireDue :: "reservation_service \<Rightarrow> int \<Rightarrow> unit result go" where
  "ExpireDue s limit0 = do {
     let limit = (if limit0 \<le> 0 then defaultExpirationBatchLimit else limit0);
     now \<leftarrow> now_utc;
     check same_error (WithinTransaction (ExpireDue_tx s now limit)) (\<lambda>(expired, v).
       if expired = [] then ok ()
       else do {
         announce_expired s v expired;
         announce_replacements s (xvReplacements v);
         ok ()
       })
   }"

section \<open>The hand-over\<close>

lemma claim_next_InrE:
  assumes "run_state (claim_next m s k now) w = (Inr out, w')"
  obtains (nobody) "out = (None, None)" "db w' = db w" "env w' = env w"
      "rsWaitlists s \<Longrightarrow> next_waiting (locked_at (env w) (ticks w)) k (db w) = None"
  | (head) e t i where "next_waiting (locked_at (env w) (ticks w)) k (db w) = Some e"
      "out = (Some (we_notify t e),
        Some (stored_reservation (reservation_for i k e now (reservation_TTLValue s))))"
      "reservation_insertable (reservation_for i k e now (reservation_TTLValue s))
        (notify_entry t (weID e) (db w))"
      "db w' = hand_over t i k e now (reservation_TTLValue s) (db w)"
      "env w' = env w" "rsWaitlists s"
proof (cases "rsWaitlists s")
  case False
  then show ?thesis
    using assms nobody by (auto simp: claim_next_def)
next
  case True
  then obtain row w1 where claim: "run_state (WaitlistRepo_ClaimNextForNotify k) w = (Inr row, w1)"
    and rest: "run_state (case row of
            None \<Rightarrow> ok (None, None)
          | Some entry \<Rightarrow> do {
              i \<leftarrow> uuid_New;
              check (wrapped ErrorInternalError m)
                (ReservationRepo_Create
                  (reservation_for i k entry now (reservation_TTLValue s)))
                (\<lambda>created. ok (Some entry, Some created))
            }) w1 = (Inr out, w')"
    using assms by (auto simp: claim_next_def elim!: check_InrE)
  show ?thesis
  proof (cases "next_waiting (locked_at (env w) (ticks w)) k (db w)")
    case None
    then show ?thesis
      using claim rest by (intro nobody) (auto simp: Claim_Inr)
  next
    case (Some e)
    then show ?thesis
      using claim rest True
      by (intro head) (auto simp: Claim_Inr ReservationRepo_Create_Inr hand_over_def
          elim!: check_InrE)
  qed
qed

lemma claim_next_app_ok:
  assumes "run_state (claim_next m s k now) w = (Inr out, w')" "app_ok (db w)" "\<not> slot_booked (db w) k"
  shows "app_ok (db w')"
  using assms(1) by (cases rule: claim_next_InrE) (auto simp: assms intro: app_ok_hand_over)

lemma claim_next_served:
  assumes "run_state (claim_next m s k now) w = (Inr out, w')" "served_but (insert k K) (db w)"
    "unlocked (env w)" "rsWaitlists s"
  shows "served_but K (db w')"
proof -
  have "locked_at (env w) n = (\<lambda>_. False)" for n
    using assms(3) by (auto simp: unlocked_def)
  with assms(2,4) show ?thesis
    using assms(1)
    by (elim claim_next_InrE) (auto intro: served_but_hand_over served_but_none)
qed

lemma claim_next_frame:
  assumes "run_state (claim_next m s k now) w = (Inr out, w')"
  shows "env w' = env w \<and> bookings (db w') = bookings (db w) \<and>
    (\<exists>new. reservations (db w') = reservations (db w) @ new \<and>
      (\<forall>r \<in> set new. rvSlotID r = k \<and> rv_active r))"
  using assms by (cases rule: claim_next_InrE) (auto simp: hand_over_def add_reservation_def)

lemma reservation_TTLValue_pos: "reservation_TTLValue s > 0"
  by (simp add: reservation_TTLValue_def defaultReservationTTL_def)

lemma claim_next_calm:
  assumes "calm (env w)" "store_ok (db w)" "\<not> slot_reserved (db w) k"
    "fresh_at (env w) (Suc (ticks w)) \<notin> rvID ` set (reservations (db w))"
  shows "\<exists>out w'. run_state (claim_next m s k now) w = (Inr out, w')"
proof (cases "next_waiting (locked_at (env w) (ticks w)) k (db w)")
  case None
  then have "run_state (WaitlistRepo_ClaimNextForNotify k) w = (Inr None, tick w)"
    using assms(1) by (simp add: Claim_Inr)
  then show ?thesis
    by (auto simp: claim_next_def run_check)
next
  case (Some e)
  define t where "t = server_now (server_of w)"
  define w1 where "w1 = (tick w)\<lparr>db := notify_entry t (weID e) (db w)\<rparr>"
  have w1: "run_state (WaitlistRepo_ClaimNextForNotify k) w = (Inr (Some (we_notify t e)), w1)"
    using assms(1) Some by (simp add: Claim_Inr w1_def t_def)
  let ?r = "reservation_for (fresh_at (env w) (Suc (ticks w))) k e now (reservation_TTLValue s)"
  have "reservation_insertable ?r (db w1)"
    using hand_over_insertable [OF assms(2) Some assms(3,4)] by (simp add: w1_def)
  then have "run_state (ReservationRepo_Create ?r) (tick w1) =
      (Inr (stored_reservation ?r), (tick (tick w1))\<lparr>db := add_reservation ?r (db w1)\<rparr>)"
    using assms(1) by (simp add: ReservationRepo_Create_Inr w1_def)
  moreover have "env w1 = env w" "ticks w1 = Suc (ticks w)"
    by (simp_all add: w1_def)
  ultimately show ?thesis
    by (auto simp: claim_next_def run_check w1)
qed

section \<open>What confirming does to the store\<close>

lemma ConfirmReservation_tx_InrE:
  assumes "run_state (ConfirmReservation_tx u k now) w = (Inr out, w')" "store_ok (db w)"
  obtains r slot i where "find_row rvID k (reservations (db w)) = Some r" "rvUserID r = usrID u"
    "rv_active r" "now < rvExpiresAt r" "\<not> slot_booked (db w) (rvSlotID r)"
    "find_row slID (rvSlotID r) (slots (db w)) = Some slot" "now \<le> slStartTime slot"
    "booking_insertable (new_booking i u (rvSlotID r) now) (db w)"
    "out = (new_booking i u (rvSlotID r) now, rv_confirm (timestamptz now) r, slRoomID slot)"
    "db w' = set_reservation (rv_confirm (timestamptz now)) k
      (add_booking (new_booking i u (rvSlotID r) now) (db w))"
proof -
  obtain r slot w1 where r: "find_row rvID k (reservations (db w)) = Some r" "rvUserID r = usrID u"
      "rv_active r" "now < rvExpiresAt r"
    and free: "active_booking (db w) (rvSlotID r) = None"
    and slot: "find_row slID (rvSlotID r) (slots (db w)) = Some slot" "now \<le> slStartTime slot"
    and book: "run_state (book_reserved u r now (slRoomID slot)) w1 = (Inr out, w')" "db w1 = db w"
    using assms(1)
    by (auto simp: ConfirmReservation_tx_def reservation_reads_Inr BookingRepo_GetActive_Inr
        SlotRepo_GetByID_Inr rv_active_def elim!: check_InrE split: option.splits if_splits)
  define i where "i = fresh_at (env w1) (ticks w1)"
  obtain w2 where ins: "run_state (insert_booking (new_booking i u (rvSlotID r) now)) (tick w1) =
        (Inr (), w2)"
    and tail: "run_state (check (wrapped ErrorInternalError ''confirm reservation'')
         (ReservationRepo_SetConfirmed (rvID r) now) (\<lambda>row.
           case row of
             None \<Rightarrow> fail (NewDomainError ErrorReservationNotFound ''reservation not found'')
           | Some confirmed \<Rightarrow>
               ok (new_booking i u (rvSlotID r) now, confirmed, slRoomID slot))) w2 = (Inr out, w')"
    using book(1) by (auto simp: book_reserved_def i_def elim: check_InrE)
  from ins have ins: "booking_insertable (new_booking i u (rvSlotID r) now) (db w)"
      "db w2 = add_booking (new_booking i u (rvSlotID r) now) (db w)"
    using book(2) by (auto simp: insert_booking_Inr)
  obtain upd w3 where upd: "run_state (ReservationRepo_SetConfirmed (rvID r) now) w2 = (Inr upd, w3)"
    and rest: "run_state (case upd of
             None \<Rightarrow> fail (NewDomainError ErrorReservationNotFound ''reservation not found'')
           | Some confirmed \<Rightarrow>
               ok (new_booking i u (rvSlotID r) now, confirmed, slRoomID slot)) w3 = (Inr out, w')"
    using check_InrE [OF tail] by blast
  have k: "rvID r = k"
    using find_row_SomeD [OF r(1)] by simp
  have "List.find (is_active_row k) (reservations (db w2)) = Some r"
    using find_active_row [OF r(1,3)] assms(2) ins(2) by (simp add: store_ok_defs)
  then have "upd = Some (rv_confirm (timestamptz now) r)"
      "db w3 = set_reservation (rv_confirm (timestamptz now)) k (db w2)"
    using upd k by (auto simp: reservation_set_Inr)
  then show thesis
    using that [OF r _ slot ins(1)] free rest ins(2) by (auto simp: active_booking_None)
qed

lemma confirmed_frees:
  assumes "reservations_ok s" "find_row rvID k (reservations s) = Some r" "rv_active r"
  shows "\<not> slot_reserved (set_reservation (rv_confirm t) k s) (rvSlotID r)"
    and "\<not> slot_reserved (set_reservation rv_cancel k s) (rvSlotID r)"
    and "j \<noteq> rvSlotID r \<Longrightarrow> slot_reserved (set_reservation (rv_confirm t) k s) j = slot_reserved s j"
    and "j \<noteq> rvSlotID r \<Longrightarrow> slot_reserved (set_reservation rv_cancel k s) j = slot_reserved s j"
proof -
  have r: "r \<in> set (reservations s)" "rvID r = k"
    using assms(2) find_row_SomeD by fastforce+
  have only: "x = r" if "x \<in> set (reservations s)" "rv_active x" "rvSlotID x = rvSlotID r" for x
    using that r assms by (auto simp: reservations_ok_def dest: index_okD)
  then show "\<not> slot_reserved (set_reservation (rv_confirm t) k s) (rvSlotID r)"
      "\<not> slot_reserved (set_reservation rv_cancel k s) (rvSlotID r)"
    using r by (auto simp: slot_reserved_confirm slot_reserved_cancel)
  have same: "x = r" if "x \<in> set (reservations s)" "rvID x = k" for x
    using that r assms(1) by (auto simp: reservations_ok_def distinct_map inj_on_def)
  show "slot_reserved (set_reservation (rv_confirm t) k s) j = slot_reserved s j"
      "slot_reserved (set_reservation rv_cancel k s) j = slot_reserved s j" if "j \<noteq> rvSlotID r"
    using that same
    by (auto simp: slot_reserved_confirm slot_reserved_cancel) (auto simp: slot_reserved_def)
qed

lemma app_ok_confirm:
  assumes "app_ok s" "find_row rvID k (reservations s) = Some r" "rv_active r"
    "booking_insertable b s" "bkSlotID b = rvSlotID r"
  shows "app_ok (set_reservation (rv_confirm t) k (add_booking b s))"
proof -
  have s: "store_ok s" "exclusive s" "claims_ok s"
    using assms(1) by (auto simp: app_ok_def)
  let ?s = "add_booking b s"
  have ok: "store_ok ?s"
    using s(1) assms(4) by (rule store_ok_add_booking)
  have r: "find_row rvID k (reservations ?s) = Some r" "reservations_ok ?s"
    using assms(2) ok by (simp_all add: store_ok_def)
  have "exclusive (set_reservation (rv_confirm t) k ?s)"
    unfolding exclusive_def
  proof
    fix j
    show "\<not> (slot_booked (set_reservation (rv_confirm t) k ?s) j \<and>
        slot_reserved (set_reservation (rv_confirm t) k ?s) j)"
      using confirmed_frees(1,3) [OF r(2,1) assms(3)] s(2) assms(5)
      by (cases "j = rvSlotID r") (auto simp: exclusive_def)
  qed
  then show ?thesis
    using s ok store_ok_set_reservation [OF ok, of "rv_confirm t" t]
    by (simp add: app_ok_def claims_ok_reservations)
qed

lemma served_confirm:
  assumes "queue_served s" "reservations_ok s" "find_row rvID k (reservations s) = Some r" "rv_active r"
    "bk_active b" "bkSlotID b = rvSlotID r"
  shows "queue_served (set_reservation (rv_confirm t) k (add_booking b s))"
proof -
  have r: "find_row rvID k (reservations (add_booking b s)) = Some r" "reservations_ok (add_booking b s)"
    using assms(2,3) by (simp_all add: reservations_ok_def)
  show ?thesis
    unfolding queue_served_def
  proof (intro allI impI)
    fix j
    assume "slot_awaited (set_reservation (rv_confirm t) k (add_booking b s)) j"
    then show "slot_booked (set_reservation (rv_confirm t) k (add_booking b s)) j \<or>
        slot_reserved (set_reservation (rv_confirm t) k (add_booking b s)) j"
      using confirmed_frees(3) [OF r(2,1) assms(4)] assms(1,5,6)
      by (cases "j = rvSlotID r") (auto simp: queue_served_def)
  qed
qed

lemma ConfirmReservation_outcome:
  "tx_outcome (ConfirmReservation_tx u k (clock_at (env w) (ticks w))) w
     (db (snd (run_state (ConfirmReservation s u k) w)))"
proof (cases "usrRole u = RoleUser")
  case False
  then show ?thesis
    by (simp add: ConfirmReservation_def tx_outcome_same)
next
  case True
  let ?fn = "ConfirmReservation_tx u k (clock_at (env w) (ticks w))"
  have "db (snd (run_state (ConfirmReservation s u k) w)) =
      db (snd (run_state (WithinTransaction ?fn) (tick w)))"
    using True
    by (auto simp: ConfirmReservation_def run_check dest!: effort split: prod.splits sum.splits)
  then show ?thesis
    by (simp add: tx_outcome_run)
qed

lemma ConfirmReservation_InrE:
  assumes "run_state (ConfirmReservation s u k) w = (Inr (b, r), w')"
  obtains roomID w1 w2 where "usrRole u = RoleUser" "db w1 = db w" "env w1 = env w"
    "run_state (ConfirmReservation_tx u k (clock_at (env w) (ticks w))) w1 = (Inr (b, r, roomID), w2)"
    "db w' = db w2"
proof -
  have role: "usrRole u = RoleUser"
    using assms by (auto simp: ConfirmReservation_def split: if_splits)
  let ?fn = "ConfirmReservation_tx u k (clock_at (env w) (ticks w))"
  obtain roomID w3 where tx: "run_state (WithinTransaction ?fn) (tick w) = (Inr (b, r, roomID), w3)"
      "db w' = db w3"
    using assms role
    by (auto simp: ConfirmReservation_def run_check dest!: effort split: prod.splits sum.splits if_splits)
  then obtain w2 where "run_state ?fn (tick (tick w)) = (Inr (b, r, roomID), w2)" "db w3 = db w2"
    by (auto simp: WithinTransaction_Inr)
  then show thesis
    using that [of "tick (tick w)" roomID w2] role tx by simp
qed

lemma ConfirmReservation_app_ok:
  assumes "app_ok (db w)"
  shows "app_ok (db (snd (run_state (ConfirmReservation s u k) w)))"
  using ConfirmReservation_outcome assms
proof (rule tx_outcome_invariant)
  fix w1 :: world and x w2
  assume w1: "db w1 = db w"
    and run: "run_state (ConfirmReservation_tx u k (clock_at (env w) (ticks w))) w1 = (Inr x, w2)"
  have "store_ok (db w1)"
    using assms w1 by (simp add: app_ok_def)
  with run show "app_ok (db w2)"
    by (rule ConfirmReservation_tx_InrE) (auto intro: app_ok_confirm simp: w1 assms)
qed (rule app_ok_seq [OF assms])

lemma ConfirmReservation_served:
  assumes "queue_served (db w)" "store_ok (db w)"
  shows "queue_served (db (snd (run_state (ConfirmReservation s u k) w)))"
  using ConfirmReservation_outcome assms(1)
proof (rule tx_outcome_invariant)
  fix w1 :: world and x w2
  assume w1: "db w1 = db w"
    and run: "run_state (ConfirmReservation_tx u k (clock_at (env w) (ticks w))) w1 = (Inr x, w2)"
  have ok: "store_ok (db w1)" "reservations_ok (db w)"
    using assms w1 by (simp_all add: store_ok_def)
  from run ok(1) show "queue_served (db w2)"
    by (rule ConfirmReservation_tx_InrE) (auto intro: served_confirm simp: w1 assms ok)
qed (simp add: assms)

section \<open>What cancelling does to the store\<close>

lemma CancelReservation_tx_InrE:
  assumes "run_state (CancelReservation_tx s u k now) w = (Inr out, w')" "store_ok (db w)"
  obtains (again) r where "find_row rvID k (reservations (db w)) = Some r" "rvUserID r = usrID u"
      "\<not> rv_active r" "rcCancelled out = r" "\<not> rcChanged out" "db w' = db w"
  | (freed) r got w1 where "find_row rvID k (reservations (db w)) = Some r" "rvUserID r = usrID u"
      "rv_active r" "rcCancelled out = rv_cancel r" "rcChanged out"
      "rcNotifiedEntry out = fst got" "rcNextReservation out = snd got"
      "db w1 = set_reservation rv_cancel k (db w)" "env w1 = env w"
      "run_state (claim_next ''create next reservation'' s (rvSlotID r) now) w1 = (Inr got, w')"
proof -
  obtain r w1 roomID where r: "find_row rvID k (reservations (db w)) = Some r" "rvUserID r = usrID u"
    and w1: "db w1 = db w" "env w1 = env w"
    and rest: "run_state (cancel_existing s r now roomID) w1 = (Inr out, w')"
    using assms(1)
    by (auto simp: CancelReservation_tx_def reservation_reads_Inr SlotRepo_GetByID_Inr
        elim!: check_InrE split: option.splits if_splits) (metis tick_simps(1,4))+
  show thesis
  proof (cases "rv_active r")
    case False
    then show ?thesis
      using rest r w1 by (intro again) (auto simp: rv_active_def cancel_existing_def)
  next
    case True
    obtain upd w2 where upd: "run_state (ReservationRepo_SetCancelled (rvID r)) w1 = (Inr upd, w2)"
      and tail: "run_state (case upd of
                 None \<Rightarrow> fail (NewDomainError ErrorReservationNotFound ''reservation not found'')
               | Some updated \<Rightarrow>
                   check same_error
                     (claim_next ''create next reservation'' s (rvSlotID r) now)
                     (\<lambda>(entry, created). ok \<lparr>rcCancelled = updated, rcChanged = True,
                       rcRoomID = roomID, rcNotifiedEntry = entry,
                       rcNextReservation = created\<rparr>)) w2 = (Inr out, w')"
      using rest True by (auto simp: rv_active_def cancel_existing_def elim: check_InrE)
    have k: "rvID r = k"
      using find_row_SomeD [OF r(1)] by simp
    have "List.find (is_active_row k) (reservations (db w1)) = Some r"
      using find_active_row [OF r(1) True] assms(2) w1 by (simp add: store_ok_defs)
    then have "upd = Some (rv_cancel r)" "db w2 = set_reservation rv_cancel k (db w)" "env w2 = env w"
      using upd k w1 by (auto simp: reservation_set_Inr)
    then show ?thesis
      using tail r True by (auto elim!: check_InrE intro!: freed [of r _ w2])
  qed
qed

lemma CancelReservation_outcome:
  "tx_outcome (CancelReservation_tx s u k (clock_at (env w) (ticks w))) w
     (db (snd (run_state (CancelReservation s u k) w)))"
proof (cases "usrRole u = RoleUser")
  case False
  then show ?thesis
    by (simp add: CancelReservation_def tx_outcome_same)
next
  case True
  let ?fn = "CancelReservation_tx s u k (clock_at (env w) (ticks w))"
  have announce: "run_state (announce_reservation_cancel s r) w1 = (x, w2) \<Longrightarrow> db w2 = db w1" for r w1 x w2
    by (auto simp: announce_reservation_cancel_def dest!: effort split: if_splits option.splits prod.splits)
  have "db (snd (run_state (CancelReservation s u k) w)) =
      db (snd (run_state (WithinTransaction ?fn) (tick w)))"
    using True
    by (auto simp: CancelReservation_def run_check dest!: announce split: prod.splits sum.splits)
  then show ?thesis
    by (simp add: tx_outcome_run)
qed

lemma CancelReservation_tx_app_ok:
  assumes "run_state (CancelReservation_tx s u k now) w = (Inr out, w')" "app_ok (db w)"
  shows "app_ok (db w')"
proof -
  have ok: "store_ok (db w)" "exclusive (db w)"
    using assms(2) by (auto simp: app_ok_def)
  show ?thesis
    using assms(1) ok(1)
  proof (cases rule: CancelReservation_tx_InrE)
    case (again r)
    with assms(2) show ?thesis by simp
  next
    case (freed r got w1)
    have "r \<in> set (reservations (db w))"
      using freed find_row_SomeD by fastforce
    then have "\<not> slot_booked (db w) (rvSlotID r)"
      using freed(3) ok(2) by (auto simp: exclusive_def slot_reserved_def)
    then show ?thesis
      using claim_next_app_ok [OF freed(10)] freed assms(2) by (simp add: app_ok_cancel_reservation)
  qed
qed

lemma CancelReservation_app_ok:
  assumes "app_ok (db w)"
  shows "app_ok (db (snd (run_state (CancelReservation s u k) w)))"
  using CancelReservation_outcome assms
  by (rule tx_outcome_invariant)
    (auto intro: app_ok_seq CancelReservation_tx_app_ok assms simp: assms)

lemma CancelReservation_tx_served:
  assumes "run_state (CancelReservation_tx s u k now) w = (Inr out, w')" "store_ok (db w)"
    "queue_served (db w)" "unlocked (env w)" "rsWaitlists s"
  shows "queue_served (db w')"
  using assms(1,2)
proof (cases rule: CancelReservation_tx_InrE)
  case (again r)
  with assms(3) show ?thesis by simp
next
  case (freed r got w1)
  have "served_but (insert (rvSlotID r) {}) (db w1)"
    using assms(2,3) confirmed_frees(4) [OF _ freed(1,3)] freed(8)
    by (auto simp: queue_served_but served_but_def store_ok_def)
  then show ?thesis
    using claim_next_served [OF freed(10)] assms(4,5) freed(9) by (simp add: queue_served_but)
qed

lemma CancelReservation_served:
  assumes "store_ok (db w)" "queue_served (db w)" "unlocked (env w)" "rsWaitlists s"
  shows "queue_served (db (snd (run_state (CancelReservation s u k) w)))"
  using CancelReservation_outcome assms(2)
  by (rule tx_outcome_invariant) (auto intro: CancelReservation_tx_served simp: assms)

section \<open>What the expiry does to the store\<close>

lemma expire_loop_ConsE:
  assumes "run_state (expire_loop s now (item # items) v) w = (Inr v', w')"
  obtains out v1 w1 w2 where "db w1 = db w" "env w1 = env w"
    "run_state (claim_next ''create reservation for next waitlist user'' s (rvSlotID item) now) w1 =
      (Inr out, w2)"
    "run_state (expire_loop s now items v1) w2 = (Inr v', w')"
  using assms by (auto simp: SlotRepo_GetByID_Inr elim!: check_InrE) (metis tick_simps(1,4))

lemma expire_loop_keeps:
  assumes "run_state (expire_loop s now items v) w = (Inr v', w')"
  shows "env w' = env w \<and> bookings (db w') = bookings (db w) \<and>
    (\<exists>new. reservations (db w') = reservations (db w) @ new \<and>
      (\<forall>r \<in> set new. rvSlotID r \<in> rvSlotID ` set items \<and> rv_active r))"
  using assms
proof (induction items arbitrary: v w)
  case (Cons item items)
  from Cons.prems obtain out v1 w1 w2 where w1: "db w1 = db w" "env w1 = env w"
    and claim: "run_state (claim_next ''create reservation for next waitlist user'' s
      (rvSlotID item) now) w1 = (Inr out, w2)"
    and rest: "run_state (expire_loop s now items v1) w2 = (Inr v', w')"
    by (rule expire_loop_ConsE)
  obtain new where new: "reservations (db w2) = reservations (db w) @ new"
      "\<forall>r \<in> set new. rvSlotID r = rvSlotID item \<and> rv_active r" "env w2 = env w"
      "bookings (db w2) = bookings (db w)"
    using claim_next_frame [OF claim] w1 by auto
  obtain new' where "reservations (db w') = reservations (db w2) @ new'"
      "\<forall>r \<in> set new'. rvSlotID r \<in> rvSlotID ` set items \<and> rv_active r" "env w' = env w2"
      "bookings (db w') = bookings (db w2)"
    using Cons.IH [OF rest] by auto
  with new show ?case
    by (intro conjI exI [of _ "new @ new'"]) auto
qed auto

lemma expire_loop_app_ok:
  assumes "run_state (expire_loop s now items v) w = (Inr v', w')" "app_ok (db w)"
    "\<forall>item \<in> set items. \<not> slot_booked (db w) (rvSlotID item)"
  shows "app_ok (db w')"
  using assms
proof (induction items arbitrary: v w)
  case (Cons item items)
  from Cons.prems(1) obtain out v1 w1 w2 where w1: "db w1 = db w"
    and claim: "run_state (claim_next ''create reservation for next waitlist user'' s
      (rvSlotID item) now) w1 = (Inr out, w2)"
    and rest: "run_state (expire_loop s now items v1) w2 = (Inr v', w')"
    by (rule expire_loop_ConsE)
  have "app_ok (db w2)"
    using claim_next_app_ok [OF claim] Cons.prems(2,3) w1 by simp
  moreover have "slot_booked (db w2) k = slot_booked (db w) k" for k
    using claim_next_frame [OF claim] w1 by (simp add: slot_booked_def)
  ultimately show ?case
    using Cons.IH [OF rest] Cons.prems(3) by simp
qed simp

lemma expire_loop_served:
  assumes "run_state (expire_loop s now items v) w = (Inr v', w')"
    "served_but (rvSlotID ` set items) (db w)" "unlocked (env w)" "rsWaitlists s"
  shows "queue_served (db w')"
  using assms
proof (induction items arbitrary: v w)
  case (Cons item items)
  from Cons.prems(1) obtain out v1 w1 w2 where w1: "db w1 = db w" "env w1 = env w"
    and claim: "run_state (claim_next ''create reservation for next waitlist user'' s
      (rvSlotID item) now) w1 = (Inr out, w2)"
    and rest: "run_state (expire_loop s now items v1) w2 = (Inr v', w')"
    by (rule expire_loop_ConsE)
  have "served_but (rvSlotID ` set items) (db w2)"
    using claim_next_served [OF claim] Cons.prems(2-4) w1 by simp
  moreover have "env w2 = env w"
    using claim_next_frame [OF claim] w1 by simp
  ultimately show ?case
    using Cons.IH [OF rest] Cons.prems(3,4) by simp
qed (simp add: queue_served_but)

text \<open>The identifiers a run picks.\<close>

definition expired_ids :: "world \<Rightarrow> time \<Rightarrow> int \<Rightarrow> uuid set" where
  "expired_ids w now limit =
     set (picked (locked_at (env w) (ticks w)) (tie_at (env w) (ticks w)) (timestamptz now) limit (reservations (db w)))"

lemma ExpireDue_tx_InrE:
  assumes "run_state (ExpireDue_tx s now limit) w = (Inr (expired, v), w')"
  obtains w1 v0 where "expired = map (rv_expire (timestamptz now))
      (filter (\<lambda>r. rvID r \<in> expired_ids w now limit) (reservations (db w)))"
    "db w1 = expire_rows (expired_ids w now limit) (timestamptz now) (db w)" "env w1 = env w"
    "run_state (expire_loop s now expired v0) w1 = (Inr v, w')"
proof -
  from assms obtain w1 v0 where
    batch: "run_state (ReservationRepo_ExpireBatch now limit) w = (Inr expired, w1)"
    and loop: "run_state (expire_loop s now expired v0) w1 = (Inr v, w')"
    by (auto simp: ExpireDue_tx_def elim!: check_InrE)
  show thesis
    using that [OF _ _ _ loop] batch
    by (simp add: ReservationRepo_ExpireBatch_Inr expired_ids_def Let_def)
qed

lemma expired_ids_due:
  assumes "store_ok (db w)" "r \<in> set (reservations (db w))" "rvID r \<in> expired_ids w now limit"
  shows "rv_active r \<and> rvExpiresAt r \<le> timestamptz now"
proof -
  from assms(3) obtain r' where "r' \<in> set (reservations (db w))" "rvID r' = rvID r"
      "due (locked_at (env w) (ticks w)) (timestamptz now) r'"
    unfolding expired_ids_def by (rule picked_due)
  moreover then have "r' = r"
    using assms(1,2) by (auto simp: store_ok_defs distinct_map inj_on_def)
  ultimately show ?thesis
    by (simp add: due_def)
qed

lemma expire_rows_slots:
  assumes "reservations_ok s"
    and "\<And>r. r \<in> set (reservations s) \<Longrightarrow> rvID r \<in> ids \<Longrightarrow> rv_active r"
    and "k \<notin> rvSlotID ` {r \<in> set (reservations s). rvID r \<in> ids}"
  shows "slot_reserved (expire_rows ids t s) k = slot_reserved s k"
  using assms(3) by (auto simp: slot_reserved_expire) (auto simp: slot_reserved_def)

lemma ExpireDue_tx_app_ok:
  assumes "run_state (ExpireDue_tx s now limit) w = (Inr out, w')" "app_ok (db w)"
  shows "app_ok (db w')"
proof -
  obtain expired v where out: "out = (expired, v)" by (cases out)
  have s: "store_ok (db w)" "exclusive (db w)"
    using assms(2) by (auto simp: app_ok_def)
  from assms(1) [unfolded out] show ?thesis
  proof (rule ExpireDue_tx_InrE)
    fix w1 v0
    assume expired: "expired = map (rv_expire (timestamptz now))
        (filter (\<lambda>r. rvID r \<in> expired_ids w now limit) (reservations (db w)))"
      and w1: "db w1 = expire_rows (expired_ids w now limit) (timestamptz now) (db w)"
      and loop: "run_state (expire_loop s now expired v0) w1 = (Inr v, w')"
    have "\<forall>item \<in> set expired. \<not> slot_booked (db w) (rvSlotID item)"
      using s(2) expired_ids_due [OF s(1)]
      by (fastforce simp: expired exclusive_def slot_reserved_def)
    then show "app_ok (db w')"
      using expire_loop_app_ok [OF loop] assms(2) by (simp add: w1 app_ok_expire_rows)
  qed
qed

lemma ExpireDue_tx_served:
  assumes "run_state (ExpireDue_tx s now limit) w = (Inr out, w')" "queue_served (db w)"
    "unlocked (env w)" "rsWaitlists s" "store_ok (db w)"
  shows "queue_served (db w')"
proof -
  obtain expired v where out: "out = (expired, v)" by (cases out)
  from assms(1) [unfolded out] show ?thesis
  proof (rule ExpireDue_tx_InrE)
    fix w1 v0
    assume expired: "expired = map (rv_expire (timestamptz now))
        (filter (\<lambda>r. rvID r \<in> expired_ids w now limit) (reservations (db w)))"
      and w1: "db w1 = expire_rows (expired_ids w now limit) (timestamptz now) (db w)" "env w1 = env w"
      and loop: "run_state (expire_loop s now expired v0) w1 = (Inr v, w')"
    have slots: "rvSlotID ` set expired =
        rvSlotID ` {r \<in> set (reservations (db w)). rvID r \<in> expired_ids w now limit}"
      by (simp add: expired image_image)
    have "slot_reserved (db w1) k = slot_reserved (db w) k" if "k \<notin> rvSlotID ` set expired" for k
      unfolding w1 by (rule expire_rows_slots)
        (use that expired_ids_due [OF assms(5)] assms(5) in \<open>auto simp: slots store_ok_def\<close>)
    then have "served_but (rvSlotID ` set expired) (db w1)"
      using assms(2) by (auto simp: served_but_def queue_served_def w1)
    then show "queue_served (db w')"
      using expire_loop_served [OF loop] assms(3,4) w1 by simp
  qed
qed

lemma announce_expired_runD:
  "run_state (announce_expired s v items) w = (x, w') \<Longrightarrow> db w' = db w"
  by (induction items arbitrary: w)
    (auto split: if_splits prod.splits dest!: effort)

lemma announce_replacements_runD:
  "run_state (announce_replacements s items) w = (x, w') \<Longrightarrow> db w' = db w"
  by (induction items arbitrary: w)
    (auto split: if_splits prod.splits dest!: effort)

definition batch_limit :: "int \<Rightarrow> int" where
  "batch_limit limit = (if limit \<le> 0 then defaultExpirationBatchLimit else limit)"

lemma ExpireDue_db:
  "db (snd (run_state (ExpireDue s limit) w)) =
    db (snd (run_state (WithinTransaction
      (ExpireDue_tx s (clock_at (env w) (ticks w)) (batch_limit limit))) (tick w)))"
  by (auto simp: ExpireDue_def batch_limit_def Let_def run_check
      dest!: announce_expired_runD announce_replacements_runD split: prod.splits sum.splits)

lemma ExpireDue_outcome:
  "tx_outcome (ExpireDue_tx s (clock_at (env w) (ticks w)) (batch_limit limit)) w
     (db (snd (run_state (ExpireDue s limit) w)))"
  unfolding ExpireDue_db by (simp add: tx_outcome_run)

lemma ExpireDue_app_ok:
  assumes "app_ok (db w)"
  shows "app_ok (db (snd (run_state (ExpireDue s limit) w)))"
  using ExpireDue_outcome assms
  by (rule tx_outcome_invariant) (auto intro: app_ok_seq ExpireDue_tx_app_ok assms simp: assms)

lemma ExpireDue_served:
  assumes "queue_served (db w)" "unlocked (env w)" "rsWaitlists s" "store_ok (db w)"
  shows "queue_served (db (snd (run_state (ExpireDue s limit) w)))"
  using ExpireDue_outcome assms(1)
  by (rule tx_outcome_invariant) (auto intro: ExpireDue_tx_served simp: assms)

lemma ExpireDue_InrE:
  assumes "run_state (ExpireDue s limit) w = (Inr u, w')"
  obtains expired v w1 w2 where "db w1 = db w" "env w1 = env w" "db w' = db w2"
    "run_state (ExpireDue_tx s (clock_at (env w) (ticks w)) (batch_limit limit)) w1 =
      (Inr (expired, v), w2)"
proof -
  let ?fn = "ExpireDue_tx s (clock_at (env w) (ticks w)) (batch_limit limit)"
  obtain expired v w3 where tx: "run_state (WithinTransaction ?fn) (tick w) = (Inr (expired, v), w3)"
    using assms
    by (auto simp: ExpireDue_def batch_limit_def Let_def run_check split: prod.splits sum.splits if_splits)
  then obtain w2 where "run_state ?fn (tick (tick w)) = (Inr (expired, v), w2)" "db w3 = db w2"
    by (auto simp: WithinTransaction_Inr)
  moreover have "db w' = db w3"
    using ExpireDue_db [of s limit w] assms tx by simp
  ultimately show thesis
    using that [of "tick (tick w)" w2] by simp
qed

section \<open>Decisions over a database that answers\<close>

lemma calm_reads:
  assumes "calm (env w)"
  shows "run_state (ReservationRepo_GetByIDForUpdate k) w =
      (Inr (find_row rvID k (reservations (db w))), tick w)"
    and "run_state (BookingRepo_GetActiveBySlotForUpdate k) w = (Inr (active_booking (db w) k), tick w)"
    and "run_state (SlotRepo_GetByID k) w = (Inr (find_row slID k (slots (db w))), tick w)"
    and "run_state (BookingRepo_GetByID k) w = (Inr (find_row bkID k (bookings (db w))), tick w)"
  using assms by (simp_all add: reservation_reads_Inr BookingRepo_GetActive_Inr SlotRepo_GetByID_Inr
      BookingRepo_GetByID_Inr)

definition confirm_refusal :: "user \<Rightarrow> uuid \<Rightarrow> time \<Rightarrow> store \<Rightarrow> error_code option" where
  "confirm_refusal u k now st =
     (if usrRole u \<noteq> RoleUser then Some ErrorForbidden
      else case find_row rvID k (reservations st) of
        None \<Rightarrow> Some ErrorReservationNotFound
      | Some r \<Rightarrow>
          if rvUserID r \<noteq> usrID u then Some ErrorForbidden
          else if \<not> rv_active r \<or> rvExpiresAt r \<le> now then Some ErrorInvalidRequest
          else if slot_booked st (rvSlotID r) then Some ErrorSlotAlreadyBooked
          else (case find_row slID (rvSlotID r) (slots st) of
              None \<Rightarrow> Some ErrorSlotNotFound
            | Some slot \<Rightarrow> if slStartTime slot < now then Some ErrorInvalidRequest else None))"

lemma active_booking_neq: "active_booking s k \<noteq> None \<longleftrightarrow> slot_booked s k"
  using active_booking_None [of s k] by simp

lemma ConfirmReservation_tx_refused:
  assumes "calm (env w)" "usrRole u = RoleUser" "confirm_refusal u k now (db w) = Some c"
  shows "\<exists>e w'. run_state (ConfirmReservation_tx u k now) w = (Inl e, w') \<and> has_code e c \<and>
    db w' = db w \<and> env w' = env w"
  using assms
  by (auto simp: ConfirmReservation_tx_def confirm_refusal_def run_check calm_reads rv_active_def
      active_booking_neq [symmetric] split: option.splits if_splits)

lemma ConfirmReservation_tx_accepted:
  assumes "calm (env w)" "confirm_refusal u k now (db w) = None" "usrID u \<in> usrID ` set (users (db w))"
    "fresh_ids (env w) (bkID ` set (bookings (db w)))" "store_ok (db w)"
  shows "\<exists>out w'. run_state (ConfirmReservation_tx u k now) w = (Inr out, w') \<and> env w' = env w"
proof -
  obtain r slot where r: "find_row rvID k (reservations (db w)) = Some r" "rvUserID r = usrID u"
      "rv_active r" "\<not> rvExpiresAt r \<le> now" "\<not> slot_booked (db w) (rvSlotID r)"
    and slot: "find_row slID (rvSlotID r) (slots (db w)) = Some slot" "\<not> slStartTime slot < now"
    using assms(2) by (auto simp: confirm_refusal_def split: option.splits if_splits)
  let ?w3 = "tick (tick (tick w))"
  let ?b = "new_booking (fresh_at (env w) (ticks ?w3)) u (rvSlotID r) now"
  have b: "booking_insertable ?b (db w)"
    using r(5) assms(3,4) find_row_SomeD [OF slot(1)]
    by (auto simp: booking_insertable_def index_hit_def fresh_ids_def slot_booked_def
        intro: rev_image_eqI)
  have "run_state (insert_booking ?b) (tick ?w3) =
      (Inr (), (tick (tick ?w3))\<lparr>db := add_booking ?b (db w)\<rparr>)"
    using insert_booking_calm(2) [of "tick ?w3" ?b] b assms(1) by simp
  moreover have "rvID r = k"
    using find_row_SomeD [OF r(1)] by simp
  moreover have "List.find (is_active_row k) (reservations (db w)) = Some r"
    using find_active_row [OF r(1,3)] assms(5) by (simp add: store_ok_defs)
  ultimately have "\<exists>out w'. run_state (book_reserved u r now (slRoomID slot)) ?w3 = (Inr out, w') \<and>
      env w' = env w"
    using assms(1)
    by (auto simp: book_reserved_def run_check same_error_def ReservationRepo_SetConfirmed_def
        run_db_call_calm sql_reservation_set_def)
  then show ?thesis
    using r slot assms(1)
    by (auto simp: ConfirmReservation_tx_def run_check calm_reads rv_active_def
        active_booking_None [THEN iffD2])
qed

lemma ConfirmReservation_refused:
  assumes "calm (env w)" "confirm_refusal u k (clock_at (env w) (ticks w)) (db w) = Some c"
  shows "\<exists>e w'. run_state (ConfirmReservation s u k) w = (Inl e, w') \<and> has_code e c \<and> db w' = db w"
proof (cases "usrRole u = RoleUser")
  case False
  then show ?thesis
    using assms(2) by (simp add: ConfirmReservation_def confirm_refusal_def)
next
  case True
  let ?now = "clock_at (env w) (ticks w)"
  obtain e w2 where tx: "run_state (ConfirmReservation_tx u k ?now) (tick (tick w)) = (Inl e, w2)"
      "has_code e c" "db w2 = db w" "env w2 = env w"
    using ConfirmReservation_tx_refused [of "tick (tick w)" u k ?now c] assms True by auto
  have "run_state (WithinTransaction (ConfirmReservation_tx u k ?now)) (tick w) =
      (Inl e, (tick w2)\<lparr>db := db w\<rparr>)"
    using WithinTransaction_calm_error [of "tick w" "ConfirmReservation_tx u k ?now" e w2] tx assms(1)
    by simp
  then show ?thesis
    using True tx(2) by (auto simp: ConfirmReservation_def run_check same_error_def)
qed

lemma ConfirmReservation_accepted:
  assumes "calm (env w)" "confirm_refusal u k (clock_at (env w) (ticks w)) (db w) = None"
    "usrID u \<in> usrID ` set (users (db w))" "fresh_ids (env w) (bkID ` set (bookings (db w)))"
    "store_ok (db w)"
  shows "\<exists>b r w'. run_state (ConfirmReservation s u k) w = (Inr (b, r), w')"
proof -
  let ?now = "clock_at (env w) (ticks w)"
  have role: "usrRole u = RoleUser"
    using assms(2) by (simp add: confirm_refusal_def split: if_splits)
  obtain b r roomID w2 where tx: "run_state (ConfirmReservation_tx u k ?now) (tick (tick w)) =
        (Inr (b, r, roomID), w2)" "env w2 = env w"
    using ConfirmReservation_tx_accepted [of "tick (tick w)" u k ?now] assms by auto
  have "run_state (WithinTransaction (ConfirmReservation_tx u k ?now)) (tick w) =
      (Inr (b, r, roomID), tick w2)"
    using WithinTransaction_calm [of "tick w" "ConfirmReservation_tx u k ?now" _ w2] tx assms(1) by simp
  then show ?thesis
    using role by (auto simp: ConfirmReservation_def run_check split: prod.splits)
qed

end
