(* ===== verification/Waitlist_Service.thy ===== *)
theory Waitlist_Service
  imports Booking_Service
begin

text \<open>
  \<open>internal/usecase/waitlist/service.go\<close>: joining the queue of a booked slot and leaving it. The
  service has no configuration; its metrics go to the global counters.
\<close>

definition join_entry :: "user \<Rightarrow> uuid \<Rightarrow> waitlist_entry result go" where
  "join_entry u slotID = do {
     i \<leftarrow> uuid_New;
     now \<leftarrow> now_utc;
     r \<leftarrow> WaitlistRepo_Join \<lparr>weID = i, weSlotID = slotID, weUserID = usrID u,
       weStatus = WaitlistStatusActive, wePosition = 0, weCreatedAt = now, weNotifiedAt = None\<rparr>;
     (case r of
        Inl err \<Rightarrow> if has_code err ErrorWaitlistJoined then fail err
          else fail (wrapped ErrorInternalError ''join waitlist'' err)
      | Inr created \<Rightarrow> ok created)
   }"

definition JoinWaitlist_tx :: "user \<Rightarrow> uuid \<Rightarrow> waitlist_entry result go" where
  "JoinWaitlist_tx u slotID =
     check (wrapped ErrorInternalError ''get slot'') (SlotRepo_GetByID slotID) (\<lambda>row.
       case row of
         None \<Rightarrow> fail (NewDomainError ErrorSlotNotFound ''slot not found'')
       | Some slot \<Rightarrow> do {
           now \<leftarrow> now_utc;
           (if slStartTime slot < now
            then fail (NewDomainError ErrorInvalidRequest ''cannot join waitlist for past slot'')
            else check (wrapped ErrorInternalError ''check slot booking'')
              (BookingRepo_GetActiveBySlotForUpdate slotID) (\<lambda>row.
                case row of
                  None \<Rightarrow> fail (NewDomainError ErrorSlotNotBooked ''slot is not booked'')
                | Some activeBooking \<Rightarrow>
                    if bkUserID activeBooking = usrID u
                    then fail (NewDomainError ErrorInvalidRequest
                      ''cannot join waitlist for own booking'')
                    else join_entry u slotID))
         })"

definition JoinWaitlist :: "user \<Rightarrow> uuid \<Rightarrow> waitlist_entry result go" where
  "JoinWaitlist u slotID =
     (if usrRole u \<noteq> RoleUser
      then fail (NewDomainError ErrorForbidden ''waitlist is allowed only for user role'')
      else check same_error (WithinTransaction (JoinWaitlist_tx u slotID)) (\<lambda>joined. do {
        inc WaitlistJoinedTotal;
        ok joined
      }))"

definition LeaveWaitlist_tx :: "user \<Rightarrow> uuid \<Rightarrow> (waitlist_entry \<times> bool) result go" where
  "LeaveWaitlist_tx u entryID =
     check (wrapped ErrorInternalError ''leave waitlist'') (WaitlistRepo_Leave entryID (usrID u))
       (\<lambda>(row, didChange).
         case row of
           None \<Rightarrow> fail (NewDomainError ErrorWaitlistNotFound ''waitlist entry not found'')
         | Some entry \<Rightarrow> ok (entry, didChange))"

definition LeaveWaitlist :: "user \<Rightarrow> uuid \<Rightarrow> waitlist_entry result go" where
  "LeaveWaitlist u entryID =
     (if usrRole u \<noteq> RoleUser
      then fail (NewDomainError ErrorForbidden ''waitlist is allowed only for user role'')
      else check same_error (WithinTransaction (LeaveWaitlist_tx u entryID)) (\<lambda>(left, changed). do {
        (if changed then inc WaitlistCancelledTotal else State_Monad.return ());
        ok left
      }))"

section \<open>What joining does to the store\<close>

definition new_entry :: "uuid \<Rightarrow> user \<Rightarrow> uuid \<Rightarrow> time \<Rightarrow> waitlist_entry" where
  "new_entry i u slotID now = \<lparr>weID = i, weSlotID = slotID, weUserID = usrID u,
     weStatus = WaitlistStatusActive, wePosition = 0, weCreatedAt = now, weNotifiedAt = None\<rparr>"

lemma new_entry_simps [simp]:
  "weID (new_entry i u k now) = i" "weSlotID (new_entry i u k now) = k"
  "weUserID (new_entry i u k now) = usrID u" "we_active (new_entry i u k now)"
  "we_pending (new_entry i u k now)" "we_slot_user (new_entry i u k now) = (k, usrID u)"
  by (simp_all add: new_entry_def we_active_def we_pending_def we_slot_user_def)

lemma join_entry_InrE:
  assumes "run_state (join_entry u k) w = (Inr x, w')"
  obtains i now where "entry_insertable (new_entry i u k now) (db w)"
    "x = joined_row (new_entry i u k now) (db w)"
    "db w' = add_entry (joined_row (new_entry i u k now) (db w)) (db w)"
proof -
  let ?e = "new_entry (fresh_at (env w) (ticks w)) u k (clock_at (env w) (Suc (ticks w)))"
  have "run_state (WaitlistRepo_Join ?e) (tick (tick w)) = (Inr x, w')"
    using assms by (auto simp: join_entry_def new_entry_def [symmetric] split: prod.splits sum.splits if_splits)
  then show thesis
    using that by (auto simp: WaitlistRepo_Join_Inr)
qed

lemma JoinWaitlist_tx_InrE:
  assumes "run_state (JoinWaitlist_tx u k) w = (Inr x, w')"
  obtains b i now where "active_booking (db w) k = Some b" "bkUserID b \<noteq> usrID u"
    "entry_insertable (new_entry i u k now) (db w)"
    "x = joined_row (new_entry i u k now) (db w)"
    "db w' = add_entry (joined_row (new_entry i u k now) (db w)) (db w)"
proof -
  obtain b w1 where "active_booking (db w) k = Some b" "bkUserID b \<noteq> usrID u" "db w1 = db w"
    and join: "run_state (join_entry u k) w1 = (Inr x, w')"
    using assms
    by (auto simp: JoinWaitlist_tx_def SlotRepo_GetByID_Inr BookingRepo_GetActive_Inr
        elim!: check_InrE split: option.splits if_splits) (metis tick_simps(1))
  then show thesis
    using join_entry_InrE [OF join] that by metis
qed

lemma JoinWaitlist_db:
  "usrRole u = RoleUser \<Longrightarrow>
    db (snd (run_state (JoinWaitlist u k) w)) = db (snd (run_state (WithinTransaction (JoinWaitlist_tx u k)) w))"
  "usrRole u \<noteq> RoleUser \<Longrightarrow> db (snd (run_state (JoinWaitlist u k) w)) = db w"
  by (auto simp: JoinWaitlist_def run_check split: prod.splits sum.splits)

lemma JoinWaitlist_outcome:
  "tx_outcome (JoinWaitlist_tx u k) w (db (snd (run_state (JoinWaitlist u k) w)))"
  by (cases "usrRole u = RoleUser") (simp_all add: JoinWaitlist_db tx_outcome_run tx_outcome_same)

lemma LeaveWaitlist_db:
  "usrRole u = RoleUser \<Longrightarrow>
    db (snd (run_state (LeaveWaitlist u k) w)) = db (snd (run_state (WithinTransaction (LeaveWaitlist_tx u k)) w))"
  "usrRole u \<noteq> RoleUser \<Longrightarrow> db (snd (run_state (LeaveWaitlist u k) w)) = db w"
  by (auto simp: LeaveWaitlist_def run_check split: prod.splits sum.splits)

lemma LeaveWaitlist_outcome:
  "tx_outcome (LeaveWaitlist_tx u k) w (db (snd (run_state (LeaveWaitlist u k) w)))"
  by (cases "usrRole u = RoleUser") (simp_all add: LeaveWaitlist_db tx_outcome_run tx_outcome_same)

lemma leave_entry_none:
  "List.find (leaves k u) (waitlist s) = None \<Longrightarrow> leave_entry k u s = s"
  by (simp add: leave_entry_def find_None_iff' update_where_none)

lemma LeaveWaitlist_tx_InrE:
  assumes "run_state (LeaveWaitlist_tx u k) w = (Inr (e, changed), w')"
  obtains (left) e0 where "List.find (leaves k (usrID u)) (waitlist (db w)) = Some e0"
      "e = we_cancel e0" "changed" "db w' = leave_entry k (usrID u) (db w)"
  | (gone) "List.find (leaves k (usrID u)) (waitlist (db w)) = None" "\<not> changed"
      "List.find (\<lambda>e. weID e = k \<and> weUserID e = usrID u) (waitlist (db w)) = Some e" "db w' = db w"
proof (cases "List.find (leaves k (usrID u)) (waitlist (db w))")
  case None
  then show ?thesis
    using assms gone
    by (auto simp: LeaveWaitlist_tx_def WaitlistRepo_Leave_None elim!: check_InrE split: option.splits)
next
  case (Some e0)
  then show ?thesis
    using assms left
    by (auto simp: LeaveWaitlist_tx_def WaitlistRepo_Leave_Some elim!: check_InrE split: option.splits)
qed

lemma JoinWaitlist_app_ok:
  assumes "app_ok (db w)"
  shows "app_ok (db (snd (run_state (JoinWaitlist u k) w)))"
  using JoinWaitlist_outcome assms
  by (rule tx_outcome_invariant)
    (auto intro: app_ok_seq intro!: app_ok_add_entry elim!: JoinWaitlist_tx_InrE simp: assms)

lemma JoinWaitlist_served:
  assumes "queue_served (db w)"
  shows "queue_served (db (snd (run_state (JoinWaitlist u k) w)))"
  using JoinWaitlist_outcome assms
proof (rule tx_outcome_invariant)
  fix w1 :: world and x w2
  assume w1: "db w1 = db w" and run: "run_state (JoinWaitlist_tx u k) w1 = (Inr x, w2)"
  from run show "queue_served (db w2)"
  proof (rule JoinWaitlist_tx_InrE)
    fix b i now
    assume "active_booking (db w1) k = Some b"
      and w2: "db w2 = add_entry (joined_row (new_entry i u k now) (db w1)) (db w1)"
    then have "slot_booked (db w) k"
      using active_booking_None [of "db w" k] w1 by auto
    then show "queue_served (db w2)"
      using assms by (auto simp: w2 w1 queue_served_def)
  qed
qed (simp add: assms)

lemma LeaveWaitlist_app_ok:
  assumes "app_ok (db w)"
  shows "app_ok (db (snd (run_state (LeaveWaitlist u k) w)))"
  using LeaveWaitlist_outcome assms
proof (rule tx_outcome_invariant)
  fix w1 :: world and x w2
  assume "db w1 = db w" and "run_state (LeaveWaitlist_tx u k) w1 = (Inr x, w2)"
  then show "app_ok (db w2)"
    by (cases x) (auto elim!: LeaveWaitlist_tx_InrE simp: assms app_ok_leave_entry)
qed (rule app_ok_seq [OF assms])

lemma queue_served_leave: "queue_served s \<Longrightarrow> queue_served (leave_entry i u s)"
  by (auto simp: queue_served_def slot_awaited_leave) (auto simp: slot_awaited_def)

lemma LeaveWaitlist_served:
  assumes "queue_served (db w)"
  shows "queue_served (db (snd (run_state (LeaveWaitlist u k) w)))"
  using LeaveWaitlist_outcome assms
proof (rule tx_outcome_invariant)
  fix w1 :: world and x w2
  assume "db w1 = db w" and "run_state (LeaveWaitlist_tx u k) w1 = (Inr x, w2)"
  then show "queue_served (db w2)"
    by (cases x) (auto elim!: LeaveWaitlist_tx_InrE simp: assms queue_served_leave)
qed (simp add: assms)

end
