(* ===== verification/Reservation_Contract.thy ===== *)
theory Reservation_Contract
  imports Reservation_Service Waitlist_Service
begin

text \<open>
  What the reservation and waitlist services promise: who may confirm, cancel, join and leave, what
  an expiry run touches, and that a reservation ends in one way only.
\<close>

definition sample_reservations :: reservation_service where
  "sample_reservations = reservation_NewService True None 600000000000"

lemma sample_reservations_simps [simp]:
  "rsWaitlists sample_reservations" "reservation_TTLValue sample_reservations = 600000000000"
  by (simp_all add: sample_reservations_def reservation_NewService_def reservation_TTLValue_def)

text \<open>
  C8. \<open>ConfirmReservation\<close> over a database that answers: it is refused, with the code of the first
  rule broken and without any change, for a caller who is not a plain user, a missing reservation,
  somebody else's, one that is not active or has run out, and a slot that is booked or has started;
  otherwise it succeeds.
\<close>

theorem confirm_reservation_decides:
  assumes "calm (env w)" "usrID u \<in> usrID ` set (users (db w))"
    "fresh_ids (env w) (bkID ` set (bookings (db w)))" "store_ok (db w)"
  shows "case confirm_refusal u k (clock_at (env w) (ticks w)) (db w) of
      Some c \<Rightarrow> \<exists>e w'. run_state (ConfirmReservation s u k) w = (Inl e, w') \<and> has_code e c \<and> db w' = db w
    | None \<Rightarrow> \<exists>b r w'. run_state (ConfirmReservation s u k) w = (Inr (b, r), w')"
  using ConfirmReservation_refused [OF assms(1)] ConfirmReservation_accepted [OF assms(1) _ assms(2-4)]
  by (simp split: option.split)

lemma sample_confirmable: "confirm_refusal bob 50 100000000000 sample_store = None"
  by (simp add: confirm_refusal_def sample_defs rv_active_def slot_booked_def bk_active_def)

lemma confirm_reservation_decides_witness:
  "\<exists>b r w'. run_state (ConfirmReservation sample_reservations bob 50) sample_world = (Inr (b, r), w')"
  using confirm_reservation_decides [of sample_world bob sample_reservations 50] sample_confirmable
  by (simp add: sample_facts)

text \<open>
  C9. A confirmation that succeeds turns an active, unexpired reservation of the caller into an
  active booking of the caller on the same slot: the reservation is marked confirmed, the booking is
  added, the slot is booked and no longer reserved, and no other row changes.
\<close>

theorem confirm_turns_reservation_into_booking:
  assumes "run_state (ConfirmReservation s u k) w = (Inr (b, r'), w')" "store_ok (db w)"
  shows "\<exists>r. find_row rvID k (reservations (db w)) = Some r \<and> rv_active r \<and> rvUserID r = usrID u \<and>
    clock_at (env w) (ticks w) < rvExpiresAt r \<and> \<not> slot_booked (db w) (rvSlotID r) \<and>
    bkSlotID b = rvSlotID r \<and> bkUserID b = usrID u \<and>
    r' = rv_confirm (timestamptz (clock_at (env w) (ticks w))) r \<and>
    db w' = set_reservation (rv_confirm (timestamptz (clock_at (env w) (ticks w)))) k (add_booking b (db w)) \<and>
    slot_booked (db w') (rvSlotID r) \<and> \<not> slot_reserved (db w') (rvSlotID r)"
proof -
  obtain roomID w1 w2 where w1: "db w1 = db w" "db w' = db w2"
    and tx: "run_state (ConfirmReservation_tx u k (clock_at (env w) (ticks w))) w1 = (Inr (b, r', roomID), w2)"
    using ConfirmReservation_InrE [OF assms(1)] by metis
  have ok: "store_ok (db w1)"
    using assms(2) w1 by simp
  from tx ok show ?thesis
  proof (rule ConfirmReservation_tx_InrE)
    fix r slot i
    let ?now = "clock_at (env w) (ticks w)"
    assume r: "find_row rvID k (reservations (db w1)) = Some r" "rvUserID r = usrID u"
        "rv_active r" "?now < rvExpiresAt r" "\<not> slot_booked (db w1) (rvSlotID r)"
      and ins: "booking_insertable (new_booking i u (rvSlotID r) ?now) (db w1)"
      and out: "(b, r', roomID) = (new_booking i u (rvSlotID r) ?now, rv_confirm (timestamptz ?now) r,
          slRoomID slot)"
      and w2: "db w2 = set_reservation (rv_confirm (timestamptz ?now)) k
        (add_booking (new_booking i u (rvSlotID r) ?now) (db w1))"
    have "reservations_ok (add_booking (new_booking i u (rvSlotID r) ?now) (db w1))"
      using store_ok_add_booking [OF ok ins] by (simp add: store_ok_def)
    then have "\<not> slot_reserved (db w2) (rvSlotID r)"
      unfolding w2 by (rule confirmed_frees) (simp_all add: r)
    then show ?thesis
      using r out w2 w1 by auto
  qed
qed

lemma confirm_turns_reservation_into_booking_witness:
  "\<exists>w'. slot_booked (db w') 21 \<and> \<not> slot_reserved (db w') 21 \<and>
    (\<exists>b r. run_state (ConfirmReservation sample_reservations bob 50) sample_world = (Inr (b, r), w'))"
proof -
  obtain b r w' where run: "run_state (ConfirmReservation sample_reservations bob 50) sample_world =
      (Inr (b, r), w')"
    using ConfirmReservation_accepted [of sample_world bob 50 sample_reservations] sample_confirmable
    by (auto simp: sample_facts)
  show ?thesis
    using confirm_turns_reservation_into_booking [OF run] run by (auto simp: sample_facts)
qed

text \<open>
  C10. An expiry run that reports success touches only reservations that were active and due: every
  other reservation row is still there unchanged, and every booking too. With nothing locked and a
  batch limit that covers the backlog, every due reservation is expired.
\<close>

theorem expire_due_exact:
  assumes "run_state (ExpireDue s limit) w = (Inr u, w')" "store_ok (db w)"
  shows "bookings (db w') = bookings (db w) \<and>
    (\<forall>r \<in> set (reservations (db w)).
       r \<in> set (reservations (db w')) \<or>
       rv_active r \<and> rvExpiresAt r \<le> timestamptz (clock_at (env w) (ticks w)) \<and>
       rv_expire (timestamptz (clock_at (env w) (ticks w))) r \<in> set (reservations (db w'))) \<and>
    (unlocked (env w) \<and>
     int (length (filter (due (\<lambda>_. False) (timestamptz (clock_at (env w) (ticks w))))
       (reservations (db w)))) \<le> batch_limit limit \<longrightarrow>
     (\<forall>r \<in> set (reservations (db w)). rv_active r \<longrightarrow>
        rvExpiresAt r \<le> timestamptz (clock_at (env w) (ticks w)) \<longrightarrow>
        rv_expire (timestamptz (clock_at (env w) (ticks w))) r \<in> set (reservations (db w'))))"
proof -
  define now where "now = clock_at (env w) (ticks w)"
  obtain expired v w1 w2 where w1: "db w1 = db w" "env w1 = env w" "db w' = db w2"
    and tx: "run_state (ExpireDue_tx s now (batch_limit limit)) w1 = (Inr (expired, v), w2)"
    unfolding now_def using ExpireDue_InrE [OF assms(1)] by metis
  obtain w3 v0 where w3: "db w3 = expire_rows (expired_ids w1 now (batch_limit limit)) (timestamptz now) (db w1)"
    and loop: "run_state (expire_loop s now expired v0) w3 = (Inr v, w2)"
    using ExpireDue_tx_InrE [OF tx] by metis
  let ?ids = "expired_ids w1 now (batch_limit limit)"
  have keeps: "bookings (db w2) = bookings (db w)"
      "set (reservations (db w3)) \<subseteq> set (reservations (db w2))"
    using expire_loop_keeps [OF loop] by (auto simp: w3 w1)
  have rows: "(if rvID r \<in> ?ids then rv_expire (timestamptz now) r else r) \<in> set (reservations (db w3))"
    if "r \<in> set (reservations (db w))" for r
    using that by (auto simp: w3 w1 expire_rows_def set_update_where)
  have touched: "r \<in> set (reservations (db w2)) \<or> rv_active r \<and> rvExpiresAt r \<le> timestamptz now \<and>
      rv_expire (timestamptz now) r \<in> set (reservations (db w2))" if "r \<in> set (reservations (db w))" for r
    using rows [OF that] keeps(2) that assms(2) expired_ids_due [of w1 r now "batch_limit limit"]
    by (auto simp: w1 split: if_splits)
  have all: "rv_expire (timestamptz now) r \<in> set (reservations (db w2))"
    if "r \<in> set (reservations (db w))" "rv_active r" "rvExpiresAt r \<le> timestamptz now" "unlocked (env w)"
      "int (length (filter (due (\<lambda>_. False) (timestamptz now)) (reservations (db w)))) \<le> batch_limit limit" for r
  proof -
    have "locked_at (env w1) n = (\<lambda>_. False)" for n
      using that(4) w1(2) by (auto simp: unlocked_def)
    then have "rvID r \<in> ?ids"
      using that picked_all [of "\<lambda>_. False" "timestamptz now" "reservations (db w)" "batch_limit limit" r]
      by (simp add: expired_ids_def w1 due_def)
    then show ?thesis
      using rows [OF that(1)] keeps(2) by auto
  qed
  show ?thesis
    unfolding now_def [symmetric] using keeps(1) touched all w1(3) by auto
qed

definition late_world :: world where
  "late_world = sample_world\<lparr>env := sample_env\<lparr>clock_at := (\<lambda>n. 300000000000)\<rparr>\<rparr>"

lemma late_world_simps [simp]:
  "db late_world = sample_store" "ticks late_world = 0" "clock_at (env late_world) n = 300000000000"
  "calm (env late_world)" "unlocked (env late_world)" "fresh_at (env late_world) n = 1000"
  "locked_at (env late_world) n = (\<lambda>k. False)" "fault_at (env late_world) n = NoFault"
  by (simp_all add: late_world_def sample_env_def calm_def unlocked_def fun_eq_iff)

lemma late_expiry_runs:
  "\<exists>w'. run_state (ExpireDue sample_reservations 0) late_world = (Inr (), w')"
proof -
  define w2 where "w2 = tick (tick late_world)"
  have w2: "db w2 = sample_store" "env w2 = env late_world"
    by (simp_all add: w2_def)
  have batch: "run_state (ReservationRepo_ExpireBatch 300000000000 100) w2 =
      (Inr [rv_expire 300000000000 sample_reservation],
       (tick w2)\<lparr>db := expire_rows {50} 300000000000 sample_store\<rparr>)"
    by (simp add: ReservationRepo_ExpireBatch_Inr w2 picked_def due_def sample_store_def Let_def
        sample_reservation_def rv_active_def timestamptz_def)
  have nobody: "claimable (\<lambda>k. False) 21 (waitlist sample_store) = []"
    by (simp add: claimable_def sample_defs we_active_def)
  have slot: "rvSlotID sample_reservation = 21"
    by (simp add: sample_reservation_def)
  have "\<exists>v w'. run_state (ExpireDue_tx sample_reservations 300000000000 100) w2 = (Inr v, w') \<and>
      env w' = env late_world"
    by (simp add: ExpireDue_tx_def run_check batch slot SlotRepo_GetByID_def run_db_call_calm w2 select_def
        claim_next_def WaitlistRepo_ClaimNextForNotify_def sql_waitlist_claim_def same_error_def
        nobody)
  then obtain v w' where tx: "run_state (ExpireDue_tx sample_reservations 300000000000 100)
      (tick (tick late_world)) = (Inr v, w')" "env w' = env late_world"
    by (auto simp: w2_def)
  then have "run_state (WithinTransaction (ExpireDue_tx sample_reservations 300000000000 100))
      (tick late_world) = (Inr v, tick w')"
    by (simp add: WithinTransaction_calm)
  then show ?thesis
    by (auto simp: ExpireDue_def defaultExpirationBatchLimit_def run_check split: prod.splits)
qed

lemma expire_due_exact_witness:
  "\<exists>w'. run_state (ExpireDue sample_reservations 0) late_world = (Inr (), w') \<and>
    rv_expire 300000000000 sample_reservation \<in> set (reservations (db w'))"
proof -
  obtain w' where run: "run_state (ExpireDue sample_reservations 0) late_world = (Inr (), w')"
    using late_expiry_runs by blast
  have "sample_reservation \<in> set (reservations sample_store)"
      "int (length (filter (due (\<lambda>_. False) 300000000000) (reservations sample_store))) \<le> batch_limit 0"
    by (simp_all add: sample_store_def batch_limit_def defaultExpirationBatchLimit_def)
  then show ?thesis
    using expire_due_exact [OF run] run by (auto simp: sample_facts timestamptz_def)
qed

text \<open>What a successful call has done, and when a call succeeds.\<close>

lemma JoinWaitlist_effect:
  assumes "run_state (JoinWaitlist u k) w = (Inr e, w')"
  obtains e0 where "e = joined_row e0 (db w)" "entry_insertable e0 (db w)" "we_active e0" "weSlotID e0 = k"
    "db w' = add_entry e (db w)"
proof -
  have role: "usrRole u = RoleUser"
    using assms by (auto simp: JoinWaitlist_def split: if_splits)
  then obtain w2 where "run_state (JoinWaitlist_tx u k) (tick w) = (Inr e, w2)" "db w' = db w2"
    using assms by (auto simp: JoinWaitlist_def WithinTransaction_Inr elim!: check_InrE)
  then show thesis
    by (auto elim!: JoinWaitlist_tx_InrE intro: that)
qed

text \<open>
  C11. A user who joins a queue is let in behind everyone already in it: the slot is booked by
  somebody else, the user has no pending entry for it, and the new entry waits at a position above
  every position in the table; nothing else changes.
\<close>

theorem join_waitlist_at_the_end:
  assumes "run_state (JoinWaitlist u k) w = (Inr e, w')" "store_ok (db w)"
  shows "usrRole u = RoleUser \<and> weSlotID e = k \<and> weUserID e = usrID u \<and> we_active e \<and>
    (\<exists>b. active_booking (db w) k = Some b \<and> bkUserID b \<noteq> usrID u) \<and>
    \<not> (\<exists>x \<in> set (waitlist (db w)). we_pending x \<and> weSlotID x = k \<and> weUserID x = usrID u) \<and>
    (\<forall>x \<in> set (waitlist (db w)). wePosition x < wePosition e) \<and>
    db w' = add_entry e (db w)"
proof -
  have role: "usrRole u = RoleUser"
    using assms(1) by (auto simp: JoinWaitlist_def split: if_splits)
  obtain w3 where tx: "run_state (WithinTransaction (JoinWaitlist_tx u k)) w = (Inr e, w3)" "db w' = db w3"
    using assms(1) role by (auto simp: JoinWaitlist_def elim!: check_InrE)
  then obtain w2 where run: "run_state (JoinWaitlist_tx u k) (tick w) = (Inr e, w2)" "db w' = db w2"
    by (auto simp: WithinTransaction_Inr)
  from run(1) show ?thesis
  proof (rule JoinWaitlist_tx_InrE)
    fix b i now
    assume "active_booking (db (tick w)) k = Some b" "bkUserID b \<noteq> usrID u"
      "entry_insertable (new_entry i u k now) (db (tick w))"
      "e = joined_row (new_entry i u k now) (db (tick w))"
      "db w2 = add_entry (joined_row (new_entry i u k now) (db (tick w))) (db (tick w))"
    then show ?thesis
      using role run(2) assms(2)
      by (auto simp: entry_insertable_def index_hit_def we_slot_user_def store_ok_def waitlist_ok_def)
  qed
qed

lemma JoinWaitlist_accepted:
  assumes "calm (env w)" "usrRole u = RoleUser" "find_row slID k (slots (db w)) = Some slot"
    "\<forall>n. clock_at (env w) n \<le> slStartTime slot" "active_booking (db w) k = Some b" "bkUserID b \<noteq> usrID u"
    "\<And>n m. entry_insertable (new_entry (fresh_at (env w) n) u k (clock_at (env w) m)) (db w)"
  shows "\<exists>e w'. run_state (JoinWaitlist u k) w = (Inr e, w')"
proof -
  have "\<exists>e w'. run_state (join_entry u k) v = (Inr e, w') \<and> env w' = env w" if v: "db v = db w" "env v = env w" for v
  proof -
    define e where "e = new_entry (fresh_at (env w) (ticks v)) u k (clock_at (env w) (Suc (ticks v)))"
    have "entry_insertable e (db v)"
      using assms(7) by (simp add: e_def v)
    then have "\<exists>x w'. run_state (WaitlistRepo_Join e) (tick (tick v)) = (Inr x, w') \<and> env w' = env w"
      using assms(1) v by (auto simp: WaitlistRepo_Join_Inr)
    moreover have "run_state (join_entry u k) v = run_state (do {
        r \<leftarrow> WaitlistRepo_Join e;
        (case r of
           Inl err \<Rightarrow> if has_code err ErrorWaitlistJoined then fail err
             else fail (wrapped ErrorInternalError ''join waitlist'' err)
         | Inr created \<Rightarrow> ok created) }) (tick (tick v))"
      by (simp add: join_entry_def e_def new_entry_def v)
    ultimately show ?thesis
      by auto
  qed
  then have "\<exists>e w'. run_state (JoinWaitlist_tx u k) (tick w) = (Inr e, w') \<and> env w' = env w"
    using assms(1,3-6) by (simp add: JoinWaitlist_tx_def run_check calm_reads leD)
  then obtain e w' where "run_state (JoinWaitlist_tx u k) (tick w) = (Inr e, w')" "env w' = env w"
    by blast
  then have "run_state (WithinTransaction (JoinWaitlist_tx u k)) w = (Inr e, tick w')"
    using assms(1) by (simp add: WithinTransaction_calm)
  then show ?thesis
    using assms(2) by (simp add: JoinWaitlist_def run_check)
qed

lemma sample_join_runs: "\<exists>e w'. run_state (JoinWaitlist dave 20) sample_world = (Inr e, w')"
proof (rule JoinWaitlist_accepted)
  show "entry_insertable (new_entry (fresh_at (env sample_world) n) dave 20 (clock_at (env sample_world) m)) (db sample_world)"
    for n m
    by (simp add: entry_insertable_def index_hit_def sample_defs we_pending_def we_slot_user_def)
  show "active_booking (db sample_world) 20 = Some sample_booking"
    by (simp add: active_booking_def sample_defs bk_active_def)
  show "find_row slID 20 (slots (db sample_world)) = Some (sample_slot 20 3600000000000)"
    by (simp add: sample_defs)
qed (simp_all add: sample_defs)

lemma join_waitlist_at_the_end_witness:
  "\<exists>e w'. run_state (JoinWaitlist dave 20) sample_world = (Inr e, w') \<and> wePosition e > 3"
proof -
  obtain e w' where run: "run_state (JoinWaitlist dave 20) sample_world = (Inr e, w')"
    using sample_join_runs by blast
  have "sample_entry 42 21 2 WaitlistStatusNotified 3 \<in> set (waitlist sample_store)"
    by (simp add: sample_store_def)
  then show ?thesis
    using join_waitlist_at_the_end [OF run] run by (force simp: sample_facts sample_entry_def)
qed

text \<open>
  Leaving the queue takes effect once: a successful call either cancels the caller's own pending
  entry, or finds the caller's entry already out of the queue and changes nothing. Entries of other
  users never change.
\<close>

theorem leave_waitlist_own_entry:
  assumes "run_state (LeaveWaitlist u k) w = (Inr e, w')"
  shows "usrRole u = RoleUser \<and> weID e = k \<and> weUserID e = usrID u \<and>
    (db w' = db w \<and> e \<in> set (waitlist (db w)) \<and> \<not> (\<exists>x \<in> set (waitlist (db w)). leaves k (usrID u) x) \<or>
     db w' = leave_entry k (usrID u) (db w) \<and> weStatus e = WaitlistStatusCancelled) \<and>
    (\<forall>x \<in> set (waitlist (db w)). weUserID x \<noteq> usrID u \<longrightarrow> x \<in> set (waitlist (db w')))"
proof -
  have role: "usrRole u = RoleUser"
    using assms(1) by (auto simp: LeaveWaitlist_def split: if_splits)
  obtain w3 c where tx: "run_state (WithinTransaction (LeaveWaitlist_tx u k)) w = (Inr (e, c), w3)"
      "db w' = db w3"
    using assms(1) role by (auto simp: LeaveWaitlist_def elim!: check_InrE split: if_splits)
  then obtain w2 where run: "run_state (LeaveWaitlist_tx u k) (tick w) = (Inr (e, c), w2)" "db w' = db w2"
    by (auto simp: WithinTransaction_Inr)
  from run(1) show ?thesis
  proof (cases rule: LeaveWaitlist_tx_InrE)
    case (left e0)
    then show ?thesis
      using role run(2) find_SomeD [OF left(1)]
      by (auto simp: leave_entry_def set_update_where leaves_def)
  next
    case gone
    then show ?thesis
      using role run(2) find_SomeD [OF gone(3)] by (auto simp: find_None_iff')
  qed
qed

lemma sample_leave_runs: "\<exists>e w'. run_state (LeaveWaitlist carol 41) sample_world = (Inr e, w')"
proof -
  define e where "e = sample_entry 41 20 3 WaitlistStatusActive 2"
  have found: "List.find (leaves 41 (usrID carol)) (waitlist sample_store) = Some e"
    by (simp add: e_def leaves_def sample_defs we_pending_def)
  have "run_state (LeaveWaitlist_tx carol 41) (tick sample_world) =
      (Inr (we_cancel e, True), (tick (tick sample_world))\<lparr>db := leave_entry 41 (usrID carol) sample_store\<rparr>)"
  proof -
    have "run_state (WaitlistRepo_Leave 41 (usrID carol)) (tick sample_world) =
        (Inr (Some (we_cancel e), True),
         (tick (tick sample_world))\<lparr>db := leave_entry 41 (usrID carol) sample_store\<rparr>)"
      using found by (subst WaitlistRepo_Leave_Some [of _ _ _ e]) simp_all
    then show ?thesis
      by (simp add: LeaveWaitlist_tx_def run_check)
  qed
  then have "run_state (WithinTransaction (LeaveWaitlist_tx carol 41)) sample_world =
      (Inr (we_cancel e, True),
       tick ((tick (tick sample_world))\<lparr>db := leave_entry 41 (usrID carol) sample_store\<rparr>))"
    by (simp add: WithinTransaction_calm)
  then show ?thesis
    by (simp add: LeaveWaitlist_def run_check sample_active)
qed

lemma leave_waitlist_own_entry_witness:
  "\<exists>e w'. run_state (LeaveWaitlist carol 41) sample_world = (Inr e, w') \<and> weID e = 41"
  using sample_leave_runs leave_waitlist_own_entry by blast

end
