(* ===== verification/Admin_Services.thy ===== *)
theory Admin_Services
  imports Sample Slot_Repo Go_Text
begin

text \<open>
  \<open>internal/usecase/room\<close>, \<open>schedule\<close> and \<open>slot\<close>: administration of rooms and schedules, and the
  two listings of a room's slots. Lengths of time are nanoseconds.
\<close>

definition time_Minute :: duration where "time_Minute = 60000000000"
definition time_Hour :: duration where "time_Hour = 3600000000000"
definition time_Second :: duration where "time_Second = 1000000000"

lemmas durations = time_Minute_def time_Hour_def time_Second_def

section \<open>Rooms\<close>

record room_create_input =
  riName :: string
  riDescription :: "string option"
  riCapacity :: "int option"

definition ListRooms :: "user \<Rightarrow> room list result go" where
  "ListRooms u =
     (if usrRole u = RoleAdmin \<or> usrRole u = RoleUser then RoomRepo_List
      else fail (NewDomainError ErrorForbidden ''role is not allowed''))"

definition CreateRoom :: "user \<Rightarrow> room_create_input \<Rightarrow> room result go" where
  "CreateRoom u input =
     (if usrRole u \<noteq> RoleAdmin then fail (NewDomainError ErrorForbidden ''admin only'')
      else let name = TrimSpace (riName input) in
        if name = '''' then fail (NewDomainError ErrorInvalidRequest ''name is required'')
        else if (case riCapacity input of None \<Rightarrow> False | Some c \<Rightarrow> c < 0)
          then fail (NewDomainError ErrorInvalidRequest ''capacity must be >= 0'')
        else do {
          i \<leftarrow> uuid_New;
          now \<leftarrow> now_utc;
          let room = \<lparr>rmID = i, rmName = name, rmDescription = riDescription input,
            rmCapacity = riCapacity input, rmCreatedAt = now\<rparr>;
          check same_error (RoomRepo_Create room) (\<lambda>_. ok room)
        })"

section \<open>Schedules\<close>

record create_schedule_input =
  siDaysOfWeek :: "int list"
  siStartTime :: time_of_day
  siEndTime :: time_of_day

record schedule_rule =
  ruDayOfWeek :: int
  ruStartTime :: time_of_day
  ruEndTime :: time_of_day

record schedule_view =
  vwRoomID :: uuid
  vwRules :: "schedule_rule list"

definition schedule_parseTimeOfDay :: "time_of_day \<Rightarrow> go_error + duration" where
  "schedule_parseTimeOfDay tod =
     (let s = TrimSpace tod in
      if s = '''' then Inl (TextError ''empty time of day'')
      else case parse_layouts s of
        None \<Rightarrow> Inl (TextError (''failed to parse time of day: '' @ s))
      | Some c \<Rightarrow>
          if clSecond c \<noteq> 0 \<or> clNano c \<noteq> 0 then Inl (TextError ''time must not contain seconds'')
          else Inr (clHour c * time_Hour + clMinute c * time_Minute))"

definition isAlignedToSlotGrid :: "duration \<Rightarrow> bool" where
  "isAlignedToSlotGrid d =
     (if d < 0 then False else (d div time_Minute) mod 30 = 0 \<and> d mod time_Minute = 0)"

definition isScheduleConflictError :: "ext \<Rightarrow> go_error \<Rightarrow> bool" where
  "isScheduleConflictError x err =
     (has_code err ErrorScheduleExists \<or>
      (let msg = ToLower x (Error_text x err) in
       Contains msg ''duplicate key'' \<or> Contains msg ''unique constraint'' \<or>
       Contains msg ''schedules_room_id_day_of_week_key''))"

text \<open>The days as a set, sorted: iteration over the Go map is in any order, then \<open>sort.Ints\<close>.\<close>

definition schedule_days :: "int list \<Rightarrow> int list" where
  "schedule_days ds = sort (remdups ds)"

fun new_schedules :: "uuid \<Rightarrow> create_schedule_input \<Rightarrow> time \<Rightarrow> int list \<Rightarrow> schedule list go" where
  "new_schedules roomID input createdAt [] = State_Monad.return []"
| "new_schedules roomID input createdAt (day # days) = do {
     i \<leftarrow> uuid_New;
     rest \<leftarrow> new_schedules roomID input createdAt days;
     State_Monad.return
       (\<lparr>schID = i, schRoomID = roomID, schDayOfWeek = day, schStartTime = siStartTime input,
         schEndTime = siEndTime input, schCreatedAt = createdAt\<rparr> # rest)
   }"

definition insert_schedule_rows ::
  "uuid \<Rightarrow> create_schedule_input \<Rightarrow> int list \<Rightarrow> schedule_view result go" where
  "insert_schedule_rows roomID input days = do {
     createdAt \<leftarrow> now_utc;
     dbSchedules \<leftarrow> new_schedules roomID input createdAt days;
     r \<leftarrow> ScheduleRepo_CreateBatch dbSchedules;
     x \<leftarrow> asks id;
     (case r of
        Inl err \<Rightarrow>
          if isScheduleConflictError x err
          then fail (NewDomainError ErrorScheduleExists ''schedule already exists'')
          else fail (wrapped ErrorInternalError ''create schedule'' err)
      | Inr _ \<Rightarrow>
          ok \<lparr>vwRoomID = roomID,
            vwRules = map (\<lambda>day. \<lparr>ruDayOfWeek = day, ruStartTime = siStartTime input,
              ruEndTime = siEndTime input\<rparr>) days\<rparr>)
   }"

definition schedule_from_input ::
  "uuid \<Rightarrow> create_schedule_input \<Rightarrow> schedule_view result go" where
  "schedule_from_input roomID input =
     (if \<exists>d \<in> set (siDaysOfWeek input). d < 1 \<or> d > 7
      then fail (NewDomainError ErrorInvalidRequest ''day_of_week must be 1..7'')
      else case schedule_parseTimeOfDay (siStartTime input) of
        Inl err \<Rightarrow> fail (wrapped ErrorInvalidRequest ''invalid start_time'' err)
      | Inr startDur \<Rightarrow>
          (case schedule_parseTimeOfDay (siEndTime input) of
             Inl err \<Rightarrow> fail (wrapped ErrorInvalidRequest ''invalid end_time'' err)
           | Inr endDur \<Rightarrow>
               if \<not> isAlignedToSlotGrid startDur \<or> \<not> isAlignedToSlotGrid endDur
               then fail (NewDomainError ErrorInvalidRequest
                 ''start/end must be aligned to 30 minutes'')
               else if endDur \<le> startDur
               then fail (NewDomainError ErrorInvalidRequest
                 ''start_time must be < end_time'')
               else insert_schedule_rows roomID input (schedule_days (siDaysOfWeek input))))"

definition CreateSchedule ::
  "user \<Rightarrow> uuid \<Rightarrow> create_schedule_input \<Rightarrow> schedule_view result go" where
  "CreateSchedule u roomID input =
     (if usrRole u \<noteq> RoleAdmin then fail (NewDomainError ErrorForbidden ''admin only'')
      else if siDaysOfWeek input = []
        then fail (NewDomainError ErrorInvalidRequest ''daysOfWeek is required'')
      else check (wrapped ErrorInternalError ''get room'') (RoomRepo_GetByID roomID) (\<lambda>room.
        if room = None then fail (NewDomainError ErrorRoomNotFound ''room not found'')
        else check (wrapped ErrorInternalError ''check schedule exists'')
          (ScheduleRepo_ExistsByRoomID roomID) (\<lambda>exists.
            if exists then fail (NewDomainError ErrorScheduleExists ''schedule already exists'')
            else schedule_from_input roomID input)))"

section \<open>Slots\<close>

definition utc_midnight :: "time \<Rightarrow> time" where
  "utc_midnight t = t div day_length * day_length"

definition validateAndNormalizeRequest :: "user \<Rightarrow> uuid \<Rightarrow> time \<Rightarrow> time result go" where
  "validateAndNormalizeRequest u roomID date =
     (if \<not> (usrRole u = RoleAdmin \<or> usrRole u = RoleUser)
      then fail (NewDomainError ErrorForbidden ''role is not allowed'')
      else check (wrapped ErrorInternalError ''get room'') (RoomRepo_GetByID roomID) (\<lambda>room.
        if room = None then fail (NewDomainError ErrorRoomNotFound ''room not found'')
        else ok (utc_midnight date)))"

definition ListAvailableSlots :: "user \<Rightarrow> uuid \<Rightarrow> time \<Rightarrow> slot list result go" where
  "ListAvailableSlots u roomID date =
     check same_error (validateAndNormalizeRequest u roomID date) (\<lambda>dateUTC.
       SlotRepo_ListAvailableByRoomAndDate roomID dateUTC)"

definition ListRoomSlots :: "user \<Rightarrow> uuid \<Rightarrow> time \<Rightarrow> slot_view list result go" where
  "ListRoomSlots u roomID date =
     check same_error (validateAndNormalizeRequest u roomID date) (\<lambda>dateUTC. do {
       now \<leftarrow> now_utc;
       SlotRepo_ListAllByRoomAndDate roomID dateUTC now
     })"

section \<open>What creating a room does\<close>

lemma run_return [simp]: "run_state (State_Monad.return x) w = (x, w)"
  by (simp add: State_Monad.return_def)

lemma CreateRoom_InrE:
  assumes "run_state (CreateRoom u input) w = (Inr r, w')"
  obtains "usrRole u = RoleAdmin" "rmName r = TrimSpace (riName input)" "rmName r \<noteq> []"
    "rmDescription r = riDescription input" "rmCapacity r = riCapacity input"
    "\<And>c. rmCapacity r = Some c \<Longrightarrow> 0 \<le> c \<and> c < 2 ^ 31"
    "rmID r \<notin> rmID ` set (rooms (db w))"
    "db w' = (db w)\<lparr>rooms := rooms (db w) @ [stored_room r]\<rparr>"
  using assms
  by (auto simp: CreateRoom_def Let_def RoomRepo_Create_Inr fits_int4_def elim!: check_InrE
      split: if_splits option.splits)

lemma db_call_db:
  "db (snd (run_state (db_call f) w)) = db w \<or>
   db (snd (run_state (db_call f) w)) = snd (f (server_of w) (db w))"
  by (simp add: run_db_call split: fault.split)

lemma stored_room_id [simp]: "rmID (stored_room r) = rmID r"
  by (simp add: stored_room_def)

lemma RoomRepo_Create_db:
  "db (snd (run_state (RoomRepo_Create x) w)) = db w \<or>
    rmID (stored_room x) \<notin> rmID ` set (rooms (db w)) \<and>
    db (snd (run_state (RoomRepo_Create x) w)) = (db w)\<lparr>rooms := rooms (db w) @ [stored_room x]\<rparr>"
  using db_call_db [of "sql_room_insert x" w]
  by (auto simp: RoomRepo_Create_def sql_room_insert_def split: if_splits)

lemma CreateRoom_app_ok:
  assumes "app_ok (db w)"
  shows "app_ok (db (snd (run_state (CreateRoom u input) w)))"
proof -
  have "app_ok (db (snd (run_state (RoomRepo_Create x) v)))" if "db v = db w" for x v
    using RoomRepo_Create_db [of x v] assms that app_ok_add_room [of "db w" "stored_room x"] by auto
  note create = this
  have "app_ok (db v')" if "run_state (RoomRepo_Create x) v = (r, v')" "db v = db w" for x v r v'
    using create [OF that(2), of x] that(1) by simp
  then show ?thesis
    using assms
    by (auto simp: CreateRoom_def Let_def run_check split: prod.splits sum.splits option.splits)
qed

lemma CreateRoom_served:
  assumes "queue_served (db w)"
  shows "queue_served (db (snd (run_state (CreateRoom u input) w)))"
proof -
  have "queue_served (db v')" if "run_state (RoomRepo_Create x) v = (r, v')" "db v = db w" for x v r v'
    using RoomRepo_Create_db [of x v] assms that
    by (auto simp: served_frame [of "(db w)\<lparr>rooms := rooms (db w) @ [stored_room x]\<rparr>" "db w"])
  then show ?thesis
    using assms
    by (auto simp: CreateRoom_def Let_def run_check split: prod.splits sum.splits option.splits)
qed

section \<open>What creating a schedule does\<close>

lemma new_schedules_result:
  assumes "run_state (new_schedules roomID input t days) w = (xs, w')"
  shows "db w' = db w \<and> env w' = env w \<and> map schDayOfWeek xs = days \<and>
    (\<forall>x \<in> set xs. schRoomID x = roomID \<and> schStartTime x = siStartTime input \<and>
      schEndTime x = siEndTime input)"
  using assms
proof (induction days arbitrary: w xs w')
  case (Cons day days)
  obtain ys w2 where rest: "run_state (new_schedules roomID input t days) (tick w) = (ys, w2)"
    by (cases "run_state (new_schedules roomID input t days) (tick w)")
  then show ?case
    using Cons.IH [OF rest] Cons.prems by auto
qed simp

lemma ScheduleRepo_CreateBatch_db:
  "db (snd (run_state (ScheduleRepo_CreateBatch xs) w)) = db w \<or>
    (\<exists>rows. insert_schedules (pg_time_in (libs (env w))) xs (schedules (db w)) = Inr rows \<and>
      (\<forall>x \<in> set xs. schRoomID x \<in> rmID ` set (rooms (db w))) \<and>
      db (snd (run_state (ScheduleRepo_CreateBatch xs) w)) = (db w)\<lparr>schedules := rows\<rparr>)"
proof -
  let ?f = "sql_schedules_batch (pg_time_in (libs (env w))) xs"
  have "db (snd (run_state (ScheduleRepo_CreateBatch xs) w)) = db w \<or>
      db (snd (run_state (ScheduleRepo_CreateBatch xs) w)) = db (snd (run_state (db_call ?f) w))"
    by (auto simp: ScheduleRepo_CreateBatch_def split: prod.splits sum.splits)
  then show ?thesis
    using db_call_db [of ?f w]
    by (auto simp: sql_schedules_batch_def split: sum.splits if_splits)
qed

lemma ScheduleRepo_CreateBatch_Inr:
  assumes "run_state (ScheduleRepo_CreateBatch xs) w = (Inr u, w')" "xs \<noteq> []"
  obtains rows where "insert_schedules (pg_time_in (libs (env w))) xs (schedules (db w)) = Inr rows"
    "\<forall>x \<in> set xs. schRoomID x \<in> rmID ` set (rooms (db w))" "db w' = (db w)\<lparr>schedules := rows\<rparr>"
proof -
  obtain w1 where "run_state (db_call (sql_schedules_batch (pg_time_in (libs (env w))) xs)) w = (Inr (), w1)"
      "db w' = db w1"
    using assms by (auto simp: ScheduleRepo_CreateBatch_def split: prod.splits sum.splits if_splits)
  then show thesis
    using that by (auto simp: db_call_Inr sql_schedules_batch_def split: sum.splits if_splits)
qed

definition schedules_added :: "store \<Rightarrow> store \<Rightarrow> bool" where
  "schedules_added s s' \<longleftrightarrow> s' = s \<or>
     (\<exists>tin xs rows. insert_schedules tin xs (schedules s) = Inr rows \<and>
        (\<forall>x \<in> set xs. schRoomID x \<in> rmID ` set (rooms s)) \<and> s' = s\<lparr>schedules := rows\<rparr>)"

lemma insert_schedule_rows_db:
  "schedules_added (db w) (db (snd (run_state (insert_schedule_rows roomID input days) w)))"
proof -
  define createdAt where "createdAt = clock_at (env w) (ticks w)"
  obtain xs w1 where new: "run_state (new_schedules roomID input createdAt days) (tick w) = (xs, w1)"
    by (cases "run_state (new_schedules roomID input createdAt days) (tick w)")
  have w1: "db w1 = db w"
    using new_schedules_result [OF new] by simp
  have "db (snd (run_state (insert_schedule_rows roomID input days) w)) =
      db (snd (run_state (ScheduleRepo_CreateBatch xs) w1))"
    using new by (auto simp: insert_schedule_rows_def createdAt_def split: prod.splits sum.splits)
  then show ?thesis
    using ScheduleRepo_CreateBatch_db [of xs w1] w1 unfolding schedules_added_def by metis
qed

lemma CreateSchedule_db:
  "schedules_added (db w) (db (snd (run_state (CreateSchedule u roomID input) w)))"
proof -
  have same: "schedules_added s s" for s
    by (simp add: schedules_added_def)
  have rows: "schedules_added (db w) (db (snd (run_state (schedule_from_input roomID input) w1)))"
    if "db w1 = db w" for w1
    using insert_schedule_rows_db [of w1 roomID input] that
    by (auto simp: schedule_from_input_def same split: sum.splits)
  have get: "db w' = db w1" if "run_state (RoomRepo_GetByID roomID) w1 = (r, w')" for w1 r w'
    using db_call_db [of "select (\<lambda>s. find_row rmID roomID (rooms s))" w1] that
    by (simp add: RoomRepo_GetByID_def select_def)
  have ex: "db w' = db w1" if "run_state (ScheduleRepo_ExistsByRoomID roomID) w1 = (r, w')" for w1 r w'
    using db_call_db [of "select (\<lambda>s. \<exists>x \<in> set (schedules s). scrRoomID x = roomID)" w1] that
    by (simp add: ScheduleRepo_ExistsByRoomID_def select_def)
  show ?thesis
    by (auto simp: CreateSchedule_def run_check same split: prod.splits sum.splits
        dest!: get ex intro: rows)
qed

lemma CreateSchedule_app_ok:
  assumes "app_ok (db w)"
  shows "app_ok (db (snd (run_state (CreateSchedule u roomID input) w)))"
  using CreateSchedule_db [of w u roomID input] assms
  by (auto simp: schedules_added_def intro: app_ok_add_schedules)

lemma CreateSchedule_served:
  assumes "queue_served (db w)"
  shows "queue_served (db (snd (run_state (CreateSchedule u roomID input) w)))"
  using CreateSchedule_db [of w u roomID input] assms
  by (auto simp: schedules_added_def served_frame [of "(db w)\<lparr>schedules := rows\<rparr>" "db w" for rows])

lemma schedule_days_simps [simp]:
  "set (schedule_days ds) = set ds" "distinct (schedule_days ds)" "sorted (schedule_days ds)"
  by (simp_all add: schedule_days_def)

lemma schedule_parse_range:
  assumes "schedule_parseTimeOfDay tod = Inr d"
  shows "0 \<le> d \<and> d < 24 * time_Hour \<and> d mod time_Minute = 0"
proof -
  obtain c where c: "parse_layouts (TrimSpace tod) = Some c"
      and d: "d = clHour c * time_Hour + clMinute c * time_Minute"
    using assms by (auto simp: schedule_parseTimeOfDay_def Let_def split: if_splits option.splits)
  have "0 \<le> clHour c \<and> clHour c < 24 \<and> 0 \<le> clMinute c \<and> clMinute c < 60"
    using c parse_hm_range
    by (fastforce simp: parse_layouts_def parse_hms_layout_def parse_hm_layout_def
        split: option.splits if_splits prod.splits)
  moreover have "d = (clHour c * 60 + clMinute c) * time_Minute"
    by (simp add: d durations)
  ultimately show ?thesis
    by (simp add: d durations)
qed

definition schedule_refusal :: "user \<Rightarrow> uuid \<Rightarrow> create_schedule_input \<Rightarrow> store \<Rightarrow> error_code option" where
  "schedule_refusal u roomID input st =
     (if usrRole u \<noteq> RoleAdmin then Some ErrorForbidden
      else if siDaysOfWeek input = [] then Some ErrorInvalidRequest
      else if find_row rmID roomID (rooms st) = None then Some ErrorRoomNotFound
      else if \<exists>x \<in> set (schedules st). scrRoomID x = roomID then Some ErrorScheduleExists
      else if \<exists>d \<in> set (siDaysOfWeek input). d < 1 \<or> d > 7 then Some ErrorInvalidRequest
      else case (schedule_parseTimeOfDay (siStartTime input), schedule_parseTimeOfDay (siEndTime input)) of
          (Inr a, Inr b) \<Rightarrow>
            if isAlignedToSlotGrid a \<and> isAlignedToSlotGrid b \<and> a < b then None
            else Some ErrorInvalidRequest
        | _ \<Rightarrow> Some ErrorInvalidRequest)"

lemma CreateSchedule_refused:
  assumes "calm (env w)" "schedule_refusal u roomID input (db w) = Some c"
  shows "\<exists>e w'. run_state (CreateSchedule u roomID input) w = (Inl e, w') \<and> has_code e c \<and> db w' = db w"
  using assms
  by (auto simp: CreateSchedule_def schedule_from_input_def schedule_refusal_def run_check
      RoomRepo_GetByID_def ScheduleRepo_ExistsByRoomID_def run_db_call_calm select_def not_less
      split: sum.splits if_splits)

lemma CreateSchedule_InrE:
  assumes "run_state (CreateSchedule u roomID input) w = (Inr v, w')"
  obtains a b rows xs where "schedule_refusal u roomID input (db w) = None"
    "schedule_parseTimeOfDay (siStartTime input) = Inr a" "schedule_parseTimeOfDay (siEndTime input) = Inr b"
    "v = \<lparr>vwRoomID = roomID, vwRules = map (\<lambda>day. \<lparr>ruDayOfWeek = day,
      ruStartTime = siStartTime input, ruEndTime = siEndTime input\<rparr>) (schedule_days (siDaysOfWeek input))\<rparr>"
    "map schDayOfWeek xs = schedule_days (siDaysOfWeek input)"
    "\<forall>x \<in> set xs. schRoomID x = roomID \<and> schStartTime x = siStartTime input \<and> schEndTime x = siEndTime input"
    "insert_schedules (pg_time_in (libs (env w))) xs (schedules (db w)) = Inr rows"
    "db w' = (db w)\<lparr>schedules := rows\<rparr>"
proof -
  obtain w1 where ok: "usrRole u = RoleAdmin" "siDaysOfWeek input \<noteq> []"
      "find_row rmID roomID (rooms (db w)) \<noteq> None" "\<not> (\<exists>x \<in> set (schedules (db w)). scrRoomID x = roomID)"
    and w1: "db w1 = db w" "env w1 = env w"
    and tail: "run_state (schedule_from_input roomID input) w1 = (Inr v, w')"
    using assms
    by (auto simp: CreateSchedule_def RoomRepo_GetByID_Inr ScheduleRepo_ExistsByRoomID_def
        db_call_select_Inr elim!: check_InrE split: if_splits) (metis tick_simps(1,4))
  have ref: "schedule_refusal u roomID input (db w) = None"
    using ok tail
    by (auto simp: schedule_refusal_def schedule_from_input_def split: sum.splits if_splits)
  have run: "run_state (insert_schedule_rows roomID input (schedule_days (siDaysOfWeek input))) w1 = (Inr v, w')"
    using tail by (auto simp: schedule_from_input_def split: sum.splits if_splits)
  obtain a b where ab: "schedule_parseTimeOfDay (siStartTime input) = Inr a"
      "schedule_parseTimeOfDay (siEndTime input) = Inr b"
    using ref by (auto simp: schedule_refusal_def split: if_splits sum.splits)
  define createdAt where "createdAt = clock_at (env w1) (ticks w1)"
  obtain xs w2 where new: "run_state (new_schedules roomID input createdAt
      (schedule_days (siDaysOfWeek input))) (tick w1) = (xs, w2)"
    by (cases "run_state (new_schedules roomID input createdAt (schedule_days (siDaysOfWeek input))) (tick w1)")
  note xs = new_schedules_result [OF new]
  have "siDaysOfWeek input \<noteq> []"
    using ref by (auto simp: schedule_refusal_def split: if_splits)
  then have "schedule_days (siDaysOfWeek input) \<noteq> []"
    by (metis empty_set schedule_days_simps(1) set_empty)
  then have "xs \<noteq> []"
    using xs by auto
  obtain w3 where batch: "run_state (ScheduleRepo_CreateBatch xs) w2 = (Inr (), w3)" "db w' = db w3"
    and v: "v = \<lparr>vwRoomID = roomID, vwRules = map (\<lambda>day. \<lparr>ruDayOfWeek = day,
      ruStartTime = siStartTime input, ruEndTime = siEndTime input\<rparr>) (schedule_days (siDaysOfWeek input))\<rparr>"
    using run new by (auto simp: insert_schedule_rows_def createdAt_def split: prod.splits sum.splits if_splits)
  show thesis
    using ScheduleRepo_CreateBatch_Inr [OF batch(1) \<open>xs \<noteq> []\<close>] that [OF ref ab v] xs w1 batch(2)
    by auto
qed

end
