(* ===== verification/Slot_Generator.thy ===== *)
theory Slot_Generator
  imports Booking_Repo Admin_Services
begin

text \<open>
  \<open>internal/app/slotgen\<close>: the generator that keeps the slots of every room materialised for a rolling
  window. \<open>NewGenerator\<close> stores the method value \<open>time.Now().UTC\<close>, whose receiver Go evaluates when
  the generator is made, so the clock of a generator is a constant: field \<open>gnNow\<close>.
\<close>

section \<open>Calendar\<close>

definition SlotDuration :: duration where
  "SlotDuration = 1800000000000"

definition DefaultRollingWindow :: duration where
  "DefaultRollingWindow = 14 * 24 * time_Hour"

definition DefaultMaxBatch :: int where
  "DefaultMaxBatch = 500"

definition truncateToUTCDate :: "time \<Rightarrow> time" where
  "truncateToUTCDate t = t div day_length * day_length"

text \<open>\<open>time.Weekday\<close> of a moment: Sunday is 0, and 1 January 1970 was a Thursday.\<close>

definition go_weekday :: "time \<Rightarrow> int" where
  "go_weekday t = (t div day_length + 4) mod 7"

definition dbWeekdayFromGo :: "int \<Rightarrow> int" where
  "dbWeekdayFromGo wd = (if wd = 0 then 7 else wd)"

definition weekdayMatches :: "time \<Rightarrow> int \<Rightarrow> bool" where
  "weekdayMatches dayUTC dayOfWeek \<longleftrightarrow> dbWeekdayFromGo (go_weekday dayUTC) = dayOfWeek"

definition slotgen_parseTimeOfDay :: "time_of_day \<Rightarrow> go_error + duration" where
  "slotgen_parseTimeOfDay tod =
     (let s = TrimSpace tod in
      if s = '''' then Inl (TextError ''empty time of day'')
      else case parse_layouts s of
        None \<Rightarrow> Inl (FmtError (''parse time of day '' @ s) (TextError ''parse''))
      | Some c \<Rightarrow>
          Inr (clHour c * time_Hour + clMinute c * time_Minute + clSecond c * time_Second + clNano c))"

definition combineDateWithTimeOfDayUTC :: "time \<Rightarrow> duration \<Rightarrow> time" where
  "combineDateWithTimeOfDayUTC dayUTC offset = truncateToUTCDate dayUTC + offset"

definition maxTime :: "time \<Rightarrow> time \<Rightarrow> time" where
  "maxTime a b = (if a > b then a else b)"

definition computeLowerBound :: "time \<Rightarrow> time option \<Rightarrow> time" where
  "computeLowerBound now lastSlotStart =
     (case lastSlotStart of None \<Rightarrow> now | Some t \<Rightarrow> maxTime now (t + SlotDuration))"

definition slotIDNamespace :: uuid where
  "slotIDNamespace = 0xc7f8b2e14c1a5f8b9ad29d0b7c3e8f1a"

definition stableSlotID :: "ext \<Rightarrow> uuid \<Rightarrow> time \<Rightarrow> uuid" where
  "stableSlotID x roomID start =
     uuid_NewSHA1 x slotIDNamespace (uuid_String x roomID @ ''|'' @ FormatInt (int64 start))"

section \<open>Order of the schedules\<close>

fun string_less :: "string \<Rightarrow> string \<Rightarrow> bool" where
  "string_less s [] = False"
| "string_less [] (d # t) = True"
| "string_less (c # s) (d # t) =
     ((of_char c :: nat) < of_char d \<or> c = d \<and> string_less s t)"

definition schedule_less :: "ext \<Rightarrow> schedule \<Rightarrow> schedule \<Rightarrow> bool" where
  "schedule_less x a b =
     (if schDayOfWeek a \<noteq> schDayOfWeek b then schDayOfWeek a < schDayOfWeek b
      else case (slotgen_parseTimeOfDay (schStartTime a), slotgen_parseTimeOfDay (schStartTime b)) of
          (Inr da, Inr db') \<Rightarrow>
            if da \<noteq> db' then da < db'
            else string_less (uuid_String x (schID a)) (uuid_String x (schID b))
        | _ \<Rightarrow> string_less (uuid_String x (schID a)) (uuid_String x (schID b)))"

fun insert_by :: "('a \<Rightarrow> 'a \<Rightarrow> bool) \<Rightarrow> 'a \<Rightarrow> 'a list \<Rightarrow> 'a list" where
  "insert_by lt x [] = [x]"
| "insert_by lt x (y # ys) = (if lt y x then y # insert_by lt x ys else x # y # ys)"

definition sort_slice :: "('a \<Rightarrow> 'a \<Rightarrow> bool) \<Rightarrow> 'a list \<Rightarrow> 'a list" where
  "sort_slice lt xs = foldr (insert_by lt) xs []"

section \<open>The generator\<close>

record generator =
  gnNow :: time
  gnRollingWindow :: duration
  gnMaxBatch :: int

definition NewGenerator :: "generator go" where
  "NewGenerator = do {
     now \<leftarrow> now_utc;
     State_Monad.return
       \<lparr>gnNow = now, gnRollingWindow = DefaultRollingWindow, gnMaxBatch = DefaultMaxBatch\<rparr>
   }"

definition buildSlot :: "ext \<Rightarrow> uuid \<Rightarrow> time \<Rightarrow> time \<Rightarrow> time \<Rightarrow> slot" where
  "buildSlot x roomID start finish createdAt =
     \<lparr>slID = stableSlotID x roomID start, slRoomID = roomID, slStartTime = start,
      slEndTime = finish, slCreatedAt = createdAt\<rparr>"

text \<open>The batch is a slice behind a pointer: the operations return the new one.\<close>

definition flushBatch :: "slot list \<Rightarrow> slot list result go" where
  "flushBatch batch =
     (if batch = [] then ok []
      else check same_error (SlotRepo_InsertBatchIgnoreConflicts batch) (\<lambda>_. ok []))"

definition appendSlot :: "generator \<Rightarrow> slot list \<Rightarrow> slot \<Rightarrow> slot list result go" where
  "appendSlot g batch slot =
     (if int (length (batch @ [slot])) < gnMaxBatch g then ok (batch @ [slot])
      else flushBatch (batch @ [slot]))"

function generate_slots ::
  "generator \<Rightarrow> ext \<Rightarrow> uuid \<Rightarrow> time \<Rightarrow> time \<Rightarrow> time \<Rightarrow> time \<Rightarrow> time \<Rightarrow> slot list \<Rightarrow>
   slot list result go" where
  "generate_slots g x roomID lowerBound target createdAt endOfDay slotStart batch =
     (if slotStart + SlotDuration > endOfDay then ok batch
      else check same_error ctx_Err (\<lambda>_.
        if slotStart < lowerBound
        then generate_slots g x roomID lowerBound target createdAt endOfDay
          (slotStart + SlotDuration) batch
        else if \<not> slotStart < target then ok batch
        else check same_error
          (appendSlot g batch
            (buildSlot x roomID slotStart (slotStart + SlotDuration) createdAt)) (\<lambda>batch.
          generate_slots g x roomID lowerBound target createdAt endOfDay
            (slotStart + SlotDuration) batch)))"
  by pat_completeness auto
termination
  by (relation "measure (\<lambda>(g, x, roomID, lowerBound, target, createdAt, endOfDay, slotStart, batch).
      nat (endOfDay - slotStart))") (auto simp: SlotDuration_def)

declare generate_slots.simps [simp del]

definition generateForSchedule ::
  "generator \<Rightarrow> ext \<Rightarrow> slot list \<Rightarrow> uuid \<Rightarrow> time \<Rightarrow> schedule \<Rightarrow> time \<Rightarrow> time \<Rightarrow> time \<Rightarrow>
   slot list result go" where
  "generateForSchedule g x batch roomID dayUTC sch lowerBound target createdAt =
     (case slotgen_parseTimeOfDay (schStartTime sch) of
        Inl err \<Rightarrow> fail err
      | Inr startDur \<Rightarrow>
          (case slotgen_parseTimeOfDay (schEndTime sch) of
             Inl err \<Rightarrow> fail err
           | Inr endDur \<Rightarrow>
               generate_slots g x roomID lowerBound target createdAt
                 (combineDateWithTimeOfDayUTC dayUTC endDur)
                 (combineDateWithTimeOfDayUTC dayUTC startDur) batch))"

fun generate_day ::
  "generator \<Rightarrow> ext \<Rightarrow> uuid \<Rightarrow> time \<Rightarrow> time \<Rightarrow> time \<Rightarrow> time \<Rightarrow> schedule list \<Rightarrow> slot list \<Rightarrow>
   slot list result go" where
  "generate_day g x roomID lowerBound target createdAt day [] batch = ok batch"
| "generate_day g x roomID lowerBound target createdAt day (sch # schs) batch =
     (if \<not> weekdayMatches day (schDayOfWeek sch)
      then generate_day g x roomID lowerBound target createdAt day schs batch
      else check same_error
        (generateForSchedule g x batch roomID day sch lowerBound target createdAt) (\<lambda>batch.
        generate_day g x roomID lowerBound target createdAt day schs batch))"

function generate_days ::
  "generator \<Rightarrow> ext \<Rightarrow> uuid \<Rightarrow> time \<Rightarrow> time \<Rightarrow> time \<Rightarrow> schedule list \<Rightarrow> time \<Rightarrow> time \<Rightarrow> slot list \<Rightarrow>
   slot list result go" where
  "generate_days g x roomID lowerBound target createdAt schs endDay day batch =
     (if day > endDay then ok batch
      else check same_error ctx_Err (\<lambda>_.
        check same_error (generate_day g x roomID lowerBound target createdAt day schs batch) (\<lambda>batch.
          generate_days g x roomID lowerBound target createdAt schs endDay (day + day_length) batch)))"
  by pat_completeness auto
termination
  by (relation "measure (\<lambda>(g, x, roomID, lowerBound, target, createdAt, schs, endDay, day, batch).
      nat (endDay - day + 1))") (auto simp: day_length_def)

declare generate_days.simps [simp del]

definition generateForRoom ::
  "generator \<Rightarrow> room \<Rightarrow> schedule list \<Rightarrow> time \<Rightarrow> time \<Rightarrow> time \<Rightarrow> unit result go" where
  "generateForRoom g room schs now target createdAt = do {
     x \<leftarrow> asks id;
     check same_error (SlotRepo_GetLastSlotStartByRoomID (rmID room)) (\<lambda>lastStart.
       let lowerBound = computeLowerBound now lastStart
       in check same_error
         (generate_days g x (rmID room) lowerBound target createdAt
           (sort_slice (schedule_less x) schs)
           (truncateToUTCDate target) (truncateToUTCDate lowerBound) [])
         (\<lambda>batch. check same_error (flushBatch batch) (\<lambda>_. ok ())))
   }"

fun generate_rooms ::
  "generator \<Rightarrow> (uuid \<Rightarrow> schedule list) \<Rightarrow> time \<Rightarrow> time \<Rightarrow> room list \<Rightarrow> unit result go" where
  "generate_rooms g schedByRoom now target [] = ok ()"
| "generate_rooms g schedByRoom now target (room # rest) =
     check same_error ctx_Err (\<lambda>_.
       if schedByRoom (rmID room) = [] then generate_rooms g schedByRoom now target rest
       else check same_error (generateForRoom g room (schedByRoom (rmID room)) now target now) (\<lambda>_.
         generate_rooms g schedByRoom now target rest))"

definition Generate :: "generator \<Rightarrow> unit result go" where
  "Generate g =
     check same_error ctx_Err (\<lambda>_.
     check same_error RoomRepo_ListWithSchedule (\<lambda>rms.
       if rms = [] then ok ()
       else check same_error (ScheduleRepo_ListByRoomIDs (map rmID rms)) (\<lambda>schedByRoom.
         generate_rooms g schedByRoom (gnNow g) (gnNow g + gnRollingWindow g) rms)))"

section \<open>Every run only inserts slots\<close>

definition slots_inserted :: "store \<Rightarrow> store \<Rightarrow> bool" where
  "slots_inserted s s' \<longleftrightarrow> (\<exists>xs. insert_slots xs s = Inr s')"

lemma insert_slots_append:
  "insert_slots (xs @ ys) s = (case insert_slots xs s of Inl e \<Rightarrow> Inl e | Inr s' \<Rightarrow> insert_slots ys s')"
  by (induction xs arbitrary: s) (simp_all split: sum.split)

lemma slots_inserted_refl [simp]: "slots_inserted s s"
  unfolding slots_inserted_def by (rule exI [of _ "[]"]) simp

lemma slots_inserted_trans:
  assumes "slots_inserted s1 s2" "slots_inserted s2 s3"
  shows "slots_inserted s1 s3"
proof -
  obtain xs ys where "insert_slots xs s1 = Inr s2" "insert_slots ys s2 = Inr s3"
    using assms by (auto simp: slots_inserted_def)
  then show ?thesis
    unfolding slots_inserted_def by (intro exI [of _ "xs @ ys"]) (simp add: insert_slots_append)
qed

text \<open>The contract of the generator's pieces, whatever happens to them.\<close>

definition only_inserts :: "'a result go \<Rightarrow> bool" where
  "only_inserts m \<longleftrightarrow> (\<forall>w. slots_inserted (db w) (db (snd (run_state m w))))"

lemma only_inserts_ok [simp]: "only_inserts (ok x)" "only_inserts (fail e)"
  by (simp_all add: only_inserts_def)

lemma only_inserts_check [intro]:
  assumes "only_inserts m" "\<And>x. only_inserts (k x)"
  shows "only_inserts (check wrap m k)"
  unfolding only_inserts_def
proof
  fix w
  show "slots_inserted (db w) (db (snd (run_state (check wrap m k) w)))"
    using assms slots_inserted_trans
    by (auto simp: only_inserts_def run_check split: prod.split sum.split) (metis snd_conv)+
qed

lemma only_inserts_select [simp]: "only_inserts (db_call (select q))"
  by (simp add: only_inserts_def run_db_call select_def split: fault.split)

lemma only_inserts_ctx [simp]: "only_inserts ctx_Err"
  by (simp add: only_inserts_def run_ctx_Err)

lemma only_inserts_batch: "only_inserts (SlotRepo_InsertBatchIgnoreConflicts sls)"
proof -
  have "slots_inserted s (snd (sql_slots_batch sls srv s))" for srv s
    by (auto simp: sql_slots_batch_def slots_inserted_def split: sum.split intro: exI [of _ "[]"])
  then show ?thesis
    by (simp add: SlotRepo_InsertBatchIgnoreConflicts_def only_inserts_def run_db_call split: fault.split)
qed

lemma only_inserts_flush: "only_inserts (flushBatch batch)"
  by (auto simp: flushBatch_def intro: only_inserts_batch)

lemma only_inserts_append: "only_inserts (appendSlot g batch slot)"
  by (simp add: appendSlot_def only_inserts_flush)

lemma only_inserts_slots:
  "only_inserts (generate_slots g x roomID lowerBound target createdAt endOfDay slotStart batch)"
proof (induction g x roomID lowerBound target createdAt endOfDay slotStart batch rule: generate_slots.induct)
  case (1 g x roomID lowerBound target createdAt endOfDay slotStart batch)
  then show ?case
    by (subst generate_slots.simps) (auto intro!: only_inserts_check only_inserts_append)
qed

lemma only_inserts_schedule:
  "only_inserts (generateForSchedule g x batch roomID dayUTC sch lowerBound target createdAt)"
  by (simp add: generateForSchedule_def only_inserts_slots split: sum.split)

lemma only_inserts_day:
  "only_inserts (generate_day g x roomID lowerBound target createdAt day schs batch)"
  by (induction schs arbitrary: batch) (auto intro!: only_inserts_check only_inserts_schedule)

lemma only_inserts_days:
  "only_inserts (generate_days g x roomID lowerBound target createdAt schs endDay day batch)"
proof (induction g x roomID lowerBound target createdAt schs endDay day batch rule: generate_days.induct)
  case (1 g x roomID lowerBound target createdAt schs endDay day batch)
  then show ?case
    by (subst generate_days.simps) (auto intro!: only_inserts_check only_inserts_day)
qed

lemma only_inserts_asks: "(\<And>x. only_inserts (k x)) \<Longrightarrow> only_inserts (State_Monad.bind (asks f) k)"
  by (simp add: only_inserts_def)

lemma only_inserts_room: "only_inserts (generateForRoom g room schs now target createdAt)"
  unfolding generateForRoom_def SlotRepo_GetLastSlotStartByRoomID_def Let_def
  by (intro only_inserts_asks only_inserts_check only_inserts_days only_inserts_flush) simp_all

lemma only_inserts_rooms: "only_inserts (generate_rooms g schedByRoom now target rms)"
  by (induction rms) (auto intro!: only_inserts_check only_inserts_room)

lemma only_inserts_Generate: "only_inserts (Generate g)"
  by (auto simp: Generate_def RoomRepo_ListWithSchedule_def ScheduleRepo_ListByRoomIDs_def
      intro!: only_inserts_check only_inserts_rooms only_inserts_asks)

lemma Generate_app_ok:
  assumes "app_ok (db w)"
  shows "app_ok (db (snd (run_state (Generate g) w)))"
proof -
  obtain xs where "insert_slots xs (db w) = Inr (db (snd (run_state (Generate g) w)))"
    using only_inserts_Generate by (auto simp: only_inserts_def slots_inserted_def)
  then show ?thesis
    using assms by (rule app_ok_insert_slots)
qed

lemma Generate_served:
  assumes "queue_served (db w)"
  shows "queue_served (db (snd (run_state (Generate g) w)))"
proof -
  obtain xs where "insert_slots xs (db w) = Inr (db (snd (run_state (Generate g) w)))"
    using only_inserts_Generate by (auto simp: only_inserts_def slots_inserted_def)
  then show ?thesis
    using assms served_frame insert_slots_frame by metis
qed

section \<open>The plan\<close>

function slot_starts :: "time \<Rightarrow> time \<Rightarrow> time list" where
  "slot_starts endOfDay start =
     (if start + SlotDuration > endOfDay then [] else start # slot_starts endOfDay (start + SlotDuration))"
  by pat_completeness auto
termination
  by (relation "measure (\<lambda>(endOfDay, start). nat (endOfDay - start))") (auto simp: SlotDuration_def)

declare slot_starts.simps [simp del]

lemma slot_starts_iff:
  "t \<in> set (slot_starts endOfDay start) \<longleftrightarrow>
    (\<exists>n. t = start + int n * SlotDuration) \<and> t + SlotDuration \<le> endOfDay"
proof (induction endOfDay start rule: slot_starts.induct)
  case (1 endOfDay start)
  show ?case
  proof (cases "start + SlotDuration > endOfDay")
    case True
    then have "slot_starts endOfDay start = []"
      by (subst slot_starts.simps) simp
    moreover have "\<not> (start + int n * SlotDuration + SlotDuration \<le> endOfDay)" for n
      using True by (simp add: SlotDuration_def)
    ultimately show ?thesis by auto
  next
    case False
    then have "slot_starts endOfDay start = start # slot_starts endOfDay (start + SlotDuration)"
      by (subst slot_starts.simps) simp
    moreover have "(\<exists>n. t = start + int n * SlotDuration) \<longleftrightarrow>
        t = start \<or> (\<exists>n. t = start + SlotDuration + int n * SlotDuration)"
    proof
      assume "\<exists>n. t = start + int n * SlotDuration"
      then obtain n where n: "t = start + int n * SlotDuration" by blast
      then show "t = start \<or> (\<exists>n. t = start + SlotDuration + int n * SlotDuration)"
        by (cases n) (auto simp: algebra_simps)
    next
      assume "t = start \<or> (\<exists>n. t = start + SlotDuration + int n * SlotDuration)"
      then show "\<exists>n. t = start + int n * SlotDuration"
      proof
        assume "t = start"
        then show ?thesis by (intro exI [of _ 0]) simp
      next
        assume "\<exists>n. t = start + SlotDuration + int n * SlotDuration"
        then obtain n where "t = start + int (Suc n) * SlotDuration"
          by (auto simp: algebra_simps)
        then show ?thesis by blast
      qed
    qed
    ultimately show ?thesis
      using 1 False by auto
  qed
qed

definition planned_slots ::
  "ext \<Rightarrow> uuid \<Rightarrow> time \<Rightarrow> time \<Rightarrow> time \<Rightarrow> time \<Rightarrow> time \<Rightarrow> slot list" where
  "planned_slots x roomID lowerBound target createdAt endOfDay start =
     map (\<lambda>t. buildSlot x roomID t (t + SlotDuration) createdAt)
       (filter (\<lambda>t. lowerBound \<le> t \<and> t < target) (slot_starts endOfDay start))"

definition planned_schedule ::
  "ext \<Rightarrow> uuid \<Rightarrow> time \<Rightarrow> time \<Rightarrow> time \<Rightarrow> time \<Rightarrow> schedule \<Rightarrow> slot list" where
  "planned_schedule x roomID lowerBound target createdAt day sch =
     (if weekdayMatches day (schDayOfWeek sch)
      then case (slotgen_parseTimeOfDay (schStartTime sch), slotgen_parseTimeOfDay (schEndTime sch)) of
          (Inr a, Inr b) \<Rightarrow>
            planned_slots x roomID lowerBound target createdAt
              (combineDateWithTimeOfDayUTC day b) (combineDateWithTimeOfDayUTC day a)
        | _ \<Rightarrow> []
      else [])"

definition planned_day ::
  "ext \<Rightarrow> uuid \<Rightarrow> time \<Rightarrow> time \<Rightarrow> time \<Rightarrow> time \<Rightarrow> schedule list \<Rightarrow> slot list" where
  "planned_day x roomID lowerBound target createdAt day schs =
     concat (map (planned_schedule x roomID lowerBound target createdAt day) schs)"

function planned_days ::
  "ext \<Rightarrow> uuid \<Rightarrow> time \<Rightarrow> time \<Rightarrow> time \<Rightarrow> schedule list \<Rightarrow> time \<Rightarrow> time \<Rightarrow> slot list" where
  "planned_days x roomID lowerBound target createdAt schs endDay day =
     (if day > endDay then []
      else planned_day x roomID lowerBound target createdAt day schs @
        planned_days x roomID lowerBound target createdAt schs endDay (day + day_length))"
  by pat_completeness auto
termination
  by (relation "measure (\<lambda>(x, roomID, lowerBound, target, createdAt, schs, endDay, day).
      nat (endDay - day + 1))") (auto simp: day_length_def)

declare planned_days.simps [simp del]

section \<open>A successful run inserts the plan\<close>

text \<open>
  A step of the generator that turned \<open>batch\<close> into \<open>batch'\<close> has sent the slots \<open>xs\<close> on their way: what
  it flushed, followed by the new batch, is the old batch followed by \<open>xs\<close>.
\<close>

definition emits :: "world \<Rightarrow> slot list \<Rightarrow> slot list \<Rightarrow> world \<Rightarrow> slot list \<Rightarrow> bool" where
  "emits w batch xs w' batch' \<longleftrightarrow> env w' = env w \<and>
     (\<exists>flushed. batch @ xs = flushed @ batch' \<and> insert_slots flushed (db w) = Inr (db w'))"

lemma emits_nothing: "db w' = db w \<Longrightarrow> env w' = env w \<Longrightarrow> emits w batch [] w' batch"
  unfolding emits_def by (intro conjI exI [of _ "[]"]) simp_all

lemma emits_trans:
  assumes "emits w b xs w1 b1" "emits w1 b1 ys w2 b2"
  shows "emits w b (xs @ ys) w2 b2"
proof -
  obtain f1 f2 where f: "b @ xs = f1 @ b1" "insert_slots f1 (db w) = Inr (db w1)"
      "b1 @ ys = f2 @ b2" "insert_slots f2 (db w1) = Inr (db w2)"
    using assms by (auto simp: emits_def)
  then have "b @ xs @ ys = (f1 @ f2) @ b2" "insert_slots (f1 @ f2) (db w) = Inr (db w2)"
    by (simp_all add: insert_slots_append) (metis append.assoc)
  then show ?thesis
    using assms unfolding emits_def by metis
qed

lemma emits_start: "emits w1 b xs w2 b' \<Longrightarrow> db w1 = db w \<Longrightarrow> env w1 = env w \<Longrightarrow> emits w b xs w2 b'"
  by (simp add: emits_def)

lemma ctx_Err_Inr: "run_state ctx_Err w = (Inr u, w') \<Longrightarrow> db w' = db w \<and> env w' = env w"
  by (auto simp: run_ctx_Err split: if_splits)

lemma flushBatch_Inr:
  assumes "run_state (flushBatch batch) w = (Inr batch', w')"
  shows "batch' = [] \<and> insert_slots batch (db w) = Inr (db w') \<and> env w' = env w"
  using assms
  by (auto simp: flushBatch_def SlotRepo_InsertBatchIgnoreConflicts_def db_call_Inr sql_slots_batch_def
      elim!: check_InrE split: if_splits sum.splits)

lemma appendSlot_emits:
  assumes "run_state (appendSlot g batch slot) w = (Inr batch', w')"
  shows "emits w batch [slot] w' batch'"
proof (cases "int (length (batch @ [slot])) < gnMaxBatch g")
  case True
  then have "batch' = batch @ [slot]" "w' = w"
    using assms by (auto simp: appendSlot_def)
  then show ?thesis
    unfolding emits_def by (intro conjI exI [of _ "[]"]) simp_all
next
  case False
  then have "run_state (flushBatch (batch @ [slot])) w = (Inr batch', w')"
    using assms by (simp add: appendSlot_def)
  then show ?thesis
    unfolding emits_def by (auto dest: flushBatch_Inr)
qed

lemma slot_starts_later: "t \<in> set (slot_starts endOfDay start) \<Longrightarrow> start \<le> t"
  by (auto simp: slot_starts_iff SlotDuration_def)

lemma planned_slots_step:
  "planned_slots x roomID lowerBound target createdAt endOfDay start =
    (if start + SlotDuration > endOfDay then []
     else (if lowerBound \<le> start \<and> start < target
           then [buildSlot x roomID start (start + SlotDuration) createdAt] else []) @
       planned_slots x roomID lowerBound target createdAt endOfDay (start + SlotDuration))"
  unfolding planned_slots_def by (subst slot_starts.simps) simp

lemma planned_slots_past_target:
  assumes "\<not> start < target"
  shows "planned_slots x roomID lowerBound target createdAt endOfDay start = []"
  using assms slot_starts_later by (fastforce simp: planned_slots_def filter_empty_conv)

lemma generate_slots_emits:
  assumes "run_state (generate_slots g x roomID lowerBound target createdAt endOfDay slotStart batch) w =
    (Inr batch', w')"
  shows "emits w batch (planned_slots x roomID lowerBound target createdAt endOfDay slotStart) w' batch'"
  using assms
proof (induction g x roomID lowerBound target createdAt endOfDay slotStart batch
    arbitrary: w rule: generate_slots.induct)
  case (1 g x roomID lowerBound target createdAt endOfDay slotStart batch)
  let ?plan = "planned_slots x roomID lowerBound target createdAt endOfDay"
  show ?case
  proof (cases "slotStart + SlotDuration > endOfDay")
    case True
    then have "batch' = batch" "w' = w"
      using 1(3) by (subst (asm) generate_slots.simps; simp)+
    with True show ?thesis
      by (subst planned_slots_step) (simp add: emits_nothing)
  next
    case False
    obtain w1 where w1: "db w1 = db w" "env w1 = env w" and run: "run_state
       (if slotStart < lowerBound
        then generate_slots g x roomID lowerBound target createdAt endOfDay
          (slotStart + SlotDuration) batch
        else if \<not> slotStart < target then ok batch
        else check same_error
          (appendSlot g batch
            (buildSlot x roomID slotStart (slotStart + SlotDuration) createdAt)) (\<lambda>batch.
          generate_slots g x roomID lowerBound target createdAt endOfDay
            (slotStart + SlotDuration) batch)) w1 = (Inr batch', w')"
      using 1(3) False by (subst (asm) generate_slots.simps) (auto elim!: check_InrE dest: ctx_Err_Inr)
    consider (early) "slotStart < lowerBound" | (late) "\<not> slotStart < lowerBound" "\<not> slotStart < target"
      | (fits) "\<not> slotStart < lowerBound" "slotStart < target" by blast
    then have "emits w1 batch (?plan slotStart) w' batch'"
    proof cases
      case early
      then have "emits w1 batch (?plan (slotStart + SlotDuration)) w' batch'"
        using 1(1) [OF False early] run by simp
      moreover have "?plan slotStart = ?plan (slotStart + SlotDuration)"
        using False early by (subst planned_slots_step) simp
      ultimately show ?thesis by simp
    next
      case late
      then show ?thesis
        using run planned_slots_past_target by (simp add: emits_nothing)
    next
      case fits
      let ?slot = "buildSlot x roomID slotStart (slotStart + SlotDuration) createdAt"
      obtain b1 w2 where append: "run_state (appendSlot g batch ?slot) w1 = (Inr b1, w2)"
        and rest: "run_state (generate_slots g x roomID lowerBound target createdAt endOfDay
          (slotStart + SlotDuration) b1) w2 = (Inr batch', w')"
        using run fits by (auto elim: check_InrE)
      have "emits w2 b1 (?plan (slotStart + SlotDuration)) w' batch'"
        using 1(2) [OF False] fits rest by blast
      moreover have "?plan slotStart = [?slot] @ ?plan (slotStart + SlotDuration)"
        using False fits by (subst planned_slots_step) simp
      ultimately show ?thesis
        using emits_trans [OF appendSlot_emits [OF append]] by simp
    qed
    then show ?thesis
      using w1 by (rule emits_start)
  qed
qed

lemma generate_day_emits:
  assumes "run_state (generate_day g x roomID lowerBound target createdAt day schs batch) w =
    (Inr batch', w')"
  shows "emits w batch (planned_day x roomID lowerBound target createdAt day schs) w' batch'"
  using assms
proof (induction schs arbitrary: batch w)
  case Nil
  then show ?case by (simp add: emits_nothing planned_day_def)
next
  case (Cons sch schs)
  show ?case
  proof (cases "weekdayMatches day (schDayOfWeek sch)")
    case False
    then show ?thesis using Cons by (simp add: planned_day_def planned_schedule_def)
  next
    case True
    obtain b1 w1 where first: "run_state
        (generateForSchedule g x batch roomID day sch lowerBound target createdAt) w = (Inr b1, w1)"
      and rest: "run_state (generate_day g x roomID lowerBound target createdAt day schs b1) w1 =
        (Inr batch', w')"
      using Cons.prems True by (auto elim: check_InrE)
    obtain a b where ab: "slotgen_parseTimeOfDay (schStartTime sch) = Inr a"
        "slotgen_parseTimeOfDay (schEndTime sch) = Inr b"
      and run: "run_state (generate_slots g x roomID lowerBound target createdAt
        (combineDateWithTimeOfDayUTC day b) (combineDateWithTimeOfDayUTC day a) batch) w = (Inr b1, w1)"
      using first by (auto simp: generateForSchedule_def split: sum.splits)
    show ?thesis
      using emits_trans [OF generate_slots_emits [OF run] Cons.IH [OF rest]] True ab
      by (simp add: planned_day_def planned_schedule_def)
  qed
qed

lemma generate_days_emits:
  assumes "run_state (generate_days g x roomID lowerBound target createdAt schs endDay day batch) w =
    (Inr batch', w')"
  shows "emits w batch (planned_days x roomID lowerBound target createdAt schs endDay day) w' batch'"
  using assms
proof (induction g x roomID lowerBound target createdAt schs endDay day batch
    arbitrary: w rule: generate_days.induct)
  case (1 g x roomID lowerBound target createdAt schs endDay day batch)
  show ?case
  proof (cases "day > endDay")
    case True
    then have "batch' = batch" "w' = w"
      using 1(2) by (subst (asm) generate_days.simps; simp)+
    with True show ?thesis
      by (subst planned_days.simps) (simp add: emits_nothing)
  next
    case False
    obtain w1 b1 w2 where w1: "db w1 = db w" "env w1 = env w"
      and first: "run_state (generate_day g x roomID lowerBound target createdAt day schs batch) w1 =
        (Inr b1, w2)"
      and rest: "run_state (generate_days g x roomID lowerBound target createdAt schs endDay
        (day + day_length) b1) w2 = (Inr batch', w')"
      using 1(2) False
      by (subst (asm) generate_days.simps) (auto elim!: check_InrE dest: ctx_Err_Inr)
    have "emits w1 batch (planned_day x roomID lowerBound target createdAt day schs @
        planned_days x roomID lowerBound target createdAt schs endDay (day + day_length)) w' batch'"
      using emits_trans [OF generate_day_emits [OF first] 1(1) [OF False rest]] .
    moreover have "planned_days x roomID lowerBound target createdAt schs endDay day =
        planned_day x roomID lowerBound target createdAt day schs @
        planned_days x roomID lowerBound target createdAt schs endDay (day + day_length)"
      using False by (subst planned_days.simps) simp
    ultimately show ?thesis
      using w1 emits_start by metis
  qed
qed

definition room_plan ::
  "ext \<Rightarrow> store \<Rightarrow> room \<Rightarrow> schedule list \<Rightarrow> time \<Rightarrow> time \<Rightarrow> time \<Rightarrow> slot list" where
  "room_plan x s room schs now target createdAt =
     (let lowerBound = computeLowerBound now (last_start s (rmID room))
      in planned_days x (rmID room) lowerBound target createdAt (sort_slice (schedule_less x) schs)
        (truncateToUTCDate target) (truncateToUTCDate lowerBound))"

lemma generateForRoom_Inr:
  assumes "run_state (generateForRoom g room schs now target createdAt) w = (Inr u, w')"
  shows "insert_slots (room_plan (libs (env w)) (db w) room schs now target createdAt) (db w) = Inr (db w') \<and>
    env w' = env w"
proof -
  let ?x = "libs (env w)" and ?lower = "computeLowerBound now (last_start (db w) (rmID room))"
  obtain batch w1 batch' where days: "run_state (generate_days g ?x (rmID room) ?lower target createdAt
      (sort_slice (schedule_less ?x) schs) (truncateToUTCDate target) (truncateToUTCDate ?lower) [])
      (tick w) = (Inr batch, w1)"
    and flush: "run_state (flushBatch batch) w1 = (Inr batch', w')"
    using assms
    by (auto simp: generateForRoom_def SlotRepo_GetLastSlotStartByRoomID_def db_call_select_Inr Let_def
        elim!: check_InrE)
  have "emits (tick w) [] (room_plan ?x (db w) room schs now target createdAt) w1 batch"
    using generate_days_emits [OF days] by (simp add: room_plan_def Let_def)
  then obtain flushed where f: "room_plan ?x (db w) room schs now target createdAt = flushed @ batch"
      "insert_slots flushed (db w) = Inr (db w1)" "env w1 = env w"
    by (auto simp: emits_def)
  then show ?thesis
    using flushBatch_Inr [OF flush] by (simp add: insert_slots_append)
qed

section \<open>What the plan contains\<close>

lemma set_insert_by [simp]: "set (insert_by lt x xs) = insert x (set xs)"
  by (induction xs) auto

lemma set_sort_slice [simp]: "set (sort_slice lt xs) = set xs"
  unfolding sort_slice_def by (induction xs) auto

lemma set_planned_slots:
  "sl \<in> set (planned_slots x roomID lowerBound target createdAt endOfDay start) \<longleftrightarrow>
    (\<exists>t n. sl = buildSlot x roomID t (t + SlotDuration) createdAt \<and> t = start + int n * SlotDuration \<and>
      t + SlotDuration \<le> endOfDay \<and> lowerBound \<le> t \<and> t < target)"
  by (auto simp: planned_slots_def slot_starts_iff)

definition opens :: "schedule \<Rightarrow> time \<Rightarrow> time \<Rightarrow> bool" where
  "opens sch day t \<longleftrightarrow> weekdayMatches day (schDayOfWeek sch) \<and>
     (\<exists>a b n. slotgen_parseTimeOfDay (schStartTime sch) = Inr a \<and>
       slotgen_parseTimeOfDay (schEndTime sch) = Inr b \<and>
       t = combineDateWithTimeOfDayUTC day a + int n * SlotDuration \<and>
       t + SlotDuration \<le> combineDateWithTimeOfDayUTC day b)"

lemma set_planned_schedule:
  "sl \<in> set (planned_schedule x roomID lowerBound target createdAt day sch) \<longleftrightarrow>
    (\<exists>t. opens sch day t \<and> lowerBound \<le> t \<and> t < target \<and>
      sl = buildSlot x roomID t (t + SlotDuration) createdAt)"
proof (cases "\<exists>a b. slotgen_parseTimeOfDay (schStartTime sch) = Inr a \<and>
    slotgen_parseTimeOfDay (schEndTime sch) = Inr b")
  case True
  then obtain a b where ab: "slotgen_parseTimeOfDay (schStartTime sch) = Inr a"
      "slotgen_parseTimeOfDay (schEndTime sch) = Inr b" by blast
  have "opens sch day t \<longleftrightarrow> weekdayMatches day (schDayOfWeek sch) \<and>
      (\<exists>n. t = combineDateWithTimeOfDayUTC day a + int n * SlotDuration) \<and>
      t + SlotDuration \<le> combineDateWithTimeOfDayUTC day b" for t
    unfolding opens_def ab by blast
  moreover have "planned_schedule x roomID lowerBound target createdAt day sch =
      (if weekdayMatches day (schDayOfWeek sch)
       then planned_slots x roomID lowerBound target createdAt
         (combineDateWithTimeOfDayUTC day b) (combineDateWithTimeOfDayUTC day a)
       else [])"
    by (simp add: planned_schedule_def ab)
  ultimately show ?thesis
    by (auto simp: set_planned_slots)
next
  case False
  then have "\<not> opens sch day t" for t
    unfolding opens_def by blast
  moreover have "planned_schedule x roomID lowerBound target createdAt day sch = []"
    using False by (auto simp: planned_schedule_def split: sum.splits)
  ultimately show ?thesis by simp
qed

lemma set_planned_day:
  "sl \<in> set (planned_day x roomID lowerBound target createdAt day schs) \<longleftrightarrow>
    (\<exists>sch \<in> set schs. \<exists>t. opens sch day t \<and> lowerBound \<le> t \<and> t < target \<and>
      sl = buildSlot x roomID t (t + SlotDuration) createdAt)"
  by (auto simp: planned_day_def set_planned_schedule)

lemma set_planned_days:
  "sl \<in> set (planned_days x roomID lowerBound target createdAt schs endDay day) \<longleftrightarrow>
    (\<exists>n. day + int n * day_length \<le> endDay \<and>
      sl \<in> set (planned_day x roomID lowerBound target createdAt (day + int n * day_length) schs))"
proof (induction x roomID lowerBound target createdAt schs endDay day rule: planned_days.induct)
  case (1 x roomID lowerBound target createdAt schs endDay day)
  let ?in = "\<lambda>d. sl \<in> set (planned_day x roomID lowerBound target createdAt d schs)"
  show ?case
  proof (cases "day > endDay")
    case True
    then have "\<not> (day + int n * day_length \<le> endDay)" for n
      by (simp add: day_length_def)
    with True show ?thesis
      by (subst planned_days.simps) simp
  next
    case False
    have "(\<exists>n. day + int n * day_length \<le> endDay \<and> ?in (day + int n * day_length)) \<longleftrightarrow>
        ?in day \<or> (\<exists>n. day + day_length + int n * day_length \<le> endDay \<and>
          ?in (day + day_length + int n * day_length))" (is "?L \<longleftrightarrow> ?R")
    proof
      assume ?L
      then obtain n where n: "day + int n * day_length \<le> endDay" "?in (day + int n * day_length)" by blast
      then show ?R
        by (cases n) (auto simp: algebra_simps)
    next
      assume ?R
      then show ?L
      proof
        assume "?in day"
        then show ?L using False by (intro exI [of _ 0]) simp
      next
        assume "\<exists>n. day + day_length + int n * day_length \<le> endDay \<and>
          ?in (day + day_length + int n * day_length)"
        then obtain n where "day + int (Suc n) * day_length \<le> endDay"
            "?in (day + int (Suc n) * day_length)"
          by (auto simp: algebra_simps)
        then show ?L by blast
      qed
    qed
    then show ?thesis
      using 1 [OF False] False by (subst planned_days.simps) simp
  qed
qed

end
