(* ===== verification/Slot_Machine.thy ===== *)
theory Slot_Machine
  imports Reservation_Contract Auth_Service Slot_Generator
begin

text \<open>
  The abstract specification of the booking rules: a slot is free, booked by a user or held for a
  user, and has a line of users waiting for it. \<open>machine\<close> says what an action of a user, or the
  expiry of a reservation, makes of a slot, if it is allowed at all. The lemmas here compute what each
  statement of the use cases does to this view of the database; the theory \<open>System\<close> concludes that
  every operation of the service is, slot by slot, one action of its own kind or none.
\<close>

section \<open>The machine\<close>

datatype phase = Free | BookedBy uuid | HeldFor uuid

fun pass_on :: "uuid list \<Rightarrow> phase \<times> uuid list" where
  "pass_on [] = (Free, [])"
| "pass_on (u # us) = (HeldFor u, us)"

datatype action =
    Book uuid | Unbook uuid | Confirm uuid | Give_up uuid | Expire | Join uuid | Leave uuid

fun machine :: "action \<Rightarrow> phase \<times> uuid list \<Rightarrow> (phase \<times> uuid list) option" where
  "machine (Book v) (Free, us) = Some (BookedBy v, us)"
| "machine (Unbook v) (BookedBy u, us) = (if u = v then Some (pass_on us) else None)"
| "machine (Confirm v) (HeldFor u, us) = (if u = v then Some (BookedBy u, us) else None)"
| "machine (Give_up v) (HeldFor u, us) = (if u = v then Some (pass_on us) else None)"
| "machine Expire (HeldFor u, us) = Some (pass_on us)"
| "machine (Join v) (BookedBy u, us) =
     (if v \<noteq> u \<and> v \<notin> set us then Some (BookedBy u, us @ [v]) else None)"
| "machine (Leave v) (p, us) = (if v \<in> set us then Some (p, remove1 v us) else None)"
| "machine _ _ = None"

lemma machine_leave: "u \<in> set (snd x) \<Longrightarrow> machine (Leave u) x = Some (fst x, remove1 u (snd x))"
  by (cases x) simp

section \<open>The view of the database\<close>

definition bookers :: "store \<Rightarrow> uuid \<Rightarrow> uuid list" where
  "bookers s k = map bkUserID (filter (\<lambda>b. bk_active b \<and> bkSlotID b = k) (bookings s))"

definition holders :: "store \<Rightarrow> uuid \<Rightarrow> uuid list" where
  "holders s k = map rvUserID (filter (\<lambda>r. rv_active r \<and> rvSlotID r = k) (reservations s))"

definition phase_of :: "uuid list \<Rightarrow> uuid list \<Rightarrow> phase" where
  "phase_of bs hs = (case bs of u # _ \<Rightarrow> BookedBy u | [] \<Rightarrow> (case hs of u # _ \<Rightarrow> HeldFor u | [] \<Rightarrow> Free))"

definition waiting :: "store \<Rightarrow> uuid \<Rightarrow> waitlist_entry list" where
  "waiting s k = sort_key wePosition (filter (\<lambda>e. we_active e \<and> weSlotID e = k) (waitlist s))"

definition snapshot :: "store \<Rightarrow> uuid \<Rightarrow> phase \<times> uuid list" where
  "snapshot s k = (phase_of (bookers s k) (holders s k), map weUserID (waiting s k))"

text \<open>Every slot stays as it is or makes one of the actions allowed to it.\<close>

definition slots_move :: "(uuid \<Rightarrow> action set) \<Rightarrow> store \<Rightarrow> store \<Rightarrow> bool" where
  "slots_move acts s s' \<longleftrightarrow>
     (\<forall>k. snapshot s' k = snapshot s k \<or> (\<exists>a \<in> acts k. machine a (snapshot s k) = Some (snapshot s' k)))"

definition only_if :: "(uuid \<Rightarrow> bool) \<Rightarrow> action \<Rightarrow> uuid \<Rightarrow> action set" where
  "only_if P a k = (if P k then {a} else {})"

lemma only_if_mem [simp]: "x \<in> only_if P a k \<longleftrightarrow> P k \<and> x = a"
  by (simp add: only_if_def)

lemma phase_of_simps [simp]:
  "phase_of (u # bs) hs = BookedBy u" "phase_of [] (u # hs) = HeldFor u" "phase_of [] [] = Free"
  by (simp_all add: phase_of_def)

lemma no_bookers: "bookers s k = [] \<longleftrightarrow> \<not> slot_booked s k"
  by (auto simp: bookers_def slot_booked_def filter_empty_conv)

lemma no_holders: "holders s k = [] \<longleftrightarrow> \<not> slot_reserved s k"
  by (auto simp: holders_def slot_reserved_def filter_empty_conv)

lemma slots_move_same: "(\<And>k. snapshot s' k = snapshot s k) \<Longrightarrow> slots_move acts s s'"
  by (simp add: slots_move_def)

lemma slots_move_one:
  assumes "\<And>k. k \<noteq> k0 \<Longrightarrow> snapshot s' k = snapshot s k" "machine a (snapshot s k0) = Some (snapshot s' k0)"
    "a \<in> acts k0"
  shows "slots_move acts s s'"
  using assms unfolding slots_move_def by metis

lemma snapshot_frame:
  "bookings s' = bookings s \<Longrightarrow> waitlist s' = waitlist s \<Longrightarrow> reservations s' = reservations s \<Longrightarrow>
    snapshot s' k = snapshot s k"
  by (simp add: snapshot_def bookers_def holders_def waiting_def)

section \<open>Rows under a partial index\<close>

lemma filter_retire:
  "(\<And>r. P r \<Longrightarrow> \<not> L (f r)) \<Longrightarrow> filter L (update_where P f rows) = filter (\<lambda>r. L r \<and> \<not> P r) rows"
  by (induction rows) auto

lemma filter_none_changed:
  "(\<And>r. r \<in> set rows \<Longrightarrow> L r \<Longrightarrow> \<not> P r) \<Longrightarrow> filter (\<lambda>r. L r \<and> \<not> P r) rows = filter L rows"
  by (rule filter_cong) auto

lemma filter_index_single:
  assumes "index_ok live grp rows" "x \<in> set rows" "live x" "grp x = g"
  shows "filter (\<lambda>r. live r \<and> grp r = g) rows = [x]"
proof -
  let ?xs = "filter (\<lambda>r. live r \<and> grp r = g) rows"
  have "?xs = filter (\<lambda>r. grp r = g) (filter live rows)"
    by (simp add: conj_commute)
  then have "distinct (map grp ?xs)"
    using assms(1) distinct_map_filter unfolding index_ok_def by metis
  moreover have "set ?xs = {x}"
    using assms index_okD [OF assms(1)] by fastforce
  ultimately show ?thesis
    by (cases ?xs rule: remdups_adj.cases) auto
qed

lemma sort_key_snoc:
  assumes "\<And>x. x \<in> set xs \<Longrightarrow> f x \<le> f y"
  shows "sort_key f (xs @ [y]) = sort_key f xs @ [y]"
proof -
  have insort: "insort_key f x (zs @ [y]) = insort_key f x zs @ [y]" if "f x \<le> f y" for x zs
    using that by (induction zs) auto
  show ?thesis
    using assms by (induction xs) (simp_all add: insort)
qed

section \<open>Bookings and reservations\<close>

lemma bookers_add [simp]:
  "bookers (add_booking (new_booking i u k0 now) s) k = bookers s k @ (if k = k0 then [usrID u] else [])"
  by (simp add: bookers_def add_booking_def new_booking_def bk_active_def)

lemma add_booking_others [simp]:
  "holders (add_booking b s) k = holders s k" "waiting (add_booking b s) k = waiting s k"
  by (simp_all add: holders_def waiting_def add_booking_def)

lemma bookers_single:
  assumes "store_ok s" "b \<in> set (bookings s)" "bk_active b"
  shows "bookers s (bkSlotID b) = [bkUserID b]"
  using assms filter_index_single [of bk_active bkSlotID "bookings s" b "bkSlotID b"]
  by (simp add: bookers_def store_ok_def bookings_ok_def)

lemma holders_single:
  assumes "store_ok s" "r \<in> set (reservations s)" "rv_active r"
  shows "holders s (rvSlotID r) = [rvUserID r]"
  using assms filter_index_single [of rv_active rvSlotID "reservations s" r "rvSlotID r"]
  by (simp add: holders_def store_ok_def reservations_ok_def)

lemma bookers_cancel:
  assumes "store_ok s" "b \<in> set (bookings s)" "bk_active b"
  shows "bookers (cancel_booking (bkID b) s) k = (if k = bkSlotID b then [] else bookers s k)"
proof -
  have key: "x = b" if "x \<in> set (bookings s)" "bkID x = bkID b" for x
    using that assms by (auto simp: store_ok_defs distinct_map inj_on_def)
  have group: "x = b" if "x \<in> set (bookings s)" "bk_active x" "bkSlotID x = bkSlotID b" for x
    using that assms index_okD by (fastforce simp: store_ok_def bookings_ok_def)
  have "bookers (cancel_booking (bkID b) s) k =
      map bkUserID (filter (\<lambda>x. (bk_active x \<and> bkSlotID x = k) \<and> \<not> (bkID x = bkID b \<and> bk_active x)) (bookings s))"
    unfolding bookers_def cancel_booking_def by (simp add: filter_retire bk_cancel_def bk_active_def)
  also have "\<dots> = (if k = bkSlotID b then [] else bookers s k)"
    using key group by (auto simp: bookers_def filter_empty_conv intro!: arg_cong [of _ _ "map bkUserID"] filter_cong)
  finally show ?thesis .
qed

lemma cancel_booking_others [simp]:
  "holders (cancel_booking i s) k = holders s k" "waiting (cancel_booking i s) k = waiting s k"
  by (simp_all add: holders_def waiting_def cancel_booking_def)

text \<open>Taking reservations out of the index, one by its identifier or a set of them.\<close>

lemma holders_retire:
  assumes "store_ok s" "\<And>r. \<not> rv_active (put r)"
    "\<And>r. r \<in> set (reservations s) \<Longrightarrow> P r \<Longrightarrow> rv_active r"
  shows "holders (s\<lparr>reservations := update_where P put (reservations s)\<rparr>) k =
    (if \<exists>r \<in> set (reservations s). P r \<and> rvSlotID r = k then [] else holders s k)"
proof -
  have group: "x = y" if "x \<in> set (reservations s)" "y \<in> set (reservations s)" "rv_active x" "rv_active y"
      "rvSlotID x = rvSlotID y" for x y
    using that assms index_okD by (fastforce simp: store_ok_def reservations_ok_def)
  have "holders (s\<lparr>reservations := update_where P put (reservations s)\<rparr>) k =
      map rvUserID (filter (\<lambda>x. (rv_active x \<and> rvSlotID x = k) \<and> \<not> P x) (reservations s))"
    unfolding holders_def using assms(2) by (simp add: filter_retire)
  also have "\<dots> = (if \<exists>r \<in> set (reservations s). P r \<and> rvSlotID r = k then [] else holders s k)"
    using group assms(3)
    by (auto simp: holders_def filter_empty_conv intro!: arg_cong [of _ _ "map rvUserID"] filter_cong)
  finally show ?thesis .
qed

lemma holders_set:
  assumes "store_ok s" "r \<in> set (reservations s)" "rv_active r" "\<And>r. \<not> rv_active (put r)"
  shows "holders (set_reservation put (rvID r) s) k = (if k = rvSlotID r then [] else holders s k)"
proof -
  have key: "x = r" if "x \<in> set (reservations s)" "rvID x = rvID r" for x
    using that assms by (auto simp: store_ok_defs distinct_map inj_on_def)
  have "(\<exists>x \<in> set (reservations s). is_active_row (rvID r) x \<and> rvSlotID x = k) \<longleftrightarrow> k = rvSlotID r"
    using key assms(2,3) by (auto simp: is_active_row_def)
  then show ?thesis
    unfolding set_reservation_def
    using holders_retire [of s put "is_active_row (rvID r)" k] assms(1,4) by (simp add: is_active_row_def)
qed

lemma set_reservation_others [simp]:
  "bookers (set_reservation put i s) k = bookers s k" "waiting (set_reservation put i s) k = waiting s k"
  by (simp_all add: bookers_def waiting_def set_reservation_def)

lemma holders_expire:
  assumes "store_ok s" "\<And>r. r \<in> set (reservations s) \<Longrightarrow> rvID r \<in> ids \<Longrightarrow> rv_active r"
  shows "holders (expire_rows ids t s) k =
    (if k \<in> rvSlotID ` {r \<in> set (reservations s). rvID r \<in> ids} then [] else holders s k)"
proof -
  have "(\<exists>r \<in> set (reservations s). rvID r \<in> ids \<and> rvSlotID r = k) \<longleftrightarrow>
      k \<in> rvSlotID ` {r \<in> set (reservations s). rvID r \<in> ids}"
    by auto
  then show ?thesis
    unfolding expire_rows_def
    using holders_retire [of s "rv_expire t" "\<lambda>r. rvID r \<in> ids" k] assms by simp
qed

lemma expire_rows_others [simp]:
  "bookers (expire_rows ids t s) k = bookers s k" "waiting (expire_rows ids t s) k = waiting s k"
  by (simp_all add: bookers_def waiting_def expire_rows_def)

section \<open>The line\<close>

lemma bookers_cong: "bookings s' = bookings s \<Longrightarrow> bookers s' k = bookers s k"
  by (simp add: bookers_def)

lemma holders_cong: "reservations s' = reservations s \<Longrightarrow> holders s' k = holders s k"
  by (simp add: holders_def)

lemma waiting_retire:
  assumes "\<And>e. \<not> we_active (put e)"
  shows "waiting (s\<lparr>waitlist := update_where P put (waitlist s)\<rparr>) k = filter (\<lambda>e. \<not> P e) (waiting s k)"
  using assms unfolding waiting_def by (simp add: filter_retire filter_sort conj_commute)

lemma set_waiting: "set (waiting s k) = {e \<in> set (waitlist s). we_active e \<and> weSlotID e = k}"
  by (auto simp: waiting_def)

lemma claimable_unlocked: "claimable (\<lambda>_. False) k (waitlist s) = waiting s k"
  by (simp add: claimable_def waiting_def conj_commute)

lemma waiting_distinct:
  assumes "store_ok s"
  shows "distinct (waiting s k)" "distinct (map weID (waiting s k))" "distinct (map weUserID (waiting s k))"
proof -
  have "distinct (filter P (waitlist s))" "inj_on weID (set (waitlist s))" for P
    using assms by (auto simp: store_ok_defs distinct_map)
  then show d: "distinct (waiting s k)"
    by (simp add: waiting_def)
  show "distinct (map weID (waiting s k))"
    using d \<open>inj_on weID (set (waitlist s))\<close> by (auto simp: distinct_map set_waiting intro: inj_on_subset)
  have "inj_on weUserID (set (waiting s k))"
  proof (rule inj_onI)
    fix x y
    assume "x \<in> set (waiting s k)" "y \<in> set (waiting s k)" "weUserID x = weUserID y"
    then show "x = y"
      using assms index_okD [of we_pending we_slot_user "waitlist s" x y]
      by (auto simp: set_waiting store_ok_def waitlist_ok_def we_slot_user_def intro: we_active_pending)
  qed
  then show "distinct (map weUserID (waiting s k))"
    using d by (simp add: distinct_map)
qed

text \<open>Taking entry \<open>e\<close> out of the lines.\<close>

lemma filter_one_out: "distinct (map f xs) \<Longrightarrow> x \<in> set xs \<Longrightarrow> map g (filter (\<lambda>y. f y \<noteq> f x) xs) = map g (remove1 x xs)"
proof (induction xs)
  case (Cons y ys)
  show ?case
  proof (cases "y = x")
    case True
    then have "f z \<noteq> f x" if "z \<in> set ys" for z
      using Cons.prems(1) that by (auto simp: image_iff)
    then have "filter (\<lambda>y. f y \<noteq> f x) ys = ys"
      by (simp add: filter_id_conv)
    with True show ?thesis by simp
  next
    case False
    then have "f y \<noteq> f x" "x \<in> set ys"
      using Cons.prems by (auto simp: image_iff)
    with False show ?thesis
      using Cons by simp
  qed
qed simp

lemma map_remove1: "distinct (map g xs) \<Longrightarrow> x \<in> set xs \<Longrightarrow> map g (remove1 x xs) = remove1 (g x) (map g xs)"
  by (induction xs) (auto simp: image_iff)

lemma waiting_without:
  assumes "store_ok s" "e \<in> set (waitlist s)" "we_active e"
  shows "filter (\<lambda>x. weID x \<noteq> weID e) (waiting s k) =
      (if k = weSlotID e then remove1 e (waiting s k) else waiting s k)"
proof (cases "k = weSlotID e")
  case True
  then have "e \<in> set (waiting s k)"
    using assms(2,3) by (simp add: set_waiting)
  then show ?thesis
    using filter_one_out [of weID "waiting s k" e id] waiting_distinct(2) [OF assms(1)] True by simp
next
  case False
  have "x = e" if "x \<in> set (waitlist s)" "weID x = weID e" for x
    using that assms by (auto simp: store_ok_defs distinct_map inj_on_def)
  then have "weID x \<noteq> weID e" if "x \<in> set (waiting s k)" for x
    using that False by (auto simp: set_waiting)
  then show ?thesis
    using False by (simp add: filter_id_conv)
qed

lemma snapshot_leave:
  assumes "store_ok s" "e \<in> set (waitlist s)" "leaves i u e"
  shows "snapshot (leave_entry i u s) k =
    (if k = weSlotID e \<and> we_active e then (fst (snapshot s k), remove1 (weUserID e) (snd (snapshot s k)))
     else snapshot s k)"
proof -
  have key: "x = e" if "x \<in> set (waitlist s)" "weID x = weID e" for x
    using that assms by (auto simp: store_ok_defs distinct_map inj_on_def)
  have i: "i = weID e"
    using assms(3) by (simp add: leaves_def)
  have "leaves i u x \<longleftrightarrow> weID x = weID e" if "x \<in> set (waiting s k)" for x
    using that assms(3) key i by (auto simp: set_waiting leaves_def)
  then have w: "waiting (leave_entry i u s) k = filter (\<lambda>x. weID x \<noteq> weID e) (waiting s k)"
    unfolding leave_entry_def by (subst waiting_retire) (auto simp: we_cancel_def we_active_def intro: filter_cong)
  have frame: "bookers (leave_entry i u s) k = bookers s k" "holders (leave_entry i u s) k = holders s k"
    by (simp_all add: leave_entry_def bookers_def holders_def)
  show ?thesis
  proof (cases "we_active e")
    case True
    then show ?thesis
      using waiting_without [OF assms(1,2) True] map_remove1 [OF waiting_distinct(3) [OF assms(1)], of e k] assms(2)
      by (auto simp: snapshot_def set_waiting w frame)
  next
    case False
    then have "filter (\<lambda>x. weID x \<noteq> weID e) (waiting s k) = waiting s k"
      using key by (auto simp: filter_id_conv set_waiting)
    then show ?thesis
      using False by (simp add: snapshot_def w frame)
  qed
qed

lemma snapshot_join:
  assumes "store_ok s" "weStatus e = WaitlistStatusActive"
  shows "snapshot (add_entry (joined_row e s) s) k =
    (fst (snapshot s k), snd (snapshot s k) @ (if k = weSlotID e then [weUserID e] else []))"
proof -
  have active: "we_active e"
    using assms(2) by (simp add: we_active_def)
  have "wePosition x \<le> wePosition (joined_row e s)" if "x \<in> set (waitlist s)" for x
    using assms(1) that by (force simp: store_ok_def waitlist_ok_def)
  then have "waiting (add_entry (joined_row e s) s) k = waiting s k @ (if k = weSlotID e then [joined_row e s] else [])"
    using active unfolding waiting_def add_entry_def
    by (auto simp del: sort_key_simps intro!: sort_key_snoc)
  then show ?thesis
    by (simp add: snapshot_def add_entry_def bookers_def holders_def)
qed

text \<open>The hand-over to the head of the line.\<close>

lemma snapshot_hand_over:
  assumes "store_ok s" "waiting s k0 = e # es" "\<not> slot_booked s k0" "\<not> slot_reserved s k0"
  shows "snapshot (hand_over t i k0 e now ttl s) k =
    (if k = k0 then pass_on (snd (snapshot s k0)) else snapshot s k)"
proof -
  have e: "e \<in> set (waitlist s)" "we_active e" "weSlotID e = k0"
    using assms(2) set_waiting [of s k0] by auto
  have "waiting (hand_over t i k0 e now ttl s) k = filter (\<lambda>x. weID x \<noteq> weID e) (waiting s k)"
    unfolding hand_over_def notify_entry_def add_reservation_def
    using waiting_retire [where put = "we_notify t" and P = "\<lambda>x. weID x = weID e" and s = s and k = k]
    by (simp add: waiting_def)
  then have w: "waiting (hand_over t i k0 e now ttl s) k = (if k = k0 then es else waiting s k)"
    using waiting_without [OF assms(1) e(1,2)] e(3) assms(2) by simp
  have "holders (hand_over t i k0 e now ttl s) k = holders s k @ (if k = k0 then [weUserID e] else [])"
    by (simp add: hand_over_def holders_def add_reservation_def notify_entry_def reservation_for_def
        stored_reservation_def rv_active_def)
  moreover have "bookers (hand_over t i k0 e now ttl s) k = bookers s k"
    by (simp add: hand_over_def bookers_def add_reservation_def notify_entry_def)
  moreover have "bookers s k0 = []" "holders s k0 = []"
    using assms(3,4) by (simp_all add: no_bookers no_holders)
  ultimately show ?thesis
    using w assms(2) by (simp add: snapshot_def)
qed

section \<open>What the operations do to the slots\<close>

lemma unlocked_row [simp]: "unlocked e \<Longrightarrow> locked_at e n = (\<lambda>_. False)"
  by (simp add: unlocked_def fun_eq_iff)

lemma next_waiting_unlocked:
  "next_waiting (\<lambda>_. False) k s = (case waiting s k of [] \<Rightarrow> None | e # _ \<Rightarrow> Some e)"
  by (simp add: next_waiting_def claimable_unlocked)

text \<open>
  A claim for slot \<open>k0\<close>: either the line is empty and nothing happens, or the slot is handed over to
  its head.
\<close>

definition claims_head :: "uuid \<Rightarrow> store \<Rightarrow> store \<Rightarrow> bool" where
  "claims_head k0 s s' \<longleftrightarrow> waiting s k0 = [] \<and> s' = s \<or>
     (\<exists>e es t i now ttl. waiting s k0 = e # es \<and> s' = hand_over t i k0 e now ttl s)"

lemma claims_head_snapshot:
  assumes "claims_head k0 s s'" "store_ok s" "\<not> slot_booked s k0" "\<not> slot_reserved s k0"
  shows "snapshot s' k = (if k = k0 then pass_on (snd (snapshot s k0)) else snapshot s k)"
  using assms(1) unfolding claims_head_def
proof (elim disjE exE conjE)
  assume "waiting s k0 = []" "s' = s"
  then show ?thesis
    using assms(3,4) by (simp add: snapshot_def no_bookers [symmetric] no_holders [symmetric])
next
  fix e es t i now ttl
  assume "waiting s k0 = e # es" "s' = hand_over t i k0 e now ttl s"
  then show ?thesis
    using snapshot_hand_over [OF assms(2) _ assms(3,4)] by simp
qed

lemma claim_next_claims:
  assumes "run_state (claim_next m s k0 now) w = (Inr out, w')" "unlocked (env w)" "rsWaitlists s"
  shows "claims_head k0 (db w) (db w')"
  using assms(1)
proof (cases rule: claim_next_InrE)
  case nobody
  then show ?thesis
    using assms(2,3) by (auto simp: claims_head_def next_waiting_unlocked split: list.splits)
next
  case (head e t i)
  then obtain es where "waiting (db w) k0 = e # es"
    using assms(2) by (auto simp: next_waiting_unlocked split: list.splits)
  then show ?thesis
    using head(4) unfolding claims_head_def by blast
qed

lemma claim_for_cancelled_claims:
  assumes "run_state (claim_for_cancelled s k0) w = (Inr out, w')" "unlocked (env w)" "bsWaitlists s"
  shows "claims_head k0 (db w) (db w')"
  using assms(1)
proof (cases rule: claim_for_cancelled_InrE)
  case nobody
  then show ?thesis
    using assms(2,3) by (auto simp: claims_head_def next_waiting_unlocked split: list.splits)
next
  case (head e t i now)
  then obtain es where "waiting (db w) k0 = e # es"
    using assms(2) by (auto simp: next_waiting_unlocked split: list.splits)
  then show ?thesis
    using head(4) unfolding claims_head_def by blast
qed

lemma tx_outcome_moves:
  assumes "tx_outcome fn w s'"
    and "\<And>w1 x w2. db w1 = db w \<Longrightarrow> env w1 = env w \<Longrightarrow> run_state fn w1 = (Inr x, w2) \<Longrightarrow>
      slots_move acts (db w) (db w2)"
  shows "slots_move acts (db w) s'"
proof -
  have "slots_move acts (db w) ((db w)\<lparr>position_seq := n\<rparr>)" for n
    by (intro slots_move_same snapshot_frame) simp_all
  note undone = this
  from assms(1) show ?thesis
    unfolding tx_outcome_def
  proof (elim disjE exE conjE)
    fix n
    assume "s' = (db w)\<lparr>position_seq := n\<rparr>"
    then show ?thesis
      using undone by simp
  next
    fix w1 x w2
    assume "db w1 = db w" "env w1 = env w" "run_state fn w1 = (Inr x, w2)" "s' = db w2"
    then show ?thesis
      using assms(2) by simp
  qed
qed

lemma CreateBooking_moves:
  assumes "bsReservations s"
  shows "slots_move (only_if (\<lambda>k'. k' = k) (Book (usrID u))) (db w)
    (db (snd (run_state (CreateBooking s u k link) w)))"
  using CreateBooking_outcome
proof (rule tx_outcome_moves)
  fix w1 :: world and x w2
  assume w1: "db w1 = db w"
    and "run_state (CreateBooking_tx s u k (clock_at (env w) (ticks w))) w1 = (Inr x, w2)"
  from this(2) obtain i where free: "\<not> slot_reserved (db w) k"
      "booking_insertable (new_booking i u k (clock_at (env w) (ticks w))) (db w)"
    and db: "db w2 = add_booking (new_booking i u k (clock_at (env w) (ticks w))) (db w)"
    by (rule CreateBooking_tx_InrE) (use assms w1 in simp)
  have "\<not> slot_booked (db w) k"
    using free(2) by (auto simp: booking_insertable_def index_hit_def slot_booked_def new_booking_def bk_active_def)
  then have "bookers (db w) k = []" "holders (db w) k = []"
    using free(1) by (simp_all add: no_bookers no_holders)
  then show "slots_move (only_if (\<lambda>k'. k' = k) (Book (usrID u))) (db w) (db w2)"
    unfolding db by (intro slots_move_one [of k]) (simp_all add: snapshot_def)
qed

lemma CancelBooking_moves:
  assumes "app_ok (db w)" "unlocked (env w)" "bsWaitlists s"
  shows "slots_move (only_if (\<lambda>k'. \<exists>b \<in> set (bookings (db w)). bkID b = k \<and> bkSlotID b = k') (Unbook (usrID u)))
    (db w) (db (snd (run_state (CancelBooking s u k) w)))"
  using CancelBooking_outcome
proof (rule tx_outcome_moves)
  fix w1 :: world and x w2
  assume w1: "db w1 = db w" "env w1 = env w" and run: "run_state (CancelBooking_tx s u k) w1 = (Inr x, w2)"
  have ok: "store_ok (db w)" "exclusive (db w)" "distinct (map bkID (bookings (db w1)))"
    using assms(1) w1 by (auto simp: app_ok_def store_ok_defs)
  from run ok(3) show "slots_move (only_if (\<lambda>k'. \<exists>b \<in> set (bookings (db w)). bkID b = k \<and> bkSlotID b = k')
      (Unbook (usrID u))) (db w) (db w2)"
  proof (cases rule: CancelBooking_tx_InrE)
    case (again b)
    then show ?thesis
      by (simp add: w1 slots_move_same)
  next
    case (released b out w3)
    have b: "b \<in> set (bookings (db w))" "bkID b = k" "bk_active b"
      using find_row_SomeD [OF released(1)] released(3) w1(1) by simp_all
    let ?s = "cancel_booking k (db w)" and ?k = "bkSlotID b"
    have claim: "claims_head ?k ?s (db w2)"
      using claim_for_cancelled_claims [OF released(10)] released(8,9) w1 assms(2,3) by simp
    have free: "\<not> slot_reserved (db w) ?k" "\<not> slot_booked ?s ?k"
      using ok(2) b bookers_cancel [OF ok(1) b(1,3), of ?k] no_bookers [of ?s ?k]
      by (auto simp: exclusive_def slot_booked_def [of "db w"])
    have after: "snapshot (db w2) k' = (if k' = ?k then pass_on (snd (snapshot ?s ?k)) else snapshot ?s k')" for k'
      using claims_head_snapshot [OF claim] free ok(1) by (simp add: store_ok_cancel_booking)
    have "snapshot ?s k' = snapshot (db w) k'" if "k' \<noteq> ?k" for k'
      using bookers_cancel [OF ok(1) b(1,3), of k'] that b(2) by (simp add: snapshot_def)
    moreover have "snapshot (db w) ?k = (BookedBy (bkUserID b), snd (snapshot ?s ?k))"
      using bookers_single [OF ok(1) b(1,3)] by (simp add: snapshot_def)
    ultimately show ?thesis
      using b released(2) by (intro slots_move_one [of ?k _ _ "Unbook (usrID u)"]) (auto simp: after)
  qed
qed

lemma JoinWaitlist_moves:
  assumes "store_ok (db w)"
  shows "slots_move (only_if (\<lambda>k'. k' = k) (Join (usrID u))) (db w) (db (snd (run_state (JoinWaitlist u k) w)))"
  using JoinWaitlist_outcome
proof (rule tx_outcome_moves)
  fix w1 :: world and x w2
  assume w1: "db w1 = db w" and run: "run_state (JoinWaitlist_tx u k) w1 = (Inr x, w2)"
  obtain b i now where b: "active_booking (db w) k = Some b" "bkUserID b \<noteq> usrID u"
    and ins: "entry_insertable (new_entry i u k now) (db w)"
    and db: "db w2 = add_entry (joined_row (new_entry i u k now) (db w)) (db w)"
    using run unfolding w1 [symmetric] by (rule JoinWaitlist_tx_InrE)
  let ?e = "new_entry i u k now"
  have active: "b \<in> set (bookings (db w))" "bk_active b" "bkSlotID b = k"
    using b(1) by (auto simp: active_booking_def find_Some_iff)
  have e: "weSlotID ?e = k" "weUserID ?e = usrID u" "weStatus ?e = WaitlistStatusActive" "we_pending ?e"
    by (simp_all add: new_entry_def we_pending_def)
  have new: "usrID u \<notin> weUserID ` set (waiting (db w) k)"
    using ins e by (auto simp: entry_insertable_def index_hit_def set_waiting we_slot_user_def
        dest: we_active_pending)
  note after = snapshot_join [OF assms e(3), folded db]
  show "slots_move (only_if (\<lambda>k'. k' = k) (Join (usrID u))) (db w) (db w2)"
  proof (rule slots_move_one [of k _ _ "Join (usrID u)"])
    show "machine (Join (usrID u)) (snapshot (db w) k) = Some (snapshot (db w2) k)"
      using b(2) new bookers_single [OF assms active(1,2)] active(3) e
      by (simp add: after) (simp add: snapshot_def)
  qed (simp_all add: after e)
qed

lemma LeaveWaitlist_moves:
  assumes "store_ok (db w)"
  shows "slots_move (only_if (\<lambda>k'. \<exists>e \<in> set (waitlist (db w)). weID e = k \<and> weSlotID e = k') (Leave (usrID u)))
    (db w) (db (snd (run_state (LeaveWaitlist u k) w)))"
  using LeaveWaitlist_outcome
proof (rule tx_outcome_moves)
  fix w1 :: world and x w2
  assume w1: "db w1 = db w" and run: "run_state (LeaveWaitlist_tx u k) w1 = (Inr x, w2)"
  obtain e changed where x: "x = (e, changed)"
    by (cases x)
  from run [unfolded x] show "slots_move (only_if (\<lambda>k'. \<exists>e \<in> set (waitlist (db w)). weID e = k \<and> weSlotID e = k')
      (Leave (usrID u))) (db w) (db w2)"
  proof (cases rule: LeaveWaitlist_tx_InrE)
    case (left e0)
    then have e0: "e0 \<in> set (waitlist (db w))" "leaves k (usrID u) e0"
      by (auto simp: find_Some_iff w1)
    note after = snapshot_leave [OF assms e0]
    show ?thesis
    proof (cases "we_active e0")
      case True
      have member: "weUserID e0 \<in> set (snd (snapshot (db w) (weSlotID e0)))"
        using e0(1) True by (simp add: snapshot_def set_waiting)
      show ?thesis
        using machine_leave [OF member] True e0 unfolding left(4) w1
        by (intro slots_move_one [of "weSlotID e0" _ _ "Leave (usrID u)"]) (auto simp: after leaves_def)
    next
      case False
      then show ?thesis
        unfolding left(4) w1 by (intro slots_move_same) (simp add: after)
    qed
  next
    case gone
    then show ?thesis
      by (simp add: w1 slots_move_same)
  qed
qed

lemma ConfirmReservation_moves:
  assumes "app_ok (db w)"
  shows "slots_move (only_if (\<lambda>k'. \<exists>r \<in> set (reservations (db w)). rvID r = k \<and> rvSlotID r = k') (Confirm (usrID u)))
    (db w) (db (snd (run_state (ConfirmReservation s u k) w)))"
  using ConfirmReservation_outcome
proof (rule tx_outcome_moves)
  fix w1 :: world and x w2
  let ?now = "clock_at (env w) (ticks w)"
  assume w1: "db w1 = db w" and run: "run_state (ConfirmReservation_tx u k ?now) w1 = (Inr x, w2)"
  have ok: "store_ok (db w)" "store_ok (db w1)"
    using assms w1 by (auto simp: app_ok_def)
  obtain r i where r: "find_row rvID k (reservations (db w)) = Some r" "rvUserID r = usrID u" "rv_active r"
      "\<not> slot_booked (db w) (rvSlotID r)"
    and ins: "booking_insertable (new_booking i u (rvSlotID r) ?now) (db w)"
    and db: "db w2 = set_reservation (rv_confirm (timestamptz ?now)) k
      (add_booking (new_booking i u (rvSlotID r) ?now) (db w))"
    using run ok(2) by (rule ConfirmReservation_tx_InrE) (use w1 in auto)
  let ?s = "add_booking (new_booking i u (rvSlotID r) ?now) (db w)"
  have mem: "r \<in> set (reservations ?s)" "r \<in> set (reservations (db w))" "rvID r = k"
    using find_row_SomeD [OF r(1)] by (simp_all add: add_booking_def)
  have "store_ok ?s"
    using ok(1) ins by (rule store_ok_add_booking)
  then have h: "holders (db w2) k' = (if k' = rvSlotID r then [] else holders (db w) k')" for k'
    unfolding db mem(3) [symmetric]
    by (subst holders_set [OF _ mem(1) r(3)]) simp_all
  have b: "bookers (db w2) k' = bookers (db w) k' @ (if k' = rvSlotID r then [usrID u] else [])"
    and q: "waiting (db w2) k' = waiting (db w) k'" for k'
    by (simp_all add: db)
  have "bookers (db w) (rvSlotID r) = []" "holders (db w) (rvSlotID r) = [usrID u]"
    using r(2-4) holders_single [OF ok(1) mem(2) r(3)] by (simp_all add: no_bookers)
  then show "slots_move (only_if (\<lambda>k'. \<exists>r \<in> set (reservations (db w)). rvID r = k \<and> rvSlotID r = k')
      (Confirm (usrID u))) (db w) (db w2)"
    using mem(2,3)
    by (intro slots_move_one [of "rvSlotID r" _ _ "Confirm (usrID u)"]) (auto simp: snapshot_def h b q)
qed

lemma CancelReservation_moves:
  assumes "app_ok (db w)" "unlocked (env w)" "rsWaitlists s"
  shows "slots_move (only_if (\<lambda>k'. \<exists>r \<in> set (reservations (db w)). rvID r = k \<and> rvSlotID r = k') (Give_up (usrID u)))
    (db w) (db (snd (run_state (CancelReservation s u k) w)))"
  using CancelReservation_outcome
proof (rule tx_outcome_moves)
  fix w1 :: world and x w2
  let ?now = "clock_at (env w) (ticks w)"
  assume w1: "db w1 = db w" "env w1 = env w" and run: "run_state (CancelReservation_tx s u k ?now) w1 = (Inr x, w2)"
  have ok: "store_ok (db w)" "exclusive (db w)" "store_ok (db w1)"
    using assms(1) w1 by (auto simp: app_ok_def)
  from run ok(3) show "slots_move (only_if (\<lambda>k'. \<exists>r \<in> set (reservations (db w)). rvID r = k \<and> rvSlotID r = k')
      (Give_up (usrID u))) (db w) (db w2)"
  proof (cases rule: CancelReservation_tx_InrE)
    case (again r)
    then show ?thesis
      by (simp add: w1 slots_move_same)
  next
    case (freed r got w3)
    have r: "r \<in> set (reservations (db w))" "rvID r = k" "rv_active r"
      using find_row_SomeD [OF freed(1)] freed(3) w1(1) by simp_all
    let ?s = "set_reservation rv_cancel k (db w)" and ?k = "rvSlotID r"
    have h: "holders ?s k' = (if k' = ?k then [] else holders (db w) k')" for k'
      using holders_set [OF ok(1) r(1,3), of rv_cancel k'] r(2) by simp
    have claim: "claims_head ?k ?s (db w2)"
      using claim_next_claims [OF freed(10)] freed(8,9) w1 assms(2,3) by simp
    have "slot_reserved (db w) ?k"
      using r by (auto simp: slot_reserved_def)
    then have free: "\<not> slot_booked (db w) ?k" "\<not> slot_reserved ?s ?k" "\<not> slot_booked ?s ?k"
      using ok(2) h [of ?k] no_holders [of ?s ?k] by (auto simp: exclusive_def slot_booked_def set_reservation_def)
    have after: "snapshot (db w2) k' = (if k' = ?k then pass_on (snd (snapshot ?s ?k)) else snapshot ?s k')" for k'
      using claims_head_snapshot [OF claim] free ok(1) by (simp add: store_ok_set_reservation)
    have "snapshot ?s k' = snapshot (db w) k'" if "k' \<noteq> ?k" for k'
      using h that by (simp add: snapshot_def)
    moreover have "snapshot (db w) ?k = (HeldFor (rvUserID r), snd (snapshot ?s ?k))"
      using holders_single [OF ok(1) r(1,3)] free(1) no_bookers [of "db w" ?k] by (simp add: snapshot_def)
    ultimately show ?thesis
      using r freed(2) by (intro slots_move_one [of ?k _ _ "Give_up (usrID u)"]) (auto simp: after)
  qed
qed

text \<open>The expiry hands over the slots of its batch one after the other; they are different slots.\<close>

lemma expire_loop_snapshot:
  assumes "run_state (expire_loop s now items v) w = (Inr v', w')" "app_ok (db w)" "unlocked (env w)"
    "rsWaitlists s" "distinct (map rvSlotID items)"
    "\<forall>r \<in> set items. \<not> slot_booked (db w) (rvSlotID r) \<and> \<not> slot_reserved (db w) (rvSlotID r)"
  shows "snapshot (db w') k = (if k \<in> rvSlotID ` set items then pass_on (snd (snapshot (db w) k))
    else snapshot (db w) k)"
  using assms
proof (induction items arbitrary: v w)
  case (Cons item items)
  let ?k = "rvSlotID item"
  from Cons.prems(1) obtain out v1 w1 w2 where w1: "db w1 = db w" "env w1 = env w"
    and claim: "run_state (claim_next ''create reservation for next waitlist user'' s ?k now) w1 = (Inr out, w2)"
    and rest: "run_state (expire_loop s now items v1) w2 = (Inr v', w')"
    by (rule expire_loop_ConsE)
  have free: "\<not> slot_booked (db w) ?k" "\<not> slot_reserved (db w) ?k" "store_ok (db w)"
    using Cons.prems(2,6) by (simp_all add: app_ok_def)
  have head: "claims_head ?k (db w) (db w2)"
    using claim_next_claims [OF claim] w1 Cons.prems(3,4) by simp
  note after = claims_head_snapshot [OF head free(3,1,2)]
  have other: "slot_booked (db w2) k' = slot_booked (db w) k'"
      "k' \<noteq> ?k \<Longrightarrow> slot_reserved (db w2) k' = slot_reserved (db w) k'" for k'
    using head by (auto simp: claims_head_def)
  have "app_ok (db w2)"
    using claim_next_app_ok [OF claim] Cons.prems(2) free(1) w1 by simp
  moreover have "env w2 = env w"
    using claim_next_frame [OF claim] w1 by simp
  moreover have "\<forall>r \<in> set items. \<not> slot_booked (db w2) (rvSlotID r) \<and> \<not> slot_reserved (db w2) (rvSlotID r)"
  proof
    fix r
    assume "r \<in> set items"
    then have "rvSlotID r \<noteq> ?k" "\<not> slot_booked (db w) (rvSlotID r)" "\<not> slot_reserved (db w) (rvSlotID r)"
      using Cons.prems(5,6) by (auto simp: image_iff)
    then show "\<not> slot_booked (db w2) (rvSlotID r) \<and> \<not> slot_reserved (db w2) (rvSlotID r)"
      using other by simp
  qed
  ultimately have "snapshot (db w') k = (if k \<in> rvSlotID ` set items then pass_on (snd (snapshot (db w2) k))
      else snapshot (db w2) k)"
    using Cons.IH [OF rest] Cons.prems(3-5) by simp
  moreover have "?k \<notin> rvSlotID ` set items"
    using Cons.prems(5) by simp
  ultimately show ?case
    using after by auto
qed simp

lemma ExpireDue_moves:
  assumes "app_ok (db w)" "unlocked (env w)" "rsWaitlists s"
  shows "slots_move (only_if (\<lambda>k. \<exists>r \<in> set (reservations (db w)). rv_active r \<and> rvSlotID r = k \<and>
      rvExpiresAt r \<le> timestamptz (clock_at (env w) (ticks w))) Expire) (db w) (db (snd (run_state (ExpireDue s limit) w)))"
  using ExpireDue_outcome
proof (rule tx_outcome_moves)
  fix w1 :: world and x w2
  let ?now = "clock_at (env w) (ticks w)"
  assume w1: "db w1 = db w" "env w1 = env w"
    and run: "run_state (ExpireDue_tx s ?now (batch_limit limit)) w1 = (Inr x, w2)"
  obtain expired v where x: "x = (expired, v)"
    by (cases x)
  let ?ids = "expired_ids w1 ?now (batch_limit limit)"
  obtain w3 v0 where expired: "expired = map (rv_expire (timestamptz ?now))
      (filter (\<lambda>r. rvID r \<in> ?ids) (reservations (db w)))"
    and w3: "db w3 = expire_rows ?ids (timestamptz ?now) (db w)" "env w3 = env w"
    and loop: "run_state (expire_loop s ?now expired v0) w3 = (Inr v, w2)"
    using run [unfolded x] by (rule ExpireDue_tx_InrE) (use w1 in auto)
  have ok: "store_ok (db w)" "exclusive (db w)"
    using assms(1) by (simp_all add: app_ok_def)
  have overdue: "rvExpiresAt r \<le> timestamptz ?now" if "r \<in> set (reservations (db w))" "rvID r \<in> ?ids" for r
    using expired_ids_due [of w1 r ?now "batch_limit limit"] ok(1) that by (simp add: w1)
  have due: "rv_active r" if "r \<in> set (reservations (db w))" "rvID r \<in> ?ids" for r
    using expired_ids_due [of w1 r ?now "batch_limit limit"] ok(1) that by (simp add: w1)
  let ?ks = "rvSlotID ` {r \<in> set (reservations (db w)). rvID r \<in> ?ids}"
  have h: "holders (db w3) k = (if k \<in> ?ks then [] else holders (db w) k)" for k
    unfolding w3 using holders_expire [OF ok(1) due] by simp
  have slots: "rvSlotID ` set expired = ?ks"
    by (simp add: expired image_image)
  have booked: "slot_booked (db w3) k = slot_booked (db w) k" for k
    by (simp add: w3 slot_booked_def expire_rows_def)
  have held: "holders (db w) k = [rvUserID r] \<and> bookers (db w) k = []"
    if "r \<in> set (reservations (db w))" "rvID r \<in> ?ids" "rvSlotID r = k" for r k
    using holders_single [OF ok(1) that(1) due [OF that(1,2)]] due [OF that(1,2)] that ok(2)
    by (auto simp: no_bookers exclusive_def slot_reserved_def)
  have dist: "distinct (map rvSlotID expired)"
  proof -
    have "inj_on rvSlotID (set (filter (\<lambda>r. rvID r \<in> ?ids) (reservations (db w))))"
    proof (rule inj_onI)
      fix r r'
      assume "r \<in> set (filter (\<lambda>r. rvID r \<in> ?ids) (reservations (db w)))"
        "r' \<in> set (filter (\<lambda>r. rvID r \<in> ?ids) (reservations (db w)))" "rvSlotID r = rvSlotID r'"
      then show "r = r'"
        using due ok(1) index_okD [of rv_active rvSlotID "reservations (db w)" r r']
        by (simp add: store_ok_def reservations_ok_def)
    qed
    moreover have "distinct (filter (\<lambda>r. rvID r \<in> ?ids) (reservations (db w)))"
      using ok(1) by (auto simp: store_ok_defs distinct_map)
    ultimately show ?thesis
      by (simp add: expired o_def distinct_map)
  qed
  have "\<forall>r \<in> set expired. \<not> slot_booked (db w3) (rvSlotID r) \<and> \<not> slot_reserved (db w3) (rvSlotID r)"
  proof
    fix r
    assume "r \<in> set expired"
    then have k: "rvSlotID r \<in> ?ks"
      using slots by blast
    then have "\<not> slot_booked (db w) (rvSlotID r)"
      using held no_bookers [of "db w" "rvSlotID r"] by auto
    then show "\<not> slot_booked (db w3) (rvSlotID r) \<and> \<not> slot_reserved (db w3) (rvSlotID r)"
      using h [of "rvSlotID r"] k booked no_holders [of "db w3" "rvSlotID r"] by simp
  qed
  moreover have "app_ok (db w3)"
    unfolding w3 using assms(1) by (rule app_ok_expire_rows)
  ultimately have after: "snapshot (db w2) k = (if k \<in> ?ks then pass_on (snd (snapshot (db w3) k)) else snapshot (db w3) k)" for k
    using expire_loop_snapshot [OF loop] assms(2,3) dist w3(2) slots by simp
  let ?acts = "only_if (\<lambda>k. \<exists>r \<in> set (reservations (db w)). rv_active r \<and> rvSlotID r = k \<and>
      rvExpiresAt r \<le> timestamptz ?now) Expire"
  have "snapshot (db w2) k = snapshot (db w) k \<or>
      (\<exists>a \<in> ?acts k. machine a (snapshot (db w) k) = Some (snapshot (db w2) k))" for k
  proof (cases "k \<in> ?ks")
    case True
    then obtain r where r: "r \<in> set (reservations (db w))" "rvID r \<in> ?ids" "rvSlotID r = k"
      by auto
    have "snapshot (db w) k = (HeldFor (rvUserID r), snd (snapshot (db w3) k))"
      using held [OF r] by (simp add: snapshot_def w3)
    moreover have "Expire \<in> ?acts k"
      using r due overdue by auto
    ultimately show ?thesis
      using True by (intro disjI2 bexI [of _ Expire]) (simp_all add: after)
  next
    case False
    then have "snapshot (db w3) k = snapshot (db w) k"
      using h [of k] by (simp add: snapshot_def w3)
    then show ?thesis
      using False by (simp add: after)
  qed
  then show "slots_move ?acts (db w) (db w2)"
    by (simp add: slots_move_def)
qed

section \<open>Operations that leave the slots' phases alone\<close>

lemma slots_move_frame:
  "bookings s' = bookings s \<Longrightarrow> waitlist s' = waitlist s \<Longrightarrow> reservations s' = reservations s \<Longrightarrow> slots_move acts s s'"
  by (intro slots_move_same snapshot_frame)

lemma Register_moves: "slots_move acts (db w) (db (snd (run_state (Register s email password role) w)))"
  using Register_db [of s email password role w] by (auto simp: add_user_def intro!: slots_move_frame)

lemma CreateSchedule_moves: "slots_move acts (db w) (db (snd (run_state (CreateSchedule u k input) w)))"
  using CreateSchedule_db [of w u k input] by (auto simp: schedules_added_def intro!: slots_move_frame)

lemma Generate_moves: "slots_move acts (db w) (db (snd (run_state (Generate g) w)))"
  using only_inserts_Generate [of g] insert_slots_frame
  by (auto simp: only_inserts_def slots_inserted_def intro!: slots_move_frame)

lemma CreateRoom_moves: "slots_move acts (db w) (db (snd (run_state (CreateRoom u input) w)))"
proof -
  have "slots_move acts (db w) (db v')" if "run_state (RoomRepo_Create x) v = (r, v')" "db v = db w" for x v r v'
    using RoomRepo_Create_db [of x v] that by (auto intro!: slots_move_frame)
  then show ?thesis
    by (auto simp: CreateRoom_def Let_def run_check intro!: slots_move_frame
        split: prod.splits sum.splits option.splits)
qed

end
