(* ===== verification/Booking_Contract.thy ===== *)
theory Booking_Contract
  imports "HOL-Library.Multiset" Booking_Service
begin

text \<open>
  What the booking service promises its callers: the outcome of creating a booking on every branch,
  what a cancellation does to the slot and its queue, and what the two listings return.
\<close>

text \<open>
  C2. \<open>CreateBooking\<close> over a database that answers decides exactly as the business rules say: a
  caller who is not a plain user, a missing slot, a slot in the past, a reserved slot and a booked
  slot are refused with their own error codes and leave the database untouched; in every other case
  one active booking of the caller on that slot, stamped with the time the request was accepted, is
  appended and returned.
\<close>

theorem create_booking_decides:
  assumes "calm (env w)" "usrID u \<in> usrID ` set (users (db w))"
    "fresh_ids (env w) (bkID ` set (bookings (db w)))"
  shows "case create_refusal s u k (clock_at (env w) (ticks w)) (db w) of
      Some c \<Rightarrow> \<exists>e w'. run_state (CreateBooking s u k link) w = (Inl e, w') \<and> has_code e c \<and> db w' = db w
    | None \<Rightarrow> \<exists>i w'. run_state (CreateBooking s u k link) w =
          (Inr (new_booking i u k (clock_at (env w) (ticks w))), w') \<and>
        db w' = add_booking (new_booking i u k (clock_at (env w) (ticks w))) (db w)"
  using CreateBooking_refused [OF assms(1)] CreateBooking_accepted [OF assms(1) _ assms(2,3)]
  by (simp split: option.split)

lemma create_booking_decides_witness:
  "case create_refusal (booking_NewService []) carol 22 100000000000 sample_store of
      Some c \<Rightarrow> False
    | None \<Rightarrow> \<exists>i w'. run_state (CreateBooking (booking_NewService []) carol 22 True) sample_world =
          (Inr (new_booking i carol 22 100000000000), w') \<and>
        db w' = add_booking (new_booking i carol 22 100000000000) sample_store"
proof -
  have "create_refusal (booking_NewService []) carol 22 100000000000 sample_store = None"
    by (simp add: create_refusal_def booking_NewService_def sample_defs slot_booked_def bk_active_def)
  then show ?thesis
    using create_booking_decides [of sample_world carol "booking_NewService []" 22 True]
    by (simp add: sample_facts)
qed

text \<open>
  C3. Whatever the environment does (lost connections, locked rows), a booking that
  \<open>CreateBooking\<close> reports as created was made on a slot that exists, has not started, and was
  neither booked nor reserved; it is in the database afterwards.
\<close>

theorem created_booking_was_free:
  assumes "run_state (CreateBooking s u k link) w = (Inr b, w')" "bsReservations s"
  shows "usrRole u = RoleUser \<and> bkSlotID b = k \<and> bkUserID b = usrID u \<and>
    \<not> slot_booked (db w) k \<and> \<not> slot_reserved (db w) k \<and> db w' = add_booking b (db w) \<and>
    (\<exists>slot. find_row slID k (slots (db w)) = Some slot \<and> bkCreatedAt b \<le> slStartTime slot)"
proof -
  obtain w1 w2 where tx: "db w1 = db w" "usrRole u = RoleUser" "db w' = db w2"
      "\<exists>roomID. run_state (CreateBooking_tx s u k (clock_at (env w) (ticks w))) w1 = (Inr (b, roomID), w2)"
    using CreateBooking_InrE [OF assms(1)] by metis
  then obtain slot i where "find_row slID k (slots (db w)) = Some slot"
      "clock_at (env w) (ticks w) \<le> slStartTime slot" "\<not> slot_reserved (db w) k"
      "b = new_booking i u k (clock_at (env w) (ticks w))" "booking_insertable b (db w)"
      "db w2 = add_booking b (db w)"
    using assms(2) by (auto elim!: CreateBooking_tx_InrE)
  then show ?thesis
    using tx by (auto simp: booking_insertable_def index_hit_def slot_booked_def)
qed

lemma sample_create_runs:
  "\<exists>i w'. run_state (CreateBooking (WithReservationRepository 0 (booking_NewService [])) carol 22 True)
      sample_world = (Inr (new_booking i carol 22 100000000000), w')"
proof -
  have "create_refusal (WithReservationRepository 0 (booking_NewService [])) carol 22 100000000000
      sample_store = None"
    by (simp add: create_refusal_def booking_NewService_def WithReservationRepository_def sample_defs
        slot_booked_def slot_reserved_def bk_active_def Let_def)
  then show ?thesis
    using CreateBooking_accepted [of sample_world
        "WithReservationRepository 0 (booking_NewService [])" carol 22 True]
    by (auto simp: sample_facts)
qed

lemma created_booking_was_free_witness:
  "\<exists>b w'. run_state (CreateBooking (WithReservationRepository 0 (booking_NewService [])) carol 22 True)
      sample_world = (Inr b, w') \<and> db w' = add_booking b sample_store"
  using sample_create_runs created_booking_was_free
    [of "WithReservationRepository 0 (booking_NewService [])" carol 22 True sample_world]
  by (fastforce simp: WithReservationRepository_def Let_def)

text \<open>
  C4. \<open>CancelBooking\<close> over a database that answers: only a plain user may cancel, only an existing
  booking, and only their own (each violation has its error code and changes nothing); in every
  other case the call succeeds and returns the caller's booking as cancelled, also when it had been
  cancelled before.
\<close>

theorem cancel_booking_decides:
  assumes "calm (env w)" "app_ok (db w)" "bsReservations s"
    "fresh_ids (env w) (rvID ` set (reservations (db w)))"
  shows "case cancel_refusal u k (db w) of
      Some c \<Rightarrow> \<exists>e w'. run_state (CancelBooking s u k) w = (Inl e, w') \<and> has_code e c \<and> db w' = db w
    | None \<Rightarrow> \<exists>b w'. run_state (CancelBooking s u k) w = (Inr (bk_cancel b), w') \<and>
        find_row bkID k (bookings (db w)) = Some b \<and> bkUserID b = usrID u"
proof (cases "cancel_refusal u k (db w)")
  case (Some c)
  then show ?thesis
    using CancelBooking_refused [OF assms(1)] by simp
next
  case None
  then obtain b where b: "usrRole u = RoleUser" "find_row bkID k (bookings (db w)) = Some b"
      "bkUserID b = usrID u"
    by (auto simp: cancel_refusal_def split: option.splits if_splits)
  obtain b' w' where run: "run_state (CancelBooking s u k) w = (Inr b', w')"
    using CancelBooking_succeeds [OF assms(1-3) b(1) assms(4) b(2,3)] by blast
  moreover have "distinct (map bkID (bookings (db w)))"
    using assms(2) by (simp add: app_ok_def store_ok_defs)
  ultimately show ?thesis
    using CancelBooking_result [of s u k w b' w'] b None by auto
qed

definition sample_bookings :: booking_service where
  "sample_bookings = WithReservationRepository 600000000000 (WithWaitlistRepository (booking_NewService []))"

lemma sample_bookings_simps [simp]:
  "bsWaitlists sample_bookings" "bsReservations sample_bookings"
  "reservationTTLValue sample_bookings = 600000000000"
  by (simp_all add: sample_bookings_def WithReservationRepository_def WithWaitlistRepository_def
      booking_NewService_def Let_def reservationTTLValue_def)

lemma sample_cancellable: "cancel_refusal alice 30 sample_store = None"
  by (simp add: cancel_refusal_def sample_defs)

lemma cancel_booking_decides_witness:
  "\<exists>w'. run_state (CancelBooking sample_bookings alice 30) sample_world =
    (Inr (bk_cancel sample_booking), w')"
  using cancel_booking_decides [of sample_world sample_bookings alice 30] sample_cancellable
  by (auto simp: sample_facts)

text \<open>
  C5. A cancellation hands the slot over in order: when nobody holds the entries' locks, the user
  who has waited longest for the slot (the least position among the waiting entries) is notified and
  gets the reservation, with the configured lifetime, and nothing else changes; with an empty queue
  the booking is cancelled and that is all.
\<close>

theorem cancel_hands_over_in_order:
  assumes "run_state (CancelBooking s u k) w = (Inr b', w')" "store_ok (db w)"
    "find_row bkID k (bookings (db w)) = Some b" "bk_active b" "unlocked (env w)" "bsWaitlists s"
  shows "if slot_awaited (db w) (bkSlotID b)
    then \<exists>e t i now. e \<in> set (waitlist (db w)) \<and> we_active e \<and> weSlotID e = bkSlotID b \<and>
      (\<forall>e' \<in> set (waitlist (db w)). we_active e' \<and> weSlotID e' = bkSlotID b \<longrightarrow>
         wePosition e \<le> wePosition e') \<and>
      db w' = hand_over t i (bkSlotID b) e now (reservationTTLValue s) (cancel_booking k (db w))
    else db w' = cancel_booking k (db w)"
proof -
  have d: "distinct (map bkID (bookings (db w)))"
    using assms(2) by (simp add: store_ok_defs)
  have free: "locked_at (env w) n = (\<lambda>_. False)" for n
    using assms(5) by (auto simp: unlocked_def)
  show ?thesis
    using assms(1) d assms(3)
  proof (cases rule: CancelBooking_effect)
    case again
    with assms(4) show ?thesis by simp
  next
    case (nobody n)
    then have "\<not> slot_awaited (db w) (bkSlotID b)"
      using assms(6) free [of n] by (auto simp: next_waiting_None slot_awaited_def)
    with nobody show ?thesis by simp
  next
    case (head n e t i now)
    then have e: "e \<in> set (waitlist (db w))" "we_active e" "weSlotID e = bkSlotID b"
        "\<forall>e' \<in> set (waitlist (db w)). we_active e' \<and> weSlotID e' = bkSlotID b \<longrightarrow>
          wePosition e \<le> wePosition e'"
      using next_waiting_Some free [of n] by auto
    then show ?thesis
      using head by (auto simp: slot_awaited_def)
  qed
qed

lemma cancel_hands_over_in_order_witness:
  "\<exists>w' e t i now. db w' = hand_over t i 20 e now 600000000000 (cancel_booking 30 sample_store) \<and>
    run_state (CancelBooking sample_bookings alice 30) sample_world = (Inr (bk_cancel sample_booking), w')"
proof -
  obtain b' w' where run: "run_state (CancelBooking sample_bookings alice 30) sample_world = (Inr b', w')"
    using CancelBooking_succeeds [of sample_world sample_bookings alice 30 sample_booking]
    by (auto simp: sample_facts)
  moreover have "b' = bk_cancel sample_booking"
    using CancelBooking_result [OF run] sample_store_ok by (auto simp: store_ok_defs sample_facts)
  ultimately show ?thesis
    using cancel_hands_over_in_order [OF run, of sample_booking] by (fastforce simp: sample_facts)
qed

lemma by_creation_distinct:
  assumes "distinct (map bkCreatedAt bs)"
  shows "by_creation tie bs = sort_key (\<lambda>b. - bkCreatedAt b) bs"
proof -
  have "inj_on (\<lambda>b. - bkCreatedAt b) (set bs)"
    using assms by (auto simp: distinct_map inj_on_def)
  then show ?thesis
    unfolding by_creation_def by (intro sort_key_eq_sort_key) simp_all
qed

text \<open>
  C6. The pages an administrator reads one after the other, each in a world of its own in which the
  database answers, as long as the store stays the same and no two bookings were created at the same
  instant, put together give every booking exactly once, the newest first, however the database orders
  the rows of each query that rank as equal; and each page reports the number of bookings of the whole
  table.
\<close>

theorem booking_pages_cover:
  assumes "usrRole u = RoleAdmin" "1 \<le> pageSize" "pageSize \<le> 100"
    "length (bookings st) \<le> m * nat pageSize" "int m * pageSize < 2 ^ 63"
    "distinct (map bkCreatedAt (bookings st))" "\<And>p. p < m \<Longrightarrow> db (ws p) = st \<and> calm (env (ws p))"
  shows "\<exists>pages. (\<forall>p < m. fst (run_state (ListBookings s u (int p + 1) pageSize) (ws p)) =
        Inr (pages p, \<lparr>pgPage = int p + 1, pgPageSize = pageSize, pgTotal = int (length (bookings st))\<rparr>)) \<and>
    concat (map pages [0..<m]) = sort_key (\<lambda>b. - bkCreatedAt b) (bookings st)"
proof -
  let ?sorted = "sort_key (\<lambda>b. - bkCreatedAt b) (bookings st)"
  define pages where "pages p = take (nat pageSize) (drop (p * nat pageSize) ?sorted)" for p
  have "fst (run_state (ListBookings s u (int p + 1) pageSize) (ws p)) =
      Inr (pages p, \<lparr>pgPage = int p + 1, pgPageSize = pageSize, pgTotal = int (length (bookings st))\<rparr>)"
    if "p < m" for p
  proof -
    have "int p * pageSize \<le> int m * pageSize"
      using that assms(2) by (intro mult_right_mono) simp_all
    then have "int p * pageSize < 2 ^ 63"
      using assms(5) by linarith
    then have off: "int64 ((int p + 1 - 1) * pageSize) = int p * pageSize"
      using assms(2) by (simp add: int64_small)
    then have "bookings_page tie st (int p + 1) pageSize = pages p" for tie
      using assms(2) by (simp add: bookings_page_def pages_def nat_mult_distrib by_creation_distinct [OF assms(6)])
    then show ?thesis
      using ListBookings_calm [of "ws p" u "int p + 1" pageSize s] assms(7) [OF that] off assms(1-3) by simp
  qed
  moreover have "concat (map pages [0..<m]) = ?sorted"
    using assms(4) unfolding pages_def pages_partition by simp
  ultimately show ?thesis by blast
qed

lemma booking_pages_cover_witness:
  "\<exists>pages. fst (run_state (ListBookings sample_bookings root_user 1 20) sample_world) =
      Inr (pages 0, \<lparr>pgPage = 1, pgPageSize = 20, pgTotal = 1\<rparr>) \<and>
    concat (map pages [0..<1]) = sort_key (\<lambda>b. - bkCreatedAt b) (bookings sample_store)"
  using booking_pages_cover [of root_user 20 sample_store 1 "\<lambda>_. sample_world" sample_bookings]
  by (auto simp: sample_facts sample_store_def)

text \<open>
  Two bookings created at the same instant have no order of their own, and each page is a query of its
  own: the first page and the second can show the same booking, and the other one is on no page.
\<close>

definition tied_store :: store where
  "tied_store = sample_store\<lparr>bookings := [sample_booking, sample_booking\<lparr>bkID := 31, bkSlotID := 22\<rparr>]\<rparr>"

definition tied_world :: "(uuid \<Rightarrow> nat) \<Rightarrow> world" where
  "tied_world tie = sample_world\<lparr>db := tied_store, env := sample_env\<lparr>tie_at := \<lambda>_. tie\<rparr>\<rparr>"

lemma tied_pages:
  "fst (run_state (ListBookings s root_user 1 1) (tied_world (\<lambda>i. if i = 30 then 0 else 1))) =
     Inr ([sample_booking], \<lparr>pgPage = 1, pgPageSize = 1, pgTotal = 2\<rparr>)"
  "fst (run_state (ListBookings s root_user 2 1) (tied_world (\<lambda>i. if i = 30 then 1 else 0))) =
     Inr ([sample_booking], \<lparr>pgPage = 2, pgPageSize = 1, pgTotal = 2\<rparr>)"
proof -
  have calm: "calm (env (tied_world tie))" for tie
    by (simp add: tied_world_def calm_def sample_env_def)
  have root: "usrRole root_user = RoleAdmin"
    by (simp add: root_user_def sample_user_def)
  show "fst (run_state (ListBookings s root_user 1 1) (tied_world (\<lambda>i. if i = 30 then 0 else 1))) =
     Inr ([sample_booking], \<lparr>pgPage = 1, pgPageSize = 1, pgTotal = 2\<rparr>)"
    using ListBookings_calm [OF calm root, of 1 1 s]
    by (simp add: bookings_page_def by_creation_def tied_world_def tied_store_def sample_booking_def int64_def)
  show "fst (run_state (ListBookings s root_user 2 1) (tied_world (\<lambda>i. if i = 30 then 1 else 0))) =
     Inr ([sample_booking], \<lparr>pgPage = 2, pgPageSize = 1, pgTotal = 2\<rparr>)"
    using ListBookings_calm [OF calm root, of 2 1 s]
    by (simp add: bookings_page_def by_creation_def tied_world_def tied_store_def sample_booking_def int64_def)
qed

text \<open>
  A plain user's own listing shows exactly the active bookings of that user whose slot has not
  started, and nothing of anybody else.
\<close>

theorem my_bookings_exact:
  assumes "run_state (ListMyBookings s u) w = (Inr bks, w')"
  shows "usrRole u = RoleUser \<and> db w' = db w \<and>
    (\<forall>b. b \<in> set bks \<longleftrightarrow> b \<in> set (bookings (db w)) \<and> bkUserID b = usrID u \<and> bk_active b \<and>
      (\<exists>sl \<in> set (slots (db w)). slID sl = bkSlotID b \<and>
         timestamptz (clock_at (env w) (ticks w)) \<le> slStartTime sl))"
proof -
  have "usrRole u = RoleUser" "db w' = db w"
      "bks = future_bookings (usrID u) (clock_at (env w) (ticks w)) (db w)"
    using assms
    by (auto simp: ListMyBookings_def BookingRepo_ListFutureByUser_def db_call_select_Inr
        elim!: check_InrE split: if_splits)
  then show ?thesis
    by (simp add: future_bookings_iff)
qed

lemma my_bookings_exact_witness:
  "\<exists>bks w'. run_state (ListMyBookings sample_bookings alice) sample_world = (Inr bks, w') \<and>
    sample_booking \<in> set bks"
proof -
  have run: "run_state (ListMyBookings sample_bookings alice) sample_world =
      (Inr (future_bookings (usrID alice) 100000000000 sample_store), tick (tick sample_world))"
    by (simp add: ListMyBookings_def sample_facts BookingRepo_ListFutureByUser_def run_check
        run_db_call_calm select_def)
  show ?thesis
    using run my_bookings_exact [OF run]
    by (auto simp: sample_defs bk_active_def timestamptz_def)
qed

end
