(* ===== verification/Generator_Contract.thy ===== *)
theory Generator_Contract
  imports Slot_Generator Sample
begin

text \<open>
  What a run of the slot generator leaves behind: which slots it adds and that it adds all of them,
  that a second run adds nothing, and that its window hangs on the moment the generator was made.
\<close>

section \<open>Ranges of parsed times\<close>

lemma digits_val_bound:
  assumes "list_all is_digit ds"
  shows "0 \<le> digits_val ds \<and> digits_val ds < 10 ^ length ds"
proof -
  have digit: "0 \<le> digit_val c \<and> digit_val c \<le> 9" if "is_digit c" for c
    using that unfolding digit_val_def of_char_int is_digit_def by simp
  have "0 \<le> n \<Longrightarrow> n < 10 ^ k \<Longrightarrow> 0 \<le> foldl (\<lambda>n c. 10 * n + digit_val c) n ds \<and>
      foldl (\<lambda>n c. 10 * n + digit_val c) n ds < 10 ^ (k + length ds)" for n :: int and k
    using assms
  proof (induction ds arbitrary: n k)
    case (Cons c ds)
    have "0 \<le> 10 * n + digit_val c" "10 * n + digit_val c < 10 ^ Suc k"
      using Cons.prems digit [of c] by auto
    then show ?case
      using Cons.IH [of "10 * n + digit_val c" "Suc k"] Cons.prems(3) by simp
  qed simp
  from this [of 0 0] show ?thesis
    by (simp add: digits_val_def)
qed

lemma span_digits_all: "span_digits s = (ds, rest) \<Longrightarrow> list_all is_digit ds"
  by (induction s arbitrary: ds) (auto split: if_splits prod.splits)

lemma fraction_range:
  assumes "fraction s = (ns, tail)"
  shows "0 \<le> ns \<and> ns < 1000000000"
proof (cases "ns = 0")
  case False
  then obtain c d rest where s: "s = c # d # rest"
    using assms by (auto simp: fraction_def split: list.splits)
  obtain ds where span: "span_digits (d # rest) = (ds, tail)"
      "ns = digits_val (take 9 ds) * 10 ^ (9 - length (take 9 ds))"
    using assms False unfolding fraction_def s
    by (auto simp del: span_digits.simps take.simps length_take split: if_splits prod.splits)
  have "list_all is_digit (take 9 ds)"
    using span_digits_all [OF span(1)] by (metis append_take_drop_id list_all_append)
  then have v: "0 \<le> digits_val (take 9 ds)" "digits_val (take 9 ds) < 10 ^ length (take 9 ds)"
    using digits_val_bound [of "take 9 ds"] by auto
  have "ns < 10 ^ length (take 9 ds) * 10 ^ (9 - length (take 9 ds))"
    unfolding span(2) by (rule mult_strict_right_mono) (use v in auto)
  also have "\<dots> = 10 ^ 9"
    by (simp add: power_add [symmetric])
  finally show ?thesis
    using v(1) span(2) by simp
qed simp

lemma getnum_nonneg: "getnum fixed s = Some (n, s') \<Longrightarrow> 0 \<le> n"
proof -
  have "0 \<le> digit_val c" if "is_digit c" for c
    using that unfolding digit_val_def of_char_int is_digit_def by simp
  then show "getnum fixed s = Some (n, s') \<Longrightarrow> 0 \<le> n"
    by (induction fixed s rule: getnum.induct) (auto split: if_splits intro!: add_nonneg_nonneg)
qed

lemma parse_layouts_range:
  assumes "parse_layouts s = Some c"
  shows "0 \<le> clHour c \<and> clHour c < 24 \<and> 0 \<le> clMinute c \<and> clMinute c < 60 \<and>
    0 \<le> clSecond c \<and> clSecond c < 60 \<and> 0 \<le> clNano c \<and> clNano c < 1000000000"
  using assms
  by (auto simp: parse_layouts_def parse_hms_layout_def parse_hm_layout_def
      split: option.splits if_splits prod.splits
      dest!: parse_hm_range fraction_range dest: getnum_nonneg)

lemma slotgen_parse_range:
  assumes "slotgen_parseTimeOfDay tod = Inr d"
  shows "0 \<le> d \<and> d < day_length"
proof -
  obtain c where c: "parse_layouts (TrimSpace tod) = Some c"
      "d = clHour c * time_Hour + clMinute c * time_Minute + clSecond c * time_Second + clNano c"
    using assms by (auto simp: slotgen_parseTimeOfDay_def Let_def split: if_splits option.splits)
  show ?thesis
    using parse_layouts_range [OF c(1)] unfolding c(2) durations day_length_def by simp
qed

text \<open>A schedule's times hold the same for the service that stored them and for the generator.\<close>

lemma parsers_agree:
  assumes "schedule_parseTimeOfDay tod = Inr d"
  shows "slotgen_parseTimeOfDay tod = Inr d"
  using assms
  by (auto simp: schedule_parseTimeOfDay_def slotgen_parseTimeOfDay_def Let_def
      split: if_splits option.splits)

section \<open>Days\<close>

lemma truncate_multiple [simp]: "truncateToUTCDate (truncateToUTCDate t + int n * day_length) =
    truncateToUTCDate t + int n * day_length"
  by (simp add: truncateToUTCDate_def day_length_def)

lemma truncate_le: "truncateToUTCDate t \<le> t"
  by (simp add: truncateToUTCDate_def day_length_def)

lemma truncate_mono: "t \<le> u \<Longrightarrow> truncateToUTCDate t \<le> truncateToUTCDate u"
  by (simp add: truncateToUTCDate_def day_length_def zdiv_mono1)

lemma opens_day:
  assumes "opens sch day t" "truncateToUTCDate day = day"
  shows "truncateToUTCDate t = day"
proof -
  obtain a b n where ab: "slotgen_parseTimeOfDay (schStartTime sch) = Inr a"
      "slotgen_parseTimeOfDay (schEndTime sch) = Inr b"
    and t: "t = day + a + int n * SlotDuration" "t + SlotDuration \<le> day + b"
    using assms(1) unfolding opens_def combineDateWithTimeOfDayUTC_def assms(2) by blast
  have "day \<le> t" "t < day + day_length"
    using slotgen_parse_range [OF ab(1)] slotgen_parse_range [OF ab(2)] t
    by (auto simp: SlotDuration_def)
  moreover obtain m where "day = m * day_length"
    using assms(2) by (metis truncateToUTCDate_def)
  ultimately have "t div day_length = m"
    by (simp add: day_length_def)
  then show ?thesis
    by (simp add: truncateToUTCDate_def \<open>day = m * day_length\<close>)
qed

lemma room_plan_iff:
  "sl \<in> set (room_plan x s room schs now target createdAt) \<longleftrightarrow>
    (\<exists>sch \<in> set schs. \<exists>day t. truncateToUTCDate day = day \<and> opens sch day t \<and>
      computeLowerBound now (last_start s (rmID room)) \<le> t \<and> t < target \<and>
      sl = buildSlot x (rmID room) t (t + SlotDuration) createdAt)"
proof -
  let ?lower = "computeLowerBound now (last_start s (rmID room))"
  have days: "(\<exists>n. truncateToUTCDate ?lower + int n * day_length \<le> truncateToUTCDate target \<and>
        opens sch (truncateToUTCDate ?lower + int n * day_length) t) \<longleftrightarrow>
      (\<exists>day. truncateToUTCDate day = day \<and> opens sch day t)"
    if bounds: "?lower \<le> t" "t < target" for sch t
  proof
    assume "\<exists>day. truncateToUTCDate day = day \<and> opens sch day t"
    then obtain day where day: "opens sch day t" "truncateToUTCDate day = day" by blast
    then have t: "truncateToUTCDate t = day"
      by (rule opens_day)
    have "truncateToUTCDate ?lower \<le> day" "day \<le> truncateToUTCDate target"
      using truncate_mono [of ?lower t] truncate_mono [of t target] that t by auto
    moreover obtain n where "day = truncateToUTCDate ?lower + int n * day_length"
    proof
      have "0 \<le> t div day_length - ?lower div day_length"
        using bounds(1) zdiv_mono1 [of ?lower t day_length] by (simp add: day_length_def)
      then show "day = truncateToUTCDate ?lower +
          int (nat (t div day_length - ?lower div day_length)) * day_length"
        using t by (simp add: truncateToUTCDate_def algebra_simps)
    qed
    ultimately show "\<exists>n. truncateToUTCDate ?lower + int n * day_length \<le> truncateToUTCDate target \<and>
        opens sch (truncateToUTCDate ?lower + int n * day_length) t"
      using day(1) by metis
  qed (use truncate_multiple in blast)
  show ?thesis
    unfolding room_plan_def Let_def set_planned_days set_planned_day set_sort_slice
    using days by blast
qed

section \<open>What a batch leaves in the table\<close>

lemma sql_slot_insert_slots:
  assumes "sql_slot_insert sl s = Inr s'"
  shows "set (slots s) \<subseteq> set (slots s')" "set (slots s') \<subseteq> insert (stored_slot sl) (set (slots s))"
    "sl_room_start (stored_slot sl) \<in> sl_room_start ` set (slots s')"
  using assms by (auto simp: sql_slot_insert_def Let_def split: if_splits)

lemma insert_slots_slots:
  assumes "insert_slots sls s = Inr s'"
  shows "set (slots s) \<subseteq> set (slots s')" "set (slots s') \<subseteq> stored_slot ` set sls \<union> set (slots s)"
    "sl \<in> set sls \<Longrightarrow> sl_room_start (stored_slot sl) \<in> sl_room_start ` set (slots s')"
proof -
  have "set (slots s) \<subseteq> set (slots s') \<and> set (slots s') \<subseteq> stored_slot ` set sls \<union> set (slots s) \<and>
    (\<forall>sl \<in> set sls. sl_room_start (stored_slot sl) \<in> sl_room_start ` set (slots s'))"
    using assms
  proof (induction sls arbitrary: s)
    case (Cons sl sls)
    then obtain s1 where s1: "sql_slot_insert sl s = Inr s1" "insert_slots sls s1 = Inr s'"
      by (auto split: sum.splits)
    show ?case
      using Cons.IH [OF s1(2)] sql_slot_insert_slots [OF s1(1)] by auto
  qed simp
  then show "set (slots s) \<subseteq> set (slots s')" "set (slots s') \<subseteq> stored_slot ` set sls \<union> set (slots s)"
    "sl \<in> set sls \<Longrightarrow> sl_room_start (stored_slot sl) \<in> sl_room_start ` set (slots s')"
    by blast+
qed

lemma last_start_None:
  assumes "last_start s k = None" "sl \<in> set (slots s)"
  shows "slRoomID sl \<noteq> k"
proof -
  have "sort_key (\<lambda>sl. - slStartTime sl) (filter (\<lambda>sl. slRoomID sl = k) (slots s)) = []"
    using assms(1) by (simp add: last_start_def split: list.splits)
  then have "set (filter (\<lambda>sl. slRoomID sl = k) (slots s)) = {}"
    by (metis set_sort empty_set)
  then show ?thesis
    using assms(2) by auto
qed

lemma last_start_Some:
  assumes "last_start s k = Some u"
  shows "\<exists>sl \<in> set (slots s). slRoomID sl = k \<and> slStartTime sl = u"
    "sl \<in> set (slots s) \<Longrightarrow> slRoomID sl = k \<Longrightarrow> slStartTime sl \<le> u"
proof -
  obtain z zs where z: "sort_key (\<lambda>sl. - slStartTime sl) (filter (\<lambda>sl. slRoomID sl = k) (slots s)) = z # zs"
      "slStartTime z = u"
    using assms by (auto simp: last_start_def split: list.splits)
  have members: "set (z # zs) = {sl \<in> set (slots s). slRoomID sl = k}"
    using arg_cong [OF z(1), of set] by auto
  then show "\<exists>sl \<in> set (slots s). slRoomID sl = k \<and> slStartTime sl = u"
    using z(2) by auto
  have "sorted (map (\<lambda>sl. - slStartTime sl) (z # zs))"
    using sorted_sort_key [of "\<lambda>sl. - slStartTime sl" "filter (\<lambda>sl. slRoomID sl = k) (slots s)"]
    unfolding z(1) .
  then show "sl \<in> set (slots s) \<Longrightarrow> slRoomID sl = k \<Longrightarrow> slStartTime sl \<le> u"
    using members z(2) by auto
qed

text \<open>The lower bound of a room: not before the clock, and past every slot the room has.\<close>

lemma lower_bound_iff:
  "computeLowerBound now (last_start s k) \<le> t \<longleftrightarrow>
    now \<le> t \<and> (\<forall>sl \<in> set (slots s). slRoomID sl = k \<longrightarrow> slStartTime sl + SlotDuration \<le> t)"
proof (cases "last_start s k")
  case None
  then show ?thesis
    using last_start_None by (auto simp: computeLowerBound_def)
next
  case (Some u)
  obtain z where "z \<in> set (slots s)" "slRoomID z = k" "slStartTime z = u"
    using last_start_Some(1) [OF Some] by blast
  then have "(\<forall>sl \<in> set (slots s). slRoomID sl = k \<longrightarrow> slStartTime sl + SlotDuration \<le> t) \<longleftrightarrow>
      u + SlotDuration \<le> t"
    using last_start_Some(2) [OF Some] by fastforce
  then show ?thesis
    using Some by (auto simp: computeLowerBound_def maxTime_def)
qed

section \<open>A whole run\<close>

text \<open>
  Slots the run owes a room: half-hour steps inside the opening hours of one of its schedules, in
  the window of the generator, and later than every slot the room already has.
\<close>

definition due_slot :: "generator \<Rightarrow> store \<Rightarrow> schedule list \<Rightarrow> uuid \<Rightarrow> time \<Rightarrow> bool" where
  "due_slot g s schs k t \<longleftrightarrow> gnNow g \<le> t \<and> t < gnNow g + gnRollingWindow g \<and>
     (\<exists>sch \<in> set schs. \<exists>day. truncateToUTCDate day = day \<and> opens sch day t) \<and>
     (\<forall>sl \<in> set (slots s). slRoomID sl = k \<longrightarrow> slStartTime sl + SlotDuration \<le> t)"

lemma room_plan_due:
  "sl \<in> set (room_plan x s room schs (gnNow g) (gnNow g + gnRollingWindow g) (gnNow g)) \<longleftrightarrow>
    (\<exists>t. due_slot g s schs (rmID room) t \<and>
      sl = buildSlot x (rmID room) t (t + SlotDuration) (gnNow g))"
  unfolding room_plan_iff lower_bound_iff due_slot_def by blast

definition new_slot :: "generator \<Rightarrow> ext \<Rightarrow> uuid \<Rightarrow> time \<Rightarrow> slot" where
  "new_slot g x k t = stored_slot (buildSlot x k t (t + SlotDuration) (gnNow g))"

lemma new_slot_simps [simp]:
  "slRoomID (new_slot g x k t) = k" "slStartTime (new_slot g x k t) = timestamptz t"
  "sl_room_start (new_slot g x k t) = (k, timestamptz t)"
  by (simp_all add: new_slot_def stored_slot_def buildSlot_def sl_room_start_def)

text \<open>The rooms \<open>ks\<close> have been filled and no other slot has changed.\<close>

definition filled :: "generator \<Rightarrow> ext \<Rightarrow> (uuid \<Rightarrow> schedule list) \<Rightarrow> uuid set \<Rightarrow> store \<Rightarrow> store \<Rightarrow> bool" where
  "filled g x scheds ks s s' \<longleftrightarrow> set (slots s) \<subseteq> set (slots s') \<and>
     (\<forall>sl \<in> set (slots s'). sl \<in> set (slots s) \<or>
        (\<exists>k \<in> ks. \<exists>t. due_slot g s (scheds k) k t \<and> sl = new_slot g x k t)) \<and>
     (\<forall>k \<in> ks. \<forall>t. due_slot g s (scheds k) k t \<longrightarrow>
        (k, timestamptz t) \<in> sl_room_start ` set (slots s'))"

lemma filled_due:
  "filled g x scheds ks s s' \<Longrightarrow> k \<in> ks \<Longrightarrow> due_slot g s (scheds k) k t \<Longrightarrow>
    (k, timestamptz t) \<in> sl_room_start ` set (slots s')"
  by (simp add: filled_def)

lemma filled_none: "slots s' = slots s \<Longrightarrow> filled g x scheds {} s s'"
  by (simp add: filled_def)

lemma due_slot_frame:
  assumes "{sl \<in> set (slots s). slRoomID sl = k} = {sl \<in> set (slots s'). slRoomID sl = k}"
  shows "due_slot g s schs k t \<longleftrightarrow> due_slot g s' schs k t"
  using assms unfolding due_slot_def by blast

lemma filled_step:
  assumes "filled g x scheds {k} s s1" "filled g x scheds ks s1 s2" "k \<notin> ks"
  shows "filled g x scheds (insert k ks) s s2"
proof -
  have same: "{sl \<in> set (slots s). slRoomID sl = k'} = {sl \<in> set (slots s1). slRoomID sl = k'}"
    if "k' \<in> ks" for k'
    using assms(1,3) that unfolding filled_def by fastforce
  have due: "due_slot g s (scheds k') k' t \<longleftrightarrow> due_slot g s1 (scheds k') k' t" if "k' \<in> ks" for k' t
    using same [OF that] by (rule due_slot_frame)
  have kept: "set (slots s) \<subseteq> set (slots s1)" "set (slots s1) \<subseteq> set (slots s2)"
    using assms(1,2) by (simp_all add: filled_def)
  show ?thesis
    unfolding filled_def
  proof (intro conjI ballI allI impI)
    show "set (slots s) \<subseteq> set (slots s2)"
      using kept by blast
  next
    fix sl
    assume "sl \<in> set (slots s2)"
    then consider (old) "sl \<in> set (slots s1)"
      | (new) k' t where "k' \<in> ks" "due_slot g s1 (scheds k') k' t" "sl = new_slot g x k' t"
      using assms(2) unfolding filled_def by blast
    then show "sl \<in> set (slots s) \<or>
        (\<exists>k' \<in> insert k ks. \<exists>t. due_slot g s (scheds k') k' t \<and> sl = new_slot g x k' t)"
    proof cases
      case old
      then show ?thesis
        using assms(1) unfolding filled_def by blast
    next
      case new
      then show ?thesis
        using due by blast
    qed
  next
    fix k' t
    assume "k' \<in> insert k ks" "due_slot g s (scheds k') k' t"
    then consider (first) "(k', timestamptz t) \<in> sl_room_start ` set (slots s1)"
      | (rest) "(k', timestamptz t) \<in> sl_room_start ` set (slots s2)"
      using filled_due [OF assms(1)] filled_due [OF assms(2)] due by auto
    then show "(k', timestamptz t) \<in> sl_room_start ` set (slots s2)"
      by cases (use kept(2) in auto)
  qed
qed

lemma generateForRoom_filled:
  assumes "run_state (generateForRoom g room (scheds (rmID room)) (gnNow g)
    (gnNow g + gnRollingWindow g) (gnNow g)) w = (Inr u, w')"
  shows "filled g (libs (env w)) scheds {rmID room} (db w) (db w') \<and> env w' = env w"
proof -
  let ?plan = "room_plan (libs (env w)) (db w) room (scheds (rmID room)) (gnNow g)
    (gnNow g + gnRollingWindow g) (gnNow g)"
  have ins: "insert_slots ?plan (db w) = Inr (db w')" and env: "env w' = env w"
    using generateForRoom_Inr [OF assms] by simp_all
  have "set ?plan = (\<lambda>t. buildSlot (libs (env w)) (rmID room) t (t + SlotDuration) (gnNow g)) `
      {t. due_slot g (db w) (scheds (rmID room)) (rmID room) t}"
    by (auto simp: room_plan_due)
  then have plan: "stored_slot ` set ?plan =
      new_slot g (libs (env w)) (rmID room) ` {t. due_slot g (db w) (scheds (rmID room)) (rmID room) t}"
    by (simp add: new_slot_def image_image)
  have "(rmID room, timestamptz t) \<in> sl_room_start ` set (slots (db w'))"
    if "due_slot g (db w) (scheds (rmID room)) (rmID room) t" for t
  proof -
    have "buildSlot (libs (env w)) (rmID room) t (t + SlotDuration) (gnNow g) \<in> set ?plan"
      using that by (auto simp: room_plan_due)
    from insert_slots_slots(3) [OF ins this] show ?thesis
      by (simp add: new_slot_def [symmetric])
  qed
  moreover have "set (slots (db w')) \<subseteq> new_slot g (libs (env w)) (rmID room) `
      {t. due_slot g (db w) (scheds (rmID room)) (rmID room) t} \<union> set (slots (db w))"
    using insert_slots_slots(2) [OF ins] unfolding plan .
  moreover note insert_slots_slots(1) [OF ins] env
  ultimately show ?thesis
    unfolding filled_def by blast
qed

lemma filled_skip:
  assumes "filled g x scheds ks s s'" "scheds k = []"
  shows "filled g x scheds (insert k ks) s s'"
  using assms by (auto simp: filled_def due_slot_def)

lemma generate_rooms_filled:
  assumes "run_state (generate_rooms g scheds (gnNow g) (gnNow g + gnRollingWindow g) rms) w = (Inr u, w')"
    "distinct (map rmID rms)"
  shows "filled g (libs (env w)) scheds (rmID ` set rms) (db w) (db w') \<and> env w' = env w"
  using assms
proof (induction rms arbitrary: w)
  case Nil
  then show ?case by (simp add: filled_none)
next
  case (Cons room rms)
  let ?rest = "generate_rooms g scheds (gnNow g) (gnNow g + gnRollingWindow g) rms"
  obtain w0 where w0: "db w0 = db w" "env w0 = env w" and run: "run_state (if scheds (rmID room) = [] then ?rest
      else check same_error (generateForRoom g room (scheds (rmID room)) (gnNow g)
        (gnNow g + gnRollingWindow g) (gnNow g)) (\<lambda>_. ?rest)) w0 = (Inr u, w')"
    using Cons.prems(1) by (auto elim!: check_InrE dest: ctx_Err_Inr)
  show ?case
  proof (cases "scheds (rmID room) = []")
    case True
    then show ?thesis
      using Cons.IH [of w0] run Cons.prems(2) w0 by (simp add: filled_skip)
  next
    case False
    obtain v w1 where first: "run_state (generateForRoom g room (scheds (rmID room)) (gnNow g)
        (gnNow g + gnRollingWindow g) (gnNow g)) w0 = (Inr v, w1)"
      and rest: "run_state ?rest w1 = (Inr u, w')"
      using run False by (auto elim: check_InrE)
    have "filled g (libs (env w)) scheds {rmID room} (db w) (db w1)" "env w1 = env w"
      using generateForRoom_filled [where scheds = scheds and room = room, OF first] w0 by simp_all
    moreover have "filled g (libs (env w)) scheds (rmID ` set rms) (db w1) (db w')" "env w' = env w"
      using Cons.IH [OF rest] Cons.prems(2) calculation(2) by simp_all
    ultimately show ?thesis
      using filled_step Cons.prems(2) by simp
  qed
qed

text \<open>The weekly schedules of a room, as the generator reads them.\<close>

definition room_schedules :: "ext \<Rightarrow> store \<Rightarrow> uuid \<Rightarrow> schedule list" where
  "room_schedules x s k =
     map (schedule_of_row (pg_time_out x)) (filter (\<lambda>r. scrRoomID r = k) (schedules s))"

lemma filled_other_lists:
  assumes "filled g x scheds ks s s'" "\<And>k. k \<in> ks \<Longrightarrow> set (scheds' k) = set (scheds k)"
    "ks \<subseteq> ks'" "\<And>k. k \<in> ks' \<Longrightarrow> k \<notin> ks \<Longrightarrow> scheds' k = []"
  shows "filled g x scheds' ks' s s'"
proof -
  have due: "due_slot g s (scheds' k) k t \<longleftrightarrow> k \<in> ks \<and> due_slot g s (scheds k) k t" if "k \<in> ks'" for k t
    using assms(2,4) that unfolding due_slot_def by (cases "k \<in> ks") auto
  show ?thesis
    unfolding filled_def
  proof (intro conjI ballI allI impI)
    show "set (slots s) \<subseteq> set (slots s')"
      using assms(1) by (simp add: filled_def)
  next
    fix sl
    assume "sl \<in> set (slots s')"
    then have "sl \<in> set (slots s) \<or> (\<exists>k \<in> ks. \<exists>t. due_slot g s (scheds k) k t \<and> sl = new_slot g x k t)"
      using assms(1) unfolding filled_def by blast
    then show "sl \<in> set (slots s) \<or> (\<exists>k \<in> ks'. \<exists>t. due_slot g s (scheds' k) k t \<and> sl = new_slot g x k t)"
      using due assms(3) by blast
  next
    fix k t
    assume "k \<in> ks'" "due_slot g s (scheds' k) k t"
    then show "(k, timestamptz t) \<in> sl_room_start ` set (slots s')"
      using due filled_due [OF assms(1)] by simp
  qed
qed

lemma Generate_filled:
  assumes "run_state (Generate g) w = (Inr u, w')" "rooms_ok (db w)"
  shows "filled g (libs (env w)) (room_schedules (libs (env w)) (db w)) (rmID ` set (rooms (db w)))
    (db w) (db w')"
proof -
  let ?x = "libs (env w)" and ?rms = "rooms_with_schedule (db w)"
  let ?scheds = "schedules_of (pg_time_out ?x) (db w) (map rmID ?rms)"
  have members: "rmID ` set ?rms = {k \<in> rmID ` set (rooms (db w)). room_schedules ?x (db w) k \<noteq> []}"
    by (auto simp: rooms_with_schedule_def room_schedules_def filter_empty_conv)
  have "distinct (map rmID ?rms)"
    using assms(2) unfolding rooms_with_schedule_def rooms_ok_def distinct_map
    by (auto intro: inj_on_subset)
  have "filled g ?x ?scheds (rmID ` set ?rms) (db w) (db w')"
  proof (cases "?rms = []")
    case True
    then have "db w' = db w"
      using assms(1)
      by (auto simp: Generate_def RoomRepo_ListWithSchedule_def db_call_select_Inr elim!: check_InrE
          dest!: ctx_Err_Inr)
    then show ?thesis
      using True by (simp add: filled_none)
  next
    case False
    then obtain w1 where w1: "db w1 = db w" "env w1 = env w"
      and run: "run_state (generate_rooms g ?scheds (gnNow g) (gnNow g + gnRollingWindow g) ?rms) w1 = (Inr u, w')"
      using assms(1)
      by (auto simp: Generate_def RoomRepo_ListWithSchedule_def ScheduleRepo_ListByRoomIDs_def
          db_call_select_Inr elim!: check_InrE dest!: ctx_Err_Inr) (metis tick_simps(1,4))
    then show ?thesis
      using generate_rooms_filled [OF run \<open>distinct (map rmID ?rms)\<close>] by simp
  qed
  then show ?thesis
    by (rule filled_other_lists) (auto simp: members schedules_of_def room_schedules_def)
qed

lemma Generate_only_slots:
  "db (snd (run_state (Generate g) w)) =
    (db w)\<lparr>slots := slots (db (snd (run_state (Generate g) w)))\<rparr>"
proof -
  have "insert_slots xs s = Inr s' \<Longrightarrow> s' = s\<lparr>slots := slots s'\<rparr>" for xs s s'
  proof (induction xs arbitrary: s)
    case (Cons sl xs)
    then obtain s1 where s1: "sql_slot_insert sl s = Inr s1" "insert_slots xs s1 = Inr s'"
      by (auto split: sum.splits)
    have "s1 = s\<lparr>slots := slots s1\<rparr>"
      using s1(1) by (auto simp: sql_slot_insert_def Let_def split: if_splits)
    with Cons.IH [OF s1(2)] show ?case
      by (metis store.surjective store.update_convs(4))
  qed simp
  then show ?thesis
    using only_inserts_Generate [of g] unfolding only_inserts_def slots_inserted_def by blast
qed

section \<open>When a run succeeds\<close>

text \<open>Nothing is in the way of flushing what is planned.\<close>

definition can_send :: "world \<Rightarrow> slot list \<Rightarrow> slot list \<Rightarrow> bool" where
  "can_send w batch xs \<longleftrightarrow> calm (env w) \<and> (\<forall>n. \<not> ctx_done_at (env w) n) \<and>
     (\<exists>s'. insert_slots (batch @ xs) (db w) = Inr s')"

lemma can_send_emits:
  assumes "emits w batch xs w' batch'" "can_send w batch (xs @ ys)"
  shows "can_send w' batch' ys"
proof -
  obtain f where f: "batch @ xs = f @ batch'" "insert_slots f (db w) = Inr (db w')" "env w' = env w"
    using assms(1) by (auto simp: emits_def)
  then have "insert_slots (batch @ xs @ ys) (db w) = insert_slots (batch' @ ys) (db w')"
    by (metis append.assoc insert_slots_append sum.simps(6))
  then show ?thesis
    using assms(2) f(3) by (simp add: can_send_def)
qed

lemma can_send_db: "can_send w batch xs \<Longrightarrow> db w' = db w \<Longrightarrow> env w' = env w \<Longrightarrow> can_send w' batch xs"
  by (simp add: can_send_def)

lemma flushBatch_succeeds:
  assumes "can_send w batch ys"
  shows "\<exists>w'. run_state (flushBatch batch) w = (Inr [], w')"
proof -
  obtain s' where "insert_slots batch (db w) = Inr s'"
    using assms by (auto simp: can_send_def insert_slots_append split: sum.splits)
  then show ?thesis
    using assms by (auto simp: can_send_def flushBatch_def SlotRepo_InsertBatchIgnoreConflicts_def
        run_check run_db_call_calm sql_slots_batch_def)
qed

lemma appendSlot_succeeds:
  assumes "can_send w batch (sl # ys)"
  shows "\<exists>batch' w'. run_state (appendSlot g batch sl) w = (Inr batch', w')"
  using assms flushBatch_succeeds [of w "batch @ [sl]" ys] by (auto simp: appendSlot_def can_send_def)

lemma generate_slots_succeeds:
  assumes "can_send w batch (planned_slots x roomID lowerBound target createdAt endOfDay slotStart @ ys)"
  shows "\<exists>batch' w'. run_state (generate_slots g x roomID lowerBound target createdAt endOfDay slotStart batch) w =
    (Inr batch', w')"
  using assms
proof (induction g x roomID lowerBound target createdAt endOfDay slotStart batch
    arbitrary: w rule: generate_slots.induct)
  case (1 g x roomID lowerBound target createdAt endOfDay slotStart batch)
  let ?plan = "planned_slots x roomID lowerBound target createdAt endOfDay"
  show ?case
  proof (cases "slotStart + SlotDuration > endOfDay")
    case True
    then show ?thesis
      by (subst generate_slots.simps) simp
  next
    case False
    note plan = planned_slots_step [of x roomID lowerBound target createdAt endOfDay slotStart]
    have ctx: "run_state ctx_Err w = (Inr (), tick w)"
      using 1(3) by (simp add: can_send_def run_ctx_Err)
    have send: "can_send (tick w) batch (?plan slotStart @ ys)"
      using 1(3) by (rule can_send_db) simp_all
    consider (early) "slotStart < lowerBound" | (late) "\<not> slotStart < lowerBound" "\<not> slotStart < target"
      | (fits) "\<not> slotStart < lowerBound" "slotStart < target" by blast
    then show ?thesis
    proof cases
      case early
      then show ?thesis
        using 1(1) [OF False early, of "tick w"] send plan False
        by (subst generate_slots.simps) (simp add: run_check ctx)
    next
      case late
      then show ?thesis
        using False by (subst generate_slots.simps) (simp add: run_check ctx)
    next
      case fits
      let ?slot = "buildSlot x roomID slotStart (slotStart + SlotDuration) createdAt"
      have send': "can_send (tick w) batch ([?slot] @ ?plan (slotStart + SlotDuration) @ ys)"
        using send plan False fits by simp
      then obtain b1 w1 where append: "run_state (appendSlot g batch ?slot) (tick w) = (Inr b1, w1)"
        using appendSlot_succeeds by fastforce
      have "can_send w1 b1 (?plan (slotStart + SlotDuration) @ ys)"
        using can_send_emits [OF appendSlot_emits [OF append] send'] .
      then show ?thesis
        using 1(2) [OF False] fits False append
        by (subst generate_slots.simps) (simp add: run_check ctx)
    qed
  qed
qed

text \<open>Every schedule reads back as a pair of times.\<close>

definition readable :: "schedule \<Rightarrow> bool" where
  "readable sch \<longleftrightarrow> (\<exists>a b. slotgen_parseTimeOfDay (schStartTime sch) = Inr a \<and>
     slotgen_parseTimeOfDay (schEndTime sch) = Inr b)"

lemma generate_day_succeeds:
  assumes "can_send w batch (planned_day x roomID lowerBound target createdAt day schs @ ys)"
    "\<And>sch. sch \<in> set schs \<Longrightarrow> readable sch"
  shows "\<exists>batch' w'. run_state (generate_day g x roomID lowerBound target createdAt day schs batch) w =
    (Inr batch', w')"
  using assms
proof (induction schs arbitrary: batch w)
  case (Cons sch schs)
  show ?case
  proof (cases "weekdayMatches day (schDayOfWeek sch)")
    case False
    then show ?thesis
      using Cons by (simp add: planned_day_def planned_schedule_def)
  next
    case True
    obtain a b where ab: "slotgen_parseTimeOfDay (schStartTime sch) = Inr a"
        "slotgen_parseTimeOfDay (schEndTime sch) = Inr b"
      using Cons.prems(2) [of sch] by (auto simp: readable_def)
    let ?first = "planned_slots x roomID lowerBound target createdAt
      (combineDateWithTimeOfDayUTC day b) (combineDateWithTimeOfDayUTC day a)"
    have send: "can_send w batch (?first @ planned_day x roomID lowerBound target createdAt day schs @ ys)"
      using Cons.prems(1) True ab by (simp add: planned_day_def planned_schedule_def)
    obtain b1 w1 where run: "run_state (generate_slots g x roomID lowerBound target createdAt
        (combineDateWithTimeOfDayUTC day b) (combineDateWithTimeOfDayUTC day a) batch) w = (Inr b1, w1)"
      using generate_slots_succeeds [OF send] by blast
    have "can_send w1 b1 (planned_day x roomID lowerBound target createdAt day schs @ ys)"
      using can_send_emits [OF generate_slots_emits [OF run] send] .
    then show ?thesis
      using Cons.IH [of w1 b1] Cons.prems(2) run True ab by (simp add: run_check generateForSchedule_def)
  qed
qed simp

lemma generate_days_succeeds:
  assumes "can_send w batch (planned_days x roomID lowerBound target createdAt schs endDay day @ ys)"
    "\<And>sch. sch \<in> set schs \<Longrightarrow> readable sch"
  shows "\<exists>batch' w'. run_state (generate_days g x roomID lowerBound target createdAt schs endDay day batch) w =
    (Inr batch', w')"
  using assms
proof (induction g x roomID lowerBound target createdAt schs endDay day batch
    arbitrary: w rule: generate_days.induct)
  case (1 g x roomID lowerBound target createdAt schs endDay day batch)
  show ?case
  proof (cases "day > endDay")
    case True
    then show ?thesis
      by (subst generate_days.simps) simp
  next
    case False
    let ?rest = "planned_days x roomID lowerBound target createdAt schs endDay (day + day_length)"
    have ctx: "run_state ctx_Err w = (Inr (), tick w)"
      using 1(2) by (simp add: can_send_def run_ctx_Err)
    have "can_send w batch (planned_day x roomID lowerBound target createdAt day schs @ ?rest @ ys)"
      using 1(2) False by (subst (asm) planned_days.simps) simp
    then have send: "can_send (tick w) batch (planned_day x roomID lowerBound target createdAt day schs @ ?rest @ ys)"
      by (rule can_send_db) simp_all
    obtain b1 w1 where run: "run_state (generate_day g x roomID lowerBound target createdAt day schs batch)
        (tick w) = (Inr b1, w1)"
      using generate_day_succeeds [OF send 1(3)] by blast
    have "can_send w1 b1 (?rest @ ys)"
      using can_send_emits [OF generate_day_emits [OF run] send] .
    then show ?thesis
      using 1(1) [OF False] 1(3) run False by (subst generate_days.simps) (simp add: run_check ctx)
  qed
qed

lemma generateForRoom_succeeds:
  assumes "can_send w [] (room_plan (libs (env w)) (db w) room schs now target createdAt)"
    "\<And>sch. sch \<in> set schs \<Longrightarrow> readable sch"
  shows "\<exists>w'. run_state (generateForRoom g room schs now target createdAt) w = (Inr (), w')"
proof -
  let ?x = "libs (env w)" and ?lower = "computeLowerBound now (last_start (db w) (rmID room))"
  let ?days = "generate_days g ?x (rmID room) ?lower target createdAt (sort_slice (schedule_less ?x) schs)
    (truncateToUTCDate target) (truncateToUTCDate ?lower) []"
  let ?plan = "planned_days ?x (rmID room) ?lower target createdAt (sort_slice (schedule_less ?x) schs)
    (truncateToUTCDate target) (truncateToUTCDate ?lower)"
  have "can_send (tick w) [] (?plan @ [])"
    using assms(1) by (simp add: room_plan_def Let_def can_send_def)
  then obtain batch w1 where days: "run_state ?days (tick w) = (Inr batch, w1)"
      and send: "can_send w1 batch []"
    using generate_days_succeeds [of "tick w" "[]" ?x "rmID room" ?lower target createdAt
        "sort_slice (schedule_less ?x) schs" "truncateToUTCDate target" "truncateToUTCDate ?lower" "[]" g]
      can_send_emits [OF generate_days_emits] assms(2) by (metis set_sort_slice)
  obtain w2 where "run_state (flushBatch batch) w1 = (Inr [], w2)"
    using flushBatch_succeeds [OF send] by blast
  then show ?thesis
    using days assms(1)
    by (simp add: generateForRoom_def SlotRepo_GetLastSlotStartByRoomID_def run_check run_db_call_calm
        select_def Let_def can_send_def)
qed

text \<open>Slots that fit beside each other: those of different places have other keys and do not overlap.\<close>

definition compatible :: "slot set \<Rightarrow> bool" where
  "compatible U \<longleftrightarrow> (\<forall>a \<in> U. slStartTime a < slEndTime a) \<and>
     (\<forall>a \<in> U. \<forall>b \<in> U. sl_room_start a \<noteq> sl_room_start b \<longrightarrow> slID a \<noteq> slID b \<and> \<not> sl_overlap a b)"

lemma compatible_Un:
  assumes "\<And>a. a \<in> A \<union> B \<Longrightarrow> slStartTime a < slEndTime a"
    "\<And>a b. a \<in> A \<Longrightarrow> b \<in> A \<Longrightarrow> sl_room_start a \<noteq> sl_room_start b \<Longrightarrow> slID a \<noteq> slID b \<and> \<not> sl_overlap a b"
    "\<And>a b. a \<in> A \<Longrightarrow> b \<in> B \<Longrightarrow> slID a \<noteq> slID b \<and> \<not> sl_overlap a b \<and> \<not> sl_overlap b a"
    "\<And>a b. a \<in> B \<Longrightarrow> b \<in> B \<Longrightarrow> sl_room_start a \<noteq> sl_room_start b \<Longrightarrow> slID a \<noteq> slID b \<and> \<not> sl_overlap a b"
  shows "compatible (A \<union> B)"
  unfolding compatible_def using assms by (metis Un_iff)

lemma insert_slots_succeeds:
  assumes "compatible U" "set (slots s) \<subseteq> U" "stored_slot ` set xs \<subseteq> U"
    "\<And>sl. sl \<in> set xs \<Longrightarrow> slRoomID sl \<in> rmID ` set (rooms s)"
  shows "\<exists>s'. insert_slots xs s = Inr s'"
  using assms(2-)
proof (induction xs arbitrary: s)
  case (Cons sl xs)
  have room: "slRoomID (stored_slot sl) = slRoomID sl"
    by (simp add: stored_slot_def)
  have ok: "slStartTime (stored_slot sl) < slEndTime (stored_slot sl)"
    using assms(1) Cons.prems(2) by (auto simp: compatible_def)
  have member: "stored_slot sl \<in> U"
    using Cons.prems(2) by simp
  have free: "slID (stored_slot sl) \<noteq> slID b \<and> \<not> sl_overlap (stored_slot sl) b"
    if "b \<in> set (slots s)" "sl_room_start (stored_slot sl) \<notin> sl_room_start ` set (slots s)" for b
  proof -
    have "sl_room_start (stored_slot sl) \<noteq> sl_room_start b" "b \<in> U"
      using that Cons.prems(1) by auto
    then show ?thesis
      using assms(1) member unfolding compatible_def by blast
  qed
  have "slRoomID sl \<in> rmID ` set (rooms s)"
    using Cons.prems(3) by simp
  then obtain s1 where s1: "sql_slot_insert sl s = Inr s1" "rooms s1 = rooms s"
    using ok free room by (cases "sl_room_start (stored_slot sl) \<in> sl_room_start ` set (slots s)")
      (auto simp: sql_slot_insert_def Let_def image_iff)
  have "set (slots s1) \<subseteq> U"
    using sql_slot_insert_slots(2) [OF s1(1)] Cons.prems(1,2) by auto
  then show ?case
    using Cons.IH [of s1] Cons.prems(2,3) s1 by simp
qed simp

text \<open>The slots of the table are half-hour slots, as the generator makes them.\<close>

definition half_hours :: "store \<Rightarrow> bool" where
  "half_hours s \<longleftrightarrow> (\<forall>sl \<in> set (slots s). slEndTime sl = slStartTime sl + SlotDuration \<and>
     timestamptz (slStartTime sl) = slStartTime sl)"

lemma timestamptz_half_hour: "timestamptz (t + SlotDuration) = timestamptz t + SlotDuration"
  using div_mult_self1 [of 1000 t 1800000000] by (simp add: timestamptz_def SlotDuration_def)

lemma midnights_apart:
  assumes "truncateToUTCDate d = d" "truncateToUTCDate e = e" "d < e"
  shows "d + day_length \<le> e"
proof -
  obtain m n where mn: "d = m * day_length" "e = n * day_length"
    using assms(1,2) by (metis truncateToUTCDate_def)
  then have "m + 1 \<le> n"
    using assms(3) by (simp add: day_length_def)
  then have "(m + 1) * day_length \<le> n * day_length"
    by (rule mult_right_mono) (simp add: day_length_def)
  then show ?thesis
    using mn by (simp add: algebra_simps)
qed

lemma half_hours_filled:
  assumes "filled g x scheds ks s s'" "half_hours s"
  shows "half_hours s'"
proof -
  have "slEndTime (new_slot g x k t) = slStartTime (new_slot g x k t) + SlotDuration" for k t
    by (simp add: new_slot_def stored_slot_def buildSlot_def timestamptz_half_hour)
  then show ?thesis
    using assms unfolding half_hours_def filled_def by (metis new_slot_simps(2) timestamptz_idem)
qed

definition ids_stable :: "generator \<Rightarrow> ext \<Rightarrow> (uuid \<Rightarrow> schedule list) \<Rightarrow> uuid set \<Rightarrow> store \<Rightarrow> bool" where
  "ids_stable g x scheds ks s \<longleftrightarrow> (\<forall>k \<in> ks. \<forall>t. due_slot g s (scheds k) k t \<longrightarrow>
     stableSlotID x k t \<notin> slID ` set (slots s) \<and>
     (\<forall>k' \<in> ks. \<forall>t'. due_slot g s (scheds k') k' t' \<longrightarrow> stableSlotID x k t = stableSlotID x k' t' \<longrightarrow>
       k = k' \<and> t = t'))"

text \<open>A room has at most one schedule per day of the week.\<close>

definition one_per_day :: "schedule list \<Rightarrow> bool" where
  "one_per_day schs \<longleftrightarrow> (\<forall>a \<in> set schs. \<forall>b \<in> set schs. schDayOfWeek a = schDayOfWeek b \<longrightarrow>
     schStartTime a = schStartTime b)"

lemma weekday_unique: "weekdayMatches day d \<Longrightarrow> weekdayMatches day d' \<Longrightarrow> d = d'"
  by (simp add: weekdayMatches_def)

lemma due_apart:
  assumes "due_slot g s schs k t" "due_slot g s schs k t'" "t < t'" "one_per_day schs"
  shows "t + SlotDuration \<le> t'"
proof -
  obtain sch day where o: "sch \<in> set schs" "truncateToUTCDate day = day" "opens sch day t"
    using assms(1) unfolding due_slot_def by blast
  obtain sch' day' where o': "sch' \<in> set schs" "truncateToUTCDate day' = day'" "opens sch' day' t'"
    using assms(2) unfolding due_slot_def by blast
  obtain a b n where t: "weekdayMatches day (schDayOfWeek sch)"
      "slotgen_parseTimeOfDay (schStartTime sch) = Inr a" "slotgen_parseTimeOfDay (schEndTime sch) = Inr b"
      "t = day + a + int n * SlotDuration" "t + SlotDuration \<le> day + b"
    using o(3) unfolding opens_def combineDateWithTimeOfDayUTC_def o(2) by blast
  obtain a' b' n' where t': "weekdayMatches day' (schDayOfWeek sch')"
      "slotgen_parseTimeOfDay (schStartTime sch') = Inr a'" "slotgen_parseTimeOfDay (schEndTime sch') = Inr b'"
      "t' = day' + a' + int n' * SlotDuration"
    using o'(3) unfolding opens_def combineDateWithTimeOfDayUTC_def o'(2) by blast
  show ?thesis
  proof (cases "day = day'")
    case True
    then have "a = a'"
      using t t' o(1) o'(1) assms(4) weekday_unique unfolding one_per_day_def by (metis sum.inject(2))
    then have "t' = t + (int n' - int n) * SlotDuration"
      using t(4) t'(4) True by (simp add: algebra_simps)
    moreover have "int n' - int n \<ge> 1"
      using calculation assms(3) by (simp add: SlotDuration_def)
    ultimately show ?thesis
      using mult_right_mono [of 1 "int n' - int n" SlotDuration] by (simp add: SlotDuration_def)
  next
    case False
    have "truncateToUTCDate t = day" "truncateToUTCDate t' = day'"
      using opens_day o o' by blast+
    then have "day < day'"
      using False truncate_mono [of t t'] assms(3) by simp
    then have "day + day_length \<le> day'"
      using midnights_apart o(2) o'(2) by blast
    moreover have "b < day_length" "0 \<le> a'"
      using slotgen_parse_range t(3) t'(2) by blast+
    moreover have "day' + a' \<le> t'"
      using t'(4) by (simp add: SlotDuration_def)
    ultimately show ?thesis
      using t(5) by simp
  qed
qed

lemma due_mono:
  "set (slots s) \<subseteq> set (slots s') \<Longrightarrow> due_slot g s' schs k t \<Longrightarrow> due_slot g s schs k t"
  unfolding due_slot_def by blast

definition quiet :: "env \<Rightarrow> bool" where
  "quiet e \<longleftrightarrow> calm e \<and> (\<forall>n. \<not> ctx_done_at e n)"

lemma generateForRoom_quiet:
  assumes "quiet (env w)" "compatible U" "set (slots (db w)) \<subseteq> U"
    "\<And>t. due_slot g (db w) schs (rmID room) t \<Longrightarrow> new_slot g (libs (env w)) (rmID room) t \<in> U"
    "rmID room \<in> rmID ` set (rooms (db w))" "\<And>sch. sch \<in> set schs \<Longrightarrow> readable sch"
  shows "\<exists>w'. run_state (generateForRoom g room schs (gnNow g) (gnNow g + gnRollingWindow g) (gnNow g)) w =
    (Inr (), w')"
proof (rule generateForRoom_succeeds)
  let ?plan = "room_plan (libs (env w)) (db w) room schs (gnNow g) (gnNow g + gnRollingWindow g) (gnNow g)"
  have "stored_slot ` set ?plan \<subseteq> U" "\<And>sl. sl \<in> set ?plan \<Longrightarrow> slRoomID sl \<in> rmID ` set (rooms (db w))"
    using assms(4,5) by (auto simp: room_plan_due new_slot_def) (simp add: buildSlot_def)
  then obtain s' where "insert_slots ?plan (db w) = Inr s'"
    using insert_slots_succeeds [OF assms(2,3)] by blast
  then show "can_send w [] ?plan"
    using assms(1) by (simp add: can_send_def quiet_def)
qed (use assms(6) in simp)

lemma generate_rooms_quiet:
  assumes "quiet (env w)" "compatible U" "set (slots (db w)) \<subseteq> U"
    "\<And>k t. k \<in> rmID ` set rms \<Longrightarrow> due_slot g (db w) (scheds k) k t \<Longrightarrow> new_slot g (libs (env w)) k t \<in> U"
    "rmID ` set rms \<subseteq> rmID ` set (rooms (db w))"
    "\<forall>k \<in> rmID ` set rms. \<forall>sch \<in> set (scheds k). readable sch"
  shows "\<exists>w'. run_state (generate_rooms g scheds (gnNow g) (gnNow g + gnRollingWindow g) rms) w = (Inr (), w')"
  using assms(1,3-)
proof (induction rms arbitrary: w)
  case (Cons room rms)
  have ctx: "run_state ctx_Err w = (Inr (), tick w)"
    using Cons.prems(1) by (simp add: quiet_def run_ctx_Err)
  show ?case
  proof (cases "scheds (rmID room) = []")
    case True
    moreover have "\<exists>w'. run_state (generate_rooms g scheds (gnNow g) (gnNow g + gnRollingWindow g) rms) (tick w) =
        (Inr (), w')"
      by (rule Cons.IH) (use Cons.prems in auto)
    ultimately show ?thesis
      by (simp add: run_check ctx)
  next
    case False
    obtain w1 where run: "run_state (generateForRoom g room (scheds (rmID room)) (gnNow g)
        (gnNow g + gnRollingWindow g) (gnNow g)) (tick w) = (Inr (), w1)"
      using generateForRoom_quiet [of "tick w" U g "scheds (rmID room)" room] Cons.prems assms(2) by auto
    have f: "filled g (libs (env w)) scheds {rmID room} (db w) (db w1)" and env: "env w1 = env w"
      using generateForRoom_filled [where scheds = scheds and room = room, OF run] by simp_all
    have grown: "set (slots (db w)) \<subseteq> set (slots (db w1))" "set (slots (db w1)) \<subseteq> U"
      using f Cons.prems(2,3) unfolding filled_def by (simp, fastforce)
    have "rooms (db w1) = rooms (db w)"
      using generateForRoom_Inr [OF run] insert_slots_frame by fastforce
    then have "\<exists>w'. run_state (generate_rooms g scheds (gnNow g) (gnNow g + gnRollingWindow g) rms) w1 = (Inr (), w')"
      by (intro Cons.IH) (use Cons.prems env grown due_mono [OF grown(1)] in auto)
    then show ?thesis
      using False run by (simp add: run_check ctx)
  qed
qed simp

lemma stored_half_hour: "slEndTime (new_slot g x k t) = timestamptz t + SlotDuration"
  by (simp add: new_slot_def stored_slot_def buildSlot_def timestamptz_half_hour)

lemma slID_new_slot [simp]: "slID (new_slot g x k t) = stableSlotID x k t"
  by (simp add: new_slot_def stored_slot_def buildSlot_def)

text \<open>The slots of the table and the ones that are due fit beside each other.\<close>

lemma due_compatible:
  assumes "slots_ok s" "half_hours s" "\<And>k. one_per_day (scheds k)" "ids_stable g x scheds ks s"
  shows "compatible (set (slots s) \<union> {new_slot g x k t | k t. k \<in> ks \<and> due_slot g s (scheds k) k t})"
    (is "compatible (?old \<union> ?new)")
proof -
  have positive: "slStartTime a < slEndTime a" if "a \<in> ?old \<union> ?new" for a
    using that assms(2) by (auto simp: half_hours_def stored_half_hour SlotDuration_def)
  have old: "slID a \<noteq> slID b \<and> \<not> sl_overlap a b" if "a \<in> ?old" "b \<in> ?old" "sl_room_start a \<noteq> sl_room_start b" for a b
  proof -
    have "slID a \<noteq> slID b"
      using assms(1) that by (auto simp: slots_ok_def distinct_map dest: inj_onD)
    then show ?thesis
      using assms(1) that(1,2) by (simp add: slots_ok_def)
  qed
  have mixed: "slID a \<noteq> slID b \<and> \<not> sl_overlap a b \<and> \<not> sl_overlap b a" if "a \<in> ?old" "b \<in> ?new" for a b
  proof -
    obtain k t where b: "b = new_slot g x k t" "k \<in> ks" and due: "due_slot g s (scheds k) k t"
      using \<open>b \<in> ?new\<close> by blast
    have "slEndTime a \<le> slStartTime b" if "slRoomID a = k"
    proof -
      have "slStartTime a + SlotDuration \<le> t"
        using due \<open>a \<in> ?old\<close> that unfolding due_slot_def by blast
      moreover have "timestamptz (slStartTime a + SlotDuration) = slStartTime a + SlotDuration"
          "slEndTime a = slStartTime a + SlotDuration"
        using assms(2) \<open>a \<in> ?old\<close> by (simp_all add: half_hours_def timestamptz_half_hour)
      ultimately show ?thesis
        using b timestamptz_mono by fastforce
    qed
    moreover have "slID a \<noteq> slID b"
      using assms(4) due b \<open>a \<in> ?old\<close> unfolding ids_stable_def by (metis image_eqI slID_new_slot)
    ultimately show ?thesis
      using b by (auto simp: sl_overlap_def)
  qed
  have new: "slID a \<noteq> slID b \<and> \<not> sl_overlap a b"
    if ab: "a \<in> ?new" "b \<in> ?new" "sl_room_start a \<noteq> sl_room_start b" for a b
  proof -
    obtain k t where a: "a = new_slot g x k t" "k \<in> ks" "due_slot g s (scheds k) k t"
      using ab(1) by blast
    obtain k' t' where b: "b = new_slot g x k' t'" "k' \<in> ks" "due_slot g s (scheds k') k' t'"
      using ab(2) by blast
    have differ: "k \<noteq> k' \<or> t \<noteq> t'"
      using ab(3) a(1) b(1) by auto
    have "timestamptz t + SlotDuration \<le> timestamptz t' \<or> timestamptz t' + SlotDuration \<le> timestamptz t" if "k = k'"
      using differ that due_apart [OF a(3), of t'] due_apart [OF b(3), of t] a(3) b(3) assms(3)
        timestamptz_mono [of "t + SlotDuration" t'] timestamptz_mono [of "t' + SlotDuration" t]
      by (simp add: timestamptz_half_hour) linarith
    moreover have "slID a \<noteq> slID b"
      using assms(4) a b differ unfolding ids_stable_def by (metis slID_new_slot)
    ultimately show ?thesis
      using a(1) b(1) by (auto simp: sl_overlap_def stored_half_hour)
  qed
  show ?thesis
    by (rule compatible_Un) (fact positive, fact old, fact mixed, fact new)
qed

lemma db_same: "db w = s \<Longrightarrow> w\<lparr>db := s\<rparr> = w"
  by (cases w) simp

lemma Generate_succeeds:
  assumes "quiet (env w)" "store_ok (db w)" "half_hours (db w)"
    "\<forall>k \<in> rmID ` set (rooms (db w)). \<forall>sch \<in> set (room_schedules (libs (env w)) (db w) k). readable sch"
    "ids_stable g (libs (env w)) (room_schedules (libs (env w)) (db w)) (rmID ` set (rooms (db w))) (db w)"
  shows "\<exists>w'. run_state (Generate g) w = (Inr (), w')"
proof -
  let ?x = "libs (env w)" and ?rms = "rooms_with_schedule (db w)"
  let ?scheds = "schedules_of (pg_time_out ?x) (db w) (map rmID ?rms)"
  let ?ks = "rmID ` set (rooms (db w))"
  let ?U = "set (slots (db w)) \<union>
    {new_slot g ?x k t | k t. k \<in> ?ks \<and> due_slot g (db w) (room_schedules ?x (db w) k) k t}"
  have ctx: "run_state ctx_Err v = (Inr (), tick v)" if "env v = env w" for v
    using assms(1) that by (simp add: quiet_def run_ctx_Err)
  have sched: "set (?scheds k) = set (room_schedules ?x (db w) k)" "k \<in> ?ks" if "k \<in> rmID ` set ?rms" for k
    using that by (auto simp: schedules_of_def room_schedules_def rooms_with_schedule_def)
  have "inj_on scr_room_day (set (schedules (db w)))"
    using assms(2) by (simp add: store_ok_def schedules_ok_def distinct_map)
  then have "a = b" if "a \<in> set (schedules (db w))" "b \<in> set (schedules (db w))" "scrRoomID a = scrRoomID b"
      "scrDayOfWeek a = scrDayOfWeek b" for a b
    using that by (simp add: inj_on_def scr_room_day_def)
  then have "one_per_day (room_schedules ?x (db w) k)" for k
    unfolding one_per_day_def room_schedules_def schedule_of_row_def by fastforce
  then have fit: "compatible ?U"
    using due_compatible assms(2,3,5) by (simp add: store_ok_def)
  have "\<exists>w'. run_state (generate_rooms g ?scheds (gnNow g) (gnNow g + gnRollingWindow g) ?rms) (tick (tick (tick w))) =
      (Inr (), w')"
  proof (rule generate_rooms_quiet [OF _ fit])
    show "new_slot g (libs (env (tick (tick (tick w))))) k t \<in> ?U"
      if "k \<in> rmID ` set ?rms" "due_slot g (db (tick (tick (tick w)))) (?scheds k) k t" for k t
    proof -
      have "due_slot g (db w) (room_schedules ?x (db w) k) k t"
        using sched(1) [OF that(1)] that(2) by (simp add: due_slot_def)
      then show ?thesis
        using sched(2) [OF that(1)] by auto
    qed
    show "\<forall>k \<in> rmID ` set ?rms. \<forall>sch \<in> set (?scheds k). readable sch"
      using sched assms(4) by (metis (no_types))
  qed (use assms(1) in \<open>auto simp: rooms_with_schedule_def\<close>)
  then show ?thesis
    using assms(1)
    by (simp add: Generate_def RoomRepo_ListWithSchedule_def ScheduleRepo_ListByRoomIDs_def run_check
        ctx run_db_call_calm select_def run_asks run_bind quiet_def db_same)
qed

text \<open>Nothing is due any more in a room that has been filled.\<close>

lemma not_due_again:
  assumes "filled g x scheds ks s s'" "k \<in> ks"
  shows "\<not> due_slot g s' (scheds k) k t"
proof
  assume due: "due_slot g s' (scheds k) k t"
  then have "due_slot g s (scheds k) k t"
    using assms(1) due_mono unfolding filled_def by blast
  then have "(k, timestamptz t) \<in> sl_room_start ` set (slots s')"
    by (rule filled_due [OF assms])
  then obtain sl where "sl \<in> set (slots s')" "slRoomID sl = k" "slStartTime sl = timestamptz t"
    by (auto simp: sl_room_start_def)
  then have "timestamptz t + SlotDuration \<le> t"
    using due unfolding due_slot_def by metis
  then show False
    by (simp add: timestamptz_def SlotDuration_def)
qed

section \<open>A sample run\<close>

text \<open>A room open on Thursdays from nine to half past nine; the epoch was a Thursday.\<close>

definition generator_ext :: ext where
  "generator_ext = sample_ext\<lparr>
     uuid_NewSHA1 := (\<lambda>u s. if s = ''id|32400000000000'' then 70 else 71),
     pg_time_out := (\<lambda>d. if d = 32400000000000 then ''09:00:00'' else ''09:30:00'')\<rparr>"

definition generator_world :: world where
  "generator_world = sample_world\<lparr>
     db := sample_store\<lparr>schedules := [\<lparr>scrID = 60, scrRoomID = 10, scrDayOfWeek = 4,
       scrStartTime = 32400000000000, scrEndTime = 34200000000000, scrCreatedAt = 0\<rparr>]\<rparr>,
     env := sample_env\<lparr>libs := generator_ext\<rparr>\<rparr>"

definition sample_generator :: generator where
  "sample_generator = \<lparr>gnNow = 100000000000, gnRollingWindow = DefaultRollingWindow,
     gnMaxBatch = DefaultMaxBatch\<rparr>"

lemma sample_NewGenerator: "run_state NewGenerator generator_world = (sample_generator, tick generator_world)"
  by (simp add: NewGenerator_def run_bind generator_world_def sample_generator_def sample_env_def)

lemma generator_sample_db:
  "db generator_world = sample_store\<lparr>schedules := [\<lparr>scrID = 60, scrRoomID = 10, scrDayOfWeek = 4,
       scrStartTime = 32400000000000, scrEndTime = 34200000000000, scrCreatedAt = 0\<rparr>]\<rparr>"
  "libs (env generator_world) = generator_ext" "quiet (env generator_world)"
  by (simp_all add: generator_world_def quiet_def calm_def sample_env_def)

lemma generator_sample_ok: "store_ok (db generator_world)" "half_hours (db generator_world)"
proof -
  have "schedules_ok (db generator_world)"
    by (simp add: schedules_ok_def generator_sample_db sample_defs)
  then show "store_ok (db generator_world)"
    using sample_store_ok unfolding generator_sample_db store_ok_def users_ok_def rooms_ok_def slots_ok_def
      bookings_ok_def waitlist_ok_def reservations_ok_def by simp
  show "half_hours (db generator_world)"
    by (simp add: half_hours_def generator_sample_db sample_defs SlotDuration_def timestamptz_def)
qed

lemma generator_sample_app_ok: "app_ok (db generator_world)"
  using generator_sample_ok(1) sample_exclusive sample_claims
  by (auto simp: app_ok_def generator_sample_db exclusive_def claims_ok_def slot_booked_def slot_reserved_def
      claim_of_def)

lemma sample_times: "slotgen_parseTimeOfDay ''09:00:00'' = Inr 32400000000000"
  "slotgen_parseTimeOfDay ''09:30:00'' = Inr 34200000000000"
  by code_simp+

lemma sample_ids: "stableSlotID generator_ext 10 32400000000000 = 70"
  "stableSlotID generator_ext 10 637200000000000 = 71"
  by (simp_all add: stableSlotID_def generator_ext_def sample_ext_def FormatInt_def int64_def digits.simps
      char_of_def bit_0)

lemma sample_schedules: "room_schedules generator_ext (db generator_world) 10 =
  [\<lparr>schID = 60, schRoomID = 10, schDayOfWeek = 4, schStartTime = ''09:00:00'', schEndTime = ''09:30:00'',
    schCreatedAt = 0\<rparr>]"
  by (simp add: room_schedules_def generator_sample_db schedule_of_row_def generator_ext_def)

lemma sample_due:
  "due_slot sample_generator (db generator_world) (room_schedules generator_ext (db generator_world) 10) 10 t \<longleftrightarrow>
    t = 32400000000000 \<or> t = 637200000000000" (is "?due \<longleftrightarrow> _")
proof
  assume ?due
  then have window: "100000000000 \<le> t" "t < 100000000000 + 14 * day_length"
    by (simp_all add: due_slot_def sample_generator_def DefaultRollingWindow_def durations day_length_def)
  obtain day sch where day: "truncateToUTCDate day = day" and sch: "sch \<in> set (room_schedules generator_ext (db generator_world) 10)"
      and opens: "opens sch day t"
    using \<open>?due\<close> unfolding due_slot_def by blast
  have times: "slotgen_parseTimeOfDay (schStartTime sch) = Inr 32400000000000"
      "slotgen_parseTimeOfDay (schEndTime sch) = Inr 34200000000000" "schDayOfWeek sch = 4"
    using sch by (simp_all add: sample_schedules sample_times)
  obtain n where t: "t = day + 32400000000000 + int n * SlotDuration" "t + SlotDuration \<le> day + 34200000000000"
    using opens unfolding opens_def combineDateWithTimeOfDayUTC_def times day by blast
  have "weekdayMatches day 4"
    using opens times(3) by (simp add: opens_def)
  obtain m where m: "day = m * day_length"
    using day by (metis truncateToUTCDate_def)
  have "n = 0"
    using t by (simp add: SlotDuration_def)
  then have "0 \<le> m" "m < 14" "t = m * day_length + 32400000000000"
    using t(1) window m by (simp_all add: day_length_def)
  moreover have "(m + 4) mod 7 = 4"
    using \<open>weekdayMatches day 4\<close> m by (simp add: weekdayMatches_def dbWeekdayFromGo_def go_weekday_def day_length_def
        split: if_splits)
  ultimately show "t = 32400000000000 \<or> t = 637200000000000"
    by (simp add: day_length_def) presburger
next
  assume t: "t = 32400000000000 \<or> t = 637200000000000"
  have "opens sch day (day + 32400000000000)"
    if "schDayOfWeek sch = 4" "schStartTime sch = ''09:00:00''" "schEndTime sch = ''09:30:00''"
      "weekdayMatches day 4" "truncateToUTCDate day = day" for sch day
    unfolding opens_def combineDateWithTimeOfDayUTC_def that sample_times
    using that(4) by (auto simp: SlotDuration_def intro: exI [of _ "0 :: nat"])
  note at_nine = this
  obtain day where day: "weekdayMatches day 4" "truncateToUTCDate day = day" "t = day + 32400000000000"
  proof (cases "t = 32400000000000")
    case True
    then show ?thesis
      by (intro that [of 0]) (simp_all add: weekdayMatches_def go_weekday_def dbWeekdayFromGo_def
          truncateToUTCDate_def day_length_def)
  next
    case False
    then show ?thesis
      using t by (intro that [of "7 * day_length"]) (simp_all add: weekdayMatches_def go_weekday_def
          dbWeekdayFromGo_def truncateToUTCDate_def day_length_def)
  qed
  have "\<exists>sch \<in> set (room_schedules generator_ext (db generator_world) 10).
      \<exists>day. truncateToUTCDate day = day \<and> opens sch day t"
    using at_nine [OF _ _ _ day(1,2)] day(2,3) unfolding sample_schedules by auto
  then show ?due
    using t unfolding due_slot_def
    by (auto simp: generator_sample_db sample_defs sample_generator_def DefaultRollingWindow_def durations
        SlotDuration_def)
qed

lemma sample_rooms: "rmID ` set (rooms (db generator_world)) = {10}"
  by (simp add: generator_sample_db sample_defs)

lemma sample_ids_stable:
  "ids_stable sample_generator (libs (env generator_world))
    (room_schedules (libs (env generator_world)) (db generator_world))
    (rmID ` set (rooms (db generator_world))) (db generator_world)"
  unfolding ids_stable_def sample_rooms generator_sample_db(2)
  using sample_due sample_ids by (auto simp: generator_sample_db sample_defs)

lemma sample_readable:
  "\<forall>k \<in> rmID ` set (rooms (db generator_world)).
    \<forall>sch \<in> set (room_schedules (libs (env generator_world)) (db generator_world) k). readable sch"
  unfolding sample_rooms generator_sample_db(2) by (simp add: sample_schedules readable_def sample_times)

lemma sample_run: "\<exists>w'. run_state (Generate sample_generator) generator_world = (Inr (), w')"
  by (rule Generate_succeeds) (fact generator_sample_db generator_sample_ok sample_ids_stable sample_readable)+

lemma sample_second_run:
  assumes "run_state (Generate sample_generator) generator_world = (Inr u, w1)"
  shows "\<exists>w'. run_state (Generate sample_generator) (w1\<lparr>env := env generator_world\<rparr>) = (Inr (), w')"
proof (rule Generate_succeeds)
  let ?g = sample_generator and ?x = generator_ext
  have f: "filled ?g ?x (room_schedules ?x (db generator_world)) (rmID ` set (rooms (db generator_world)))
      (db generator_world) (db w1)"
    using Generate_filled [OF assms] generator_sample_ok(1) generator_sample_db(2) by (simp add: store_ok_def)
  have same: "rooms (db w1) = rooms (db generator_world)" "schedules (db w1) = schedules (db generator_world)"
    using Generate_only_slots [of ?g generator_world] assms
    by (auto dest: arg_cong [of _ _ schedules] arg_cong [of _ _ rooms])
  then have scheds: "room_schedules ?x (db w1) = room_schedules ?x (db generator_world)"
    by (simp add: fun_eq_iff room_schedules_def)
  note rooms = sample_rooms
  have "slots_inserted (db generator_world) (db w1)"
    using only_inserts_Generate [of ?g] assms unfolding only_inserts_def by (metis snd_conv)
  then show "store_ok (db (w1\<lparr>env := env generator_world\<rparr>))"
    using app_ok_insert_slots generator_sample_app_ok by (auto simp: slots_inserted_def app_ok_def)
  show "half_hours (db (w1\<lparr>env := env generator_world\<rparr>))"
    using half_hours_filled [OF f generator_sample_ok(2)] by simp
  have "\<not> due_slot ?g (db w1) (room_schedules ?x (db w1) 10) 10 t" for t
    using not_due_again [OF f, of 10 t] rooms scheds by simp
  then show "ids_stable ?g (libs (env (w1\<lparr>env := env generator_world\<rparr>)))
      (room_schedules (libs (env (w1\<lparr>env := env generator_world\<rparr>))) (db (w1\<lparr>env := env generator_world\<rparr>)))
      (rmID ` set (rooms (db (w1\<lparr>env := env generator_world\<rparr>)))) (db (w1\<lparr>env := env generator_world\<rparr>))"
    by (simp add: ids_stable_def generator_sample_db(2) same rooms)
  show "\<forall>k \<in> rmID ` set (rooms (db (w1\<lparr>env := env generator_world\<rparr>))). \<forall>sch \<in> set (room_schedules
      (libs (env (w1\<lparr>env := env generator_world\<rparr>))) (db (w1\<lparr>env := env generator_world\<rparr>)) k). readable sch"
    by (simp add: generator_sample_db(2) same rooms scheds sample_schedules readable_def sample_times)
qed (simp add: generator_sample_db)

section \<open>Properties\<close>

text \<open>
  C15. A run of the generator that succeeds owes every room the half-hour steps inside the opening
  hours of its weekly schedules that start in the window of the generator and after the last slot
  of the room: afterwards each of them is a slot of the table, the slots there were are still
  there, and every new slot is one of these, half an hour long, under its stable identifier. Nothing
  but slots changes.
\<close>

theorem generator_fills_window:
  assumes "run_state (Generate g) w = (Inr u, w')" "store_ok (db w)"
  shows "set (slots (db w)) \<subseteq> set (slots (db w')) \<and>
    (\<forall>k \<in> rmID ` set (rooms (db w)). \<forall>t.
      due_slot g (db w) (room_schedules (libs (env w)) (db w) k) k t \<longrightarrow>
      (\<exists>sl \<in> set (slots (db w')). slRoomID sl = k \<and> slStartTime sl = timestamptz t)) \<and>
    (\<forall>sl \<in> set (slots (db w')) - set (slots (db w)). \<exists>t.
      due_slot g (db w) (room_schedules (libs (env w)) (db w) (slRoomID sl)) (slRoomID sl) t \<and>
      slStartTime sl = timestamptz t \<and> slEndTime sl = timestamptz (t + SlotDuration) \<and>
      slID sl = stableSlotID (libs (env w)) (slRoomID sl) t) \<and>
    db w' = (db w)\<lparr>slots := slots (db w')\<rparr>"
proof -
  have f: "filled g (libs (env w)) (room_schedules (libs (env w)) (db w)) (rmID ` set (rooms (db w)))
      (db w) (db w')"
    using Generate_filled [OF assms(1)] assms(2) by (simp add: store_ok_def)
  have fields: "slID (new_slot g x k t) = stableSlotID x k t"
      "slEndTime (new_slot g x k t) = timestamptz (t + SlotDuration)" for x k t
    by (simp_all add: new_slot_def stored_slot_def buildSlot_def)
  have "\<exists>t. due_slot g (db w) (room_schedules (libs (env w)) (db w) (slRoomID sl)) (slRoomID sl) t \<and>
      slStartTime sl = timestamptz t \<and> slEndTime sl = timestamptz (t + SlotDuration) \<and>
      slID sl = stableSlotID (libs (env w)) (slRoomID sl) t"
    if "sl \<in> set (slots (db w')) - set (slots (db w))" for sl
  proof -
    obtain k t where "due_slot g (db w) (room_schedules (libs (env w)) (db w) k) k t"
        "sl = new_slot g (libs (env w)) k t"
      using f \<open>sl \<in> set (slots (db w')) - set (slots (db w))\<close> unfolding filled_def by blast
    then show ?thesis
      using fields by (intro exI [of _ t]) simp
  qed
  moreover have "\<exists>sl \<in> set (slots (db w')). slRoomID sl = k \<and> slStartTime sl = timestamptz t"
    if "k \<in> rmID ` set (rooms (db w))" "due_slot g (db w) (room_schedules (libs (env w)) (db w) k) k t" for k t
    using filled_due [OF f that] by (auto simp: sl_room_start_def)
  moreover have "set (slots (db w)) \<subseteq> set (slots (db w'))"
    using f by (simp add: filled_def)
  ultimately show ?thesis
    using Generate_only_slots [of g w] assms(1) by simp
qed

lemma generator_fills_window_witness:
  "\<exists>w'. run_state (Generate sample_generator) generator_world = (Inr (), w') \<and>
    (\<exists>sl \<in> set (slots (db w')). slRoomID sl = 10 \<and> slStartTime sl = 637200000000000)"
proof -
  obtain w' where run: "run_state (Generate sample_generator) generator_world = (Inr (), w')"
    using sample_run by blast
  have "10 \<in> rmID ` set (rooms (db generator_world))" "timestamptz 637200000000000 = 637200000000000"
    by (simp_all add: generator_sample_db sample_defs timestamptz_def)
  then show ?thesis
    using generator_fills_window [OF run generator_sample_ok(1)] run sample_due generator_sample_db(2) by metis
qed

text \<open>
  C16. A generator adds nothing in a second run: when the slots, rooms and schedules are as a
  successful run left them, a later run of the same generator that succeeds leaves the slots alone,
  whatever the clock shows by then. The window of a generator does not move with the clock.
\<close>

theorem second_run_adds_nothing:
  assumes "run_state (Generate g) w = (Inr u, w1)" "run_state (Generate g) w2 = (Inr v, w3)"
    "store_ok (db w)" "db w2 = db w1" "libs (env w2) = libs (env w)"
  shows "set (slots (db w3)) = set (slots (db w2))"
proof -
  let ?x = "libs (env w)"
  have f1: "filled g ?x (room_schedules ?x (db w)) (rmID ` set (rooms (db w))) (db w) (db w1)"
    using Generate_filled [OF assms(1)] assms(3) by (simp add: store_ok_def)
  have same: "schedules (db w1) = schedules (db w)" "rooms (db w1) = rooms (db w)"
    using Generate_only_slots [of g w] assms(1) by (auto dest: arg_cong [of _ _ schedules] arg_cong [of _ _ rooms])
  have "room_schedules ?x (db w1) = room_schedules ?x (db w)"
    by (simp add: fun_eq_iff room_schedules_def same)
  then have f2: "filled g ?x (room_schedules ?x (db w)) (rmID ` set (rooms (db w))) (db w1) (db w3)"
    using Generate_filled [OF assms(2)] assms(3-5) same by (simp add: store_ok_def rooms_ok_def)
  have "\<not> due_slot g (db w1) (room_schedules ?x (db w) k) k t" if "k \<in> rmID ` set (rooms (db w))" for k t
    using f1 that by (rule not_due_again)
  then show ?thesis
    using f2 unfolding filled_def assms(4) by blast
qed

lemma second_run_adds_nothing_witness:
  "\<exists>w1 v w3. run_state (Generate sample_generator) generator_world = (Inr (), w1) \<and>
    run_state (Generate sample_generator) (w1\<lparr>env := env generator_world\<rparr>) = (v, w3) \<and>
    set (slots (db w3)) = set (slots (db w1))"
proof -
  obtain w1 where run: "run_state (Generate sample_generator) generator_world = (Inr (), w1)"
    using sample_run by blast
  obtain w3 where again: "run_state (Generate sample_generator) (w1\<lparr>env := env generator_world\<rparr>) = (Inr (), w3)"
    using sample_second_run [OF run] by auto
  show ?thesis
    using second_run_adds_nothing [OF run again generator_sample_ok(1)] run again by auto
qed

text \<open>
  C17. The slots a process adds start before the moment its generator was made plus fourteen days,
  however much later the run happens.
\<close>

theorem window_never_moves:
  assumes "run_state NewGenerator w0 = (g, w1)" "run_state (Generate g) w = (Inr u, w')"
    "store_ok (db w)" "sl \<in> set (slots (db w')) - set (slots (db w))"
  shows "clock_at (env w0) (ticks w0) - 1000 < slStartTime sl \<and>
    slStartTime sl < clock_at (env w0) (ticks w0) + 14 * day_length"
proof -
  have g: "gnNow g = clock_at (env w0) (ticks w0)" "gnRollingWindow g = 14 * day_length"
    using assms(1) by (auto simp: NewGenerator_def now_utc_def run_bind DefaultRollingWindow_def durations
        day_length_def)
  obtain k t where "due_slot g (db w) (room_schedules (libs (env w)) (db w) k) k t"
      "sl = new_slot g (libs (env w)) k t"
    using Generate_filled [OF assms(2)] assms(3,4) unfolding filled_def store_ok_def by blast
  then have "slStartTime sl = timestamptz t" "gnNow g \<le> t" "t < gnNow g + gnRollingWindow g"
    by (auto simp: due_slot_def)
  moreover have "t - 1000 < timestamptz t" "timestamptz t \<le> t"
    using timestamptz_le by (simp_all add: timestamptz_def)
  ultimately show ?thesis
    using g by simp
qed


lemma window_never_moves_witness:
  "\<exists>w' sl. run_state (Generate sample_generator) generator_world = (Inr (), w') \<and> sl \<in> set (slots (db w')) \<and>
    slRoomID sl = 10 \<and> slStartTime sl = 637200000000000 \<and> slStartTime sl < 100000000000 + 14 * day_length"
proof -
  obtain w' where run: "run_state (Generate sample_generator) generator_world = (Inr (), w')"
    using sample_run by blast
  have f: "filled sample_generator generator_ext (room_schedules generator_ext (db generator_world))
      (rmID ` set (rooms (db generator_world))) (db generator_world) (db w')"
    using Generate_filled [OF run] generator_sample_ok(1) generator_sample_db(2) by (simp add: store_ok_def)
  have "10 \<in> rmID ` set (rooms (db generator_world))" "timestamptz 637200000000000 = 637200000000000"
    by (simp_all add: generator_sample_db sample_defs timestamptz_def)
  then have "(10, 637200000000000) \<in> sl_room_start ` set (slots (db w'))"
    using filled_due [OF f] sample_due by metis
  then obtain sl where sl: "sl \<in> set (slots (db w'))" "slRoomID sl = 10" "slStartTime sl = 637200000000000"
    by (auto simp: sl_room_start_def)
  then have "sl \<in> set (slots (db w')) - set (slots (db generator_world))"
    by (auto simp: generator_sample_db sample_defs)
  from window_never_moves [OF sample_NewGenerator run generator_sample_ok(1) this] show ?thesis
    using run sl by (auto simp: generator_world_def)
qed

text \<open>
  C18. On a quiet system a run of the generator succeeds: when no query fails, the context is alive,
  the table holds half-hour slots, the times of the schedules read back and the stable identifiers of
  the slots that are due are new and differ from each other, no constraint of the database is in the
  way of any batch, and the half-hour shape is kept.
\<close>

theorem generator_succeeds:
  assumes "quiet (env w)" "store_ok (db w)" "half_hours (db w)"
    "\<forall>k \<in> rmID ` set (rooms (db w)). \<forall>sch \<in> set (room_schedules (libs (env w)) (db w) k). readable sch"
    "ids_stable g (libs (env w)) (room_schedules (libs (env w)) (db w)) (rmID ` set (rooms (db w))) (db w)"
  shows "\<exists>w'. run_state (Generate g) w = (Inr (), w') \<and> half_hours (db w')"
proof -
  obtain w' where run: "run_state (Generate g) w = (Inr (), w')"
    using Generate_succeeds [OF assms] by blast
  then show ?thesis
    using half_hours_filled [OF Generate_filled [OF run]] assms(2,3) by (simp add: store_ok_def)
qed

lemma generator_succeeds_witness:
  "\<exists>w'. run_state (Generate sample_generator) generator_world = (Inr (), w') \<and> half_hours (db w')"
  by (rule generator_succeeds) (fact generator_sample_db generator_sample_ok sample_readable sample_ids_stable)+

end
