(* ===== verification/Admin_Contract.thy ===== *)
theory Admin_Contract
  imports Booking_Contract Generator_Contract
begin

text \<open>
  What the services for rooms, schedules and slots promise: creating a schedule on every branch, the
  rows it leaves, and what the two listings of a day's slots show.
\<close>

section \<open>Schedules\<close>

lemma grid_multiple: "isAlignedToSlotGrid d \<Longrightarrow> d mod SlotDuration = 0"
  using zmod_zmult2_eq [of 30 d time_Minute]
  by (simp add: isAlignedToSlotGrid_def SlotDuration_def durations split: if_splits)

text \<open>
  \<open>CreateSchedule\<close> over a database that answers refuses, with the code of the first rule that is
  broken and without touching the database: a caller who is not an administrator, an empty list of
  days, an unknown room, a room that already has a schedule, a day outside 1 to 7, a time that is not
  a clock time without seconds, a time off the half-hour grid, and an end that is not after the start.
\<close>

theorem create_schedule_refuses:
  assumes "calm (env w)" "schedule_refusal u roomID input (db w) = Some c"
  shows "\<exists>e w'. run_state (CreateSchedule u roomID input) w = (Inl e, w') \<and> has_code e c \<and> db w' = db w"
  using assms by (rule CreateSchedule_refused)

definition sample_hours :: create_schedule_input where
  "sample_hours = \<lparr>siDaysOfWeek = [4], siStartTime = ''09:00'', siEndTime = ''18:00''\<rparr>"

lemma sample_hours_parse:
  "schedule_parseTimeOfDay ''09:00'' = Inr 32400000000000" "schedule_parseTimeOfDay ''18:00'' = Inr 64800000000000"
  "schedule_parseTimeOfDay ''09:10'' = Inr 33000000000000"
  "isAlignedToSlotGrid 32400000000000" "isAlignedToSlotGrid 64800000000000" "\<not> isAlignedToSlotGrid 33000000000000"
  by code_simp+

lemma create_schedule_refuses_witness:
  "\<exists>e w'. run_state (CreateSchedule root_user 10 (sample_hours\<lparr>siStartTime := ''09:10''\<rparr>)) sample_world = (Inl e, w') \<and>
    has_code e ErrorInvalidRequest \<and> db w' = sample_store"
proof -
  have "schedule_refusal root_user 10 (sample_hours\<lparr>siStartTime := ''09:10''\<rparr>) sample_store = Some ErrorInvalidRequest"
    by (simp add: schedule_refusal_def sample_hours_def sample_hours_parse sample_defs)
  then show ?thesis
    using create_schedule_refuses [of sample_world root_user 10 "sample_hours\<lparr>siStartTime := ''09:10''\<rparr>"] by simp
qed

text \<open>
  C30. A schedule that \<open>CreateSchedule\<close> reports as created consists of one row per distinct day asked
  for, in the order of the week, each with the times as the database reads them, appended to a table
  that had no row of this room; the view that is returned lists the same days with the times as
  given, both on the half-hour grid of one day, the start before the end.
\<close>

theorem create_schedule_rows:
  assumes "run_state (CreateSchedule u roomID input) w = (Inr v, w')"
  shows "\<exists>new a b. db w' = (db w)\<lparr>schedules := schedules (db w) @ new\<rparr> \<and>
    (\<forall>r \<in> set (schedules (db w)). scrRoomID r \<noteq> roomID) \<and>
    map scrDayOfWeek new = schedule_days (siDaysOfWeek input) \<and>
    (\<forall>r \<in> set new. scrRoomID r = roomID \<and> 1 \<le> scrDayOfWeek r \<and> scrDayOfWeek r \<le> 7 \<and>
      scrStartTime r < scrEndTime r \<and>
      pg_time_in (libs (env w)) (siStartTime input) = Some (scrStartTime r) \<and>
      pg_time_in (libs (env w)) (siEndTime input) = Some (scrEndTime r)) \<and>
    schedule_parseTimeOfDay (siStartTime input) = Inr a \<and> schedule_parseTimeOfDay (siEndTime input) = Inr b \<and>
    a < b \<and> b < day_length \<and> a mod SlotDuration = 0 \<and> b mod SlotDuration = 0 \<and>
    vwRules v = map (\<lambda>day. \<lparr>ruDayOfWeek = day, ruStartTime = siStartTime input,
      ruEndTime = siEndTime input\<rparr>) (schedule_days (siDaysOfWeek input))"
proof -
  obtain a b rows xs where
    ref: "schedule_refusal u roomID input (db w) = None"
    and ab: "schedule_parseTimeOfDay (siStartTime input) = Inr a" "schedule_parseTimeOfDay (siEndTime input) = Inr b"
    and v: "v = \<lparr>vwRoomID = roomID, vwRules = map (\<lambda>day. \<lparr>ruDayOfWeek = day,
      ruStartTime = siStartTime input, ruEndTime = siEndTime input\<rparr>) (schedule_days (siDaysOfWeek input))\<rparr>"
    and xs: "map schDayOfWeek xs = schedule_days (siDaysOfWeek input)"
      "\<forall>x \<in> set xs. schRoomID x = roomID \<and> schStartTime x = siStartTime input \<and> schEndTime x = siEndTime input"
    and ins: "insert_schedules (pg_time_in (libs (env w))) xs (schedules (db w)) = Inr rows"
    and db: "db w' = (db w)\<lparr>schedules := rows\<rparr>"
    using assms by (rule CreateSchedule_InrE)
  have ok: "\<forall>r \<in> set (schedules (db w)). scrRoomID r \<noteq> roomID" "isAlignedToSlotGrid a" "isAlignedToSlotGrid b" "a < b"
    using ref ab by (auto simp: schedule_refusal_def split: if_splits)
  obtain new where new: "rows = schedules (db w) @ new"
      "map (schedule_row_of (pg_time_in (libs (env w)))) xs = map Some new"
      "\<forall>r \<in> set new. 1 \<le> scrDayOfWeek r \<and> scrDayOfWeek r \<le> 7 \<and> scrStartTime r < scrEndTime r"
    using insert_schedules_Inr [OF ins] by blast
  have rows: "scrRoomID r = roomID \<and> pg_time_in (libs (env w)) (siStartTime input) = Some (scrStartTime r) \<and>
      pg_time_in (libs (env w)) (siEndTime input) = Some (scrEndTime r)" if "r \<in> set new" for r
  proof -
    have "Some r \<in> schedule_row_of (pg_time_in (libs (env w))) ` set xs"
      using that new(2) by (metis image_eqI set_map)
    then obtain x where "x \<in> set xs" "schedule_row_of (pg_time_in (libs (env w))) x = Some r"
      by auto
    then show ?thesis
      using schedule_row_of_Some xs(2) by metis
  qed
  have "map scrDayOfWeek new = map schDayOfWeek xs"
    using new(2)
  proof (induction xs arbitrary: new)
    case (Cons x xs)
    then show ?case
      by (cases new) (auto dest: schedule_row_of_Some)
  qed simp
  then show ?thesis
    using grid_multiple [OF ok(2)] grid_multiple [OF ok(3)] schedule_parse_range [OF ab(2)] ok ab v xs(1) new rows db
    by (intro exI [of _ new] exI [of _ a] exI [of _ b]) (auto simp: day_length_def durations)
qed

lemma sample_CreateSchedule:
  "\<exists>v w'. run_state (CreateSchedule root_user 10 sample_hours) sample_world = (Inr v, w')"
proof -
  have room: "find_row rmID 10 (rooms sample_store) \<noteq> None" "schedules sample_store = []"
      "10 \<in> rmID ` set (rooms sample_store)"
    by (simp_all add: sample_defs)
  have days: "schedule_days [4] = [4]"
    by (simp add: schedule_days_def)
  have times: "pg_time_in sample_ext ''09:00'' = Some 32400000000000" "pg_time_in sample_ext ''18:00'' = Some 64800000000000"
    by (simp_all add: sample_ext_def)
  show ?thesis
    using room
    by (auto simp: CreateSchedule_def run_check RoomRepo_GetByID_def ScheduleRepo_ExistsByRoomID_def
        run_db_call_calm select_def sample_active schedule_from_input_def sample_hours_def sample_hours_parse
        insert_schedule_rows_def days ScheduleRepo_CreateBatch_def sql_schedules_batch_def schedule_row_of_def times)
qed

lemma create_schedule_rows_witness:
  "\<exists>v w'. run_state (CreateSchedule root_user 10 sample_hours) sample_world = (Inr v, w') \<and>
    map scrDayOfWeek (schedules (db w')) = [4]"
proof -
  obtain v w' where run: "run_state (CreateSchedule root_user 10 sample_hours) sample_world = (Inr v, w')"
    using sample_CreateSchedule by blast
  have "schedules sample_store = []" "schedule_days (siDaysOfWeek sample_hours) = [4]"
    by (simp_all add: sample_defs sample_hours_def schedule_days_def)
  then show ?thesis
    using create_schedule_rows [OF run] run by auto
qed

section \<open>Slots of a day\<close>

lemma index_ok_filter:
  assumes "index_ok P key rows"
  shows "length (filter (\<lambda>r. key r = k \<and> P r) rows) \<le> 1"
  using assms
proof (induction rows)
  case (Cons r rows)
  then have "index_ok P key rows"
    by (simp add: index_ok_def split: if_splits)
  moreover have "filter (\<lambda>x. key x = k \<and> P x) rows = []" if "key r = k" "P r"
  proof -
    have "key r \<notin> set (map key (filter P rows))"
      using Cons.prems that by (simp add: index_ok_def)
    then have "key x \<noteq> key r" if "x \<in> set rows" "P x" for x
      using that by (auto simp: image_iff)
    then show ?thesis
      using that(1) by (auto simp: filter_empty_conv)
  qed
  ultimately show ?case
    using Cons.IH by auto
qed simp

lemma left_join_single:
  assumes "length (filter (on x) ys) \<le> 1"
  shows "left_join on ys x = [case filter (on x) ys of [] \<Rightarrow> None | y # _ \<Rightarrow> Some y]"
  using assms by (cases "filter (on x) ys") (auto simp: left_join_def)

lemma sort_key_map: "sort_key k (map f xs) = map f (sort_key (\<lambda>x. k (f x)) xs)"
proof -
  have "insort_key k (f x) (map f ys) = map f (insort_key (\<lambda>x. k (f x)) x ys)" for x ys
    by (induction ys) auto
  then show ?thesis
    by (induction xs) auto
qed

text \<open>The slots of a room on the calendar day of a moment, by start, and who holds one of them.\<close>

definition day_slots :: "store \<Rightarrow> uuid \<Rightarrow> time \<Rightarrow> slot list" where
  "day_slots s roomID date =
     sort_key slStartTime
       (filter (\<lambda>sl. slRoomID sl = roomID \<and> utc_midnight (slStartTime sl) = utc_midnight date) (slots s))"

definition holder :: "store \<Rightarrow> slot \<Rightarrow> slot \<times> booking option \<times> slot_reservation option" where
  "holder s sl =
     (sl, (case filter (\<lambda>b. bkSlotID b = slID sl \<and> bk_active b) (bookings s) of [] \<Rightarrow> None | b # _ \<Rightarrow> Some b),
      (case filter (\<lambda>r. rvSlotID r = slID sl \<and> rv_active r) (reservations s) of [] \<Rightarrow> None | r # _ \<Rightarrow> Some r))"

lemma same_day:
  "timestamptz (utc_midnight d) \<le> t \<and> t < timestamptz (utc_midnight d) + day_length \<longleftrightarrow>
    utc_midnight t = utc_midnight d"
proof -
  have "timestamptz (utc_midnight d) = utc_midnight d"
    using mod_mult_self1_is_0 [of 1000 "d div day_length * 86400000000"]
    by (simp add: timestamptz_def utc_midnight_def day_length_def)
  moreover have "q * day_length \<le> t \<and> t < q * day_length + day_length \<longleftrightarrow> t div day_length = q" for q
    unfolding day_length_def by auto
  ultimately show ?thesis
    by (simp add: utc_midnight_def) (simp add: day_length_def)
qed

lemma slot_rows_day:
  assumes "store_ok s"
  shows "slot_rows s roomID (utc_midnight date) = map (holder s) (day_slots s roomID date)"
proof -
  have single: "left_join (\<lambda>sl b. bkSlotID b = slID sl \<and> bk_active b) (bookings s) sl =
      [case filter (\<lambda>b. bkSlotID b = slID sl \<and> bk_active b) (bookings s) of [] \<Rightarrow> None | b # _ \<Rightarrow> Some b]"
    "left_join (\<lambda>sl r. rvSlotID r = slID sl \<and> rv_active r) (reservations s) sl =
      [case filter (\<lambda>r. rvSlotID r = slID sl \<and> rv_active r) (reservations s) of [] \<Rightarrow> None | r # _ \<Rightarrow> Some r]" for sl
    using assms unfolding store_ok_def bookings_ok_def reservations_ok_def
    by (blast intro: left_join_single index_ok_filter)+
  have holders: "concat (map (\<lambda>sl. [holder s sl]) xs) = map (holder s) xs" for xs
    by (induction xs) auto
  have starts: "(\<lambda>(sl, b, r). slStartTime sl) (holder s sl) = slStartTime sl" for sl
    by (simp add: holder_def)
  show ?thesis
    unfolding slot_rows_def single same_day day_slots_def
    by (simp add: holder_def [symmetric] holders sort_key_map starts)
qed

lemma first_None: "(case filter P xs of [] \<Rightarrow> None | y # _ \<Rightarrow> Some y) = None \<longleftrightarrow> (\<forall>x \<in> set xs. \<not> P x)"
  by (induction xs) auto

lemma holder_None:
  "fst (snd (holder s sl)) = None \<longleftrightarrow> \<not> slot_booked s (slID sl)"
  "snd (snd (holder s sl)) = None \<longleftrightarrow> \<not> slot_reserved s (slID sl)"
  by (auto simp: holder_def slot_booked_def slot_reserved_def first_None)

text \<open>What the caller reads of a slot, as a function of the moment and of who holds it.\<close>

definition shown_status :: "store \<Rightarrow> time \<Rightarrow> slot \<Rightarrow> slot_status" where
  "shown_status s now sl =
     (if slStartTime sl < timestamptz now then SlotStatusPast
      else if slot_booked s (slID sl) then SlotStatusBooked
      else if slot_reserved s (slID sl) then SlotStatusReserved
      else SlotStatusAvailable)"

text \<open>
  \<open>ListRoomSlots\<close> shows every slot of the room on the calendar day (UTC) of the given moment
  exactly once, by start, with its status at the time of the call: past when it has started, else
  booked when it has an active booking, else reserved when it is held for a waiting user, else
  available. The database is left alone.
\<close>

theorem room_slots_shown:
  assumes "run_state (ListRoomSlots u roomID date) w = (Inr vs, w')" "store_ok (db w)"
  shows "\<exists>n. map (\<lambda>v. (svID v, svStartTime v, svEndTime v, svStatus v)) vs =
      map (\<lambda>sl. (slID sl, slStartTime sl, slEndTime sl,
        shown_status (db w) (clock_at (env w) n) sl)) (day_slots (db w) roomID date) \<and>
    db w' = db w"
proof -
  obtain n where n: "vs = all_slots (db w) roomID (utc_midnight date) (clock_at (env w) n)" "db w' = db w"
    using assms(1)
    by (auto simp: ListRoomSlots_def validateAndNormalizeRequest_def RoomRepo_GetByID_Inr
        SlotRepo_ListAllByRoomAndDate_def db_call_select_Inr elim!: check_InrE split: if_splits)
  have "svStatus (make_view (timestamptz now) (holder s sl)) = shown_status s now sl \<and>
      svID (make_view (timestamptz now) (holder s sl)) = slID sl \<and>
      svStartTime (make_view (timestamptz now) (holder s sl)) = slStartTime sl \<and>
      svEndTime (make_view (timestamptz now) (holder s sl)) = slEndTime sl" for s now sl
    using holder_None [of s sl]
    by (cases "holder s sl") (auto simp: make_view_def view_status_def shown_status_def holder_def)
  then show ?thesis
    using n by (intro exI [of _ n]) (simp add: all_slots_def slot_rows_day [OF assms(2)])
qed

lemma sample_day:
  "day_slots sample_store 10 5 = [sample_slot 20 3600000000000, sample_slot 21 7200000000000,
    sample_slot 22 10800000000000]"
  by (simp add: day_slots_def sample_defs utc_midnight_def day_length_def)

lemma sample_room: "find_row rmID 10 (rooms sample_store) \<noteq> None" "usrRole carol = RoleUser"
  by (simp_all add: sample_defs)

lemma room_slots_shown_witness:
  "\<exists>vs w'. run_state (ListRoomSlots carol 10 5) sample_world = (Inr vs, w') \<and>
    map (\<lambda>v. (svID v, svStatus v)) vs =
      [(20, SlotStatusBooked), (21, SlotStatusReserved), (22, SlotStatusAvailable)]"
proof -
  obtain vs w' where run: "run_state (ListRoomSlots carol 10 5) sample_world = (Inr vs, w')"
    using sample_room by (auto simp: ListRoomSlots_def validateAndNormalizeRequest_def RoomRepo_GetByID_def
        SlotRepo_ListAllByRoomAndDate_def run_check run_db_call_calm select_def)
  have shown: "map (\<lambda>v. (svID v, svStartTime v, svEndTime v, svStatus v)) vs =
      map (\<lambda>sl. (slID sl, slStartTime sl, slEndTime sl, shown_status sample_store 100000000000 sl))
        (day_slots sample_store 10 5)"
    using room_slots_shown [OF run] by (auto simp: sample_facts)
  have "map (\<lambda>v. (svID v, svStatus v)) vs =
      map (\<lambda>(i, a, b, st). (i, st)) (map (\<lambda>v. (svID v, svStartTime v, svEndTime v, svStatus v)) vs)"
    by simp
  also have "\<dots> = [(20, SlotStatusBooked), (21, SlotStatusReserved), (22, SlotStatusAvailable)]"
    unfolding shown sample_day
    by (simp add: sample_slot_def shown_status_def timestamptz_def slot_booked_def slot_reserved_def
        sample_store_def sample_booking_def sample_reservation_def bk_active_def rv_active_def)
  finally show ?thesis
    using run by (intro exI [of _ vs] exI [of _ w'] conjI)
qed

lemma ListAvailableSlots_day:
  assumes "run_state (ListAvailableSlots u roomID date) w = (Inr sls, w')" "store_ok (db w)"
  shows "sls = filter (\<lambda>sl. \<not> slot_booked (db w) (slID sl) \<and> \<not> slot_reserved (db w) (slID sl))
      (day_slots (db w) roomID date) \<and> db w' = db w"
proof -
  have n: "sls = available_slots (db w) roomID (utc_midnight date)" "db w' = db w"
    using assms(1)
    by (auto simp: ListAvailableSlots_def validateAndNormalizeRequest_def RoomRepo_GetByID_Inr
        SlotRepo_ListAvailableByRoomAndDate_def db_call_select_Inr elim!: check_InrE split: if_splits)
  have "(\<lambda>(sl, b, r). b = None \<and> r = None) (holder s sl) \<longleftrightarrow>
      \<not> slot_booked s (slID sl) \<and> \<not> slot_reserved s (slID sl)" "fst (holder s sl) = sl" for s sl
    using holder_None [of s sl] by (auto simp: holder_def)
  then show ?thesis
    using n by (simp add: available_slots_def slot_rows_day [OF assms(2)] filter_map o_def)
qed

text \<open>
  \<open>ListAvailableSlots\<close> shows exactly the slots of the room on that calendar day that have neither
  an active booking nor an active reservation, by start, each once.
\<close>

theorem available_slots_exact:
  assumes "run_state (ListAvailableSlots u roomID date) w = (Inr sls, w')" "store_ok (db w)"
  shows "sls = filter (\<lambda>sl. \<not> slot_booked (db w) (slID sl) \<and> \<not> slot_reserved (db w) (slID sl))
      (day_slots (db w) roomID date) \<and> db w' = db w"
  using assms by (rule ListAvailableSlots_day)

lemma available_slots_exact_witness:
  "\<exists>w'. run_state (ListAvailableSlots carol 10 5) sample_world = (Inr [sample_slot 22 10800000000000], w')"
proof -
  obtain sls w' where run: "run_state (ListAvailableSlots carol 10 5) sample_world = (Inr sls, w')"
    using sample_room by (auto simp: ListAvailableSlots_def validateAndNormalizeRequest_def RoomRepo_GetByID_def
        SlotRepo_ListAvailableByRoomAndDate_def run_check run_db_call_calm select_def)
  have "filter (\<lambda>sl. \<not> slot_booked sample_store (slID sl) \<and> \<not> slot_reserved sample_store (slID sl))
      (day_slots sample_store 10 5) = [sample_slot 22 10800000000000]"
    unfolding sample_day
    by (simp add: sample_slot_def slot_booked_def slot_reserved_def sample_store_def sample_booking_def
        sample_reservation_def bk_active_def rv_active_def)
  then show ?thesis
    using available_slots_exact [OF run] run by (simp add: sample_facts)
qed

end
