(* ===== verification/Config.thy ===== *)
theory Config
  imports Tokens
begin

text \<open>
  \<open>internal/config/config.go\<close>: the configuration read from the environment variables of the process,
  here a map. Durations are seconds times \<open>time.Second\<close> in 64-bit arithmetic.
\<close>

record config =
  cfgDBHost :: string
  cfgDBPort :: string
  cfgDBUser :: string
  cfgDBPass :: string
  cfgDBName :: string
  cfgRedisAddr :: string
  cfgRedisPassword :: string
  cfgRedisDB :: int
  cfgRedisChannel :: string
  cfgEnv :: string
  cfgLogLevel :: string
  cfgPort :: string
  cfgJWTSecret :: string
  cfgRunMigrations :: bool
  cfgMigrationsPath :: string
  cfgReservationTTL :: duration
  cfgReservationExpireInterval :: duration
  cfgReservationExpireBatch :: int
  cfgSlotGenerateInterval :: duration
  cfgCORSAllowedOrigins :: "string list"

type_synonym variables = "string \<Rightarrow> string option"

definition getEnv :: "variables \<Rightarrow> string \<Rightarrow> string \<Rightarrow> string" where
  "getEnv vars key fallback = (case vars key of None \<Rightarrow> fallback | Some v \<Rightarrow> v)"

definition splitCSV :: "string \<Rightarrow> string list" where
  "splitCSV v = filter (\<lambda>s. s \<noteq> []) (map TrimSpace (split_at (CHR '','') v))"

text \<open>\<open>fmt.Errorf("invalid ...: %w", err)\<close> after \<open>strconv.Atoi\<close>, and the check for a positive number.\<close>

definition atoi_env :: "variables \<Rightarrow> string \<Rightarrow> string \<Rightarrow> go_error + int" where
  "atoi_env vars key fallback =
     (case ParseInt (getEnv vars key fallback) of
        None \<Rightarrow> Inl (FmtError (''invalid '' @ key) (TextError ''strconv.Atoi''))
      | Some i \<Rightarrow> Inr i)"

definition positive_env :: "variables \<Rightarrow> string \<Rightarrow> string \<Rightarrow> go_error + int" where
  "positive_env vars key fallback =
     (case atoi_env vars key fallback of
        Inl err \<Rightarrow> Inl err
      | Inr i \<Rightarrow> if i \<le> 0 then Inl (TextError (''invalid '' @ key @ '': must be > 0'')) else Inr i)"

definition required :: "string \<Rightarrow> string \<Rightarrow> (go_error + 'a) \<Rightarrow> go_error + 'a" where
  "required key v k = (if v = [] then Inl (TextError (key @ '' is required'')) else k)"

definition in_seconds :: "int \<Rightarrow> duration" where
  "in_seconds n = int64 (n * 1000000000)"

definition Load :: "ext \<Rightarrow> variables \<Rightarrow> go_error + config" where
  "Load x vars =
     (case atoi_env vars ''REDIS_DB'' ''0'' of Inl err \<Rightarrow> Inl err | Inr redisDB \<Rightarrow>
      case positive_env vars ''RESERVATION_TTL_SECONDS'' ''300'' of Inl err \<Rightarrow> Inl err | Inr ttl \<Rightarrow>
      case positive_env vars ''RESERVATION_EXPIRE_INTERVAL_SECONDS'' ''15'' of Inl err \<Rightarrow> Inl err | Inr expireInterval \<Rightarrow>
      case positive_env vars ''RESERVATION_EXPIRE_BATCH'' ''100'' of Inl err \<Rightarrow> Inl err | Inr expireBatch \<Rightarrow>
      case positive_env vars ''SLOT_GENERATE_INTERVAL_SECONDS'' ''60'' of Inl err \<Rightarrow> Inl err | Inr generateInterval \<Rightarrow>
      let cfg = \<lparr>cfgDBHost = getEnv vars ''DB_HOST'' ''localhost'', cfgDBPort = getEnv vars ''DB_PORT'' ''5432'',
         cfgDBUser = getEnv vars ''DB_USER'' ''booking'', cfgDBPass = getEnv vars ''DB_PASS'' ''booking'',
         cfgDBName = getEnv vars ''DB_NAME'' ''booking'',
         cfgRedisAddr = getEnv vars ''REDIS_ADDR'' ''localhost:6379'',
         cfgRedisPassword = getEnv vars ''REDIS_PASSWORD'' [], cfgRedisDB = redisDB,
         cfgRedisChannel = getEnv vars ''REDIS_CHANNEL'' ''realtime:events'',
         cfgEnv = getEnv vars ''APP_ENV'' ''dev'', cfgLogLevel = getEnv vars ''LOG_LEVEL'' ''info'',
         cfgPort = getEnv vars ''PORT'' ''8080'', cfgJWTSecret = getEnv vars ''JWT_SECRET'' ''booking-dev-secret'',
         cfgRunMigrations = (ToLower x (getEnv vars ''RUN_MIGRATIONS'' ''true'') \<noteq> ''false''),
         cfgMigrationsPath = getEnv vars ''MIGRATIONS_PATH'' ''file://migrations'',
         cfgReservationTTL = in_seconds ttl, cfgReservationExpireInterval = in_seconds expireInterval,
         cfgReservationExpireBatch = expireBatch, cfgSlotGenerateInterval = in_seconds generateInterval,
         cfgCORSAllowedOrigins = splitCSV (getEnv vars ''CORS_ALLOWED_ORIGINS'' ''http://localhost:3000'')\<rparr>
      in required ''PORT'' (cfgPort cfg) (required ''REDIS_ADDR'' (cfgRedisAddr cfg)
        (required ''REDIS_CHANNEL'' (cfgRedisChannel cfg) (required ''APP_ENV'' (cfgEnv cfg)
        (required ''LOG_LEVEL'' (cfgLogLevel cfg) (Inr cfg))))))"

definition DatabaseURL :: "config \<Rightarrow> string" where
  "DatabaseURL c = ''postgres://'' @ cfgDBUser c @ '':'' @ cfgDBPass c @ ''@'' @ cfgDBHost c @ '':'' @
     cfgDBPort c @ ''/'' @ cfgDBName c @ ''?sslmode=disable''"

section \<open>What a loaded configuration guarantees\<close>

lemma positive_env_Inr:
  "positive_env vars key fallback = Inr i \<Longrightarrow> 0 < i \<and> ParseInt (getEnv vars key fallback) = Some i"
  by (auto simp: positive_env_def atoi_env_def split: sum.splits option.splits if_splits)

lemma required_Inr: "required key v k = Inr c \<longleftrightarrow> v \<noteq> [] \<and> k = Inr c"
  by (simp add: required_def)

lemma Load_InrE:
  assumes "Load x vars = Inr cfg"
  obtains ttl batch gen where
    "ParseInt (getEnv vars ''RESERVATION_TTL_SECONDS'' ''300'') = Some ttl" "0 < ttl"
    "ParseInt (getEnv vars ''RESERVATION_EXPIRE_BATCH'' ''100'') = Some batch" "0 < batch"
    "ParseInt (getEnv vars ''SLOT_GENERATE_INTERVAL_SECONDS'' ''60'') = Some gen" "0 < gen"
    "cfgReservationTTL cfg = in_seconds ttl" "cfgReservationExpireBatch cfg = batch"
    "cfgSlotGenerateInterval cfg = in_seconds gen" "cfgRedisChannel cfg \<noteq> []" "cfgPort cfg \<noteq> []"
  using assms
  by (auto simp: Load_def Let_def required_Inr split: sum.splits dest!: positive_env_Inr)

lemma in_seconds_exact: "0 < n \<Longrightarrow> n \<le> 9223372036 \<Longrightarrow> in_seconds n = n * 1000000000"
  by (simp add: in_seconds_def int64_def)

text \<open>One second more does not fit: the interval of a ticker becomes negative, on which it panics.\<close>

lemma interval_overflow: "in_seconds 9223372037 < 0"
  by (simp add: in_seconds_def int64_def)

end
