(* ===== verification/System.thy ===== *)
theory System
  imports Slot_Machine Booking_Contract Generator_Contract Admin_Contract Config
begin

text \<open>
  The whole service: the use cases as \<open>cmd/app/main.go\<close> wires them, and the database as a transition
  system whose steps are runs of a use case, of the expiry worker or of the slot generator. Every
  step runs in a world of its own, so clocks, identifiers, lost connections and foreign row locks
  are arbitrary, up to a condition \<open>E\<close> on the environment.
\<close>

section \<open>Wiring\<close>

record app =
  appBookings :: booking_service
  appReservations :: reservation_service
  appAuth :: auth_service
  appGenerator :: generator
  appExpireBatch :: int

definition NewRedisPublisher :: "string \<Rightarrow> publisher" where
  "NewRedisPublisher channel = RedisPublisher \<lparr>rpClient = True, rpChannel = channel\<rparr>"

definition wire :: "config \<Rightarrow> generator \<Rightarrow> app" where
  "wire cfg gen =
     (let realtimePublisher = NewRedisPublisher (cfgRedisChannel cfg)
      in \<lparr>appBookings = WithMetrics (Some PrometheusMetrics)
            (WithReservationRepository (cfgReservationTTL cfg)
              (WithWaitlistRepository (booking_NewService [Some realtimePublisher]))),
          appReservations = reservation_WithMetrics (Some PrometheusMetrics)
            (reservation_NewService True (Some realtimePublisher) (cfgReservationTTL cfg)),
          appAuth = auth_NewService (cfgJWTSecret cfg) True,
          appGenerator = gen,
          appExpireBatch = cfgReservationExpireBatch cfg\<rparr>)"

lemma wired [simp]:
  "bsReservations (appBookings (wire cfg gen))" "bsWaitlists (appBookings (wire cfg gen))"
  "rsWaitlists (appReservations (wire cfg gen))"
  by (simp_all add: wire_def Let_def WithMetrics_def WithReservationRepository_def WithWaitlistRepository_def
      reservation_WithMetrics_def reservation_NewService_def)

section \<open>Steps\<close>

inductive step :: "app \<Rightarrow> (env \<Rightarrow> bool) \<Rightarrow> store \<Rightarrow> store \<Rightarrow> bool" for a E where
  step_register: "E (env w) \<Longrightarrow>
    step a E (db w) (db (snd (run_state (Register (appAuth a) email password role) w)))"
| step_room: "E (env w) \<Longrightarrow> step a E (db w) (db (snd (run_state (CreateRoom u ri) w)))"
| step_schedule: "E (env w) \<Longrightarrow> step a E (db w) (db (snd (run_state (CreateSchedule u k si) w)))"
| step_generate: "E (env w) \<Longrightarrow> step a E (db w) (db (snd (run_state (Generate (appGenerator a)) w)))"
| step_create: "E (env w) \<Longrightarrow>
    step a E (db w) (db (snd (run_state (CreateBooking (appBookings a) u k link) w)))"
| step_cancel: "E (env w) \<Longrightarrow>
    step a E (db w) (db (snd (run_state (CancelBooking (appBookings a) u k) w)))"
| step_join: "E (env w) \<Longrightarrow> step a E (db w) (db (snd (run_state (JoinWaitlist u k) w)))"
| step_leave: "E (env w) \<Longrightarrow> step a E (db w) (db (snd (run_state (LeaveWaitlist u k) w)))"
| step_confirm: "E (env w) \<Longrightarrow>
    step a E (db w) (db (snd (run_state (ConfirmReservation (appReservations a) u k) w)))"
| step_release: "E (env w) \<Longrightarrow>
    step a E (db w) (db (snd (run_state (CancelReservation (appReservations a) u k) w)))"
| step_expire: "E (env w) \<Longrightarrow>
    step a E (db w) (db (snd (run_state (ExpireDue (appReservations a) (appExpireBatch a)) w)))"

inductive reachable :: "app \<Rightarrow> (env \<Rightarrow> bool) \<Rightarrow> store \<Rightarrow> bool" for a E where
  reachable_empty: "reachable a E empty_store"
| reachable_step: "reachable a E s \<Longrightarrow> step a E s s' \<Longrightarrow> reachable a E s'"

inductive_cases reachableE: "reachable a E s"

text \<open>A property of stores that the empty database has and every step keeps.\<close>

locale kept =
  fixes a :: app and E :: "env \<Rightarrow> bool" and I :: "store \<Rightarrow> bool"
  assumes initially: "I empty_store"
    and keeps: "step a E s s' \<Longrightarrow> I s \<Longrightarrow> I s'"
begin

lemma always: "reachable a E s \<Longrightarrow> I s"
  by (induction rule: reachable.induct) (auto intro: initially keeps)

lemma after_steps: "(step a E)\<^sup>*\<^sup>* s s' \<Longrightarrow> I s \<Longrightarrow> I s'"
  by (induction rule: rtranclp_induct) (auto intro: keeps)

end

lemmas step_app_ok = Register_app_ok CreateRoom_app_ok CreateSchedule_app_ok Generate_app_ok
  CreateBooking_app_ok CancelBooking_app_ok JoinWaitlist_app_ok LeaveWaitlist_app_ok
  ConfirmReservation_app_ok CancelReservation_app_ok ExpireDue_app_ok

lemma Register_served:
  assumes "queue_served (db w)"
  shows "queue_served (db (snd (run_state (Register s email password role) w)))"
  using Register_db [of s email password role w] assms served_frame [of "add_user u (db w)" "db w" for u]
  by (auto simp: add_user_def)

lemmas step_served = Register_served CreateRoom_served CreateSchedule_served Generate_served
  CreateBooking_served CancelBooking_served JoinWaitlist_served LeaveWaitlist_served
  ConfirmReservation_served CancelReservation_served ExpireDue_served

interpretation consistent: kept "wire cfg gen" E app_ok for cfg gen E
proof
  show "step (wire cfg gen) E s s' \<Longrightarrow> app_ok s \<Longrightarrow> app_ok s'" for s s'
    by (induction rule: step.induct) (simp_all add: step_app_ok)
qed (rule app_ok_empty)

interpretation served: kept "wire cfg gen" unlocked "\<lambda>s. app_ok s \<and> queue_served s" for cfg gen
proof
  show "step (wire cfg gen) unlocked s s' \<Longrightarrow> app_ok s \<and> queue_served s \<Longrightarrow> app_ok s' \<and> queue_served s'" for s s'
    by (induction rule: step.induct) (simp_all add: step_app_ok step_served app_ok_def [THEN iffD1])
qed (simp add: app_ok_empty)

text \<open>The operations as data; a step is a run of one of them.\<close>

datatype operation =
    Op_register string string user_role
  | Op_room user room_create_input
  | Op_schedule user uuid create_schedule_input
  | Op_generate
  | Op_create user uuid bool
  | Op_cancel user uuid
  | Op_join user uuid
  | Op_leave user uuid
  | Op_confirm user uuid
  | Op_release user uuid
  | Op_expire

fun run_op :: "app \<Rightarrow> operation \<Rightarrow> world \<Rightarrow> store" where
  "run_op a (Op_register email password role) w = db (snd (run_state (Register (appAuth a) email password role) w))"
| "run_op a (Op_room u ri) w = db (snd (run_state (CreateRoom u ri) w))"
| "run_op a (Op_schedule u k si) w = db (snd (run_state (CreateSchedule u k si) w))"
| "run_op a Op_generate w = db (snd (run_state (Generate (appGenerator a)) w))"
| "run_op a (Op_create u k link) w = db (snd (run_state (CreateBooking (appBookings a) u k link) w))"
| "run_op a (Op_cancel u i) w = db (snd (run_state (CancelBooking (appBookings a) u i) w))"
| "run_op a (Op_join u k) w = db (snd (run_state (JoinWaitlist u k) w))"
| "run_op a (Op_leave u i) w = db (snd (run_state (LeaveWaitlist u i) w))"
| "run_op a (Op_confirm u i) w = db (snd (run_state (ConfirmReservation (appReservations a) u i) w))"
| "run_op a (Op_release u i) w = db (snd (run_state (CancelReservation (appReservations a) u i) w))"
| "run_op a Op_expire w = db (snd (run_state (ExpireDue (appReservations a) (appExpireBatch a)) w))"

lemma step_run_op: "step a E s s' \<longleftrightarrow> (\<exists>op w. E (env w) \<and> s = db w \<and> s' = run_op a op w)"
proof
  assume "step a E s s'"
  then show "\<exists>op w. E (env w) \<and> s = db w \<and> s' = run_op a op w"
    by (induction rule: step.induct) (metis run_op.simps)+
next
  assume "\<exists>op w. E (env w) \<and> s = db w \<and> s' = run_op a op w"
  then obtain op w where "E (env w)" "s = db w" "s' = run_op a op w"
    by blast
  then show "step a E s s'"
    by (cases op) (simp_all add: step.intros)
qed

text \<open>
  What an operation may do to a slot: the action of its own kind by its own user, on the slot it names,
  or the slot of the booking, entry or reservation it names; the expiry, on the slots with a reservation
  whose time has come.
\<close>

fun allowed :: "operation \<Rightarrow> world \<Rightarrow> uuid \<Rightarrow> action set" where
  "allowed (Op_create u k link) w = only_if (\<lambda>k'. k' = k) (Book (usrID u))"
| "allowed (Op_cancel u i) w =
     only_if (\<lambda>k'. \<exists>b \<in> set (bookings (db w)). bkID b = i \<and> bkSlotID b = k') (Unbook (usrID u))"
| "allowed (Op_join u k) w = only_if (\<lambda>k'. k' = k) (Join (usrID u))"
| "allowed (Op_leave u i) w =
     only_if (\<lambda>k'. \<exists>e \<in> set (waitlist (db w)). weID e = i \<and> weSlotID e = k') (Leave (usrID u))"
| "allowed (Op_confirm u i) w =
     only_if (\<lambda>k'. \<exists>r \<in> set (reservations (db w)). rvID r = i \<and> rvSlotID r = k') (Confirm (usrID u))"
| "allowed (Op_release u i) w =
     only_if (\<lambda>k'. \<exists>r \<in> set (reservations (db w)). rvID r = i \<and> rvSlotID r = k') (Give_up (usrID u))"
| "allowed Op_expire w =
     only_if (\<lambda>k'. \<exists>r \<in> set (reservations (db w)). rv_active r \<and> rvSlotID r = k' \<and>
       rvExpiresAt r \<le> timestamptz (clock_at (env w) (ticks w))) Expire"
| "allowed _ w = (\<lambda>_. {})"

lemma operation_moves:
  assumes "app_ok (db w)" "unlocked (env w)"
  shows "slots_move (allowed op w) (db w) (run_op (wire cfg gen) op w)"
proof (cases op)
  case (Op_join u k)
  then show ?thesis using assms(1) by (simp add: JoinWaitlist_moves app_ok_def)
next
  case (Op_leave u i)
  then show ?thesis using assms(1) by (simp add: LeaveWaitlist_moves app_ok_def)
qed (simp_all add: assms Register_moves CreateRoom_moves CreateSchedule_moves Generate_moves CreateBooking_moves
    CancelBooking_moves ConfirmReservation_moves CancelReservation_moves ExpireDue_moves)

section \<open>Properties\<close>

definition sample_config :: config where
  "sample_config = \<lparr>cfgDBHost = ''db'', cfgDBPort = ''5432'', cfgDBUser = ''booking'', cfgDBPass = ''booking'',
     cfgDBName = ''booking'', cfgRedisAddr = ''redis:6379'', cfgRedisPassword = [], cfgRedisDB = 0,
     cfgRedisChannel = ''events'', cfgEnv = ''dev'', cfgLogLevel = ''info'', cfgPort = ''8080'',
     cfgJWTSecret = ''secret'', cfgRunMigrations = True, cfgMigrationsPath = ''file://migrations'',
     cfgReservationTTL = 600000000000, cfgReservationExpireInterval = 15000000000,
     cfgReservationExpireBatch = 100, cfgSlotGenerateInterval = 60000000000,
     cfgCORSAllowedOrigins = []\<rparr>"

abbreviation sample_app :: app where
  "sample_app \<equiv> wire sample_config sample_generator"

text \<open>
  C1. Whatever sequence of requests, expiry runs and generator runs the service goes through, with
  whatever clocks, lost connections and row locks, the database satisfies all constraints of its
  schema, no slot is booked and reserved at once, and every reservation goes back to a waitlist entry
  of the same user and slot that is waiting no more, each entry to one reservation at most.
\<close>

theorem reachable_consistent:
  assumes "reachable (wire cfg gen) E s"
  shows "store_ok s \<and> (\<forall>k. \<not> (slot_booked s k \<and> slot_reserved s k)) \<and>
    (\<forall>r \<in> set (reservations s). \<exists>e \<in> set (waitlist s). rvWaitlistEntryID r = Some (weID e) \<and>
      weSlotID e = rvSlotID r \<and> weUserID e = rvUserID r \<and> \<not> we_active e) \<and>
    distinct (map rvWaitlistEntryID (reservations s))"
  using consistent.always [OF assms]
  by (auto simp: app_ok_def exclusive_def claims_ok_def claim_of_def)

definition empty_world :: world where
  "empty_world = sample_world\<lparr>db := empty_store\<rparr>"

lemma reachable_consistent_witness:
  "store_ok (db (snd (run_state (Register (appAuth sample_app) ''e@x'' ''password'' RoleUser) empty_world)))"
proof -
  have "reachable sample_app unlocked
      (db (snd (run_state (Register (appAuth sample_app) ''e@x'' ''password'' RoleUser) empty_world)))"
    using step_register [of unlocked empty_world sample_app] reachable_step [OF reachable_empty]
    by (simp add: empty_world_def)
  from reachable_consistent [OF this] show ?thesis by simp
qed

text \<open>
  C23. As long as no foreign transaction holds a row of the queue while a slot is handed over, nobody
  waits for a free slot: from a database in which that is so (the empty one, for instance), no number
  of steps leads to a slot with a waiting entry that is neither booked nor reserved.
\<close>

theorem nobody_waits_for_a_free_slot:
  assumes "(step (wire cfg gen) unlocked)\<^sup>*\<^sup>* s0 s" "app_ok s0" "queue_served s0"
    "e \<in> set (waitlist s)" "we_active e"
  shows "slot_booked s (weSlotID e) \<or> slot_reserved s (weSlotID e)"
  using served.after_steps [OF assms(1)] assms(2-) unfolding queue_served_def slot_awaited_def by blast

lemma sample_step:
  "step sample_app unlocked sample_store (db (snd (run_state (CreateBooking (appBookings sample_app) carol 22 True) sample_world)))"
  using step_create [of unlocked sample_world sample_app carol 22 True] by simp

lemma sample_step_runs:
  "\<exists>i. db (snd (run_state (CreateBooking (appBookings sample_app) carol 22 True) sample_world)) =
    add_booking (new_booking i carol 22 100000000000) sample_store"
proof -
  have "create_refusal (appBookings sample_app) carol 22 100000000000 sample_store = None"
    by (simp add: create_refusal_def sample_defs slot_booked_def slot_reserved_def bk_active_def)
  then show ?thesis
    using CreateBooking_accepted [of sample_world "appBookings sample_app" carol 22 True]
    by (auto simp: sample_facts)
qed

lemma nobody_waits_for_a_free_slot_witness:
  "\<exists>s. (step sample_app unlocked)\<^sup>*\<^sup>* sample_store s \<and> s \<noteq> sample_store \<and>
    (slot_booked s 20 \<or> slot_reserved s 20)"
proof -
  let ?e = "sample_entry 40 20 2 WaitlistStatusActive 1"
  obtain i where s: "step sample_app unlocked sample_store (add_booking (new_booking i carol 22 100000000000) sample_store)"
    using sample_step sample_step_runs by metis
  have e: "?e \<in> set (waitlist (add_booking (new_booking i carol 22 100000000000) sample_store))" "we_active ?e"
      "weSlotID ?e = 20"
    by (simp_all add: add_booking_def sample_store_def sample_entry_def we_active_def)
  have "bookings (add_booking (new_booking i carol 22 100000000000) sample_store) \<noteq> bookings sample_store"
    by (simp add: add_booking_def)
  then show ?thesis
    using nobody_waits_for_a_free_slot [OF r_into_rtranclp [of "step sample_app unlocked", OF s] sample_app_ok sample_served e(1,2)] s e(3)
    by (metis r_into_rtranclp)
qed

text \<open>
  C24. The service refines the slot machine, operation by operation. Take any run in which no foreign
  transaction holds rows of the queue, and the next operation of it, in any world: whatever becomes of
  it, each slot, as users see it, stays as it is or makes exactly one action of the machine, the one of
  this operation, by the user who calls it. So a booking only takes a free slot, the one it names, for
  the caller; only the user who booked a slot gives the booking up, and only the user it is held for
  takes it or gives it up; an expiry only ends a hold whose time has come; a slot that is given up goes
  to the head of its line, or becomes free if nobody waits; users join the end of the line of a slot
  somebody else has booked, and nobody is taken out of a line but by leaving it or by getting the slot.
\<close>

theorem service_refines_slot_machine:
  assumes "(step (wire cfg gen) unlocked)\<^sup>*\<^sup>* s (db w)" "app_ok s" "unlocked (env w)"
  shows "snapshot (run_op (wire cfg gen) op w) k = snapshot (db w) k \<or>
    (\<exists>a \<in> allowed op w k. machine a (snapshot (db w) k) = Some (snapshot (run_op (wire cfg gen) op w) k))"
proof -
  have "app_ok (db w)"
    using assms(1,2) by (rule consistent.after_steps)
  then show ?thesis
    using operation_moves [OF _ assms(3)] by (simp add: slots_move_def)
qed

lemma service_refines_slot_machine_witness:
  "snapshot sample_store 22 = (Free, []) \<and>
    machine (Book (usrID carol)) (snapshot sample_store 22) =
      Some (snapshot (run_op sample_app (Op_create carol 22 True) sample_world) 22)"
proof -
  have none: "bookers sample_store 22 = []" "holders sample_store 22 = []" "waiting sample_store 22 = []"
    by (simp_all add: bookers_def holders_def waiting_def sample_defs)
  then have free: "snapshot sample_store 22 = (Free, [])"
    by (simp add: snapshot_def phase_of_def)
  obtain i where "run_op sample_app (Op_create carol 22 True) sample_world =
      add_booking (new_booking i carol 22 100000000000) sample_store"
    using sample_step_runs by auto
  then have "snapshot (run_op sample_app (Op_create carol 22 True) sample_world) 22 \<noteq> snapshot sample_store 22"
    unfolding free by (simp add: snapshot_def phase_of_def none)
  then show ?thesis
    using service_refines_slot_machine [of sample_config sample_generator sample_store sample_world "Op_create carol 22 True" 22]
      free by (simp add: sample_app_ok)
qed

text \<open>
  C25. The listing keeps its word: a slot that \<open>ListAvailableSlots\<close> showed and that has not started can
  be booked by any plain user, as long as the database has not changed and answers; a slot of that
  day that was not shown is refused as booked or as reserved.
\<close>

theorem listed_slots_can_be_booked:
  assumes "run_state (ListAvailableSlots u' roomID date) w = (Inr sls, w')" "store_ok (db w)"
    "sl \<in> set (day_slots (db w) roomID date)" "db w2 = db w" "calm (env w2)"
    "clock_at (env w2) (ticks w2) \<le> slStartTime sl" "usrRole u = RoleUser"
    "usrID u \<in> usrID ` set (users (db w))" "fresh_ids (env w2) (bkID ` set (bookings (db w)))"
    "bsReservations s"
  shows "if sl \<in> set sls
    then \<exists>b w3. run_state (CreateBooking s u (slID sl) link) w2 = (Inr b, w3) \<and>
      slot_booked (db w3) (slID sl)
    else \<exists>e w3. run_state (CreateBooking s u (slID sl) link) w2 = (Inl e, w3) \<and> db w3 = db w2 \<and>
      (has_code e ErrorSlotAlreadyBooked \<or> has_code e ErrorSlotReserved)"
proof -
  have sl: "sl \<in> set (slots (db w))"
    using assms(3) by (simp add: day_slots_def)
  have "distinct (map slID (slots (db w)))"
    using assms(2) by (simp add: store_ok_def slots_ok_def)
  then have find: "find_row slID (slID sl) (slots (db w)) = Some sl"
    using sl by (rule find_row_unique)
  let ?now = "clock_at (env w2) (ticks w2)"
  have ref: "create_refusal s u (slID sl) ?now (db w2) =
      (if slot_reserved (db w) (slID sl) then Some ErrorSlotReserved
       else if slot_booked (db w) (slID sl) then Some ErrorSlotAlreadyBooked else None)"
    using assms(4,6,7,10) find by (simp add: create_refusal_def)
  have listed: "sl \<in> set sls \<longleftrightarrow> \<not> slot_booked (db w) (slID sl) \<and> \<not> slot_reserved (db w) (slID sl)"
    using ListAvailableSlots_day [OF assms(1,2)] assms(3) by auto
  show ?thesis
  proof (cases "sl \<in> set sls")
    case True
    then obtain i w3 where "run_state (CreateBooking s u (slID sl) link) w2 = (Inr (new_booking i u (slID sl) ?now), w3)"
        "db w3 = add_booking (new_booking i u (slID sl) ?now) (db w2)"
      using CreateBooking_accepted [OF assms(5), of s u "slID sl" link] ref listed assms(4,8,9) by auto
    then show ?thesis
      using True by (auto simp: new_booking_def bk_active_def)
  next
    case False
    then obtain c where "create_refusal s u (slID sl) ?now (db w2) = Some c" "c = ErrorSlotReserved \<or> c = ErrorSlotAlreadyBooked"
      using ref listed by (auto split: if_splits)
    then show ?thesis
      using CreateBooking_refused [OF assms(5), of s u "slID sl" c link] False by auto
  qed
qed

lemma listed_slots_can_be_booked_witness:
  "\<exists>b w3. run_state (CreateBooking sample_bookings carol 22 True) sample_world = (Inr b, w3) \<and> slot_booked (db w3) 22"
proof -
  let ?sl = "sample_slot 22 10800000000000"
  obtain sls w' where run: "run_state (ListAvailableSlots carol 10 5) sample_world = (Inr sls, w')"
    using sample_room by (auto simp: ListAvailableSlots_def validateAndNormalizeRequest_def RoomRepo_GetByID_def
        SlotRepo_ListAvailableByRoomAndDate_def run_check run_db_call_calm select_def)
  have "?sl \<in> set (day_slots sample_store 10 5)" "slID ?sl = 22" "100000000000 \<le> slStartTime ?sl"
    by (simp_all add: sample_day) (simp_all add: sample_slot_def)
  moreover have "\<not> slot_booked sample_store 22 \<and> \<not> slot_reserved sample_store 22"
    by (simp add: slot_booked_def slot_reserved_def sample_store_def sample_booking_def
        sample_reservation_def bk_active_def rv_active_def)
  moreover have "?sl \<in> set sls"
    using ListAvailableSlots_day [OF run] calculation by (simp add: sample_facts)
  ultimately show ?thesis
    using listed_slots_can_be_booked [OF run, of ?sl sample_world carol sample_bookings True]
    by (auto simp: sample_facts)
qed

text \<open>
  A configuration that loads is a usable one: both services hold handed-over slots for the same
  positive time, the configured number of seconds as long as it fits into a duration, and an expiry
  run takes the configured, positive, number of reservations.
\<close>

theorem loaded_configuration:
  assumes "Load x vars = Inr cfg"
  shows "\<exists>n batch. ParseInt (getEnv vars ''RESERVATION_TTL_SECONDS'' ''300'') = Some n \<and>
    ParseInt (getEnv vars ''RESERVATION_EXPIRE_BATCH'' ''100'') = Some batch \<and> 0 < n \<and> 0 < batch \<and>
    appExpireBatch (wire cfg gen) = batch \<and>
    reservationTTLValue (appBookings (wire cfg gen)) = reservation_TTLValue (appReservations (wire cfg gen)) \<and>
    0 < reservationTTLValue (appBookings (wire cfg gen)) \<and>
    (n \<le> 9223372036 \<longrightarrow> reservationTTLValue (appBookings (wire cfg gen)) = n * 1000000000)"
proof (rule Load_InrE [OF assms])
  fix ttl batch
  assume ttl: "ParseInt (getEnv vars ''RESERVATION_TTL_SECONDS'' ''300'') = Some ttl" "0 < ttl"
    and batch: "ParseInt (getEnv vars ''RESERVATION_EXPIRE_BATCH'' ''100'') = Some batch" "0 < batch"
    and cfg: "cfgReservationTTL cfg = in_seconds ttl" "cfgReservationExpireBatch cfg = batch"
  have "reservationTTLValue (appBookings (wire cfg gen)) =
      (if 0 < in_seconds ttl then in_seconds ttl else defaultReservationTTL)"
      "reservation_TTLValue (appReservations (wire cfg gen)) =
      (if 0 < in_seconds ttl then in_seconds ttl else defaultReservationTTL)"
      "appExpireBatch (wire cfg gen) = batch"
    using cfg
    by (simp_all add: wire_def Let_def WithMetrics_def WithReservationRepository_def WithWaitlistRepository_def
        booking_NewService_def reservation_WithMetrics_def reservation_NewService_def reservationTTLValue_def
        reservation_TTLValue_def)
  then show ?thesis
    using ttl batch in_seconds_exact [of ttl] by (auto simp: defaultReservationTTL_def)
qed

definition empty_variables :: variables where
  "empty_variables = (\<lambda>_. None)"

lemma default_numbers:
  "ParseInt ''0'' = Some 0" "ParseInt ''300'' = Some 300" "ParseInt ''15'' = Some 15"
  "ParseInt ''100'' = Some 100" "ParseInt ''60'' = Some 60"
  by (simp_all add: ParseInt_def is_digit_def digits_val_def digit_val_def int64_min_def int64_max_def)

lemma default_configuration: "\<exists>cfg. Load sample_ext empty_variables = Inr cfg \<and> cfgRunMigrations cfg"
  using default_numbers
  by (simp add: Load_def Let_def required_def getEnv_def empty_variables_def atoi_env_def positive_env_def
      ToLower_def is_ascii_def lower_ascii_def)

lemma default_lifetime:
  "\<exists>cfg. Load sample_ext empty_variables = Inr cfg \<and>
    reservationTTLValue (appBookings (wire cfg sample_generator)) = 300 * 1000000000"
proof -
  obtain cfg where cfg: "Load sample_ext empty_variables = Inr cfg"
    using default_configuration by blast
  then show ?thesis
    using loaded_configuration [OF cfg, of sample_generator] default_numbers
    by (auto simp: getEnv_def empty_variables_def)
qed

end
