(* ===== verification/Delivery.thy ===== *)
theory Delivery
  imports Hub_Contract System
begin

text \<open>
  Use cases and browsers together: failures publish nothing, and the event of a booking goes from the
  use case over Redis to the websocket clients that watch the room.
\<close>

section \<open>What is published\<close>

definition silent :: "'a go \<Rightarrow> bool" where
  "silent m \<longleftrightarrow> (\<forall>w. outbox (snd (run_state m w)) = outbox w \<and> env (snd (run_state m w)) = env w)"

lemma silentD: "silent m \<Longrightarrow> run_state m w = (r, w') \<Longrightarrow> outbox w' = outbox w \<and> env w' = env w"
  unfolding silent_def by (metis snd_conv)

lemma silent_bind [intro]: "silent m \<Longrightarrow> (\<And>x. silent (k x)) \<Longrightarrow> silent (State_Monad.bind m k)"
  by (auto simp: silent_def split: prod.split) (metis snd_conv)+

lemma silent_basic [intro]:
  "silent (State_Monad.return x)" "silent (ok x)" "silent (fail e)" "silent now_utc" "silent uuid_New"
  "silent ctx_Err" "silent (asks f)" "silent (add_metric m d)" "silent (inc m)"
  by (auto simp: silent_def run_ctx_Err ok_def fail_def)

lemma silent_db_call [intro]: "silent (db_call f)"
  by (auto simp: silent_def run_db_call split: fault.split)

lemma silent_check [intro]: "silent m \<Longrightarrow> (\<And>x. silent (k x)) \<Longrightarrow> silent (check f m k)"
  unfolding check_def by (intro silent_bind) (auto split: sum.split)

lemma silent_split [intro]:
  "silent a \<Longrightarrow> silent b \<Longrightarrow> silent (if c then a else b)"
  "(\<And>x. silent (l x)) \<Longrightarrow> (\<And>y. silent (rr y)) \<Longrightarrow> silent (case s of Inl x \<Rightarrow> l x | Inr y \<Rightarrow> rr y)"
  "silent n \<Longrightarrow> (\<And>z. silent (sm z)) \<Longrightarrow> silent (case q of None \<Rightarrow> n | Some z \<Rightarrow> sm z)"
  "(\<And>x y. silent (f x y)) \<Longrightarrow> silent (case p of (x, y) \<Rightarrow> f x y)"
  by (auto split: sum.split option.split prod.split)

lemma silent_transaction [intro]:
  assumes "silent fn"
  shows "silent (WithinTransaction fn)"
proof -
  have "outbox (snd (run_state (WithinTransaction fn) w)) = outbox w \<and>
      env (snd (run_state (WithinTransaction fn) w)) = env w" for w
    using silentD [OF assms]
    by (auto simp: WithinTransaction_def run_db_call tx_begin_def Let_def split: prod.splits sum.splits fault.splits)
  then show ?thesis
    by (simp add: silent_def)
qed

lemma silent_inc_on [intro]: "silent (inc_on k m)"
  by (cases k) auto

lemmas silent_rules = silent_bind silent_basic silent_db_call silent_check silent_split silent_inc_on silent_transaction

lemmas repo_defs = SlotRepo_GetByID_def BookingRepo_Create_def BookingRepo_GetByID_def
  BookingRepo_GetActiveBySlotForUpdate_def BookingRepo_SetCancelled_def
  ReservationRepo_Create_def ReservationRepo_GetByIDForUpdate_def ReservationRepo_GetByID_def
  ReservationRepo_GetActiveBySlotForUpdate_def ReservationRepo_SetConfirmed_def
  ReservationRepo_SetCancelled_def ReservationRepo_ExpireBatch_def WaitlistRepo_ClaimNextForNotify_def

lemma silent_create: "silent (CreateBooking_tx s u k now)"
  unfolding CreateBooking_tx_def check_reservation_def insert_booking_def repo_defs Let_def
  by (intro silent_rules)

lemma silent_cancel: "silent (CancelBooking_tx s u i)"
  unfolding CancelBooking_tx_def claim_for_cancelled_def repo_defs Let_def
  by (intro silent_rules)

lemma silent_confirm: "silent (ConfirmReservation_tx u i now)"
  unfolding ConfirmReservation_tx_def book_reserved_def insert_booking_def repo_defs Let_def
  by (intro silent_rules)

lemma silent_claim_next: "silent (claim_next m s k now)"
  unfolding claim_next_def repo_defs Let_def
  by (intro silent_rules)

lemma silent_cancel_reservation: "silent (CancelReservation_tx s u i now)"
  unfolding CancelReservation_tx_def cancel_existing_def repo_defs Let_def
  by (intro silent_rules silent_claim_next)

lemma silent_expire_loop: "silent (expire_loop s now items v)"
  by (induction s now items v rule: expire_loop.induct)
    (auto simp: repo_defs intro!: silent_rules silent_claim_next)

lemma silent_expire: "silent (ExpireDue_tx s now limit)"
  unfolding ExpireDue_tx_def repo_defs Let_def
  by (intro silent_rules silent_expire_loop)

definition error_is_silent :: "'a result go \<Rightarrow> bool" where
  "error_is_silent m \<longleftrightarrow> (\<forall>w. case run_state m w of (Inl _, w') \<Rightarrow> outbox w' = outbox w | (Inr _, _) \<Rightarrow> True)"

lemma error_is_silentI:
  "(\<And>w e w'. run_state m w = (Inl e, w') \<Longrightarrow> outbox w' = outbox w) \<Longrightarrow> error_is_silent m"
  by (auto simp: error_is_silent_def split: prod.split sum.split)

lemmas transactions_silent = silent_create [THEN silent_transaction] silent_cancel [THEN silent_transaction]
  silent_confirm [THEN silent_transaction] silent_cancel_reservation [THEN silent_transaction]
  silent_expire [THEN silent_transaction]

lemma silent_waitlist: "silent (JoinWaitlist u k)" "silent (LeaveWaitlist u k)"
proof -
  have tx: "silent (JoinWaitlist_tx u k)" "silent (LeaveWaitlist_tx u k)"
    unfolding JoinWaitlist_tx_def LeaveWaitlist_tx_def join_entry_def WaitlistRepo_Join_def WaitlistRepo_Leave_def
      getByIDAndUser_def repo_defs Let_def
    by (intro silent_rules)+
  show "silent (JoinWaitlist u k)"
    unfolding JoinWaitlist_def by (intro silent_rules tx)
  show "silent (LeaveWaitlist u k)"
    unfolding LeaveWaitlist_def by (intro silent_rules tx)
qed

text \<open>
  C37. No false alarms: a use case that answers with an error, whatever the reason, has published
  nothing; this holds of creating and cancelling a booking, of confirming and cancelling a reservation
  and of an expiry run. Joining and leaving a waitlist publish nothing at all.
\<close>

theorem failures_publish_nothing:
  "error_is_silent (CreateBooking s u k link) \<and> error_is_silent (CancelBooking s u k) \<and>
   error_is_silent (ConfirmReservation rs u k) \<and> error_is_silent (CancelReservation rs u k) \<and>
   error_is_silent (ExpireDue rs n) \<and> silent (JoinWaitlist u k) \<and> silent (LeaveWaitlist u k)"
proof (intro conjI error_is_silentI silent_waitlist)
  show "run_state (CreateBooking s u k link) w = (Inl e, w') \<Longrightarrow> outbox w' = outbox w" for w e w'
    by (auto simp: CreateBooking_def split: if_splits prod.splits sum.splits
        dest!: silentD [OF silent_inc_on] transactions_silent [THEN silentD])
  show "run_state (CancelBooking s u k) w = (Inl e, w') \<Longrightarrow> outbox w' = outbox w" for w e w'
    by (auto simp: CancelBooking_def split: if_splits prod.splits sum.splits
        dest!: silentD [OF silent_inc_on] transactions_silent [THEN silentD])
  show "run_state (ConfirmReservation rs u k) w = (Inl e, w') \<Longrightarrow> outbox w' = outbox w" for w e w'
    by (auto simp: ConfirmReservation_def run_check split: if_splits prod.splits sum.splits
        dest!: transactions_silent [THEN silentD])
  show "run_state (CancelReservation rs u k) w = (Inl e, w') \<Longrightarrow> outbox w' = outbox w" for w e w'
    by (auto simp: CancelReservation_def run_check split: if_splits prod.splits sum.splits
        dest!: transactions_silent [THEN silentD])
  show "run_state (ExpireDue rs n) w = (Inl e, w') \<Longrightarrow> outbox w' = outbox w" for w e w'
    by (auto simp: ExpireDue_def Let_def run_check split: if_splits prod.splits sum.splits
        dest!: transactions_silent [THEN silentD])
qed

section \<open>From a booking to the browsers\<close>

definition redis_up :: "env \<Rightarrow> bool" where
  "redis_up e \<longleftrightarrow> (\<forall>n. \<not> redis_down_at e n)"

lemma publish_sends:
  assumes "redis_up (env w)" "rpChannel p \<noteq> []" "rpClient p"
  shows "\<exists>w'. run_state (publish (RedisPublisher p) c) w = ((), w') \<and> outbox w' = outbox w @
    [(rpChannel p, Marshal (event_json (event_of (libs (env w)) (clock_at (env w) (ticks w)) c)))]"
  using assms
  by (simp add: publishEvent_def redis_send_def redis_up_def IncRedisRealtimePublish_def del: Marshal.simps)

lemma CreateBooking_publishes:
  assumes "run_state (CreateBooking s u k link) w = (Inr b, w')" "eventPublisher s = RedisPublisher p"
    "redis_up (env w)" "rpChannel p \<noteq> []" "rpClient p"
  shows "\<exists>slot n. find_row slID k (slots (db w)) = Some slot \<and>
    outbox w' = outbox w @ [(rpChannel p, Marshal (event_json
      (event_of (libs (env w)) (clock_at (env w) n) (SlotBooked (slRoomID slot) (bkSlotID b) (bkID b)))))]"
proof -
  let ?now = "clock_at (env w) (ticks w)"
  obtain room w2 w3 where tx: "run_state (CreateBooking_tx s u k ?now) (tick (tick w)) = (Inr (b, room), w2)"
    and ann: "run_state (do { inc_on (bookingMetrics s) BookingCreated;
        publish (RedisPublisher p) (SlotBooked room (bkSlotID b) (bkID b)) }) (tick w2) = ((), w')"
    using assms(1,2)
    by (auto simp: CreateBooking_def WithinTransaction_Inr split: if_splits prod.splits sum.splits)
  obtain slot where slot: "find_row slID k (slots (db w)) = Some slot" "room = slRoomID slot"
    using tx by (auto elim: CreateBooking_tx_InrE)
  have w2: "outbox w2 = outbox w" "env w2 = env w"
    using silentD [OF silent_create tx] by simp_all
  obtain w4 where inc: "run_state (inc_on (bookingMetrics s) BookingCreated) (tick w2) = ((), w4)"
    by (cases "run_state (inc_on (bookingMetrics s) BookingCreated) (tick w2)") auto
  then have w4: "outbox w4 = outbox w" "env w4 = env w"
    using silentD [OF silent_inc_on inc] w2 by simp_all
  have "run_state (publish (RedisPublisher p) (SlotBooked room (bkSlotID b) (bkID b))) w4 = ((), w')"
    using ann inc by simp
  then have "outbox w' = outbox w @ [(rpChannel p, Marshal (event_json (event_of (libs (env w))
      (clock_at (env w) (ticks w4)) (SlotBooked room (bkSlotID b) (bkID b)))))]"
    using publish_sends [of w4 p "SlotBooked room (bkSlotID b) (bkID b)"] assms(3-5) w4 by (auto simp del: publish.simps)
  with slot show ?thesis
    by blast
qed

lemma wired_publisher [simp]:
  "eventPublisher (appBookings (wire cfg gen)) = RedisPublisher \<lparr>rpClient = True, rpChannel = cfgRedisChannel cfg\<rparr>"
  by (simp add: wire_def Let_def eventPublisher_def WithMetrics_def WithReservationRepository_def
      WithWaitlistRepository_def booking_NewService_def NewRedisPublisher_def)

text \<open>
  C38. From a booking to the browsers: when the service books a slot and Redis takes messages, one
  message goes out on the configured channel, and the subscriber of any instance that receives it
  queues \<open>slot_booked\<close>, with the room, the slot and the new booking, for exactly the websocket clients
  subscribed to the room of the slot (disconnecting those whose queue is full).
\<close>

theorem booking_reaches_watchers:
  assumes "run_state (CreateBooking (appBookings (wire cfg gen)) u k link) w = (Inr b, w')"
    "cfgRedisChannel cfg \<noteq> []" "redis_up (env w)" "uuid_text_ok (libs (env w))"
    "\<And>n. time_text_ok (libs (env w)) (clock_at (env w) n)" "hub_reach (libs (env w)) st"
  shows "\<exists>slot payload now st'. find_row slID k (slots (db w)) = Some slot \<and>
    outbox w' = outbox w @ [(cfgRedisChannel cfg, payload)] \<and>
    handleMessage (libs (env w)) payload st = (None, st') \<and>
    hubClients st' = (\<lambda>i. if i < hubNext st \<and> slRoomID slot \<in> set (clSubscribed (hubClients st i))
      then after_send (outbound_of (libs (env w)) now (SlotBooked (slRoomID slot) k (bkID b))) (hubClients st i)
      else hubClients st i)"
proof -
  have k: "bkSlotID b = k"
    using assms(1) by (auto elim!: CreateBooking_InrE CreateBooking_tx_InrE)
  obtain slot n where slot: "find_row slID k (slots (db w)) = Some slot"
    and out: "outbox w' = outbox w @ [(cfgRedisChannel cfg, Marshal (event_json (event_of (libs (env w))
      (clock_at (env w) n) (SlotBooked (slRoomID slot) k (bkID b)))))]"
    using CreateBooking_publishes [OF assms(1) wired_publisher assms(3)] assms(2) k by auto
  have "list_all (time_text_ok (libs (env w))) (clock_at (env w) n # call_times (SlotBooked (slRoomID slot) k (bkID b)))"
    using assms(5) by simp
  from handleMessage_delivers [OF hub_reach_ok [OF assms(6)] assms(4) this] slot out
  show ?thesis
    by auto
qed

text \<open>A browser that asks for a room.\<close>

definition subscribe_request :: "ext \<Rightarrow> uuid \<Rightarrow> string" where
  "subscribe_request x r = Marshal (JObj [(''type'', JStr ''subscribe''), (''roomId'', JStr (uuid_String x r))])"

lemma read_subscribe_request:
  assumes "uuid_text_ok x"
  shows "read_message x c (subscribe_request x r) st = subscribe x c r st"
proof -
  have "plain 0 (JObj [(''type'', JStr ''subscribe''), (''roomId'', JStr (uuid_String x r))])"
    using assms by (simp add: uuid_text_ok_def is_ascii_def maxNestingDepth_def)
  then have "unmarshal_client_message (subscribe_request x r) = Some \<lparr>cmType = ''subscribe'', cmRoomID = uuid_String x r\<rparr>"
    unfolding unmarshal_client_message_def subscribe_request_def
    by (simp add: Unmarshal_Marshal json_fields del: Marshal.simps fold_name.simps plain.simps)
  then show ?thesis
    using assms by (simp add: read_message_def MessageTypeSubscribe_def uuid_text_ok_def)
qed

definition watching :: hub_state where
  "watching = perform token_ext (Read 0 (Some (subscribe_request token_ext 10))) one_client"

lemma watching_simps:
  "hubNext watching = 1" "clSubscribed (hubClients watching 0) = [10]" "accepts (hubClients watching 0)"
proof -
  have "length (subscribe_request token_ext 10) \<le> maxMessageSize"
    by (simp add: subscribe_request_def json_quote_def escape.simps(2) escape_ascii_def token_ext_def
        digits.simps maxMessageSize_def char_of_def bit_0)
  then have w: "watching = subscribe token_ext 0 10 one_client"
    by (simp add: watching_def readPump_def read_subscribe_request token_ext_ok client_for_def)
  show "hubNext watching = 1" "clSubscribed (hubClients watching 0) = [10]" "accepts (hubClients watching 0)"
    unfolding w subscribe_def subscribe_finish_def sendServerMessage_def enqueue_accepts
    by (simp_all add: maxSubscriptions_def subscribe_mark_def Subscribe_def count_def client_for_def accepts_def
        outboundQueueSize_def del: Marshal.simps)
qed

lemma booking_reaches_watchers_witness:
  "\<exists>b w' payload st'. run_state (CreateBooking (appBookings sample_app) carol 22 True) token_world = (Inr b, w') \<and>
    outbox w' = [(''events'', payload)] \<and> handleMessage token_ext payload watching = (None, st') \<and>
    clSend (hubClients watching 0) \<noteq> clSend (hubClients st' 0)"
proof -
  have db: "db token_world = sample_store" "outbox token_world = []" "calm (env token_world)" "redis_up (env token_world)"
      "fresh_at (env token_world) n = 1000" for n
    by (simp_all add: token_world_def sample_world_def sample_env_def calm_def redis_up_def)
  have "create_refusal (appBookings sample_app) carol 22 100000000000 sample_store = None"
    by (simp add: create_refusal_def sample_defs slot_booked_def slot_reserved_def bk_active_def)
  moreover have "fresh_ids (env token_world) (bkID ` set (bookings sample_store))"
    using sample_fresh(2) db(5) by (simp add: fresh_ids_def)
  ultimately obtain b w' where run: "run_state (CreateBooking (appBookings sample_app) carol 22 True) token_world = (Inr b, w')"
    using CreateBooking_accepted [of token_world "appBookings sample_app" carol 22 True]
    by (auto simp: db sample_facts)
  have "hub_reach token_ext watching"
    unfolding watching_def by (intro hub_reach.act one_client_reach)
  moreover have "slRoomID slot = 10" if "find_row slID 22 (slots sample_store) = Some slot" for slot
    using that by (auto simp: sample_defs)
  moreover have "clSend (after_send m (hubClients watching 0)) \<noteq> clSend (hubClients watching 0)" for m
    using watching_simps(3) by (simp add: after_send_def)
  ultimately show ?thesis
    using booking_reaches_watchers [OF run, of watching] watching_simps run
    by (fastforce simp: db token_ext_ok sample_config_def)
qed

section \<open>What a cancellation without a queue publishes\<close>

lemma claim_for_nobody:
  assumes "calm (env w)" "\<not> slot_awaited (db w) k"
  shows "\<exists>w'. run_state (claim_for_cancelled s k) w = (Inr (None, None), w') \<and> db w' = db w \<and> env w' = env w"
proof (cases "bsWaitlists s")
  case True
  have "claimable locked k (waitlist (db w)) = []" for locked
    using assms(2) by (auto simp: claimable_def slot_awaited_def filter_empty_conv)
  then have "run_state (WaitlistRepo_ClaimNextForNotify k) w = (Inr None, (tick w)\<lparr>db := db w\<rparr>)"
    using assms(1)
    by (simp add: WaitlistRepo_ClaimNextForNotify_def run_db_call_calm sql_waitlist_claim_def)
  then show ?thesis
    by (simp add: claim_for_cancelled_def True run_check)
qed (simp add: claim_for_cancelled_def)

lemma CancelBooking_tx_released:
  assumes "calm (env w)" "distinct (map bkID (bookings (db w)))" "find_row bkID i (bookings (db w)) = Some b"
    "bkUserID b = usrID u" "bk_active b" "find_row slID (bkSlotID b) (slots (db w)) = Some slot"
    "\<not> slot_awaited (db w) (bkSlotID b)"
  shows "\<exists>w'. run_state (CancelBooking_tx s u i) w =
      (Inr \<lparr>crResult = bk_cancel b, crRoomID = slRoomID slot, crSlotReleased = True, crNotifiedEntry = None,
        crCreatedReservation = None\<rparr>, w') \<and>
    db w' = cancel_booking i (db w) \<and> env w' = env w"
proof -
  let ?w2 = "(tick (tick w))\<lparr>db := cancel_booking i (db w)\<rparr>"
  have get: "run_state (BookingRepo_GetByID i) w = (Inr (Some b), tick w)"
    using assms(1,3) by (simp add: BookingRepo_GetByID_Inr)
  have set: "run_state (BookingRepo_SetCancelled i) (tick w) = (Inr (Some (bk_cancel b)), ?w2)"
    using find_active_booking [OF assms(3,2)] assms(1,5) by (simp add: BookingRepo_SetCancelled_active)
  have slot: "run_state (SlotRepo_GetByID (bkSlotID b)) ?w2 = (Inr (Some slot), tick ?w2)"
    using assms(1,6) by (simp add: SlotRepo_GetByID_Inr cancel_booking_def)
  obtain w' where "run_state (claim_for_cancelled s (bkSlotID b)) (tick ?w2) = (Inr (None, None), w')"
      "db w' = cancel_booking i (db w)" "env w' = env w"
    using claim_for_nobody [of "tick ?w2" "bkSlotID b" s] assms(1,7) by (auto simp: slot_awaited_def cancel_booking_def)
  then show ?thesis
    using get set slot assms(4,5)
    by (auto simp: CancelBooking_tx_def run_check Let_def bk_active_def same_error_def)
qed

lemma CancelBooking_releases:
  assumes "calm (env w)" "distinct (map bkID (bookings (db w)))" "find_row bkID i (bookings (db w)) = Some b"
    "usrRole u = RoleUser" "bkUserID b = usrID u" "bk_active b"
    "find_row slID (bkSlotID b) (slots (db w)) = Some slot" "\<not> slot_awaited (db w) (bkSlotID b)"
    "slRoomID slot \<noteq> 0" "eventPublisher s = RedisPublisher p" "redis_up (env w)" "rpChannel p \<noteq> []" "rpClient p"
  shows "\<exists>w' n. run_state (CancelBooking s u i) w = (Inr (bk_cancel b), w') \<and> db w' = cancel_booking i (db w) \<and>
    outbox w' = outbox w @ [(rpChannel p, Marshal (event_json (event_of (libs (env w)) (clock_at (env w) n)
      (SlotReleased (slRoomID slot) (bkSlotID b) i))))]"
proof -
  let ?r = "\<lparr>crResult = bk_cancel b, crRoomID = slRoomID slot, crSlotReleased = True, crNotifiedEntry = None,
      crCreatedReservation = None\<rparr>"
  have i: "bkID b = i"
    using find_row_SomeD [OF assms(3)] by simp
  obtain w2 where tx: "run_state (CancelBooking_tx s u i) (tick w) = (Inr ?r, w2)"
      "db w2 = cancel_booking i (db w)" "env w2 = env w"
    using CancelBooking_tx_released [of "tick w" i b u slot s] assms(1-3,5-8) by auto
  have out: "outbox w2 = outbox w"
    using silentD [OF silent_cancel tx(1)] by simp
  have commit: "run_state (WithinTransaction (CancelBooking_tx s u i)) w = (Inr ?r, tick w2)"
    using WithinTransaction_calm [OF _ tx(1)] assms(1) tx(3) by simp
  obtain w4 where inc: "run_state (inc_on (bookingMetrics s) BookingCancelled) (tick w2) = ((), w4)"
    by (cases "run_state (inc_on (bookingMetrics s) BookingCancelled) (tick w2)") auto
  then have w4: "outbox w4 = outbox w" "env w4 = env w" "db w4 = cancel_booking i (db w)"
    using silentD [OF silent_inc_on inc] tx out effort(1) [OF inc] by simp_all
  obtain w5 where pub: "run_state (publish (RedisPublisher p) (SlotReleased (slRoomID slot) (bkSlotID b) i)) w4 = ((), w5)"
      "outbox w5 = outbox w4 @ [(rpChannel p, Marshal (event_json (event_of (libs (env w4)) (clock_at (env w4) (ticks w4))
        (SlotReleased (slRoomID slot) (bkSlotID b) i))))]"
    using publish_sends [of w4 p "SlotReleased (slRoomID slot) (bkSlotID b) i"] assms(11-13) w4(2) by auto
  have "db w5 = db w4"
    using effort(2) [OF pub(1)] by simp
  moreover have "run_state (CancelBooking s u i) w = (Inr (bk_cancel b), w5)"
    using commit inc pub(1) assms(4,9,10) i by (simp add: CancelBooking_def announce_cancel_def del: publish.simps)
  ultimately show ?thesis
    using pub(2) w4 by auto
qed

end
