(* ===== verification/Http_Dto.thy ===== *)
theory Http_Dto
  imports Http_Base System
begin

text \<open>
  What goes over the wire of \<open>internal/transport/http/handler\<close>: the structures of the responses with
  their \<open>json\<close> tags, the functions that fill them from the domain, and the structures requests are
  decoded into. A structure is a record with the fields of the code, \<open><type>_json\<close> is what
  \<open>encoding/json\<close> makes of it.
\<close>

section \<open>Values in responses\<close>

definition json_int :: "int \<Rightarrow> json" where
  "json_int i = JNum (FormatInt i)"

text \<open>A pointer field with \<open>omitempty\<close>.\<close>

definition omitempty :: "string \<Rightarrow> ('a \<Rightarrow> json) \<Rightarrow> 'a option \<Rightarrow> (string \<times> json) list" where
  "omitempty name f v = (case v of None \<Rightarrow> [] | Some a \<Rightarrow> [(name, f a)])"

section \<open>Bookings\<close>

record bookingDTO =
  bdID :: string
  bdSlotID :: string
  bdUserID :: string
  bdStatus :: string
  bdConferenceLink :: "string option"
  bdCreatedAt :: string

definition bookingDTO_json :: "bookingDTO \<Rightarrow> json" where
  "bookingDTO_json d = JObj ([(''id'', JStr (bdID d)), (''slotId'', JStr (bdSlotID d)),
     (''userId'', JStr (bdUserID d)), (''status'', JStr (bdStatus d))] @
     omitempty ''conferenceLink'' JStr (bdConferenceLink d) @ [(''createdAt'', JStr (bdCreatedAt d))])"

definition bookingToDTO :: "ext \<Rightarrow> booking \<Rightarrow> bookingDTO" where
  "bookingToDTO x b = \<lparr>bdID = uuid_String x (bkID b), bdSlotID = uuid_String x (bkSlotID b),
     bdUserID = uuid_String x (bkUserID b), bdStatus = booking_status_text (bkStatus b),
     bdConferenceLink = bkConferenceLink b, bdCreatedAt = format_RFC3339 x (bkCreatedAt b)\<rparr>"

record createBookingRequest =
  cbSlotID :: string
  cbCreateConferenceLink :: bool

definition read_createBookingRequest :: "json \<Rightarrow> createBookingRequest option" where
  "read_createBookingRequest = into_struct (\<lambda>ms.
     Option.bind (set_field put_string (field_values ''slotId'' ms) []) (\<lambda>k.
     Option.bind (set_field put_bool (field_values ''createConferenceLink'' ms) False) (\<lambda>l.
     Some \<lparr>cbSlotID = k, cbCreateConferenceLink = l\<rparr>)))"

record createBookingResponse =
  cbrBooking :: bookingDTO

definition createBookingResponse_json :: "createBookingResponse \<Rightarrow> json" where
  "createBookingResponse_json d = JObj [(''booking'', bookingDTO_json (cbrBooking d))]"

record paginationDTO =
  pdPage :: int
  pdPageSize :: int
  pdTotal :: int

definition paginationDTO_json :: "paginationDTO \<Rightarrow> json" where
  "paginationDTO_json d = JObj [(''page'', json_int (pdPage d)), (''pageSize'', json_int (pdPageSize d)),
     (''total'', json_int (pdTotal d))]"

record listBookingsResponse =
  lbrBookings :: "bookingDTO list"
  lbrPagination :: paginationDTO

definition listBookingsResponse_json :: "listBookingsResponse \<Rightarrow> json" where
  "listBookingsResponse_json d = JObj [(''bookings'', JArr (map bookingDTO_json (lbrBookings d))),
     (''pagination'', paginationDTO_json (lbrPagination d))]"

definition list_bookings_response :: "ext \<Rightarrow> booking list \<Rightarrow> pagination \<Rightarrow> listBookingsResponse" where
  "list_bookings_response x bks p = \<lparr>lbrBookings = map (bookingToDTO x) bks,
     lbrPagination = \<lparr>pdPage = pgPage p, pdPageSize = pgPageSize p, pdTotal = pgTotal p\<rparr>\<rparr>"

record listMyBookingsResponse =
  lmrBookings :: "bookingDTO list"

definition listMyBookingsResponse_json :: "listMyBookingsResponse \<Rightarrow> json" where
  "listMyBookingsResponse_json d = JObj [(''bookings'', JArr (map bookingDTO_json (lmrBookings d)))]"

record cancelBookingResponse =
  xbrBooking :: bookingDTO

definition cancelBookingResponse_json :: "cancelBookingResponse \<Rightarrow> json" where
  "cancelBookingResponse_json d = JObj [(''booking'', bookingDTO_json (xbrBooking d))]"

section \<open>Reservations\<close>

record reservationDTO =
  rdID :: string
  rdSlotID :: string
  rdUserID :: string
  rdWaitlistEntryID :: "string option"
  rdStatus :: string
  rdExpiresAt :: string
  rdCreatedAt :: string
  rdConfirmedAt :: "string option"
  rdExpiredAt :: "string option"

definition reservationDTO_json :: "reservationDTO \<Rightarrow> json" where
  "reservationDTO_json d = JObj ([(''id'', JStr (rdID d)), (''slotId'', JStr (rdSlotID d)),
     (''userId'', JStr (rdUserID d))] @ omitempty ''waitlistEntryId'' JStr (rdWaitlistEntryID d) @
     [(''status'', JStr (rdStatus d)), (''expiresAt'', JStr (rdExpiresAt d)),
      (''createdAt'', JStr (rdCreatedAt d))] @ omitempty ''confirmedAt'' JStr (rdConfirmedAt d) @
     omitempty ''expiredAt'' JStr (rdExpiredAt d))"

definition reservationToDTO :: "ext \<Rightarrow> slot_reservation \<Rightarrow> reservationDTO" where
  "reservationToDTO x r = \<lparr>rdID = uuid_String x (rvID r), rdSlotID = uuid_String x (rvSlotID r),
     rdUserID = uuid_String x (rvUserID r), rdWaitlistEntryID = map_option (uuid_String x) (rvWaitlistEntryID r),
     rdStatus = reservation_status_text (rvStatus r), rdExpiresAt = format_RFC3339 x (rvExpiresAt r),
     rdCreatedAt = format_RFC3339 x (rvCreatedAt r),
     rdConfirmedAt = map_option (format_RFC3339 x) (rvConfirmedAt r),
     rdExpiredAt = map_option (format_RFC3339 x) (rvExpiredAt r)\<rparr>"

record confirmReservationResponse =
  cfrBooking :: bookingDTO
  cfrReservation :: reservationDTO

definition confirmReservationResponse_json :: "confirmReservationResponse \<Rightarrow> json" where
  "confirmReservationResponse_json d = JObj [(''booking'', bookingDTO_json (cfrBooking d)),
     (''reservation'', reservationDTO_json (cfrReservation d))]"

record cancelReservationResponse =
  xrrReservation :: reservationDTO

definition cancelReservationResponse_json :: "cancelReservationResponse \<Rightarrow> json" where
  "cancelReservationResponse_json d = JObj [(''reservation'', reservationDTO_json (xrrReservation d))]"

record listMyActiveReservationsResponse =
  larReservations :: "reservationDTO list"

definition listMyActiveReservationsResponse_json :: "listMyActiveReservationsResponse \<Rightarrow> json" where
  "listMyActiveReservationsResponse_json d =
     JObj [(''reservations'', JArr (map reservationDTO_json (larReservations d)))]"

section \<open>Waitlist\<close>

record joinWaitlistRequest =
  jwSlotID :: string

definition read_joinWaitlistRequest :: "json \<Rightarrow> joinWaitlistRequest option" where
  "read_joinWaitlistRequest = into_struct (\<lambda>ms.
     Option.bind (set_field put_string (field_values ''slotId'' ms) []) (\<lambda>k. Some \<lparr>jwSlotID = k\<rparr>))"

record waitlistEntryDTO =
  wdID :: string
  wdSlotID :: string
  wdUserID :: string
  wdStatus :: string
  wdPosition :: int
  wdCreatedAt :: string
  wdNotifiedAt :: "string option"

definition waitlistEntryDTO_json :: "waitlistEntryDTO \<Rightarrow> json" where
  "waitlistEntryDTO_json d = JObj ([(''id'', JStr (wdID d)), (''slotId'', JStr (wdSlotID d)),
     (''userId'', JStr (wdUserID d)), (''status'', JStr (wdStatus d)),
     (''position'', json_int (wdPosition d)), (''createdAt'', JStr (wdCreatedAt d))] @
     omitempty ''notifiedAt'' JStr (wdNotifiedAt d))"

definition waitlistEntryToDTO :: "ext \<Rightarrow> waitlist_entry \<Rightarrow> waitlistEntryDTO" where
  "waitlistEntryToDTO x e = \<lparr>wdID = uuid_String x (weID e), wdSlotID = uuid_String x (weSlotID e),
     wdUserID = uuid_String x (weUserID e), wdStatus = waitlist_status_text (weStatus e),
     wdPosition = wePosition e, wdCreatedAt = format_RFC3339 x (weCreatedAt e),
     wdNotifiedAt = map_option (format_RFC3339 x) (weNotifiedAt e)\<rparr>"

record joinWaitlistResponse =
  jwrEntry :: waitlistEntryDTO

definition joinWaitlistResponse_json :: "joinWaitlistResponse \<Rightarrow> json" where
  "joinWaitlistResponse_json d = JObj [(''entry'', waitlistEntryDTO_json (jwrEntry d))]"

record leaveWaitlistResponse =
  lwrEntry :: waitlistEntryDTO

definition leaveWaitlistResponse_json :: "leaveWaitlistResponse \<Rightarrow> json" where
  "leaveWaitlistResponse_json d = JObj [(''entry'', waitlistEntryDTO_json (lwrEntry d))]"

section \<open>Slots\<close>

record slotDTO =
  sdID :: string
  sdRoomID :: string
  sdStartAt :: string
  sdEndAt :: string

definition slotDTO_json :: "slotDTO \<Rightarrow> json" where
  "slotDTO_json d = JObj [(''id'', JStr (sdID d)), (''roomId'', JStr (sdRoomID d)),
     (''start'', JStr (sdStartAt d)), (''end'', JStr (sdEndAt d))]"

definition slot_dto :: "ext \<Rightarrow> slot \<Rightarrow> slotDTO" where
  "slot_dto x s = \<lparr>sdID = uuid_String x (slID s), sdRoomID = uuid_String x (slRoomID s),
     sdStartAt = format_RFC3339 x (slStartTime s), sdEndAt = format_RFC3339 x (slEndTime s)\<rparr>"

record listSlotsResponse =
  lsrSlots :: "slotDTO list"

definition listSlotsResponse_json :: "listSlotsResponse \<Rightarrow> json" where
  "listSlotsResponse_json d = JObj [(''slots'', JArr (map slotDTO_json (lsrSlots d)))]"

record slotViewDTO =
  vdID :: string
  vdRoomID :: string
  vdStartAt :: string
  vdEndAt :: string
  vdStatus :: string
  vdBookingID :: "string option"
  vdReservationID :: "string option"
  vdWaitlistEntryID :: "string option"

definition slotViewDTO_json :: "slotViewDTO \<Rightarrow> json" where
  "slotViewDTO_json d = JObj ([(''id'', JStr (vdID d)), (''roomId'', JStr (vdRoomID d)),
     (''start'', JStr (vdStartAt d)), (''end'', JStr (vdEndAt d)), (''status'', JStr (vdStatus d))] @
     omitempty ''bookingId'' JStr (vdBookingID d) @ omitempty ''reservationId'' JStr (vdReservationID d) @
     omitempty ''waitlistEntryId'' JStr (vdWaitlistEntryID d))"

definition slot_view_dto :: "ext \<Rightarrow> slot_view \<Rightarrow> slotViewDTO" where
  "slot_view_dto x v = \<lparr>vdID = uuid_String x (svID v), vdRoomID = uuid_String x (svRoomID v),
     vdStartAt = format_RFC3339 x (svStartTime v), vdEndAt = format_RFC3339 x (svEndTime v),
     vdStatus = slot_status_text (svStatus v), vdBookingID = map_option (uuid_String x) (svBookingID v),
     vdReservationID = map_option (uuid_String x) (svReservationID v),
     vdWaitlistEntryID = map_option (uuid_String x) (svWaitlistEntryID v)\<rparr>"

record listSlotViewsResponse =
  lvrSlots :: "slotViewDTO list"

definition listSlotViewsResponse_json :: "listSlotViewsResponse \<Rightarrow> json" where
  "listSlotViewsResponse_json d = JObj [(''slots'', JArr (map slotViewDTO_json (lvrSlots d)))]"

section \<open>Rooms and schedules\<close>

record roomDTO =
  rmdID :: string
  rmdName :: string
  rmdDescription :: "string option"
  rmdCapacity :: "int option"

definition roomDTO_json :: "roomDTO \<Rightarrow> json" where
  "roomDTO_json d = JObj ([(''id'', JStr (rmdID d)), (''name'', JStr (rmdName d))] @
     omitempty ''description'' JStr (rmdDescription d) @ omitempty ''capacity'' json_int (rmdCapacity d))"

definition roomToDTO :: "ext \<Rightarrow> room \<Rightarrow> roomDTO" where
  "roomToDTO x r = \<lparr>rmdID = uuid_String x (rmID r), rmdName = rmName r, rmdDescription = rmDescription r,
     rmdCapacity = rmCapacity r\<rparr>"

record listRoomsResponse =
  lrrRooms :: "roomDTO list"

definition listRoomsResponse_json :: "listRoomsResponse \<Rightarrow> json" where
  "listRoomsResponse_json d = JObj [(''rooms'', JArr (map roomDTO_json (lrrRooms d)))]"

record createRoomRequest =
  rrName :: string
  rrDescription :: "string option"
  rrCapacity :: "int option"

definition read_createRoomRequest :: "json \<Rightarrow> createRoomRequest option" where
  "read_createRoomRequest = into_struct (\<lambda>ms.
     Option.bind (set_field put_string (field_values ''name'' ms) []) (\<lambda>n.
     Option.bind (set_field (put_pointer put_string []) (field_values ''description'' ms) None) (\<lambda>d.
     Option.bind (set_field (put_pointer put_int 0) (field_values ''capacity'' ms) None) (\<lambda>c.
     Some \<lparr>rrName = n, rrDescription = d, rrCapacity = c\<rparr>))))"

record createRoomResponse =
  crrRoom :: roomDTO

definition createRoomResponse_json :: "createRoomResponse \<Rightarrow> json" where
  "createRoomResponse_json d = JObj [(''room'', roomDTO_json (crrRoom d))]"

record createScheduleRequest =
  srDaysOfWeek :: "int list"
  srStartTime :: string
  srEndTime :: string

definition read_createScheduleRequest :: "json \<Rightarrow> createScheduleRequest option" where
  "read_createScheduleRequest = into_struct (\<lambda>ms.
     Option.bind (set_field (put_slice put_int 0) (field_values ''daysOfWeek'' ms) []) (\<lambda>ds.
     Option.bind (set_field put_string (field_values ''startTime'' ms) []) (\<lambda>s.
     Option.bind (set_field put_string (field_values ''endTime'' ms) []) (\<lambda>e.
     Some \<lparr>srDaysOfWeek = ds, srStartTime = s, srEndTime = e\<rparr>))))"

record scheduleDTO =
  sddRoomID :: string
  sddDaysOfWeek :: "int list"
  sddStartTime :: string
  sddEndTime :: string

definition scheduleDTO_json :: "scheduleDTO \<Rightarrow> json" where
  "scheduleDTO_json d = JObj [(''roomId'', JStr (sddRoomID d)),
     (''daysOfWeek'', JArr (map json_int (sddDaysOfWeek d))), (''startTime'', JStr (sddStartTime d)),
     (''endTime'', JStr (sddEndTime d))]"

definition scheduleTimeToAPI :: "string \<Rightarrow> string" where
  "scheduleTimeToAPI s =
     (let s = TrimSpace s
      in if 8 \<le> length s \<and> count_list s (CHR '':'') = 2 then take 5 s else s)"

definition schedule_dto :: "ext \<Rightarrow> schedule_view \<Rightarrow> schedule_rule \<Rightarrow> scheduleDTO" where
  "schedule_dto x v first = \<lparr>sddRoomID = uuid_String x (vwRoomID v),
     sddDaysOfWeek = sort (map ruDayOfWeek (vwRules v)),
     sddStartTime = scheduleTimeToAPI (ruStartTime first), sddEndTime = scheduleTimeToAPI (ruEndTime first)\<rparr>"

record createScheduleResponse =
  csrSchedule :: scheduleDTO

definition createScheduleResponse_json :: "createScheduleResponse \<Rightarrow> json" where
  "createScheduleResponse_json d = JObj [(''schedule'', scheduleDTO_json (csrSchedule d))]"

section \<open>Users and tokens\<close>

record dummyLoginRequest =
  dlRole :: string

definition read_dummyLoginRequest :: "json \<Rightarrow> dummyLoginRequest option" where
  "read_dummyLoginRequest = into_struct (\<lambda>ms.
     Option.bind (set_field put_string (field_values ''role'' ms) []) (\<lambda>r. Some \<lparr>dlRole = r\<rparr>))"

record tokenResponse =
  trToken :: string

definition tokenResponse_json :: "tokenResponse \<Rightarrow> json" where
  "tokenResponse_json d = JObj [(''token'', JStr (trToken d))]"

record registerRequest =
  rgEmail :: string
  rgPassword :: string
  rgRole :: string

record loginRequest =
  lgEmail :: string
  lgPassword :: string

definition read_registerRequest :: "json \<Rightarrow> registerRequest option" where
  "read_registerRequest = into_struct (\<lambda>ms.
     Option.bind (set_field put_string (field_values ''email'' ms) []) (\<lambda>e.
     Option.bind (set_field put_string (field_values ''password'' ms) []) (\<lambda>p.
     Option.bind (set_field put_string (field_values ''role'' ms) []) (\<lambda>r.
     Some \<lparr>rgEmail = e, rgPassword = p, rgRole = r\<rparr>))))"

definition read_loginRequest :: "json \<Rightarrow> loginRequest option" where
  "read_loginRequest = into_struct (\<lambda>ms.
     Option.bind (set_field put_string (field_values ''email'' ms) []) (\<lambda>e.
     Option.bind (set_field put_string (field_values ''password'' ms) []) (\<lambda>p.
     Some \<lparr>lgEmail = e, lgPassword = p\<rparr>)))"

record userDTO =
  udID :: string
  udEmail :: string
  udRole :: string
  udCreatedAt :: "string option"

definition userDTO_json :: "userDTO \<Rightarrow> json" where
  "userDTO_json d = JObj ([(''id'', JStr (udID d)), (''email'', JStr (udEmail d)), (''role'', JStr (udRole d))] @
     omitempty ''createdAt'' JStr (udCreatedAt d))"

definition userToDTO :: "ext \<Rightarrow> user \<Rightarrow> userDTO" where
  "userToDTO x u = \<lparr>udID = uuid_String x (usrID u), udEmail = usrEmail u, udRole = usrRole u,
     udCreatedAt = (if usrCreatedAt u \<noteq> zero_time then Some (format_RFC3339 x (usrCreatedAt u)) else None)\<rparr>"

record registerResponse =
  rgrUser :: userDTO

definition registerResponse_json :: "registerResponse \<Rightarrow> json" where
  "registerResponse_json d = JObj [(''user'', userDTO_json (rgrUser d))]"

text \<open>Every response is a JSON object.\<close>

lemmas response_json_defs = createBookingResponse_json_def listBookingsResponse_json_def
  listMyBookingsResponse_json_def cancelBookingResponse_json_def confirmReservationResponse_json_def
  cancelReservationResponse_json_def listMyActiveReservationsResponse_json_def
  joinWaitlistResponse_json_def leaveWaitlistResponse_json_def listSlotsResponse_json_def
  listSlotViewsResponse_json_def listRoomsResponse_json_def createRoomResponse_json_def
  createScheduleResponse_json_def tokenResponse_json_def registerResponse_json_def

end
