(* ===== verification/Http_Handlers.thy ===== *)
theory Http_Handlers
  imports Http_Dto
begin

text \<open>
  The handlers of \<open>internal/transport/http/handler\<close>, the responses they write and the routes of
  \<open>server.go\<close>. A handler gets the user the token stands for, decodes what the request carries, calls
  its use case and writes either the error or the result. A use case that \<open>NewServer\<close> may leave out is
  an option or a flag.
\<close>

section \<open>Handlers\<close>

text \<open>
  \<open>if err != nil { response.WriteError(w, err); return }\<close> for a value that is there, and for one a
  use case computes.
\<close>

definition or_error :: "go_error + 'a \<Rightarrow> ('a \<Rightarrow> response go) \<Rightarrow> response go" where
  "or_error v k = (case v of Inl err \<Rightarrow> State_Monad.return (WriteError err) | Inr a \<Rightarrow> k a)"

definition respond :: "'a result go \<Rightarrow> (ext \<Rightarrow> 'a \<Rightarrow> response) \<Rightarrow> response go" where
  "respond m write = do {
     x \<leftarrow> asks id;
     v \<leftarrow> m;
     State_Monad.return (case v of Inl err \<Rightarrow> WriteError err | Inr a \<Rightarrow> write x a)
   }"

definition with_user :: "user option \<Rightarrow> bool \<Rightarrow> string \<Rightarrow> (user \<Rightarrow> response go) \<Rightarrow> response go" where
  "with_user u configured name k =
     (case u of
        None \<Rightarrow> State_Monad.return (WriteError (NewDomainError ErrorUnauthorized ''missing auth user''))
      | Some u \<Rightarrow>
          if \<not> configured
          then State_Monad.return (WriteError
            (NewDomainError ErrorInternalError (name @ '' usecase is not configured'')))
          else k u)"

definition parse_id :: "ext \<Rightarrow> string \<Rightarrow> string \<Rightarrow> go_error + uuid" where
  "parse_id x name raw =
     (case uuid_Parse x raw of
        None \<Rightarrow> Inl (wrapped ErrorInvalidRequest (''invalid '' @ name) (TextError ''invalid UUID''))
      | Some i \<Rightarrow> Inr i)"

definition one_member :: "string \<Rightarrow> json \<Rightarrow> json" where
  "one_member name v = JObj [(name, v)]"

subsection \<open>Bookings\<close>

definition BookingHandler_CreateBooking ::
  "booking_service option \<Rightarrow> user option \<Rightarrow> http_handler" where
  "BookingHandler_CreateBooking uc u r =
     with_user u (uc \<noteq> None) ''booking'' (\<lambda>u. do {
       x \<leftarrow> asks id;
       or_error (DecodeJSON read_createBookingRequest (rqBody r)) (\<lambda>req.
       or_error (parse_id x ''slotId'' (cbSlotID req)) (\<lambda>slotID.
       respond (CreateBooking (the uc) u slotID (cbCreateConferenceLink req)) (\<lambda>x b.
         WriteJSON StatusCreated (createBookingResponse_json \<lparr>cbrBooking = bookingToDTO x b\<rparr>))))
     })"

definition BookingHandler_ListBookings ::
  "booking_service option \<Rightarrow> user option \<Rightarrow> http_handler" where
  "BookingHandler_ListBookings uc u r =
     with_user u (uc \<noteq> None) ''booking'' (\<lambda>u.
       or_error (parsePagination r) (\<lambda>(page, pageSize).
       respond (ListBookings (the uc) u page pageSize) (\<lambda>x (bks, p).
         WriteJSON StatusOK (listBookingsResponse_json (list_bookings_response x bks p)))))"

definition BookingHandler_ListMyBookings ::
  "booking_service option \<Rightarrow> user option \<Rightarrow> http_handler" where
  "BookingHandler_ListMyBookings uc u r =
     with_user u (uc \<noteq> None) ''booking'' (\<lambda>u.
       respond (ListMyBookings (the uc) u) (\<lambda>x bks.
         WriteJSON StatusOK (listMyBookingsResponse_json \<lparr>lmrBookings = map (bookingToDTO x) bks\<rparr>)))"

definition BookingHandler_CancelBooking ::
  "booking_service option \<Rightarrow> user option \<Rightarrow> http_handler" where
  "BookingHandler_CancelBooking uc u r =
     with_user u (uc \<noteq> None) ''booking'' (\<lambda>u. do {
       x \<leftarrow> asks id;
       or_error (parse_id x ''bookingId'' (rqParam r ''bookingId'')) (\<lambda>bookingID.
       respond (CancelBooking (the uc) u bookingID) (\<lambda>x b.
         WriteJSON StatusOK (cancelBookingResponse_json \<lparr>xbrBooking = bookingToDTO x b\<rparr>)))
     })"

subsection \<open>Reservations\<close>

definition ReservationHandler_ConfirmReservation ::
  "reservation_service option \<Rightarrow> user option \<Rightarrow> http_handler" where
  "ReservationHandler_ConfirmReservation uc u r =
     with_user u (uc \<noteq> None) ''reservation'' (\<lambda>u. do {
       x \<leftarrow> asks id;
       or_error (parse_id x ''reservationId'' (rqParam r ''reservationId'')) (\<lambda>reservationID.
       respond (ConfirmReservation (the uc) u reservationID) (\<lambda>x (b, rv).
         WriteJSON StatusOK (confirmReservationResponse_json
           \<lparr>cfrBooking = bookingToDTO x b, cfrReservation = reservationToDTO x rv\<rparr>)))
     })"

definition ReservationHandler_CancelReservation ::
  "reservation_service option \<Rightarrow> user option \<Rightarrow> http_handler" where
  "ReservationHandler_CancelReservation uc u r =
     with_user u (uc \<noteq> None) ''reservation'' (\<lambda>u. do {
       x \<leftarrow> asks id;
       or_error (parse_id x ''reservationId'' (rqParam r ''reservationId'')) (\<lambda>reservationID.
       respond (CancelReservation (the uc) u reservationID) (\<lambda>x rv.
         WriteJSON StatusOK (cancelReservationResponse_json \<lparr>xrrReservation = reservationToDTO x rv\<rparr>)))
     })"

definition ReservationHandler_ListMyActiveReservations ::
  "reservation_service option \<Rightarrow> user option \<Rightarrow> http_handler" where
  "ReservationHandler_ListMyActiveReservations uc u r =
     with_user u (uc \<noteq> None) ''reservation'' (\<lambda>u.
       respond (ListMyActiveReservations (the uc) u) (\<lambda>x rvs.
         WriteJSON StatusOK (listMyActiveReservationsResponse_json
           \<lparr>larReservations = map (reservationToDTO x) rvs\<rparr>)))"

subsection \<open>Waitlist\<close>

definition WaitlistHandler_JoinWaitlist :: "bool \<Rightarrow> user option \<Rightarrow> http_handler" where
  "WaitlistHandler_JoinWaitlist uc u r =
     with_user u uc ''waitlist'' (\<lambda>u. do {
       x \<leftarrow> asks id;
       or_error (DecodeJSON read_joinWaitlistRequest (rqBody r)) (\<lambda>req.
       or_error (parse_id x ''slotId'' (jwSlotID req)) (\<lambda>slotID.
       respond (JoinWaitlist u slotID) (\<lambda>x e.
         WriteJSON StatusCreated (joinWaitlistResponse_json \<lparr>jwrEntry = waitlistEntryToDTO x e\<rparr>))))
     })"

definition WaitlistHandler_LeaveWaitlist :: "bool \<Rightarrow> user option \<Rightarrow> http_handler" where
  "WaitlistHandler_LeaveWaitlist uc u r =
     with_user u uc ''waitlist'' (\<lambda>u. do {
       x \<leftarrow> asks id;
       or_error (parse_id x ''waitlistId'' (rqParam r ''waitlistId'')) (\<lambda>entryID.
       respond (LeaveWaitlist u entryID) (\<lambda>x e.
         WriteJSON StatusOK (leaveWaitlistResponse_json \<lparr>lwrEntry = waitlistEntryToDTO x e\<rparr>)))
     })"

subsection \<open>Registration and login\<close>

definition auth_configured :: "auth_service option \<Rightarrow> response go \<Rightarrow> response go" where
  "auth_configured uc k =
     (if uc = None
      then State_Monad.return (WriteError
        (NewDomainError ErrorInternalError ''auth usecase is not configured''))
      else k)"

definition AuthHandler_DummyLogin :: "auth_service option \<Rightarrow> http_handler" where
  "AuthHandler_DummyLogin uc r = auth_configured uc (
     or_error (DecodeJSON read_dummyLoginRequest (rqBody r)) (\<lambda>req.
       if dlRole req \<noteq> ''admin'' \<and> dlRole req \<noteq> ''user''
       then State_Monad.return (WriteError (NewDomainError ErrorInvalidRequest ''invalid role''))
       else respond (DummyLogin (the uc) (dlRole req)) (\<lambda>x token.
         WriteJSON StatusOK (tokenResponse_json \<lparr>trToken = token\<rparr>))))"

definition AuthHandler_Register :: "auth_service option \<Rightarrow> http_handler" where
  "AuthHandler_Register uc r = auth_configured uc (
     or_error (DecodeJSON read_registerRequest (rqBody r)) (\<lambda>req.
       respond (Register (the uc) (rgEmail req) (rgPassword req) (rgRole req)) (\<lambda>x u.
         WriteJSON StatusCreated (registerResponse_json \<lparr>rgrUser = userToDTO x u\<rparr>))))"

definition AuthHandler_Login :: "auth_service option \<Rightarrow> http_handler" where
  "AuthHandler_Login uc r = auth_configured uc (
     or_error (DecodeJSON read_loginRequest (rqBody r)) (\<lambda>req.
       respond (Login (the uc) (lgEmail req) (lgPassword req)) (\<lambda>x token.
         WriteJSON StatusOK (tokenResponse_json \<lparr>trToken = token\<rparr>))))"

subsection \<open>Rooms, schedules, slots\<close>

definition RoomHandler_ListRooms :: "bool \<Rightarrow> user option \<Rightarrow> http_handler" where
  "RoomHandler_ListRooms uc u r =
     with_user u uc ''room'' (\<lambda>u. respond (ListRooms u) (\<lambda>x rooms.
       WriteJSON StatusOK (listRoomsResponse_json \<lparr>lrrRooms = map (roomToDTO x) rooms\<rparr>)))"

definition RoomHandler_CreateRoom :: "bool \<Rightarrow> user option \<Rightarrow> http_handler" where
  "RoomHandler_CreateRoom uc u r =
     with_user u uc ''room'' (\<lambda>u.
       or_error (DecodeJSON read_createRoomRequest (rqBody r)) (\<lambda>req.
       respond (CreateRoom u \<lparr>riName = rrName req, riDescription = rrDescription req,
         riCapacity = rrCapacity req\<rparr>) (\<lambda>x room.
         WriteJSON StatusCreated (createRoomResponse_json \<lparr>crrRoom = roomToDTO x room\<rparr>))))"

text \<open>The times are taken from the first rule; without a rule the index panics.\<close>

definition ScheduleHandler_CreateSchedule :: "bool \<Rightarrow> user option \<Rightarrow> http_handler" where
  "ScheduleHandler_CreateSchedule uc u r =
     with_user u uc ''schedule'' (\<lambda>u. do {
       x \<leftarrow> asks id;
       or_error (parse_id x ''roomId'' (rqParam r ''roomId'')) (\<lambda>roomID.
       or_error (DecodeJSON read_createScheduleRequest (rqBody r)) (\<lambda>req.
       respond (CreateSchedule u roomID \<lparr>siDaysOfWeek = srDaysOfWeek req,
         siStartTime = srStartTime req, siEndTime = srEndTime req\<rparr>) (\<lambda>x view.
         case vwRules view of
           [] \<Rightarrow> panic_response
         | first # _ \<Rightarrow> WriteJSON StatusCreated
             (createScheduleResponse_json \<lparr>csrSchedule = schedule_dto x view first\<rparr>))))
     })"

definition SlotHandler_ListAvailableSlots :: "bool \<Rightarrow> user option \<Rightarrow> http_handler" where
  "SlotHandler_ListAvailableSlots uc u r =
     with_user u uc ''slot'' (\<lambda>u. do {
       x \<leftarrow> asks id;
       or_error (parse_id x ''roomId'' (rqParam r ''roomId'')) (\<lambda>roomID.
       or_error (parseDateQuery r) (\<lambda>date.
       respond (ListAvailableSlots u roomID date) (\<lambda>x sls.
         WriteJSON StatusOK (listSlotsResponse_json \<lparr>lsrSlots = map (slot_dto x) sls\<rparr>))))
     })"

definition SlotHandler_ListRoomSlots :: "bool \<Rightarrow> user option \<Rightarrow> http_handler" where
  "SlotHandler_ListRoomSlots uc u r =
     with_user u uc ''slot'' (\<lambda>u. do {
       x \<leftarrow> asks id;
       or_error (parse_id x ''roomId'' (rqParam r ''roomId'')) (\<lambda>roomID.
       or_error (parseDateQuery r) (\<lambda>date.
       respond (ListRoomSlots u roomID date) (\<lambda>x views.
         WriteJSON StatusOK (listSlotViewsResponse_json \<lparr>lvrSlots = map (slot_view_dto x) views\<rparr>))))
     })"

section \<open>Routes\<close>

text \<open>
  The API routes of \<open>registerRoutes\<close>: those whose handlers are handlers of the repository that write a
  JSON answer. \<open>/metrics\<close>, which promhttp answers, \<open>/ws\<close>, which becomes a websocket (\<open>ws_ServeHTTP\<close> of
  \<open>Hub\<close>), and chi's own answers to a path or method without a route are none of them.
\<close>

datatype public_route = GetInfo | PostRegister | PostLogin | PostDummyLogin

datatype private_route =
    GetRoomsList | PostRoomsCreate | PostScheduleCreate | GetSlotsList | GetSlotsAll
  | PostBookingsCreate | GetBookingsList | GetBookingsMy | PostBookingsCancel
  | PostWaitlistJoin | PostWaitlistLeave
  | GetReservationsMyActive | PostReservationsConfirm | PostReservationsCancel

datatype route = Public public_route | Private private_route

record router_dependencies =
  dpAuthUC :: "auth_service option"
  dpRoomUC :: bool
  dpScheduleUC :: bool
  dpSlotUC :: bool
  dpBookingUC :: "booking_service option"
  dpWaitlistUC :: bool
  dpReservationUC :: "reservation_service option"
  dpJWTSecret :: string
  dpCORSOrigins :: "string list"

fun public_handler :: "router_dependencies \<Rightarrow> public_route \<Rightarrow> http_handler" where
  "public_handler deps GetInfo r = State_Monad.return (WriteJSON StatusOK (one_member ''status'' (JStr ''ok'')))"
| "public_handler deps PostRegister r = AuthHandler_Register (dpAuthUC deps) r"
| "public_handler deps PostLogin r = AuthHandler_Login (dpAuthUC deps) r"
| "public_handler deps PostDummyLogin r = AuthHandler_DummyLogin (dpAuthUC deps) r"

fun private_handler :: "router_dependencies \<Rightarrow> private_route \<Rightarrow> user option \<Rightarrow> http_handler" where
  "private_handler deps GetRoomsList = RoomHandler_ListRooms (dpRoomUC deps)"
| "private_handler deps PostRoomsCreate = RoomHandler_CreateRoom (dpRoomUC deps)"
| "private_handler deps PostScheduleCreate = ScheduleHandler_CreateSchedule (dpScheduleUC deps)"
| "private_handler deps GetSlotsList = SlotHandler_ListAvailableSlots (dpSlotUC deps)"
| "private_handler deps GetSlotsAll = SlotHandler_ListRoomSlots (dpSlotUC deps)"
| "private_handler deps PostBookingsCreate = BookingHandler_CreateBooking (dpBookingUC deps)"
| "private_handler deps GetBookingsList = BookingHandler_ListBookings (dpBookingUC deps)"
| "private_handler deps GetBookingsMy = BookingHandler_ListMyBookings (dpBookingUC deps)"
| "private_handler deps PostBookingsCancel = BookingHandler_CancelBooking (dpBookingUC deps)"
| "private_handler deps PostWaitlistJoin = WaitlistHandler_JoinWaitlist (dpWaitlistUC deps)"
| "private_handler deps PostWaitlistLeave = WaitlistHandler_LeaveWaitlist (dpWaitlistUC deps)"
| "private_handler deps GetReservationsMyActive =
     ReservationHandler_ListMyActiveReservations (dpReservationUC deps)"
| "private_handler deps PostReservationsConfirm =
     ReservationHandler_ConfirmReservation (dpReservationUC deps)"
| "private_handler deps PostReservationsCancel =
     ReservationHandler_CancelReservation (dpReservationUC deps)"

fun route_handler :: "router_dependencies \<Rightarrow> route \<Rightarrow> http_handler" where
  "route_handler deps (Public p) = public_handler deps p"
| "route_handler deps (Private p) = RequireUser (dpJWTSecret deps) (private_handler deps p)"

text \<open>
  \<open>NewRouterWithDependencies\<close> for a request that matched an API route: the middleware of the router around
  the handler. \<open>Recovery\<close> and \<open>RequestLogger\<close>, which hand on what a handler that does not panic answers,
  are left out here; \<open>Http_Recorder\<close> models the whole chain, panics included.
\<close>

definition serve :: "router_dependencies \<Rightarrow> route \<Rightarrow> http_handler" where
  "serve deps rt = RequestID (HTTPMetrics (CORS (dpCORSOrigins deps) (route_handler deps rt)))"

definition dependencies :: "config \<Rightarrow> app \<Rightarrow> router_dependencies" where
  "dependencies cfg a = \<lparr>dpAuthUC = Some (appAuth a), dpRoomUC = True, dpScheduleUC = True,
     dpSlotUC = True, dpBookingUC = Some (appBookings a), dpWaitlistUC = True,
     dpReservationUC = Some (appReservations a), dpJWTSecret = cfgJWTSecret cfg,
     dpCORSOrigins = cfgCORSAllowedOrigins cfg\<rparr>"

end
