(* ===== verification/Contexts.thy ===== *)
theory Contexts
  imports Domain
begin

text \<open>
  What travels in a \<open>context.Context\<close>. The keys have unexported types of their own, so the values do not
  get in each other's way: a record with a field for each, \<open>None\<close> before it was set.
  \<open>middleware/request_id.go\<close>, \<open>middleware/auth.go\<close> and \<open>postgres/dbtx.go\<close> read and write it.
\<close>

record ctx_values =
  ctxRequestID :: "string option"
  ctxUser :: "user option"
  ctxTx :: "nat option"

definition Background :: ctx_values where
  "Background = \<lparr>ctxRequestID = None, ctxUser = None, ctxTx = None\<rparr>"

definition RequestIDFromContext :: "ctx_values \<Rightarrow> string option" where
  "RequestIDFromContext ctx =
     (case ctxRequestID ctx of None \<Rightarrow> None | Some requestID \<Rightarrow> if requestID = [] then None else Some requestID)"

definition requestIDFromRequest :: "ctx_values \<Rightarrow> string" where
  "requestIDFromRequest ctx = (case RequestIDFromContext ctx of None \<Rightarrow> [] | Some requestID \<Rightarrow> requestID)"

definition UserFromContext :: "ctx_values \<Rightarrow> user option" where
  "UserFromContext ctx = ctxUser ctx"

text \<open>Where a repository sends its statements: to a transaction, or to any connection of the pool.\<close>

datatype dbtx = OnPool | OnTx nat

definition withTx :: "ctx_values \<Rightarrow> nat \<Rightarrow> ctx_values" where
  "withTx ctx tx = ctx\<lparr>ctxTx := Some tx\<rparr>"

definition dbFromContext :: "ctx_values \<Rightarrow> dbtx" where
  "dbFromContext ctx = (case ctxTx ctx of None \<Rightarrow> OnPool | Some tx \<Rightarrow> OnTx tx)"

lemma withTx_simps [simp]:
  "dbFromContext (withTx ctx tx) = OnTx tx" "UserFromContext (withTx ctx tx) = UserFromContext ctx"
  "RequestIDFromContext (withTx ctx tx) = RequestIDFromContext ctx"
  by (simp_all add: withTx_def dbFromContext_def UserFromContext_def RequestIDFromContext_def)

end
