(* ===== verification/Http_Recorder.thy ===== *)
theory Http_Recorder
  imports Http_Handlers Contexts
begin

text \<open>
  The middleware below the responses: \<open>request_logger.go\<close> with its \<open>statusRecorder\<close>, \<open>recovery.go\<close> and
  \<open>metrics.go\<close>, as wrappers of a \<open>http.ResponseWriter\<close> around a handler that may panic. Each wraps the
  writer in a recorder of its own. Durations, the address of the peer and the stack trace are left out
  of the log records.
\<close>

section \<open>Writers\<close>

text \<open>
  The writer of the server: the status line that was sent, the body, and how many bytes the connection
  still takes. Only the first \<open>WriteHeader\<close> counts, and \<open>Write\<close> sends 200 if there was none.
\<close>

record conn_writer =
  cwStatus :: "int option"
  cwBody :: string
  cwRoom :: nat

record statusRecorder =
  srStatus :: int
  srBytes :: nat

datatype writer = Conn conn_writer | Recorder statusRecorder writer

definition conn_WriteHeader :: "int \<Rightarrow> conn_writer \<Rightarrow> conn_writer" where
  "conn_WriteHeader statusCode c =
     (case cwStatus c of None \<Rightarrow> c\<lparr>cwStatus := Some statusCode\<rparr> | Some _ \<Rightarrow> c)"

definition conn_Write :: "string \<Rightarrow> conn_writer \<Rightarrow> nat \<times> conn_writer" where
  "conn_Write p c =
     (let c = conn_WriteHeader StatusOK c; n = min (length p) (cwRoom c)
      in (n, c\<lparr>cwBody := cwBody c @ take n p, cwRoom := cwRoom c - n\<rparr>))"

definition client_status :: "conn_writer \<Rightarrow> int" where
  "client_status c = (case cwStatus c of None \<Rightarrow> StatusOK | Some s \<Rightarrow> s)"

fun WriteHeader :: "int \<Rightarrow> writer \<Rightarrow> writer" where
  "WriteHeader statusCode (Conn c) = Conn (conn_WriteHeader statusCode c)"
| "WriteHeader statusCode (Recorder r w) = Recorder (r\<lparr>srStatus := statusCode\<rparr>) (WriteHeader statusCode w)"

fun write_bytes :: "string \<Rightarrow> writer \<Rightarrow> nat \<times> writer" where
  "write_bytes p (Conn c) = (case conn_Write p c of (n, c) \<Rightarrow> (n, Conn c))"
| "write_bytes p (Recorder r w) =
     (let r = (if srStatus r = 0 then r\<lparr>srStatus := StatusOK\<rparr> else r)
      in case write_bytes p w of (n, w) \<Rightarrow> (n, Recorder (r\<lparr>srBytes := srBytes r + n\<rparr>) w))"

definition recorder_Status :: "statusRecorder \<Rightarrow> int" where
  "recorder_Status r = (if srStatus r = 0 then StatusOK else srStatus r)"

definition new_recorder :: statusRecorder where
  "new_recorder = \<lparr>srStatus = 0, srBytes = 0\<rparr>"

section \<open>Handlers\<close>

text \<open>
  What a handler does to its writer, and whether it returns or panics with a value. A handler below the
  middleware gives the final writer, the panic if there was one, and what was observed: the counts of
  \<open>ObserveHTTPRequest\<close> and the records of the log.
\<close>

datatype write_op = Do_header int | Do_write string

record request_record =
  rrMethod :: string
  rrPath :: string
  rrStatus :: int
  rrRequestID :: string
  rrBytes :: nat
  rrUser :: "uuid option"

datatype observation =
    Observed string string int
  | Logged_request request_record
  | Logged_panic request_record string

type_synonym raw_handler = "writer \<Rightarrow> string option \<times> writer \<times> observation list"

fun do_op :: "write_op \<Rightarrow> writer \<Rightarrow> writer" where
  "do_op (Do_header s) w = WriteHeader s w"
| "do_op (Do_write p) w = snd (write_bytes p w)"

definition raw :: "write_op list \<Rightarrow> string option \<Rightarrow> raw_handler" where
  "raw ops panic w = (panic, fold do_op ops w, [])"

text \<open>
  What the middleware reads of a request: the pattern chi matched, the path of the URL and the context,
  which \<open>WithContext\<close> replaces in a copy that only the handlers further in see.
\<close>

record request_view =
  rvwMethod :: string
  rvwPattern :: string
  rvwURLPath :: string
  rvwContext :: ctx_values

definition routePattern :: "request_view \<Rightarrow> string" where
  "routePattern r = rvwPattern r"

fun unwrap :: "writer \<Rightarrow> statusRecorder \<times> writer" where
  "unwrap (Recorder r w) = (r, w)"
| "unwrap (Conn c) = (new_recorder, Conn c)"

definition metrics_middleware :: "request_view \<Rightarrow> raw_handler \<Rightarrow> raw_handler" where
  "metrics_middleware r inner w =
     (case inner (Recorder new_recorder w) of (panic, w, obs) \<Rightarrow>
      case unwrap w of (recorder, w) \<Rightarrow>
        if panic \<noteq> None then (panic, w, obs)
        else
          let path = (if routePattern r = [] then ''unknown'' else routePattern r)
          in (None, w, obs @ [Observed (rvwMethod r) path (recorder_Status recorder)]))"

definition path_of :: "request_view \<Rightarrow> string" where
  "path_of r = (if routePattern r = [] then rvwURLPath r else routePattern r)"

definition RequestLogger :: "request_view \<Rightarrow> raw_handler \<Rightarrow> raw_handler" where
  "RequestLogger r inner w =
     (case inner (Recorder new_recorder w) of (panic, w, obs) \<Rightarrow>
      case unwrap w of (recorder, w) \<Rightarrow>
        if panic \<noteq> None then (panic, w, obs)
        else if path_of r = ''/metrics'' then (None, w, obs)
        else (None, w, obs @ [Logged_request \<lparr>rrMethod = rvwMethod r, rrPath = path_of r,
          rrStatus = recorder_Status recorder, rrRequestID = requestIDFromRequest (rvwContext r),
          rrBytes = srBytes recorder, rrUser = map_option usrID (UserFromContext (rvwContext r))\<rparr>]))"

definition answer_panic :: "writer \<Rightarrow> writer" where
  "answer_panic w =
     (let recorder = fst (unwrap w)
      in if srStatus recorder = 0 \<and> srBytes recorder = 0
         then do_op (Do_write (rsBody panic_response)) (do_op (Do_header (rsStatus panic_response)) w)
         else if srStatus recorder = 0 then WriteHeader StatusInternalServerError w
         else w)"

definition Recovery :: "request_view \<Rightarrow> raw_handler \<Rightarrow> raw_handler" where
  "Recovery r inner w =
     (case inner (Recorder new_recorder w) of (panic, w, obs) \<Rightarrow>
        case panic of
          None \<Rightarrow> (None, snd (unwrap w), obs)
        | Some recovered \<Rightarrow>
            (case unwrap (answer_panic w) of (recorder, w) \<Rightarrow>
             let status = recorder_Status recorder
             in (None, w, obs @ [Observed (rvwMethod r) (path_of r) status,
               Logged_panic \<lparr>rrMethod = rvwMethod r, rrPath = path_of r, rrStatus = status,
                 rrRequestID = requestIDFromRequest (rvwContext r), rrBytes = srBytes recorder,
                 rrUser = map_option usrID (UserFromContext (rvwContext r))\<rparr> recovered])))"

text \<open>What \<open>WriteJSON\<close> does to the writer.\<close>

definition response_ops :: "response \<Rightarrow> write_op list" where
  "response_ops rs = [Do_header (rsStatus rs), Do_write (rsBody rs)]"

text \<open>
  The order of \<open>registerRoutes\<close>: \<open>RequestID\<close>, \<open>Recovery\<close>, \<open>HTTPMetrics\<close> and \<open>CORS\<close> around everything; for the
  public routes the logger, for the private ones \<open>RequireUser\<close> around the logger. \<open>RequestID\<close> touches
  headers and the context only; \<open>CORS\<close> answers a preflight request itself.
\<close>

definition with_request_id :: "string \<Rightarrow> request_view \<Rightarrow> request_view" where
  "with_request_id i r = r\<lparr>rvwContext := (rvwContext r)\<lparr>ctxRequestID := Some i\<rparr>\<rparr>"

definition with_auth_user :: "user \<Rightarrow> request_view \<Rightarrow> request_view" where
  "with_auth_user u r = r\<lparr>rvwContext := (rvwContext r)\<lparr>ctxUser := Some u\<rparr>\<rparr>"

datatype endpoint = Preflight | Public_group | Private_group "go_error + user"

fun group_handler :: "endpoint \<Rightarrow> request_view \<Rightarrow> raw_handler \<Rightarrow> raw_handler" where
  "group_handler Preflight r h = raw [Do_header StatusNoContent] None"
| "group_handler Public_group r h = RequestLogger r h"
| "group_handler (Private_group (Inl err)) r h = raw (response_ops (WriteError err)) None"
| "group_handler (Private_group (Inr u)) r h = RequestLogger (with_auth_user u r) h"

definition middleware_chain :: "string \<Rightarrow> endpoint \<Rightarrow> request_view \<Rightarrow> raw_handler \<Rightarrow> raw_handler" where
  "middleware_chain i g r h =
     (let r = with_request_id i r in Recovery r (metrics_middleware r (group_handler g r h)))"

section \<open>What the recorders know\<close>

fun below :: "writer \<Rightarrow> conn_writer" where
  "below (Conn c) = c"
| "below (Recorder r w) = below w"

fun recorders :: "writer \<Rightarrow> statusRecorder list" where
  "recorders (Conn c) = []"
| "recorders (Recorder r w) = r # recorders w"

text \<open>A status code is sent, and every recorder holds it; or nothing was sent, and none holds one.\<close>

definition in_step :: "writer \<Rightarrow> bool" where
  "in_step w \<longleftrightarrow> (\<forall>r \<in> set (recorders w).
     (case cwStatus (below w) of None \<Rightarrow> srStatus r = 0 \<and> srBytes r = 0 | Some s \<Rightarrow> srStatus r = s \<and> s \<noteq> 0))"

fun header_code :: "write_op \<Rightarrow> int option" where
  "header_code (Do_header s) = Some s"
| "header_code (Do_write p) = None"

text \<open>Handlers as the code writes them: a header, if any, comes first and has a final status code.\<close>

definition well_written :: "write_op list \<Rightarrow> bool" where
  "well_written ops \<longleftrightarrow> (case ops of [] \<Rightarrow> True | op # rest \<Rightarrow>
     (case header_code op of None \<Rightarrow> True | Some s \<Rightarrow> 200 \<le> s) \<and> list_all (\<lambda>op. header_code op = None) rest)"

lemma below_header: "below (WriteHeader s w) = conn_WriteHeader s (below w)"
  by (induction w) simp_all

lemma recorders_header: "recorders (WriteHeader s w) = map (srStatus_update (\<lambda>_. s)) (recorders w)"
  by (induction w) simp_all

lemma below_write: "below (snd (write_bytes p w)) = snd (conn_Write p (below w))"
  by (induction w) (simp_all add: Let_def case_prod_beta)

lemma write_count: "fst (write_bytes p w) = fst (conn_Write p (below w))"
  by (induction w) (simp_all add: Let_def case_prod_beta)

lemma recorders_write: "recorders (snd (write_bytes p w)) =
    map (\<lambda>r. r\<lparr>srStatus := (if srStatus r = 0 then StatusOK else srStatus r),
      srBytes := srBytes r + fst (conn_Write p (below w))\<rparr>) (recorders w)"
proof (induction w)
  case (Recorder r w)
  then show ?case
    using write_count [of p w] by (simp add: Let_def case_prod_beta)
qed (simp add: case_prod_beta)

lemma conn_Write_status: "cwStatus (snd (conn_Write p c)) = Some (client_status c)"
  by (simp add: conn_Write_def Let_def conn_WriteHeader_def client_status_def split: option.split)

lemma in_step_write: "in_step w \<Longrightarrow> in_step (snd (write_bytes p w))"
  by (auto simp: in_step_def recorders_write below_write conn_Write_status client_status_def StatusOK_def
      split: option.splits)

lemma in_step_header: "in_step w \<Longrightarrow> cwStatus (below w) = None \<Longrightarrow> s \<noteq> 0 \<Longrightarrow> in_step (WriteHeader s w)"
  by (auto simp: in_step_def recorders_header below_header conn_WriteHeader_def)

lemma in_step_writes:
  "in_step w \<Longrightarrow> list_all (\<lambda>op. header_code op = None) ops \<Longrightarrow> in_step (fold do_op ops w)"
proof (induction ops arbitrary: w)
  case (Cons op ops)
  then show ?case
    by (cases op) (auto intro: in_step_write)
qed simp

lemma in_step_ops:
  assumes "in_step w" "cwStatus (below w) = None" "well_written ops"
  shows "in_step (fold do_op ops w)"
proof (cases ops)
  case (Cons op rest)
  then have "in_step (do_op op w)"
    using assms by (cases op) (auto simp: well_written_def intro: in_step_write in_step_header)
  then show ?thesis
    using Cons assms(3) by (simp add: well_written_def in_step_writes)
qed (simp add: assms)

lemma recorders_do_op: "length (recorders (do_op op w)) = length (recorders w)"
  by (cases op) (simp_all add: recorders_header recorders_write)

lemma recorders_do_ops: "length (recorders (fold do_op ops w)) = length (recorders w)"
  by (induction ops arbitrary: w) (simp_all add: recorders_do_op)

lemma writer_shape:
  "length (recorders w) = Suc n \<Longrightarrow> \<exists>r w'. w = Recorder r w' \<and> length (recorders w') = n"
  "length (recorders w) = 0 \<Longrightarrow> w = Conn (below w)"
  by (cases w; simp)+

text \<open>Nothing is counted as written without a status: one branch of \<open>Recovery\<close> is never taken.\<close>

lemma bytes_have_status:
  assumes "\<forall>r \<in> set (recorders w). srBytes r \<noteq> 0 \<longrightarrow> srStatus r \<noteq> 0"
    "list_all (\<lambda>op. header_code op \<noteq> Some 0) ops"
  shows "\<forall>r \<in> set (recorders (fold do_op ops w)). srBytes r \<noteq> 0 \<longrightarrow> srStatus r \<noteq> 0"
  using assms
proof (induction ops arbitrary: w)
  case (Cons op ops)
  then have "\<forall>r \<in> set (recorders (do_op op w)). srBytes r \<noteq> 0 \<longrightarrow> srStatus r \<noteq> 0"
    by (cases op) (auto simp: recorders_header recorders_write StatusOK_def)
  then show ?case
    using Cons.IH [of "do_op op w"] Cons.prems(2) by simp
qed simp

section \<open>Every request is counted once\<close>

definition fresh_conn :: "nat \<Rightarrow> writer" where
  "fresh_conn room = Conn \<lparr>cwStatus = None, cwBody = [], cwRoom = room\<rparr>"

fun counts :: "observation list \<Rightarrow> (string \<times> int) list" where
  "counts [] = []"
| "counts (Observed method path status # obs) = (method, status) # counts obs"
| "counts (x # obs) = counts obs"

lemma counts_append [simp]: "counts (xs @ ys) = counts xs @ counts ys"
  by (induction xs rule: counts.induct) simp_all

lemma fresh_recorders:
  "in_step (fresh_conn room)" "in_step w \<Longrightarrow> cwStatus (below w) = None \<Longrightarrow> in_step (Recorder new_recorder w)"
  by (auto simp: in_step_def new_recorder_def fresh_conn_def)

definition knows :: "conn_writer \<Rightarrow> statusRecorder \<Rightarrow> bool" where
  "knows c r \<longleftrightarrow> (case cwStatus c of None \<Rightarrow> srStatus r = 0 \<and> srBytes r = 0 | Some s \<Rightarrow> srStatus r = s \<and> s \<noteq> 0)"

lemma knows_status: "knows c r \<Longrightarrow> recorder_Status r = client_status c"
  by (auto simp: knows_def recorder_Status_def client_status_def split: option.splits)

lemma handler_writer:
  assumes "well_written ops" "in_step w" "cwStatus (below w) = None" "length (recorders w) = 2"
  obtains r1 r2 c where "fold do_op ops w = Recorder r2 (Recorder r1 (Conn c))" "knows c r1" "knows c r2"
proof -
  have step: "in_step (fold do_op ops w)" and "length (recorders (fold do_op ops w)) = 2"
    using assms in_step_ops recorders_do_ops by simp_all
  then obtain r2 r1 c where w: "fold do_op ops w = Recorder r2 (Recorder r1 (Conn c))"
    using writer_shape by (metis numeral_2_eq_2)
  with step that show thesis
    by (simp add: in_step_def knows_def)
qed

lemma logged_writer:
  assumes "well_written ops" "in_step w" "cwStatus (below w) = None" "length (recorders w) = 2"
  obtains r1 r2 r3 c where "fold do_op ops (Recorder new_recorder w) = Recorder r3 (Recorder r2 (Recorder r1 (Conn c)))"
    "knows c r1" "knows c r2" "knows c r3"
proof -
  let ?w = "Recorder new_recorder w"
  have "in_step ?w" "cwStatus (below ?w) = None" "length (recorders ?w) = 3"
    using assms fresh_recorders by simp_all
  then have step: "in_step (fold do_op ops ?w)" and "length (recorders (fold do_op ops ?w)) = 3"
    using assms(1) in_step_ops recorders_do_ops by simp_all
  then obtain r3 r2 r1 c where w: "fold do_op ops ?w = Recorder r3 (Recorder r2 (Recorder r1 (Conn c)))"
    using writer_shape by (metis numeral_3_eq_3)
  with step that show thesis
    by (simp add: in_step_def knows_def)
qed

lemma panic_status: "rsStatus panic_response = 500"
  by (simp add: panic_response_def WriteError_def WriteJSON_def NewDomainError_def StatusInternalServerError_def)

lemma take_min: "take (min (length xs) n) xs = take n xs"
  by (simp add: min_def)

lemma error_status: "200 \<le> rsStatus (WriteError err)"
proof -
  have "200 \<le> StatusFromDomainCode code" for code
    by (cases code) (simp_all add: statuses)
  then show ?thesis
    by (cases "AsDomainError err") (auto simp: WriteError_def WriteJSON_def statuses)
qed

lemma response_well_written: "200 \<le> rsStatus rs \<Longrightarrow> well_written (response_ops rs)"
  by (simp add: well_written_def response_ops_def)

text \<open>
  What comes back from a group into the outer two recorders: both know the status that was sent, and so
  do the records of the log, which name the user.
\<close>

definition served :: "uuid option \<Rightarrow> string option \<times> writer \<times> observation list \<Rightarrow> bool" where
  "served u res \<longleftrightarrow> (\<exists>p r1 r2 c obs. res = (p, Recorder r2 (Recorder r1 (Conn c)), obs) \<and>
     knows c r1 \<and> knows c r2 \<and> counts obs = [] \<and> (p \<noteq> None \<longrightarrow> obs = []) \<and>
     (\<forall>q v. (Logged_request q \<in> set obs \<longrightarrow> rrStatus q = client_status c \<and> rrUser q = u) \<and>
       Logged_panic q v \<notin> set obs))"

abbreviation outer :: "nat \<Rightarrow> writer" where
  "outer room \<equiv> Recorder new_recorder (Recorder new_recorder (fresh_conn room))"

lemma outer_in_step: "in_step (outer room)" "cwStatus (below (outer room)) = None" "length (recorders (outer room)) = 2"
  by (simp_all add: in_step_def new_recorder_def fresh_conn_def)

lemma raw_served: "well_written ops \<Longrightarrow> served u (raw ops None (outer room))"
  by (rule handler_writer [OF _ outer_in_step]) (auto simp: served_def raw_def)

lemma logged_served:
  assumes "well_written ops"
  shows "served (map_option usrID (UserFromContext (rvwContext r))) (RequestLogger r (raw ops panic) (outer room))"
proof (rule logged_writer [OF assms outer_in_step])
  fix r1 r2 r3 c
  assume "fold do_op ops (Recorder new_recorder (outer room)) = Recorder r3 (Recorder r2 (Recorder r1 (Conn c)))"
    "knows c r1" "knows c r2" "knows c r3"
  then show ?thesis
    by (auto simp: served_def RequestLogger_def raw_def knows_status)
qed

fun group_user :: "endpoint \<Rightarrow> user option" where
  "group_user (Private_group (Inr u)) = Some u"
| "group_user _ = None"

lemma group_served:
  assumes "well_written ops" "ctxUser (rvwContext r) = None"
  shows "served (map_option usrID (group_user g)) (group_handler g r (raw ops panic) (outer room))"
proof (cases g)
  case Preflight
  then show ?thesis
    by (simp add: raw_served well_written_def StatusNoContent_def)
next
  case Public_group
  then show ?thesis
    using logged_served [OF assms(1), of r panic room] assms(2) by (simp add: UserFromContext_def)
next
  case (Private_group a)
  then show ?thesis
    using logged_served [OF assms(1), of "with_auth_user (projr a) r" panic room]
    by (cases a) (simp_all add: with_auth_user_def UserFromContext_def raw_served response_well_written error_status)
qed

text \<open>The answer of \<open>Recovery\<close>, if nothing was sent before the panic.\<close>

lemma answer_panic_knows:
  assumes "knows c r1"
  obtains r' c' where "answer_panic (Recorder r1 (Conn c)) = Recorder r' (Conn c')" "recorder_Status r' = client_status c'"
    "cwStatus c = None \<Longrightarrow> client_status c' = 500 \<and> cwBody c' = cwBody c @ take (cwRoom c) (rsBody panic_response)"
proof (cases "cwStatus c")
  case None
  then show thesis
    using assms that
    by (simp add: knows_def answer_panic_def Let_def conn_WriteHeader_def conn_Write_def panic_status recorder_Status_def
        client_status_def take_min)
next
  case (Some s)
  then show thesis
    using assms that [of r1 c] by (simp add: knows_def answer_panic_def recorder_Status_def client_status_def)
qed

lemma chain_served:
  assumes "served u (group_handler g (with_request_id i r) h (outer room))" "ctxUser (rvwContext r) = None"
  shows "\<exists>c obs. middleware_chain i g r h (fresh_conn room) = (None, Conn c, obs) \<and>
    counts obs = [(rvwMethod r, client_status c)] \<and>
    (\<forall>q. Logged_request q \<in> set obs \<longrightarrow> rrStatus q = client_status c \<and> rrUser q = u) \<and>
    (\<forall>q v. Logged_panic q v \<in> set obs \<longrightarrow> rrStatus q = client_status c \<and> rrUser q = None)"
proof -
  let ?r = "with_request_id i r"
  have user: "UserFromContext (rvwContext ?r) = None" "rvwMethod ?r = rvwMethod r"
    using assms(2) by (simp_all add: with_request_id_def UserFromContext_def)
  obtain p r1 r2 c obs where h: "group_handler g ?r h (outer room) = (p, Recorder r2 (Recorder r1 (Conn c)), obs)"
    and k: "knows c r1" "recorder_Status r2 = client_status c" and none: "counts obs = []" "p \<noteq> None \<Longrightarrow> obs = []"
    and logged: "\<forall>q v. (Logged_request q \<in> set obs \<longrightarrow> rrStatus q = client_status c \<and> rrUser q = u) \<and>
       Logged_panic q v \<notin> set obs"
    using assms(1) knows_status unfolding served_def by blast
  show ?thesis
  proof (cases p)
    case None
    then show ?thesis
      using k(2) none logged user
      by (auto simp: middleware_chain_def Recovery_def metrics_middleware_def h Let_def)
  next
    case (Some v)
    obtain r' c' where "answer_panic (Recorder r1 (Conn c)) = Recorder r' (Conn c')" "recorder_Status r' = client_status c'"
      by (rule answer_panic_knows [OF k(1)])
    then show ?thesis
      using Some none user by (auto simp: middleware_chain_def Recovery_def metrics_middleware_def h Let_def)
  qed
qed

text \<open>
  C32. Every request is counted once, under the status its client got, also when the handler panics: the
  middleware never lets the panic through, the count and the records of the log carry the status that
  went over the connection, and the record of a request that was let in names its user. The record of a
  panic never does: \<open>Recovery\<close> sees the request as it was before \<open>RequireUser\<close>. (A handler sends its header
  once, before the body, as \<open>WriteJSON\<close> does. A request upgraded to a websocket takes the connection
  over and is not of this kind.)
\<close>

theorem every_request_counted_once:
  assumes "well_written ops" "ctxUser (rvwContext r) = None"
  shows "\<exists>c obs. middleware_chain i g r (raw ops panic) (fresh_conn room) = (None, Conn c, obs) \<and>
    counts obs = [(rvwMethod r, client_status c)] \<and>
    (\<forall>q. Logged_request q \<in> set obs \<longrightarrow> rrStatus q = client_status c \<and> rrUser q = map_option usrID (group_user g)) \<and>
    (\<forall>q v. Logged_panic q v \<in> set obs \<longrightarrow> rrStatus q = client_status c \<and> rrUser q = None)"
  using assms by (intro chain_served group_served) (simp_all add: with_request_id_def)

definition sample_view :: request_view where
  "sample_view = \<lparr>rvwMethod = ''GET'', rvwPattern = ''/bookings/my'', rvwURLPath = ''/bookings/my'', rvwContext = Background\<rparr>"

lemma every_request_counted_once_witness:
  "\<exists>c obs. middleware_chain ''id'' (Private_group (Inr (token_user 7 RoleUser))) sample_view
      (raw [] (Some ''nil map'')) (fresh_conn 1000) = (None, Conn c, obs) \<and>
    counts obs = [(''GET'', client_status c)]"
proof -
  have "well_written []" "ctxUser (rvwContext sample_view) = None" "rvwMethod sample_view = ''GET''"
    by (simp_all add: well_written_def sample_view_def Background_def)
  then show ?thesis
    using every_request_counted_once [of "[]" sample_view "''id''" "Private_group (Inr (token_user 7 RoleUser))"
        "Some ''nil map''" 1000] by fastforce
qed

text \<open>A handler that panics before it has written anything is answered with 500 and the error body.\<close>

lemma early_panic_answered:
  assumes "g = Public_group \<or> g = Private_group (Inr u)"
  shows "\<exists>c obs. middleware_chain i g r (raw [] (Some v)) (fresh_conn room) = (None, Conn c, obs) \<and>
    client_status c = 500 \<and> cwBody c = take room (rsBody panic_response) \<and> (\<exists>q. Logged_panic q v \<in> set obs)"
proof -
  let ?c = "\<lparr>cwStatus = None, cwBody = [], cwRoom = room\<rparr>"
  have h: "group_handler g (with_request_id i r) (raw [] (Some v)) (outer room) =
      (Some v, Recorder new_recorder (Recorder new_recorder (Conn ?c)), [])"
    using assms by (auto simp: RequestLogger_def raw_def fresh_conn_def)
  have "knows ?c new_recorder"
    by (simp add: knows_def new_recorder_def)
  then obtain r' c' where "answer_panic (Recorder new_recorder (Conn ?c)) = Recorder r' (Conn c')"
    "client_status c' = 500" "cwBody c' = take room (rsBody panic_response)"
    by (rule answer_panic_knows) auto
  then show ?thesis
    by (simp add: middleware_chain_def Recovery_def metrics_middleware_def h Let_def)
qed

text \<open>An answer of \<open>serve\<close> reaches the client as it is, as far as the connection takes it.\<close>

lemma response_delivered:
  "\<exists>c obs. middleware_chain i Public_group r (raw (response_ops rs) None) (fresh_conn room) = (None, Conn c, obs) \<and>
    client_status c = rsStatus rs \<and> cwBody c = take room (rsBody rs)"
  by (simp add: middleware_chain_def Recovery_def metrics_middleware_def RequestLogger_def raw_def response_ops_def
      fresh_conn_def conn_WriteHeader_def conn_Write_def client_status_def Let_def take_min)

text \<open>
  Without the order of \<open>WriteJSON\<close> the recorders would be wrong: after a second \<open>WriteHeader\<close>, which the
  server ignores, they hold the second status.
\<close>

lemma second_header_miscounted:
  "\<exists>c obs. middleware_chain i Public_group r (raw [Do_header 200, Do_header 500] None) (fresh_conn room) = (None, Conn c, obs) \<and>
    client_status c = 200 \<and> counts obs = [(rvwMethod r, 500)]"
  by (simp add: middleware_chain_def Recovery_def metrics_middleware_def RequestLogger_def raw_def fresh_conn_def
      conn_WriteHeader_def client_status_def new_recorder_def recorder_Status_def with_request_id_def Let_def)

section \<open>The other interfaces of a writer\<close>

text \<open>
  What the writer of the server offers beside \<open>Write\<close>: \<open>http.Hijacker\<close>, whose answer is an error or the raw
  connection, \<open>http.Flusher\<close> and \<open>http.Pusher\<close>, whose answer is an error if there was one. A recorder has
  the methods always, and hands them on to the writer below.
\<close>

record 'c features =
  ftHijacker :: "(conn_writer \<Rightarrow> string + 'c) option"
  ftFlusher :: "(conn_writer \<Rightarrow> conn_writer) option"
  ftPusher :: "(string \<Rightarrow> conn_writer \<Rightarrow> string option) option"

fun recorder_Hijack :: "'c features \<Rightarrow> writer \<Rightarrow> string + 'c" where
  "recorder_Hijack f (Conn c) =
     (case ftHijacker f of None \<Rightarrow> Inl ''response writer does not support hijacking'' | Some h \<Rightarrow> h c)"
| "recorder_Hijack f (Recorder r w) = recorder_Hijack f w"

fun recorder_Flush :: "'c features \<Rightarrow> writer \<Rightarrow> writer" where
  "recorder_Flush f (Conn c) = (case ftFlusher f of None \<Rightarrow> Conn c | Some flush \<Rightarrow> Conn (flush c))"
| "recorder_Flush f (Recorder r w) = Recorder r (recorder_Flush f w)"

fun recorder_Push :: "'c features \<Rightarrow> string \<Rightarrow> writer \<Rightarrow> string option" where
  "recorder_Push f target (Conn c) =
     (case ftPusher f of None \<Rightarrow> Some ''feature not supported'' | Some p \<Rightarrow> p target c)"
| "recorder_Push f target (Recorder r w) = recorder_Push f target w"

text \<open>However many recorders the middleware has put on top: the websocket handler gets the connection itself.\<close>

lemma recorders_hand_on:
  "recorder_Hijack f w = recorder_Hijack f (Conn (below w))"
  "recorder_Push f target w = recorder_Push f target (Conn (below w))"
  "recorders (recorder_Flush f w) = recorders w"
  "below (recorder_Flush f w) = below (recorder_Flush f (Conn (below w)))"
  by (induction w) (simp_all split: option.split)

text \<open>
  Flushing a writer nothing was written to sends 200, which no recorder hears of. A panic after it is
  answered with a status that cannot be sent any more, and counted under it. No handler of the service
  flushes.
\<close>

definition server_flush :: "conn_writer \<Rightarrow> conn_writer" where
  "server_flush c = conn_WriteHeader StatusOK c"

lemma panic_after_flush:
  assumes "ftFlusher f = Some server_flush" "h = (\<lambda>w. (Some ''boom'', recorder_Flush f w, []))"
  shows "\<exists>w obs. middleware_chain i Public_group r h (fresh_conn room) = (None, w, obs) \<and>
    client_status (below w) = 200 \<and> counts obs = [(rvwMethod r, 500)]"
  using panic_status
  by (simp add: assms middleware_chain_def Let_def Recovery_def metrics_middleware_def RequestLogger_def fresh_conn_def
      new_recorder_def server_flush_def conn_WriteHeader_def answer_panic_def conn_Write_def client_status_def
      StatusOK_def recorder_Status_def with_request_id_def)

end
