(* ===== verification/Expiry_Backlog.thy ===== *)
theory Expiry_Backlog
  imports Reservation_Contract
begin

text \<open>
  How many runs of \<open>ExpireDue\<close> a backlog takes. The batch is limited, ordered by the time of expiry, and
  the run makes new reservations for waiting users; they never delay the ones that were due before.
\<close>

definition overdue :: "time \<Rightarrow> store \<Rightarrow> nat" where
  "overdue t s = length (filter (\<lambda>r. rv_active r \<and> rvExpiresAt r \<le> t) (reservations s))"

lemma timestamptz_later:
  assumes "1000 \<le> d"
  shows "timestamptz t < timestamptz (t + d)"
proof -
  have "(t + 1000) div 1000 \<le> (t + d) div 1000"
    using assms by (intro zdiv_mono1) simp_all
  then show ?thesis
    by (simp add: timestamptz_def)
qed

section \<open>One batch\<close>

lemma filter_take_sorted:
  "sorted (map f xs) \<Longrightarrow>
    length (filter (\<lambda>x. f x \<le> b) (take n xs)) = min n (length (filter (\<lambda>x. f x \<le> b) xs))"
proof (induction xs arbitrary: n)
  case (Cons a xs)
  show ?case
  proof (cases "f a \<le> b")
    case True
    then show ?thesis
      using Cons by (cases n) auto
  next
    case False
    then have none: "\<forall>x \<in> set (a # xs). \<not> f x \<le> b"
      using Cons.prems by auto
    then have "filter (\<lambda>x. f x \<le> b) (a # xs) = []"
      by (simp add: filter_empty_conv)
    moreover have "filter (\<lambda>x. f x \<le> b) (take n (a # xs)) = []"
      using none set_take_subset [of n "a # xs"] unfolding filter_empty_conv by blast
    ultimately show ?thesis
      by (simp only: list.size min_0R)
  qed
qed simp

lemma picked_overdue:
  fixes rows :: "slot_reservation list"
  assumes "distinct (map rvID rows)" "b \<le> t"
  shows "length (filter (\<lambda>r. rv_active r \<and> rvExpiresAt r \<le> b \<and> rvID r \<in> set (picked (\<lambda>_. False) tie t lim rows)) rows) =
    min (nat lim) (length (filter (\<lambda>r. rv_active r \<and> rvExpiresAt r \<le> b) rows))"
proof -
  let ?due = "filter (due (\<lambda>_. False) t) rows"
  let ?xs = "sort_key rvExpiresAt (sort_key (\<lambda>r. tie (rvID r)) ?due)"
  let ?batch = "take (nat lim) ?xs"
  let ?old = "\<lambda>r. rvExpiresAt r \<le> b"
  have rows: "distinct rows" "inj_on rvID (set rows)"
    using assms(1) by (auto simp: distinct_map)
  have batch: "set ?batch \<subseteq> set rows" "\<forall>r \<in> set ?batch. rv_active r"
    using set_take_subset [of "nat lim" ?xs] by (auto simp: due_def)
  have "rvID r \<in> rvID ` set ?batch \<longleftrightarrow> r \<in> set ?batch" if "r \<in> set rows" for r
    by (rule inj_on_image_mem_iff [OF rows(2) that batch(1)])
  then have "filter (\<lambda>r. rv_active r \<and> ?old r \<and> rvID r \<in> set (picked (\<lambda>_. False) tie t lim rows)) rows =
      filter (\<lambda>r. rv_active r \<and> ?old r \<and> r \<in> set ?batch) rows"
    by (intro filter_cong refl) (simp add: picked_def)
  moreover have "{r \<in> set rows. rv_active r \<and> ?old r \<and> r \<in> set ?batch} = {r \<in> set ?batch. ?old r}"
    using batch by blast
  ultimately have "set (filter (\<lambda>r. rv_active r \<and> ?old r \<and> rvID r \<in> set (picked (\<lambda>_. False) tie t lim rows)) rows) =
      set (filter ?old ?batch)"
    by (simp only: set_filter)
  moreover have "distinct ?batch"
    using rows(1) by (intro distinct_take) simp
  ultimately have "length (filter (\<lambda>r. rv_active r \<and> ?old r \<and> rvID r \<in> set (picked (\<lambda>_. False) tie t lim rows)) rows) =
      length (filter ?old ?batch)"
    using rows(1) by (simp only: distinct_card [OF distinct_filter, symmetric])
  also have "\<dots> = min (nat lim) (length (filter ?old ?xs))"
    by (rule filter_take_sorted) simp
  also have "length (filter ?old ?xs) = length (filter ?old ?due)"
    by (simp only: filter_sort length_sort)
  also have "filter ?old ?due = filter (\<lambda>r. rv_active r \<and> ?old r) rows"
    using assms(2) by (auto simp: due_def intro!: filter_cong)
  finally show ?thesis .
qed

lemma length_filter_split:
  "length (filter P xs) = length (filter (\<lambda>x. P x \<and> Q x) xs) + length (filter (\<lambda>x. P x \<and> \<not> Q x) xs)"
  by (induction xs) auto

lemma overdue_expire_rows:
  assumes "distinct (map rvID (reservations s))" "b \<le> t"
  shows "overdue b (expire_rows (set (picked (\<lambda>_. False) tie t lim (reservations s))) t s) = overdue b s - nat lim"
proof -
  let ?ids = "set (picked (\<lambda>_. False) tie t lim (reservations s))"
  let ?old = "\<lambda>r. rv_active r \<and> rvExpiresAt r \<le> b"
  have "filter ?old (update_where (\<lambda>r. rvID r \<in> ?ids) (rv_expire t) rows) =
      filter (\<lambda>r. ?old r \<and> rvID r \<notin> ?ids) rows" for rows
    by (induction rows) (simp_all add: update_where_def rv_expire_def rv_active_def)
  then have "overdue b (expire_rows ?ids t s) = length (filter (\<lambda>r. ?old r \<and> rvID r \<notin> ?ids) (reservations s))"
    by (simp add: overdue_def expire_rows_def)
  then show ?thesis
    using length_filter_split [where P = ?old and Q = "\<lambda>r. rvID r \<in> ?ids" and xs = "reservations s"]
      picked_overdue [OF assms, of tie lim] by (simp add: overdue_def conj_assoc)
qed

section \<open>The new reservations\<close>

lemma claim_next_later:
  assumes "run_state (claim_next m s k now) w = (Inr out, w')" "b < timestamptz (now + reservation_TTLValue s)"
  shows "overdue b (db w') = overdue b (db w)" "env w' = env w"
  using assms
  by (auto elim!: claim_next_InrE
      simp: overdue_def hand_over_def add_reservation_def stored_reservation_def reservation_for_def)

lemma expire_loop_later:
  assumes "run_state (expire_loop s now items v) w = (Inr v', w')" "b < timestamptz (now + reservation_TTLValue s)"
  shows "overdue b (db w') = overdue b (db w)"
  using assms(1)
proof (induction items arbitrary: v w)
  case (Cons item items)
  from Cons.prems obtain out v1 w1 w2 where "db w1 = db w"
    and claim: "run_state (claim_next ''create reservation for next waitlist user'' s (rvSlotID item) now) w1 =
      (Inr out, w2)"
    and rest: "run_state (expire_loop s now items v1) w2 = (Inr v', w')"
    by (rule expire_loop_ConsE)
  then show ?case
    using Cons.IH [OF rest] claim_next_later(1) [OF claim assms(2)] by simp
qed auto

lemma ExpireDue_overdue:
  assumes "run_state (ExpireDue s limit) w = (Inr u, w')" "store_ok (db w)" "unlocked (env w)"
    "b \<le> timestamptz (clock_at (env w) (ticks w))" "1000 \<le> reservation_TTLValue s"
  shows "overdue b (db w') = overdue b (db w) - nat (batch_limit limit)"
proof -
  define now where "now = clock_at (env w) (ticks w)"
  obtain expired v w1 w2 where w1: "db w1 = db w" "env w1 = env w" "db w' = db w2"
    and tx: "run_state (ExpireDue_tx s now (batch_limit limit)) w1 = (Inr (expired, v), w2)"
    unfolding now_def using ExpireDue_InrE [OF assms(1)] by metis
  obtain w3 v0 where w3: "db w3 = expire_rows (expired_ids w1 now (batch_limit limit)) (timestamptz now) (db w1)"
    and loop: "run_state (expire_loop s now expired v0) w3 = (Inr v, w2)"
    using ExpireDue_tx_InrE [OF tx] by metis
  have "timestamptz now < timestamptz (now + reservation_TTLValue s)"
    using assms(5) by (rule timestamptz_later)
  then have "b < timestamptz (now + reservation_TTLValue s)"
    using assms(4) by (simp add: now_def)
  then have "overdue b (db w2) = overdue b (db w3)"
    by (rule expire_loop_later [OF loop])
  also have "locked_at (env w1) (ticks w1) = (\<lambda>_. False)"
    using assms(3) by (auto simp: unlocked_def w1)
  then have "expired_ids w1 now (batch_limit limit) =
      set (picked (\<lambda>_. False) (tie_at (env w1) (ticks w1)) (timestamptz now) (batch_limit limit) (reservations (db w)))"
    by (simp only: expired_ids_def w1(1))
  then have w3': "db w3 = expire_rows (set (picked (\<lambda>_. False) (tie_at (env w1) (ticks w1)) (timestamptz now) (batch_limit limit)
      (reservations (db w)))) (timestamptz now) (db w)"
    by (simp only: w3 w1(1))
  have "distinct (map rvID (reservations (db w)))"
    using assms(2) by (simp add: store_ok_defs)
  from overdue_expire_rows [OF this, of b "timestamptz now" "tie_at (env w1) (ticks w1)" "batch_limit limit"]
  have "overdue b (db w3) = overdue b (db w) - nat (batch_limit limit)"
    using assms(4) unfolding w3' now_def by simp
  finally show ?thesis
    by (simp only: w1(3))
qed

section \<open>Many runs\<close>

text \<open>
  \<open>n\<close> runs of the worker, each of which reports success, with nothing locked and a clock at or after
  the instant \<open>b\<close>.
\<close>

inductive expiry_runs :: "reservation_service \<Rightarrow> int \<Rightarrow> time \<Rightarrow> nat \<Rightarrow> store \<Rightarrow> store \<Rightarrow> bool" for s limit b where
  no_run: "expiry_runs s limit b 0 st st"
| one_more: "expiry_runs s limit b n st (db w) \<Longrightarrow> unlocked (env w) \<Longrightarrow>
    b \<le> timestamptz (clock_at (env w) (ticks w)) \<Longrightarrow> run_state (ExpireDue s limit) w = (Inr u, w') \<Longrightarrow>
    expiry_runs s limit b (Suc n) st (db w')"

lemma expiry_runs_overdue:
  assumes "expiry_runs s limit b n st st'" "app_ok st" "1000 \<le> reservation_TTLValue s"
  shows "app_ok st' \<and> overdue b st' = overdue b st - n * nat (batch_limit limit)"
  using assms(1,2)
proof (induction rule: expiry_runs.induct)
  case no_run
  then show ?case
    by simp
next
  case (one_more n st w u w')
  have "app_ok (db w')"
    using ExpireDue_app_ok [of w s limit] one_more.IH one_more.hyps(4) one_more.prems by simp
  moreover have "overdue b (db w') = overdue b (db w) - nat (batch_limit limit)"
    using one_more.hyps one_more.IH one_more.prems assms(3) by (intro ExpireDue_overdue) (auto simp: app_ok_def)
  ultimately show ?case
    using one_more.IH one_more.prems by simp
qed

text \<open>
  C39. A backlog is worked off as fast as the batch limit allows. Take the reservations of a consistent
  database that are due at an instant \<open>b\<close>, and runs of the worker whose clocks stand at \<open>b\<close> or later, at
  times when no other transaction holds locks on rows, with a lifetime of reservations of a microsecond
  at least. Then every such run that reports success takes the full batch off them, the new reservations
  it hands out notwithstanding, in whatever order the database ranks those of the same instant; so after
  \<open>backlog / limit\<close> runs, rounded up, none of them is left active. (The runs follow one another; with
  rows locked by others, \<open>SKIP LOCKED\<close> lets a run succeed that takes less.)
\<close>

theorem backlog_is_worked_off:
  assumes "expiry_runs s limit b n st st'" "app_ok st" "1000 \<le> reservation_TTLValue s"
  shows "overdue b st' = overdue b st - n * nat (batch_limit limit) \<and>
    (overdue b st \<le> n * nat (batch_limit limit) \<longrightarrow>
      (\<forall>r \<in> set (reservations st'). rv_active r \<longrightarrow> b < rvExpiresAt r))"
proof -
  have "(\<forall>r \<in> set (reservations st'). rv_active r \<longrightarrow> b < rvExpiresAt r)" if "overdue b st' = 0"
    using that by (auto simp: overdue_def filter_empty_conv not_le)
  then show ?thesis
    using expiry_runs_overdue [OF assms] by simp
qed

lemma backlog_is_worked_off_witness:
  "\<exists>st'. expiry_runs sample_reservations 0 300000000000 1 sample_store st' \<and>
    (\<forall>r \<in> set (reservations st'). rv_active r \<longrightarrow> 300000000000 < rvExpiresAt r)"
proof -
  obtain w' where "run_state (ExpireDue sample_reservations 0) late_world = (Inr (), w')"
    using late_expiry_runs by blast
  then have runs: "expiry_runs sample_reservations 0 300000000000 1 sample_store (db w')"
    using one_more [of sample_reservations 0 300000000000 0 sample_store late_world "()" w'] no_run
    by (simp add: timestamptz_def)
  have "overdue 300000000000 sample_store \<le> 1" "batch_limit 0 = 100"
    by (simp_all add: overdue_def sample_store_def batch_limit_def defaultExpirationBatchLimit_def)
  moreover have "1000 \<le> reservation_TTLValue sample_reservations"
    by (simp add: sample_reservations_def reservation_NewService_def reservation_TTLValue_def)
  ultimately show ?thesis
    using backlog_is_worked_off [OF runs sample_app_ok] runs by auto
qed

end
