(* ===== verification/Http_Contract.thy ===== *)
theory Http_Contract
  imports Http_Handlers
begin

text \<open>
  What the HTTP interface promises: every answer has one of a few shapes, nothing behind a token is
  reached without one, a request is at most one step of the service, and the endpoint for bookings
  answers as the use case decides.
\<close>

section \<open>The shape of answers\<close>

definition error_answer :: "response \<Rightarrow> bool" where
  "error_answer rs \<longleftrightarrow> (\<exists>c message. rsStatus rs = StatusFromDomainCode c \<and>
     rsBody rs = Marshal (errorBody (code_string c) message) @ [CHR 0x0A])"

definition json_answer :: "response \<Rightarrow> bool" where
  "json_answer rs \<longleftrightarrow> (''Content-Type'', ''application/json'') \<in> set (rsHeaders rs) \<and>
     (if rsStatus rs = StatusOK \<or> rsStatus rs = StatusCreated
      then \<exists>ms. rsBody rs = Marshal (JObj ms) @ [CHR 0x0A] else error_answer rs)"

text \<open>All answers a handler can give.\<close>

definition answers :: "response go \<Rightarrow> bool" where
  "answers m \<longleftrightarrow> (\<forall>w. json_answer (fst (run_state m w)))"

lemma error_statuses:
  "StatusFromDomainCode c \<in> {StatusBadRequest, StatusUnauthorized, StatusForbidden, StatusNotFound,
    StatusConflict, StatusInternalServerError}"
  by (cases c) simp_all

lemma error_not_ok [simp]: "StatusFromDomainCode c \<noteq> StatusOK" "StatusFromDomainCode c \<noteq> StatusCreated"
  by (cases c; simp add: statuses)+

lemma error_answer_WriteError: "error_answer (WriteError err)"
proof (cases "AsDomainError err")
  case None
  then have "WriteError err = WriteJSON (StatusFromDomainCode ErrorInternalError)
      (errorBody (code_string ErrorInternalError) ''internal server error'')"
    by (simp add: WriteError_def)
  then show ?thesis
    unfolding error_answer_def WriteJSON_def by (metis response.select_convs(1,3))
next
  case (Some cm)
  then have "WriteError err = WriteJSON (StatusFromDomainCode (fst cm)) (errorBody (code_string (fst cm)) (snd cm))"
    by (simp add: WriteError_def split: prod.split)
  then show ?thesis
    unfolding error_answer_def WriteJSON_def by (metis response.select_convs(1,3))
qed

lemma json_answer_error [simp]: "json_answer (WriteError err)"
proof -
  have "rsStatus (WriteError err) \<notin> {StatusOK, StatusCreated}"
    by (auto simp: WriteError_def WriteJSON_def simp: error_not_ok [of ErrorInternalError, simplified]
        split: option.splits)
  then show ?thesis
    using error_answer_WriteError
    by (auto simp: json_answer_def WriteError_def WriteJSON_def split: option.splits)
qed

lemma json_answer_object: "s = StatusOK \<or> s = StatusCreated \<Longrightarrow> json_answer (WriteJSON s (JObj ms))"
  by (auto simp: json_answer_def WriteJSON_def simp del: Marshal.simps)

lemma json_answer_written [simp]:
  "json_answer (WriteJSON StatusOK (JObj ms))" "json_answer (WriteJSON StatusCreated (JObj ms))"
  "json_answer (WriteJSON StatusOK (one_member name v))"
  "json_answer panic_response"
  by (simp_all add: json_answer_object one_member_def panic_response_def)

lemma answers_return: "json_answer rs \<Longrightarrow> answers (State_Monad.return rs)"
  by (simp add: answers_def)

lemma answers_bind: "(\<And>a. answers (k a)) \<Longrightarrow> answers (State_Monad.bind m k)"
  by (simp add: answers_def split: prod.split)

lemma answers_or_error: "(\<And>a. answers (k a)) \<Longrightarrow> answers (or_error v k)"
  by (auto simp: or_error_def answers_return split: sum.split)

lemma answers_respond: "(\<And>x a. json_answer (write x a)) \<Longrightarrow> answers (respond m write)"
  by (auto simp: respond_def answers_def split: prod.split sum.split)

lemma answers_with_user: "(\<And>u. answers (k u)) \<Longrightarrow> answers (with_user u c name k)"
  by (auto simp: with_user_def answers_return split: option.split)

lemma answers_auth: "answers k \<Longrightarrow> answers (auth_configured uc k)"
  by (simp add: auth_configured_def answers_return)

lemmas answers_intros = answers_with_user answers_auth answers_or_error answers_respond answers_bind

lemmas handler_defs = BookingHandler_CreateBooking_def BookingHandler_ListBookings_def
  BookingHandler_ListMyBookings_def BookingHandler_CancelBooking_def
  ReservationHandler_ConfirmReservation_def ReservationHandler_CancelReservation_def
  ReservationHandler_ListMyActiveReservations_def WaitlistHandler_JoinWaitlist_def
  WaitlistHandler_LeaveWaitlist_def RoomHandler_ListRooms_def RoomHandler_CreateRoom_def
  ScheduleHandler_CreateSchedule_def SlotHandler_ListAvailableSlots_def SlotHandler_ListRoomSlots_def

lemma answers_private: "answers (private_handler deps p u r)"
  by (cases p) (auto simp: handler_defs response_json_defs intro!: answers_intros answers_return split: list.split)

lemma answers_public: "answers (public_handler deps p r)"
  by (cases p) (auto simp: AuthHandler_Register_def AuthHandler_Login_def AuthHandler_DummyLogin_def
      response_json_defs intro!: answers_intros answers_return)

lemma answers_route: "answers (route_handler deps rt r)"
  by (cases rt) (auto simp: answers_public RequireUser_def intro!: answers_bind answers_private answers_return
      split: sum.split)

lemma json_answer_add_headers [simp]: "json_answer rs \<Longrightarrow> json_answer (add_headers hs rs)"
  by (auto simp: json_answer_def add_headers_def error_answer_def)

lemma json_answer_status:
  assumes "json_answer rs"
  shows "rsStatus rs \<in> {200, 201, 400, 401, 403, 404, 409, 500}"
proof (cases "rsStatus rs = StatusOK \<or> rsStatus rs = StatusCreated")
  case False
  then obtain c where "rsStatus rs = StatusFromDomainCode c"
    using assms by (auto simp: json_answer_def error_answer_def)
  then show ?thesis
    using error_statuses [of c] by (auto simp: statuses)
qed (auto simp: statuses)

lemma run_serve:
  "\<exists>i n. fst (run_state (serve deps rt r) w) =
      add_headers [(RequestIDHeader, i)]
        (if rqMethod r = ''OPTIONS''
         then \<lparr>rsStatus = StatusNoContent, rsHeaders = cors_headers (dpCORSOrigins deps) r, rsBody = []\<rparr>
         else add_headers (cors_headers (dpCORSOrigins deps) r)
           (fst (run_state (route_handler deps rt r) ((tick ^^ n) w)))) \<and>
    n = (if TrimSpace (rqHeader r RequestIDHeader) = [] then 1 else 0)"
  by (auto simp: serve_def RequestID_def HTTPMetrics_def CORS_def ObserveHTTPRequest_def Let_def
      split: prod.split)

text \<open>The one index in a handler that could panic never does: a created schedule has a rule.\<close>

lemma created_schedule_has_rules:
  assumes "run_state (CreateSchedule u roomID input) w = (Inr v, w')"
  shows "vwRules v \<noteq> []"
proof (rule CreateSchedule_InrE [OF assms])
  assume "schedule_refusal u roomID input (db w) = None"
  then have "siDaysOfWeek input \<noteq> []"
    by (auto simp: schedule_refusal_def split: if_splits)
  then have "schedule_days (siDaysOfWeek input) \<noteq> []"
    by (metis empty_set schedule_days_simps(1) set_empty)
  moreover assume "v = \<lparr>vwRoomID = roomID, vwRules = map (\<lambda>day. \<lparr>ruDayOfWeek = day,
      ruStartTime = siStartTime input, ruEndTime = siEndTime input\<rparr>) (schedule_days (siDaysOfWeek input))\<rparr>"
  ultimately show ?thesis
    by simp
qed

text \<open>
  C28. Whatever is sent to whatever route of the API (\<open>/_info\<close>, registration, login, and everything behind
  a token; not \<open>/metrics\<close>, \<open>/ws\<close> and the router's own answers to paths and methods without a route), the
  answer is well formed: it carries a request identifier; a preflight request is answered 204 without a
  body; every other answer is JSON with one of eight status codes, an object when the request succeeded,
  and otherwise the error object whose code determines the status.
\<close>

theorem every_answer_well_formed:
  "let rs = fst (run_state (serve deps rt r) w)
   in RequestIDHeader \<in> fst ` set (rsHeaders rs) \<and>
     (if rqMethod r = ''OPTIONS'' then rsStatus rs = 204 \<and> rsBody rs = []
      else rsStatus rs \<in> {200, 201, 400, 401, 403, 404, 409, 500} \<and>
        (''Content-Type'', ''application/json'') \<in> set (rsHeaders rs) \<and>
        (if rsStatus rs \<le> 201 then \<exists>ms. rsBody rs = Marshal (JObj ms) @ [CHR 0x0A]
         else \<exists>c message. rsStatus rs = StatusFromDomainCode c \<and>
           rsBody rs = Marshal (errorBody (code_string c) message) @ [CHR 0x0A]))"
proof -
  let ?rs = "fst (run_state (serve deps rt r) w)"
  obtain i n where rs: "?rs = add_headers [(RequestIDHeader, i)]
        (if rqMethod r = ''OPTIONS''
         then \<lparr>rsStatus = StatusNoContent, rsHeaders = cors_headers (dpCORSOrigins deps) r, rsBody = []\<rparr>
         else add_headers (cors_headers (dpCORSOrigins deps) r)
           (fst (run_state (route_handler deps rt r) ((tick ^^ n) w))))"
    using run_serve [of deps rt r w] by blast
  have "json_answer ?rs" if "rqMethod r \<noteq> ''OPTIONS''"
    unfolding rs using answers_route that by (simp add: answers_def)
  then have "json_answer ?rs \<and> rsStatus ?rs \<in> {200, 201, 400, 401, 403, 404, 409, 500}" if "rqMethod r \<noteq> ''OPTIONS''"
    using json_answer_status that by blast
  then show ?thesis
    by (cases "rqMethod r = ''OPTIONS''")
      (auto simp: Let_def rs add_headers_def statuses json_answer_def error_answer_def split: if_splits)
qed

section \<open>Nothing without a token\<close>

definition signed_by :: "ext \<Rightarrow> string \<Rightarrow> string \<Rightarrow> bool" where
  "signed_by x secret token =
     (case split_at (CHR ''.'') token of
        [header, part, sig] \<Rightarrow> RawURLDecode sig = Some (hmac_SHA256 x secret (header @ ''.'' @ part))
      | _ \<Rightarrow> False)"

lemma AuthenticateRequest_unsigned:
  assumes "\<not> signed_by (libs (env w)) secret (bearerToken h)"
  shows "\<exists>e. run_state (AuthenticateRequest secret h) w = (Inl e, w) \<and> has_code e ErrorUnauthorized"
  using assms
  by (auto simp: AuthenticateRequest_def Let_def AuthenticateToken_def parseAndValidateToken_def signed_by_def
      split: list.split option.split)

lemma WriteError_status: "has_code e c \<Longrightarrow> rsStatus (WriteError e) = StatusFromDomainCode c"
  by (auto simp: has_code_def WriteError_def WriteJSON_def split: option.splits)

definition after_request_id :: "request \<Rightarrow> world \<Rightarrow> world" where
  "after_request_id r w = (if TrimSpace (rqHeader r RequestIDHeader) = [] then tick w else w)"

lemma after_request_id_simps [simp]:
  "db (after_request_id r w) = db w" "outbox (after_request_id r w) = outbox w"
  "env (after_request_id r w) = env w"
  by (simp_all add: after_request_id_def)

lemma run_serve_route:
  assumes "rqMethod r \<noteq> ''OPTIONS''"
    and "\<exists>rs w'. run_state (route_handler deps rt r) (after_request_id r w) = (rs, w') \<and> P rs (db w') (outbox w')"
    and "\<And>rs hs d out. P rs d out \<Longrightarrow> P (add_headers hs rs) d out"
  shows "\<exists>rs w'. run_state (serve deps rt r) w = (rs, w') \<and> P rs (db w') (outbox w')"
  using assms
  by (auto simp: serve_def RequestID_def HTTPMetrics_def CORS_def ObserveHTTPRequest_def Let_def
      after_request_id_def split: if_splits)

text \<open>
  C29. Nothing behind a token is reached without one: a request to such a route whose header does not
  carry a token with the digest made with the service's key is answered 401, and neither the database
  nor Redis sees anything of it.
\<close>

theorem private_routes_need_the_key:
  assumes "rqMethod r \<noteq> ''OPTIONS''"
    "\<not> signed_by (libs (env w)) (dpJWTSecret deps) (bearerToken (rqHeader r ''Authorization''))"
  shows "\<exists>rs w'. run_state (serve deps (Private p) r) w = (rs, w') \<and>
    rsStatus rs = StatusUnauthorized \<and> db w' = db w \<and> outbox w' = outbox w"
proof (rule run_serve_route [OF assms(1)])
  let ?w = "after_request_id r w"
  obtain e where "run_state (AuthenticateRequest (dpJWTSecret deps) (rqHeader r ''Authorization'')) ?w = (Inl e, ?w)"
      "has_code e ErrorUnauthorized"
    using AuthenticateRequest_unsigned [of ?w] assms(2) by auto
  then show "\<exists>rs w'. run_state (route_handler deps (Private p) r) ?w = (rs, w') \<and>
      rsStatus rs = StatusUnauthorized \<and> db w' = db w \<and> outbox w' = outbox w"
    using WriteError_status by (auto simp: RequireUser_def)
qed (simp add: add_headers_def)

definition sample_request :: "string \<Rightarrow> string \<Rightarrow> string \<Rightarrow> request" where
  "sample_request method token body = \<lparr>rqMethod = method, rqPattern = ''/bookings/create'',
     rqParam = (\<lambda>_. []), rqQuery = (\<lambda>_. []),
     rqHeader = (\<lambda>h. if h = ''Authorization'' then bearer_prefix @ token else []), rqBody = body\<rparr>"

abbreviation sample_deps :: router_dependencies where
  "sample_deps \<equiv> dependencies sample_config sample_app"

lemma private_routes_need_the_key_witness:
  "\<exists>rs w'. run_state (serve sample_deps (Private PostBookingsCreate) (sample_request ''POST'' ''abc'' [])) sample_world = (rs, w') \<and>
    rsStatus rs = 401 \<and> db w' = sample_store"
proof -
  have "bearerToken (bearer_prefix @ ''abc'') = ''abc''"
    by (simp add: bearerToken_def bearer_prefix_def TrimSpace_visible visible_def)
  then show ?thesis
    using private_routes_need_the_key [of "sample_request ''POST'' ''abc'' []" sample_world sample_deps PostBookingsCreate]
    by (auto simp: sample_request_def signed_by_def StatusUnauthorized_def)
qed

section \<open>A request is at most one step\<close>

definition moves_by :: "app \<Rightarrow> (env \<Rightarrow> bool) \<Rightarrow> 'a go \<Rightarrow> bool" where
  "moves_by a E m \<longleftrightarrow> (\<forall>w. E (env w) \<longrightarrow>
     db (snd (run_state m w)) = db w \<or> step a E (db w) (db (snd (run_state m w))))"

definition reads_only :: "'a go \<Rightarrow> bool" where
  "reads_only m \<longleftrightarrow> (\<forall>w. db (snd (run_state m w)) = db w \<and> env (snd (run_state m w)) = env w)"

lemma moves_reads: "reads_only m \<Longrightarrow> moves_by a E m"
  by (simp add: moves_by_def reads_only_def)

lemma moves_after:
  assumes "reads_only m" "\<And>x. moves_by a E (k x)"
  shows "moves_by a E (State_Monad.bind m k)"
  unfolding moves_by_def
proof (intro allI impI)
  fix w :: world
  assume "E (env w)"
  obtain x w1 where m: "run_state m w = (x, w1)"
    by (cases "run_state m w")
  then have "db w1 = db w" "env w1 = env w"
    using assms(1) unfolding reads_only_def by (metis snd_conv)+
  then show "db (snd (run_state (State_Monad.bind m k) w)) = db w \<or>
      step a E (db w) (db (snd (run_state (State_Monad.bind m k) w)))"
    using assms(2) [of x] \<open>E (env w)\<close> by (simp add: m moves_by_def) metis
qed

lemma reads_return: "reads_only (State_Monad.return x)"
  by (simp add: reads_only_def)

lemma reads_asks: "reads_only (asks f)"
  by (simp add: reads_only_def)

lemma moves_respond: "moves_by a E m \<Longrightarrow> moves_by a E (respond m write)"
  by (simp add: moves_by_def respond_def split: prod.split) (metis snd_conv)

lemma moves_or_error: "(\<And>x. moves_by a E (k x)) \<Longrightarrow> moves_by a E (or_error v k)"
  by (auto simp: or_error_def moves_reads reads_return split: sum.split)

lemma moves_with_user: "(\<And>u. moves_by a E (k u)) \<Longrightarrow> moves_by a E (with_user u c name k)"
  by (auto simp: with_user_def moves_reads reads_return split: option.split)

lemma moves_steps:
  "moves_by a E (Register (appAuth a) email password role)"
  "moves_by a E (CreateRoom u ri)" "moves_by a E (CreateSchedule u k si)"
  "moves_by a E (CreateBooking (appBookings a) u k link)" "moves_by a E (CancelBooking (appBookings a) u k)"
  "moves_by a E (JoinWaitlist u k)" "moves_by a E (LeaveWaitlist u k)"
  "moves_by a E (ConfirmReservation (appReservations a) u k)"
  "moves_by a E (CancelReservation (appReservations a) u k)"
  by (simp_all add: moves_by_def step.intros)

lemma reads_db_call: "reads_only (db_call (select f))"
  by (auto simp: reads_only_def run_db_call select_def split: fault.split)

lemma reads_fail: "reads_only (fail e)" "reads_only (ok x)"
  by (simp_all add: reads_only_def)

lemma reads_now: "reads_only now_utc" "reads_only uuid_New"
  by (simp_all add: reads_only_def)

lemma reads_bind: "reads_only m \<Longrightarrow> (\<And>x. reads_only (k x)) \<Longrightarrow> reads_only (State_Monad.bind m k)"
  by (simp add: reads_only_def split: prod.split) (metis snd_conv)

lemma reads_check: "reads_only m \<Longrightarrow> (\<And>x. reads_only (k x)) \<Longrightarrow> reads_only (check wrap m k)"
  unfolding check_def by (rule reads_bind) (auto split: sum.split intro: reads_fail)

lemmas reads_intros = reads_bind reads_check reads_now reads_fail reads_db_call reads_asks reads_return

lemma reads_page: "reads_only (db_call (sql_bookings_page n k))"
  by (auto simp: reads_only_def run_db_call sql_bookings_page_def split: fault.split)

lemma reads_use_cases:
  "reads_only (ListBookings s u page pageSize)" "reads_only (ListMyBookings s u)"
  "reads_only (ListMyActiveReservations rs u)" "reads_only (ListRooms u)"
  "reads_only (ListAvailableSlots u k d)" "reads_only (ListRoomSlots u k d)"
  by (auto simp: ListBookings_def ListMyBookings_def ListMyActiveReservations_def ListRooms_def
      ListAvailableSlots_def ListRoomSlots_def validateAndNormalizeRequest_def BookingRepo_List_def
      BookingRepo_ListFutureByUser_def ReservationRepo_ListActiveByUser_def RoomRepo_List_def
      RoomRepo_GetByID_def SlotRepo_ListAvailableByRoomAndDate_def SlotRepo_ListAllByRoomAndDate_def
      intro!: reads_intros reads_page split: prod.split)

lemma reads_sign: "reads_only (Sign secret i role)"
  by (auto simp: Sign_def intro!: reads_intros)

lemma reads_login: "reads_only (Login s email password)" "reads_only (DummyLogin s role)"
  by (auto simp: Login_def DummyLogin_def UserRepo_GetByEmail_def Let_def
      intro!: reads_intros reads_sign split: option.split)

lemma reads_authenticate: "reads_only (AuthenticateRequest secret h)"
  by (auto simp: AuthenticateRequest_def AuthenticateToken_def parseAndValidateToken_def check_payload_def
      check_claims_def user_from_claims_def Let_def intro!: reads_intros split: option.split list.split sum.split)

lemma moves_private: "moves_by a E (private_handler (dependencies cfg a) p u r)"
  by (cases p)
    (auto simp: handler_defs dependencies_def
      intro!: moves_with_user moves_or_error moves_respond moves_after reads_asks moves_steps
        moves_reads [OF reads_use_cases(1)] moves_reads [OF reads_use_cases(2)]
        moves_reads [OF reads_use_cases(3)] moves_reads [OF reads_use_cases(4)]
        moves_reads [OF reads_use_cases(5)] moves_reads [OF reads_use_cases(6)])

lemma moves_public: "moves_by a E (public_handler (dependencies cfg a) p r)"
  by (cases p)
    (auto simp: AuthHandler_Register_def AuthHandler_Login_def AuthHandler_DummyLogin_def
      auth_configured_def dependencies_def
      intro!: moves_or_error moves_respond moves_reads [OF reads_return] moves_steps
        moves_reads [OF reads_login(1)] moves_reads [OF reads_login(2)])

lemma moves_route: "moves_by a E (route_handler (dependencies cfg a) rt r)"
proof (cases rt)
  case (Private p)
  then show ?thesis
    by (auto simp: RequireUser_def intro!: moves_after reads_authenticate moves_private
        moves_reads [OF reads_return] split: sum.split)
qed (simp add: moves_public)

lemma moves_serve: "moves_by a E (serve (dependencies cfg a) rt r)"
  unfolding moves_by_def
proof (intro allI impI)
  fix w :: world
  assume E: "E (env w)"
  let ?w = "if TrimSpace (rqHeader r RequestIDHeader) = [] then tick w else w"
  have "db ?w = db w" "env ?w = env w"
    by simp_all
  then have "db (snd (run_state (route_handler (dependencies cfg a) rt r) ?w)) = db w \<or>
      step a E (db w) (db (snd (run_state (route_handler (dependencies cfg a) rt r) ?w)))"
    using moves_route [of a E cfg rt r] E unfolding moves_by_def by metis
  then show "db (snd (run_state (serve (dependencies cfg a) rt r) w)) = db w \<or>
      step a E (db w) (db (snd (run_state (serve (dependencies cfg a) rt r) w)))"
    by (auto simp: serve_def RequestID_def HTTPMetrics_def CORS_def ObserveHTTPRequest_def Let_def
        split: prod.splits if_splits)
qed

text \<open>Requests one after the other, each in a world of its own.\<close>

fun serve_all :: "router_dependencies \<Rightarrow> (route \<times> request \<times> world) list \<Rightarrow> store \<Rightarrow> store" where
  "serve_all deps [] s = s"
| "serve_all deps ((rt, r, w) # rs) s =
     serve_all deps rs (db (snd (run_state (serve deps rt r) (w\<lparr>db := s\<rparr>))))"

lemma serve_all_reachable:
  assumes "reachable a E s" "list_all (\<lambda>(rt, r, w). E (env w)) rs"
  shows "reachable a E (serve_all (dependencies cfg a) rs s)"
  using assms
proof (induction rs arbitrary: s)
  case (Cons x rs)
  obtain rt r w where x: "x = (rt, r, w)"
    by (cases x)
  let ?s = "db (snd (run_state (serve (dependencies cfg a) rt r) (w\<lparr>db := s\<rparr>)))"
  have "E (env (w\<lparr>db := s\<rparr>))"
    using Cons.prems(2) x by simp
  then have "?s = s \<or> step a E s ?s"
    using moves_serve [of a E cfg rt r, unfolded moves_by_def, rule_format, of "w\<lparr>db := s\<rparr>"] by simp
  then have "reachable a E ?s"
    using Cons.prems(1) reachable_step by metis
  then show ?case
    using Cons.IH Cons.prems(2) x by simp
qed simp

text \<open>
  The rules hold whatever is sent over HTTP: after any sequence of requests to any routes, with any
  bodies and tokens, whatever the environment does meanwhile, the database is one the service can
  reach by its steps, and so satisfies its schema and has no slot that is booked and reserved at once.
\<close>

theorem requests_keep_the_rules:
  assumes "reachable (wire cfg gen) E s" "list_all (\<lambda>(rt, r, w). E (env w)) rs"
  shows "reachable (wire cfg gen) E (serve_all (dependencies cfg (wire cfg gen)) rs s) \<and>
    store_ok (serve_all (dependencies cfg (wire cfg gen)) rs s) \<and>
    (\<forall>k. \<not> (slot_booked (serve_all (dependencies cfg (wire cfg gen)) rs s) k \<and>
      slot_reserved (serve_all (dependencies cfg (wire cfg gen)) rs s) k))"
proof -
  have r: "reachable (wire cfg gen) E (serve_all (dependencies cfg (wire cfg gen)) rs s)"
    using assms by (rule serve_all_reachable)
  with consistent.always [OF r] show ?thesis
    by (auto simp: app_ok_def exclusive_def)
qed

lemma requests_keep_the_rules_witness:
  "store_ok (serve_all sample_deps [(Private PostBookingsCreate, sample_request ''POST'' ''abc'' ''{}'', sample_world),
     (Public PostRegister, sample_request ''POST'' [] ''{}'', sample_world)] empty_store)"
  using requests_keep_the_rules [OF reachable_empty, where E = unlocked and cfg = sample_config and
      gen = sample_generator and
      rs = "[(Private PostBookingsCreate, sample_request ''POST'' ''abc'' ''{}'', sample_world),
     (Public PostRegister, sample_request ''POST'' [] ''{}'', sample_world)]"]
  by simp

section \<open>Booking over HTTP\<close>

definition booking_body :: "ext \<Rightarrow> uuid \<Rightarrow> bool \<Rightarrow> string" where
  "booking_body x k link =
     Marshal (JObj [(''slotId'', JStr (uuid_String x k)), (''createConferenceLink'', JBool link)])"

lemma booking_names:
  "fold_name ''slotId'' = ''slotid''" "fold_name ''createConferenceLink'' = ''createconferencelink''"
  by (simp_all add: lower_ascii_def char_of_def bit_0)

lemma DecodeJSON_written:
  assumes "plain 0 j" "length (Marshal j) \<le> MaxBody"
  shows "DecodeJSON dst (Marshal j) = (case dst j of None \<Rightarrow> Inl invalid_body | Some x \<Rightarrow> Inr x)"
proof -
  have "scan (Marshal j) = Done j []"
    using scan_written [OF assms(1), of "[]" "Suc (2 * length (Marshal j))"]
    by (simp add: scan_def delimited_def)
  then show ?thesis
    using assms(2) by (simp add: DecodeJSON_def Let_def)
qed

lemma decode_booking_body:
  assumes "uuid_text_ok x" "length (booking_body x k link) \<le> MaxBody"
  shows "DecodeJSON read_createBookingRequest (booking_body x k link) =
    Inr \<lparr>cbSlotID = uuid_String x k, cbCreateConferenceLink = link\<rparr>"
proof -
  let ?j = "JObj [(''slotId'', JStr (uuid_String x k)), (''createConferenceLink'', JBool link)]"
  have j: "plain 0 ?j"
    using assms(1) by (simp add: uuid_text_ok_def is_ascii_def maxNestingDepth_def)
  have rd: "read_createBookingRequest ?j = Some \<lparr>cbSlotID = uuid_String x k, cbCreateConferenceLink = link\<rparr>"
    by (simp add: read_createBookingRequest_def into_struct_def field_values_def booking_names)
  show ?thesis
    unfolding booking_body_def DecodeJSON_written [OF j assms(2) [unfolded booking_body_def]] rd option.case ..
qed

text \<open>The answer to a request for a booking, as the use case decides.\<close>

definition booking_answer :: "booking_service \<Rightarrow> user \<Rightarrow> uuid \<Rightarrow> time \<Rightarrow> store \<Rightarrow> error_code option" where
  "booking_answer s u k now st =
     (case create_refusal s u k now st of
        Some c \<Rightarrow> Some c
      | None \<Rightarrow> if usrID u \<in> usrID ` set (users st) then None else Some ErrorInternalError)"

lemma booking_handler_answers:
  assumes "calm (env w)" "fresh_ids (env w) (bkID ` set (bookings (db w)))" "uuid_text_ok (libs (env w))"
    "rqBody r = booking_body (libs (env w)) k link" "length (booking_body (libs (env w)) k link) \<le> MaxBody"
  shows "case booking_answer s u k (clock_at (env w) (ticks w)) (db w) of
      Some c \<Rightarrow> \<exists>rs w'. run_state (BookingHandler_CreateBooking (Some s) (Some u) r) w = (rs, w') \<and>
        rsStatus rs = StatusFromDomainCode c \<and> db w' = db w
    | None \<Rightarrow> \<exists>i w'. run_state (CreateBooking s u k link) w =
          (Inr (new_booking i u k (clock_at (env w) (ticks w))), w') \<and>
        run_state (BookingHandler_CreateBooking (Some s) (Some u) r) w =
        (WriteJSON StatusCreated (createBookingResponse_json \<lparr>cbrBooking = bookingToDTO (libs (env w))
          (new_booking i u k (clock_at (env w) (ticks w)))\<rparr>), w') \<and>
        db w' = add_booking (new_booking i u k (clock_at (env w) (ticks w))) (db w)"
proof -
  let ?now = "clock_at (env w) (ticks w)"
  have parse: "parse_id (libs (env w)) ''slotId'' (uuid_String (libs (env w)) k) = Inr k"
    using assms(3) by (simp add: parse_id_def uuid_text_ok_def)
  have run: "run_state (BookingHandler_CreateBooking (Some s) (Some u) r) w =
      run_state (respond (CreateBooking s u k link) (\<lambda>x b.
        WriteJSON StatusCreated (createBookingResponse_json \<lparr>cbrBooking = bookingToDTO x b\<rparr>))) w"
    using decode_booking_body [OF assms(3,5)] parse
    by (simp add: BookingHandler_CreateBooking_def with_user_def or_error_def assms(4))
  show ?thesis
  proof (cases "booking_answer s u k ?now (db w)")
    case None
    then have none: "create_refusal s u k ?now (db w) = None" "usrID u \<in> usrID ` set (users (db w))"
      by (auto simp: booking_answer_def split: option.splits if_splits)
    then obtain i w' where "run_state (CreateBooking s u k link) w = (Inr (new_booking i u k ?now), w')"
        "db w' = add_booking (new_booking i u k ?now) (db w)"
      using CreateBooking_accepted [OF assms(1) none(1,2) assms(2), of link] by blast
    then show ?thesis
      unfolding None run by (auto simp: respond_def)
  next
    case (Some c)
    have "\<exists>e w'. run_state (CreateBooking s u k link) w = (Inl e, w') \<and> has_code e c \<and> db w' = db w"
    proof (cases "create_refusal s u k ?now (db w)")
      case None
      then show ?thesis
        using Some CreateBooking_orphan [OF assms(1) None _ assms(2), of link]
        by (simp add: booking_answer_def split: if_splits)
    next
      case (Some c')
      then show ?thesis
        using \<open>booking_answer s u k ?now (db w) = Some c\<close> CreateBooking_refused [OF assms(1), of s u k c link]
        by (simp add: booking_answer_def)
    qed
    then obtain e w' where "run_state (CreateBooking s u k link) w = (Inl e, w')" "has_code e c" "db w' = db w"
      by blast
    then show ?thesis
      unfolding Some run by (auto simp: respond_def WriteError_status)
  qed
qed

text \<open>
  C31. Over a database that answers, a request to \<open>POST /bookings/create\<close> with a token the service signed,
  in time, and the body \<open>encoding/json\<close> writes for a slot, is answered as the business rules decide at
  that moment: a refusal by its status, with the database untouched, and otherwise by 201 and the
  booking, which is in the database then. The rules allowing it, there is one other answer: the token of
  a user without a row in the database, such as \<open>/dummyLogin\<close> gives out where the users were not seeded, gets
  500, because the foreign key refuses the booking, and the database is untouched. (A fresh identifier
  is assumed not to be in use.)
\<close>

theorem booking_over_http:
  assumes "calm (env w)" "uuid_text_ok (libs (env w))" "role = RoleAdmin \<or> role = RoleUser"
    "0 < unix_seconds (signedAt + token_lifetime)" "unix_seconds (signedAt + token_lifetime) \<le> int64_max"
    "unix_seconds (clock_at (env w) n) < unix_seconds (signedAt + token_lifetime)"
    "n = ticks (after_request_id r w)" "rqMethod r = ''POST''"
    "rqHeader r ''Authorization'' =
      bearer_prefix @ sign_token (libs (env w)) (cfgJWTSecret cfg) i role signedAt"
    "rqBody r = booking_body (libs (env w)) k link" "length (booking_body (libs (env w)) k link) \<le> MaxBody"
    "fresh_ids (env w) (bkID ` set (bookings (db w)))"
  shows "\<exists>rs w'. run_state (serve (dependencies cfg a) (Private PostBookingsCreate) r) w = (rs, w') \<and>
    (case create_refusal (appBookings a) (token_user i role) k (clock_at (env w) (Suc n)) (db w) of
       Some c \<Rightarrow> rsStatus rs = StatusFromDomainCode c \<and> db w' = db w
     | None \<Rightarrow>
         if i \<notin> usrID ` set (users (db w)) then rsStatus rs = 500 \<and> db w' = db w
         else \<exists>j. rsStatus rs = StatusCreated \<and>
           rsBody rs = Marshal (createBookingResponse_json \<lparr>cbrBooking = bookingToDTO (libs (env w))
             (new_booking j (token_user i role) k (clock_at (env w) (Suc n)))\<rparr>) @ [CHR 0x0A] \<and>
           db w' = add_booking (new_booking j (token_user i role) k (clock_at (env w) (Suc n))) (db w))"
proof (rule run_serve_route)
  let ?w = "after_request_id r w" and ?u = "token_user i role" and ?a = "appBookings a"
  let ?now = "clock_at (env w) (Suc n)"
  have auth: "run_state (AuthenticateRequest (cfgJWTSecret cfg) (rqHeader r ''Authorization'')) ?w =
      (Inr ?u, tick ?w)"
    using AuthenticateRequest_sign_token [of ?w role signedAt "cfgJWTSecret cfg" i] assms(2-7,9) by simp
  have u: "usrID ?u = i"
    by (simp add: token_user_def)
  have run: "run_state (route_handler (dependencies cfg a) (Private PostBookingsCreate) r) ?w =
      run_state (BookingHandler_CreateBooking (Some ?a) (Some ?u) r) (tick ?w)"
    using auth by (simp add: RequireUser_def dependencies_def)
  have answers: "case booking_answer ?a ?u k ?now (db w) of
      Some c \<Rightarrow> \<exists>rs w'. run_state (BookingHandler_CreateBooking (Some ?a) (Some ?u) r) (tick ?w) = (rs, w') \<and>
        rsStatus rs = StatusFromDomainCode c \<and> db w' = db w
    | None \<Rightarrow> \<exists>j w'. run_state (CreateBooking ?a ?u k link) (tick ?w) = (Inr (new_booking j ?u k ?now), w') \<and>
        run_state (BookingHandler_CreateBooking (Some ?a) (Some ?u) r) (tick ?w) =
        (WriteJSON StatusCreated (createBookingResponse_json \<lparr>cbrBooking = bookingToDTO (libs (env w))
          (new_booking j ?u k ?now)\<rparr>), w') \<and> db w' = add_booking (new_booking j ?u k ?now) (db w)"
    by (rule booking_handler_answers [of "tick ?w" r k link ?a ?u, unfolded tick_simps after_request_id_simps,
          folded assms(7), OF assms(1,12,2,10,11)])
  show "\<exists>rs w'. run_state (route_handler (dependencies cfg a) (Private PostBookingsCreate) r) ?w = (rs, w') \<and>
    (case create_refusal ?a ?u k ?now (db w) of
       Some c \<Rightarrow> rsStatus rs = StatusFromDomainCode c \<and> db w' = db w
     | None \<Rightarrow>
         if i \<notin> usrID ` set (users (db w)) then rsStatus rs = 500 \<and> db w' = db w
         else \<exists>j. rsStatus rs = StatusCreated \<and>
           rsBody rs = Marshal (createBookingResponse_json \<lparr>cbrBooking = bookingToDTO (libs (env w))
             (new_booking j ?u k ?now)\<rparr>) @ [CHR 0x0A] \<and>
           db w' = add_booking (new_booking j ?u k ?now) (db w))"
  proof (cases "booking_answer ?a ?u k ?now (db w)")
    case None
    then have "create_refusal ?a ?u k ?now (db w) = None" "i \<in> usrID ` set (users (db w))"
      using u by (auto simp: booking_answer_def split: option.splits if_splits)
    then show ?thesis
      using answers unfolding run None by (auto simp: WriteJSON_def simp del: Marshal.simps)
  next
    case (Some c)
    then obtain rs w' where "run_state (BookingHandler_CreateBooking (Some ?a) (Some ?u) r) (tick ?w) = (rs, w')"
        "rsStatus rs = StatusFromDomainCode c" "db w' = db w"
      using answers by auto
    then show ?thesis
      using Some u unfolding run
      by (auto simp: booking_answer_def StatusInternalServerError_def split: option.splits if_splits)
  qed
qed (auto simp: assms(8) add_headers_def split: option.split)

lemma booking_over_http_witness:
  "\<exists>rs w'. run_state (serve sample_deps (Private PostBookingsCreate)
      (sample_request ''POST'' (sign_token token_ext ''secret'' 3 RoleUser 0) (booking_body token_ext 22 True))) token_world =
      (rs, w') \<and> rsStatus rs = 201 \<and> slot_booked (db w') 22"
proof -
  let ?r = "sample_request ''POST'' (sign_token token_ext ''secret'' 3 RoleUser 0) (booking_body token_ext 22 True)"
  have w: "db token_world = sample_store" "calm (env token_world)" "fresh_at (env token_world) = (\<lambda>n. 1000)"
    by (simp_all add: token_world_def sample_world_def sample_env_def calm_def)
  have len: "length (booking_body token_ext 22 True) \<le> MaxBody"
    by (simp add: booking_body_def token_ext_def digits.simps json_quote_def escape.simps(2) escape_ascii_def MaxBody_def
        char_of_def bit_0)
  have none: "create_refusal (appBookings sample_app) (token_user 3 RoleUser) 22 100000000000 sample_store = None"
    by (simp add: create_refusal_def sample_defs slot_booked_def slot_reserved_def bk_active_def token_user_def)
  have users: "3 \<in> usrID ` set (users sample_store)" "1000 \<notin> bkID ` set (bookings sample_store)"
    by (simp_all add: sample_defs)
  have r: "rqMethod ?r = ''POST''" "rqBody ?r = booking_body token_ext 22 True"
      "rqHeader ?r ''Authorization'' = bearer_prefix @ sign_token token_ext (cfgJWTSecret sample_config) 3 RoleUser 0"
    by (simp_all add: sample_request_def sample_config_def)
  have time: "unix_seconds token_lifetime = 86400" "unix_seconds 100000000000 = 100"
    by (simp_all add: unix_seconds_def token_lifetime_def)
  show ?thesis
    using booking_over_http [of token_world RoleUser 0 _ ?r sample_config 3 22 True sample_app, OF w(2) _ _ _ _ _ refl]
      none len users
    by (auto simp: token_ext_ok w r time int64_max_def StatusCreated_def fresh_ids_def new_booking_def bk_active_def)
qed

section \<open>Pages and times\<close>

text \<open>
  The pages that get through are sane: a page number from 1 on and a size between 1 and 100, both
  taken from the query as written or the defaults 1 and 20; anything else is an invalid request. Up
  to page 92233720368547758 the offset of the page fits into 64 bits.
\<close>

theorem pagination_in_bounds:
  "case parsePagination r of
     Inl e \<Rightarrow> has_code e ErrorInvalidRequest
   | Inr (page, pageSize) \<Rightarrow> 1 \<le> page \<and> page \<le> int64_max \<and> 1 \<le> pageSize \<and> pageSize \<le> 100 \<and>
       (rqQuery r ''page'' = [] \<and> page = 1 \<or> ParseInt (rqQuery r ''page'') = Some page) \<and>
       (rqQuery r ''pageSize'' = [] \<and> pageSize = 20 \<or> ParseInt (rqQuery r ''pageSize'') = Some pageSize) \<and>
       (92233720368547758 < page \<or> int64 ((page - 1) * pageSize) = (page - 1) * pageSize)"
proof -
  have parsed: "v \<le> int64_max" if "ParseInt t = Some v" for t v
    using that by (auto simp: ParseInt_def Let_def split: list.splits if_splits)
  have exact: "int64 ((page - 1) * pageSize) = (page - 1) * pageSize"
    if "1 \<le> page" "page \<le> 92233720368547758" "1 \<le> pageSize" "pageSize \<le> 100" for page pageSize :: int
  proof -
    have "(page - 1) * pageSize \<le> 92233720368547757 * 100" "0 \<le> (page - 1) * pageSize"
      using that mult_mono [of "page - 1" 92233720368547757 pageSize 100] by auto
    then show ?thesis
      by (simp add: int64_def)
  qed
  show ?thesis
  proof (cases "parsePagination r")
    case (Inl e)
    then show ?thesis
      by (auto simp: parsePagination_def split: option.splits if_splits)
  next
    case (Inr pn)
    obtain p n where pn: "pn = (p, n)"
      by (cases pn)
    from Inr pn have p: "rqQuery r ''page'' = [] \<and> p = 1 \<or> ParseInt (rqQuery r ''page'') = Some p"
        "rqQuery r ''pageSize'' = [] \<and> n = 20 \<or> ParseInt (rqQuery r ''pageSize'') = Some n"
        "1 \<le> p" "1 \<le> n" "n \<le> 100"
      by (auto simp: parsePagination_def split: option.splits if_splits)
    then have "p \<le> int64_max"
      using parsed by (auto simp: int64_max_def)
    moreover have "92233720368547758 < p \<or> int64 ((p - 1) * n) = (p - 1) * n"
      using p exact [of p n] by (meson not_le)
    ultimately show ?thesis
      using p by (simp only: Inr pn sum.case prod.case simp_thms)
  qed
qed

text \<open>Beyond it the offset wraps, and the database refuses it: an accepted page is an internal error.\<close>

lemma offset_overflow:
  assumes "calm (env w)" "usrRole u = RoleAdmin"
  shows "\<exists>e w'. run_state (ListBookings s u 92233720368547760 100) w = (Inl e, w') \<and>
    has_code e ErrorInternalError"
  using assms
  by (simp add: ListBookings_def BookingRepo_List_def run_check run_db_call_calm select_def
      sql_bookings_page_def int64_def)

text \<open>A time with seconds and a one-digit hour is accepted and comes back with its seconds.\<close>

lemma schedule_time_keeps_seconds:
  "schedule_parseTimeOfDay ''9:00:00'' = Inr (9 * time_Hour)" "scheduleTimeToAPI ''9:00:00'' = ''9:00:00''"
proof -
  have trim: "TrimSpace ''9:00:00'' = ''9:00:00''"
    by (rule TrimSpace_visible) (simp add: visible_def)
  then show "schedule_parseTimeOfDay ''9:00:00'' = Inr (9 * time_Hour)"
    by (simp add: schedule_parseTimeOfDay_def parse_layouts_def parse_hms_layout_def parse_hm_def is_digit_def
        digit_val_def fraction_def durations)
  show "scheduleTimeToAPI ''9:00:00'' = ''9:00:00''"
    by (simp add: scheduleTimeToAPI_def trim)
qed

end
