(* ===== verification/Process.thy ===== *)
theory Process
  imports Http_Contract Hub_Contract
begin

text \<open>
  The process: \<open>cmd/app/main.go\<close> with what only it calls, \<open>logging.New\<close>, \<open>postgres.NewPool\<close> and
  \<open>app.RunMigrations\<close>. The start is a function of what the libraries answer. After it, the goroutines
  (main itself, the subscriber, the two workers, the server with its requests) are interleaved: what
  happens next is an \<open>occurrence\<close>, and one that the goroutine concerned cannot make is without
  effect.
\<close>

section \<open>Logging\<close>

datatype log_level = LevelDebug | LevelInfo | LevelWarn | LevelError

fun level_rank :: "log_level \<Rightarrow> int" where
  "level_rank LevelDebug = - 4"
| "level_rank LevelInfo = 0"
| "level_rank LevelWarn = 4"
| "level_rank LevelError = 8"

lemma level_rank_inject: "level_rank l = level_rank m \<Longrightarrow> l = m"
  by (cases l; cases m) simp_all

instantiation log_level :: linorder
begin

definition less_eq_log_level :: "log_level \<Rightarrow> log_level \<Rightarrow> bool" where
  "less_eq_log_level l m \<longleftrightarrow> level_rank l \<le> level_rank m"

definition less_log_level :: "log_level \<Rightarrow> log_level \<Rightarrow> bool" where
  "less_log_level l m \<longleftrightarrow> level_rank l < level_rank m"

instance
  by standard (auto simp: less_eq_log_level_def less_log_level_def dest: level_rank_inject)

end

datatype log_format = TextHandler | JSONHandler

record logger =
  lgFormat :: log_format
  lgLevel :: log_level

definition parseLevel :: "ext \<Rightarrow> string \<Rightarrow> log_level" where
  "parseLevel x level =
     (let l = ToLower x (TrimSpace level)
      in if l = ''debug'' then LevelDebug
         else if l = ''warn'' \<or> l = ''warning'' then LevelWarn
         else if l = ''error'' then LevelError
         else LevelInfo)"

text \<open>
  \<open>strings.EqualFold\<close> with a name whose letters fold to ASCII letters only, as those of \<open>dev\<close> and
  \<open>local\<close> do.
\<close>

definition EqualFold :: "string \<Rightarrow> string \<Rightarrow> bool" where
  "EqualFold s name = (map lower_ascii s = map lower_ascii name)"

definition logging_New :: "ext \<Rightarrow> string \<Rightarrow> string \<Rightarrow> logger" where
  "logging_New x e level =
     \<lparr>lgFormat = (if EqualFold e ''dev'' \<or> EqualFold e ''local'' then TextHandler else JSONHandler),
      lgLevel = parseLevel x level\<rparr>"

text \<open>What the process does outside, in order: what it opens, uses and closes, and its log.\<close>

datatype resource = Signals | Migrator | Pool | Redis

datatype effect = Opened resource | Used resource | Closed resource | Logged log_level string

definition log_to :: "logger \<Rightarrow> log_level \<Rightarrow> string \<Rightarrow> effect list" where
  "log_to lg l message = (if lgLevel lg \<le> l then [Logged l message] else [])"

section \<open>Start\<close>

text \<open>
  What the libraries answer while the process starts: \<open>None\<close> is success. \<open>Up\<close> works on the tables of
  the database, which are there only after the first migration.
\<close>

datatype up_result = UpDone | UpNoChange | UpFailed go_error

record libraries =
  pgx_ParseConfig :: "string \<Rightarrow> go_error option"
  pgx_NewWithConfig :: "go_error option"
  pgx_Ping :: "go_error option"
  migrate_New :: "string \<Rightarrow> string \<Rightarrow> go_error option"
  migrate_Up :: "store option \<Rightarrow> up_result \<times> store option"
  redis_Ping :: "go_error option"

definition NewPool :: "libraries \<Rightarrow> string \<Rightarrow> go_error option \<times> effect list" where
  "NewPool lib databaseURL =
     (case pgx_ParseConfig lib databaseURL of
        Some err \<Rightarrow> (Some (FmtError ''parse postgres config'' err), [])
      | None \<Rightarrow>
          (case pgx_NewWithConfig lib of
             Some err \<Rightarrow> (Some (FmtError ''create postgres pool'' err), [])
           | None \<Rightarrow>
               (case pgx_Ping lib of
                  Some err \<Rightarrow> (Some (FmtError ''ping postgres'' err), [Opened Pool, Used Pool, Closed Pool])
                | None \<Rightarrow> (None, [Opened Pool, Used Pool]))))"

definition RunMigrations ::
  "libraries \<Rightarrow> string \<Rightarrow> string \<Rightarrow> store option \<Rightarrow> go_error option \<times> store option \<times> effect list" where
  "RunMigrations lib migrationsPath databaseURL tables =
     (case migrate_New lib migrationsPath databaseURL of
        Some err \<Rightarrow> (Some (FmtError ''create migrate instance'' err), tables, [])
      | None \<Rightarrow>
          (case migrate_Up lib tables of (r, tables) \<Rightarrow>
             (case r of UpFailed err \<Rightarrow> Some (FmtError ''apply migrations'' err) | _ \<Rightarrow> None,
              tables, [Opened Migrator, Used Migrator, Closed Migrator])))"

text \<open>The logger before \<open>SetDefault\<close>; its format is that of package \<open>log\<close>, which plays no part here.\<close>

definition default_logger :: logger where
  "default_logger = \<lparr>lgFormat = TextHandler, lgLevel = LevelInfo\<rparr>"

text \<open>
  \<open>main\<close> up to the Redis client: the configuration and the logger, unless it has returned, the tables
  and what was done. The deferred calls run when it returns, the last one first.
\<close>

definition start ::
  "libraries \<Rightarrow> ext \<Rightarrow> variables \<Rightarrow> store option \<Rightarrow> (config \<times> logger) option \<times> store option \<times> effect list" where
  "start lib x vars tables =
     (case Load x vars of
        Inl err \<Rightarrow> (None, tables, log_to default_logger LevelError ''load config'')
      | Inr cfg \<Rightarrow>
          let lg = logging_New x (cfgEnv cfg) (cfgLogLevel cfg)
          in case NewPool lib (DatabaseURL cfg) of
               (Some err, did) \<Rightarrow>
                 (None, tables, [Opened Signals] @ did @ log_to lg LevelError ''connect postgres'' @ [Closed Signals])
             | (None, did) \<Rightarrow>
                 (case (if cfgRunMigrations cfg
                        then RunMigrations lib (cfgMigrationsPath cfg) (DatabaseURL cfg) tables
                        else (None, tables, [])) of
                    (Some err, tables, migrated) \<Rightarrow>
                      (None, tables, [Opened Signals] @ did @ migrated @
                         log_to lg LevelError ''run migrations'' @ [Closed Pool, Closed Signals])
                  | (None, tables, migrated) \<Rightarrow>
                      (Some (cfg, lg), tables, [Opened Signals] @ did @ migrated @ [Opened Redis, Used Redis] @
                         (case redis_Ping lib of
                            Some err \<Rightarrow> log_to lg LevelWarn ''redis unavailable at startup''
                          | None \<Rightarrow> log_to lg LevelInfo ''redis connected''))))"

section \<open>The running process\<close>

text \<open>
  How far \<open>main\<close> is: in its select, in \<open>server.Shutdown\<close>, waiting for the goroutines, and then in its
  deferred calls, which close the Redis client, close the pool and release the signals; other goroutines
  run on between them.
\<close>

datatype stage = Selecting | ShuttingDown | Waiting | Closing_redis | Closing_pool | Releasing | Exited | Crashed

datatype worker = Starting | Looping | Returned

text \<open>
  The world holds the database; the context of the process is cancelled or not; the server serves
  requests, \<open>ListenAndServe\<close> has not returned; the subscriber runs; \<open>errCh\<close> and \<open>subscriberErrCh\<close> with
  room for one error each.
\<close>

record process =
  prWorld :: world
  prHub :: hub_state
  prCancelled :: bool
  prReleased :: bool
  prServing :: bool
  prListening :: bool
  prSubscribed :: bool
  prErrCh :: "go_error option"
  prSubscriberErrCh :: "go_error option"
  prExpiry :: worker
  prGenerator :: worker
  prRunErr :: "go_error option"
  prStage :: stage
  prEffects :: "effect list"

definition launch :: "world \<Rightarrow> store \<Rightarrow> effect list \<Rightarrow> process" where
  "launch w tables did =
     \<lparr>prWorld = w\<lparr>db := tables\<rparr>, prHub = NewHub, prCancelled = False, prReleased = False, prServing = True, prListening = True,
      prSubscribed = True, prErrCh = None, prSubscriberErrCh = None, prExpiry = Starting,
      prGenerator = Starting, prRunErr = None, prStage = Selecting, prEffects = did\<rparr>"

definition emit :: "effect list \<Rightarrow> process \<Rightarrow> process" where
  "emit did p = p\<lparr>prEffects := prEffects p @ did\<rparr>"

text \<open>\<open>errors.Is(err, context.Canceled)\<close>\<close>

fun is_canceled :: "go_error \<Rightarrow> bool" where
  "is_canceled CtxError = True"
| "is_canceled (FmtError _ err) = is_canceled err"
| "is_canceled (DomainError _ _ (Some err)) = is_canceled err"
| "is_canceled _ = False"

text \<open>
  A closed client answers with an error: nothing gets through to Redis, no statement to the database.
  What a run may use of the two is recorded, whether it comes to it or not.
\<close>

definition redis_open :: "stage \<Rightarrow> bool" where
  "redis_open st \<longleftrightarrow> st \<notin> {Closing_pool, Releasing, Exited}"

definition pool_open :: "stage \<Rightarrow> bool" where
  "pool_open st \<longleftrightarrow> st \<notin> {Releasing, Exited}"

definition clients_env :: "stage \<Rightarrow> env \<Rightarrow> env" where
  "clients_env st e =
     (let e = (if redis_open st then e else e\<lparr>redis_down_at := \<lambda>_. True\<rparr>)
      in if pool_open st then e else e\<lparr>fault_at := \<lambda>_. LostRequest\<rparr>)"

definition run_in :: "resource list \<Rightarrow> env \<Rightarrow> 'a go \<Rightarrow> process \<Rightarrow> 'a \<times> process" where
  "run_in uses e m p =
     (case run_state m ((prWorld p)\<lparr>env := clients_env (prStage p) e\<rparr>) of (r, w) \<Rightarrow>
      (r, emit (map Used uses) (p\<lparr>prWorld := w\<rparr>)))"

text \<open>The workers run under the context of the process.\<close>

definition worker_env :: "bool \<Rightarrow> env \<Rightarrow> env" where
  "worker_env cancelled e = (if cancelled then e\<lparr>ctx_done_at := \<lambda>_. True\<rparr> else e)"

definition run_job ::
  "logger \<Rightarrow> string \<Rightarrow> resource list \<Rightarrow> unit result go \<Rightarrow> env \<Rightarrow> process \<Rightarrow> process" where
  "run_job lg message uses m e p =
     (case run_in uses (worker_env (prCancelled p) e) m p of (r, p) \<Rightarrow>
        case r of
          Inr _ \<Rightarrow> p
        | Inl err \<Rightarrow> if is_canceled err then p else emit (log_to lg LevelWarn message) p)"

text \<open>\<open>time.NewTicker\<close> panics on an interval that is not positive, which nobody recovers from.\<close>

definition with_ticker :: "duration \<Rightarrow> (process \<Rightarrow> process) \<Rightarrow> process \<Rightarrow> process" where
  "with_ticker d k p = (if d \<le> 0 then p\<lparr>prStage := Crashed\<rparr> else k p)"

datatype wake = CtxDone | Ticked

definition expiry_worker :: "config \<Rightarrow> app \<Rightarrow> logger \<Rightarrow> wake \<Rightarrow> env \<Rightarrow> process \<Rightarrow> process" where
  "expiry_worker cfg a lg wake e p =
     (case prExpiry p of
        Starting \<Rightarrow> with_ticker (cfgReservationExpireInterval cfg) (prExpiry_update (\<lambda>_. Looping)) p
      | Looping \<Rightarrow>
          (case wake of
             CtxDone \<Rightarrow> if prCancelled p then p\<lparr>prExpiry := Returned\<rparr> else p
           | Ticked \<Rightarrow> run_job lg ''reservation expiration worker failed'' [Pool, Redis]
               (ExpireDue (appReservations a) (appExpireBatch a)) e p)
      | Returned \<Rightarrow> p)"

definition generator_worker :: "config \<Rightarrow> app \<Rightarrow> logger \<Rightarrow> wake \<Rightarrow> env \<Rightarrow> process \<Rightarrow> process" where
  "generator_worker cfg a lg wake e p =
     (case prGenerator p of
        Starting \<Rightarrow> with_ticker (cfgSlotGenerateInterval cfg) (prGenerator_update (\<lambda>_. Looping))
          (run_job lg ''slot generation failed'' [Pool] (Generate (appGenerator a)) e p)
      | Looping \<Rightarrow>
          (case wake of
             CtxDone \<Rightarrow> if prCancelled p then p\<lparr>prGenerator := Returned\<rparr> else p
           | Ticked \<Rightarrow> run_job lg ''slot generation failed'' [Pool] (Generate (appGenerator a)) e p)
      | Returned \<Rightarrow> p)"

text \<open>Without an error, \<open>Run\<close> returns only when the context is cancelled.\<close>

definition subscriber_of :: "config \<Rightarrow> redis_subscriber" where
  "subscriber_of cfg = \<lparr>rsubClient = True, rsubChannel = cfgRedisChannel cfg, rsubHub = True\<rparr>"

definition subscriber_goroutine :: "config \<Rightarrow> ext \<Rightarrow> redis_input list \<Rightarrow> process \<Rightarrow> process" where
  "subscriber_goroutine cfg x ins p =
     (if \<not> prSubscribed p then p
      else (case subscriber_Run x (Some (subscriber_of cfg)) ins (prHub p) of (err, st) \<Rightarrow>
        let returned = emit [Used Redis] (p\<lparr>prHub := st, prSubscribed := False\<rparr>)
        in case err of
             None \<Rightarrow> if prCancelled p then returned else p
           | Some err \<Rightarrow> if is_canceled err then returned else returned\<lparr>prSubscriberErrCh := Some err\<rparr>))"

text \<open>\<open>ListenAndServe\<close> returns, with an error other than \<open>ErrServerClosed\<close> or not; its line in the log is left out.\<close>

definition server_goroutine :: "go_error option \<Rightarrow> process \<Rightarrow> process" where
  "server_goroutine failed p =
     (if \<not> prListening p then p
      else let p = p\<lparr>prListening := False\<rparr>
        in case failed of None \<Rightarrow> p | Some err \<Rightarrow> p\<lparr>prErrCh := Some err\<rparr>)"

text \<open>\<open>stop\<close> releases the signals the first time and cancels the context; a second call does nothing.\<close>

definition main_stop :: "process \<Rightarrow> process" where
  "main_stop p = emit (if prReleased p then [] else [Closed Signals]) (p\<lparr>prReleased := True, prCancelled := True\<rparr>)"

datatype branch = ByContext | ByServer | BySubscriber

definition main_select :: "branch \<Rightarrow> process \<Rightarrow> process" where
  "main_select b p =
     (if prStage p \<noteq> Selecting then p
      else case b of
        ByContext \<Rightarrow> if prCancelled p then p\<lparr>prStage := ShuttingDown\<rparr> else p
      | ByServer \<Rightarrow>
          (case prErrCh p of
             None \<Rightarrow> p
           | Some err \<Rightarrow> main_stop (p\<lparr>prErrCh := None, prRunErr := Some (FmtError ''http server failed'' err),
               prStage := ShuttingDown\<rparr>))
      | BySubscriber \<Rightarrow>
          (case prSubscriberErrCh p of
             None \<Rightarrow> p
           | Some err \<Rightarrow> main_stop (p\<lparr>prSubscriberErrCh := None,
               prRunErr := Some (FmtError ''realtime subscriber failed'' err), prStage := ShuttingDown\<rparr>)))"

text \<open>\<open>server.Shutdown\<close> returns: the requests have ended, or the time for them has.\<close>

definition main_shutdown :: "logger \<Rightarrow> bool \<Rightarrow> process \<Rightarrow> process" where
  "main_shutdown lg in_time p =
     (if prStage p \<noteq> ShuttingDown then p
      else if in_time then p\<lparr>prServing := False, prListening := False, prStage := Waiting\<rparr>
      else emit (log_to lg LevelWarn ''graceful shutdown failed'')
        (p\<lparr>prListening := False, prStage := Waiting\<rparr>))"

definition workers_done :: "process \<Rightarrow> bool" where
  "workers_done p \<longleftrightarrow> \<not> prSubscribed p \<and> prExpiry p = Returned \<and> prGenerator p = Returned"

text \<open>The wait for the goroutines ends, or the time for it has; then \<open>main\<close> returns.\<close>

definition main_return :: "logger \<Rightarrow> bool \<Rightarrow> process \<Rightarrow> process" where
  "main_return lg in_time p =
     (if prStage p \<noteq> Waiting \<or> (in_time \<and> \<not> workers_done p) then p
      else emit ((if in_time then [] else log_to lg LevelWarn ''background shutdown timeout reached'') @
          (if prRunErr p = None then [] else log_to lg LevelError ''application terminated with error''))
        (p\<lparr>prStage := Closing_redis\<rparr>))"

text \<open>One deferred call of \<open>main\<close>, the last one first; the process ends with the last of them.\<close>

definition main_deferred :: "process \<Rightarrow> process" where
  "main_deferred p =
     (case prStage p of
        Closing_redis \<Rightarrow> emit [Closed Redis] (p\<lparr>prStage := Closing_pool\<rparr>)
      | Closing_pool \<Rightarrow> emit [Closed Pool] (p\<lparr>prStage := Releasing\<rparr>)
      | Releasing \<Rightarrow> main_stop (p\<lparr>prStage := Exited\<rparr>)
      | _ \<Rightarrow> p)"

datatype occurrence =
    Signal
  | Request route request env
  | Socket bool request env
  | Hub_acts hub_action
  | Server_stops "go_error option"
  | Subscriber_ends "redis_input list"
  | Expiry_wakes wake env
  | Generator_wakes wake env
  | Main_selects branch
  | Shutdown_returns bool
  | Wait_ends bool
  | Deferred_call

fun can_act :: "process \<Rightarrow> hub_action \<Rightarrow> bool" where
  "can_act p (Connect u) = False"
| "can_act p (Receive payload) = prSubscribed p"
| "can_act p (Read c input) = True"
| "can_act p (Write c wake sent) = True"

text \<open>A message that comes from Redis is a use of its client; the websocket clients use neither.\<close>

fun act_uses :: "hub_action \<Rightarrow> effect list" where
  "act_uses (Receive payload) = [Used Redis]"
| "act_uses act = []"

fun occur :: "config \<Rightarrow> app \<Rightarrow> logger \<Rightarrow> ext \<Rightarrow> occurrence \<Rightarrow> process \<Rightarrow> process" where
  "occur cfg a lg x Signal p = p\<lparr>prCancelled := True\<rparr>"
| "occur cfg a lg x (Request rt r e) p =
     (if prServing p then snd (run_in [Pool, Redis] e (serve (dependencies cfg a) rt r) p) else p)"
| "occur cfg a lg x (Socket upgraded r e) p =
     (if prServing p
      then (case run_state (ws_ServeHTTP (cfgJWTSecret cfg) upgraded r (prHub p)) ((prWorld p)\<lparr>env := e\<rparr>) of
              ((_, st), w) \<Rightarrow> p\<lparr>prHub := st, prWorld := w\<rparr>)
      else p)"
| "occur cfg a lg x (Hub_acts act) p =
     (if can_act p act then emit (act_uses act) (p\<lparr>prHub := perform x act (prHub p)\<rparr>) else p)"
| "occur cfg a lg x (Server_stops failed) p = server_goroutine failed p"
| "occur cfg a lg x (Subscriber_ends ins) p = subscriber_goroutine cfg x ins p"
| "occur cfg a lg x (Expiry_wakes wake e) p = expiry_worker cfg a lg wake e p"
| "occur cfg a lg x (Generator_wakes wake e) p = generator_worker cfg a lg wake e p"
| "occur cfg a lg x (Main_selects b) p = main_select b p"
| "occur cfg a lg x (Shutdown_returns in_time) p = main_shutdown lg in_time p"
| "occur cfg a lg x (Wait_ends in_time) p = main_return lg in_time p"
| "occur cfg a lg x Deferred_call p = main_deferred p"

definition happens :: "config \<Rightarrow> app \<Rightarrow> logger \<Rightarrow> ext \<Rightarrow> occurrence \<Rightarrow> process \<Rightarrow> process" where
  "happens cfg a lg x oc p = (if prStage p \<in> {Exited, Crashed} then p else occur cfg a lg x oc p)"

definition life :: "config \<Rightarrow> app \<Rightarrow> logger \<Rightarrow> ext \<Rightarrow> occurrence list \<Rightarrow> process \<Rightarrow> process" where
  "life cfg a lg x = fold (happens cfg a lg x)"


lemma life_Cons [simp]: "life cfg a lg x (oc # ocs) p = life cfg a lg x ocs (happens cfg a lg x oc p)"
  by (simp add: life_def)

lemma life_Nil [simp]: "life cfg a lg x [] p = p"
  by (simp add: life_def)

lemma life_keeps:
  assumes "\<And>oc p. oc \<in> set ocs \<Longrightarrow> I p \<Longrightarrow> I (happens cfg a lg x oc p)" "I p"
  shows "I (life cfg a lg x ocs p)"
  using assms by (induction ocs arbitrary: p) simp_all

lemma life_exited: "prStage p = Exited \<Longrightarrow> life cfg a lg x ocs p = p"
  by (induction ocs arbitrary: p) (simp_all add: happens_def)

section \<open>The database\<close>

lemma emit_simps [simp]:
  "prWorld (emit did p) = prWorld p" "prEffects (emit did p) = prEffects p @ did" "prStage (emit did p) = prStage p"
  "prCancelled (emit did p) = prCancelled p" "prExpiry (emit did p) = prExpiry p"
  "prGenerator (emit did p) = prGenerator p" "prSubscribed (emit did p) = prSubscribed p"
  "prRunErr (emit did p) = prRunErr p" "prServing (emit did p) = prServing p" "prReleased (emit did p) = prReleased p"
  by (simp_all add: emit_def)

lemma main_stop_simps [simp]:
  "prWorld (main_stop p) = prWorld p" "prStage (main_stop p) = prStage p" "prCancelled (main_stop p)"
  "prReleased (main_stop p)" "prExpiry (main_stop p) = prExpiry p" "prGenerator (main_stop p) = prGenerator p"
  "prSubscribed (main_stop p) = prSubscribed p" "prServing (main_stop p) = prServing p"
  "prEffects (main_stop p) = prEffects p @ (if prReleased p then [] else [Closed Signals])"
  by (simp_all add: main_stop_def)

lemma run_in_simps [simp]:
  "fst (run_in uses e m p) = fst (run_state m ((prWorld p)\<lparr>env := clients_env (prStage p) e\<rparr>))"
  "prWorld (snd (run_in uses e m p)) = snd (run_state m ((prWorld p)\<lparr>env := clients_env (prStage p) e\<rparr>))"
  "prEffects (snd (run_in uses e m p)) = prEffects p @ map Used uses"
  "prStage (snd (run_in uses e m p)) = prStage p" "prCancelled (snd (run_in uses e m p)) = prCancelled p"
  "prExpiry (snd (run_in uses e m p)) = prExpiry p" "prGenerator (snd (run_in uses e m p)) = prGenerator p"
  "prSubscribed (snd (run_in uses e m p)) = prSubscribed p" "prRunErr (snd (run_in uses e m p)) = prRunErr p"
  "prServing (snd (run_in uses e m p)) = prServing p" "prReleased (snd (run_in uses e m p)) = prReleased p"
  by (simp_all add: run_in_def emit_def split: prod.split)

lemma run_job_simps [simp]:
  "prWorld (run_job lg t uses m e p) =
    snd (run_state m ((prWorld p)\<lparr>env := clients_env (prStage p) (worker_env (prCancelled p) e)\<rparr>))"
  "prStage (run_job lg t uses m e p) = prStage p" "prCancelled (run_job lg t uses m e p) = prCancelled p"
  "prExpiry (run_job lg t uses m e p) = prExpiry p" "prGenerator (run_job lg t uses m e p) = prGenerator p"
  "prSubscribed (run_job lg t uses m e p) = prSubscribed p" "prRunErr (run_job lg t uses m e p) = prRunErr p"
  "prServing (run_job lg t uses m e p) = prServing p" "prReleased (run_job lg t uses m e p) = prReleased p"
  by (simp_all add: run_job_def case_prod_beta split: sum.split)

text \<open>The environments of an occurrence meet \<open>E\<close>, also with the context cancelled and the clients closed.\<close>

fun fits :: "(env \<Rightarrow> bool) \<Rightarrow> occurrence \<Rightarrow> bool" where
  "fits E (Request rt r e) = (\<forall>st. E (clients_env st e))"
| "fits E (Expiry_wakes wake e) = (\<forall>st b. E (clients_env st (worker_env b e)))"
| "fits E (Generator_wakes wake e) = (\<forall>st b. E (clients_env st (worker_env b e)))"
| "fits E _ = True"

lemma moves_from:
  assumes "moves_by a E m" "E e"
  shows "db (snd (run_state m (w\<lparr>env := e\<rparr>))) = db w \<or> step a E (db w) (db (snd (run_state m (w\<lparr>env := e\<rparr>))))"
  using assms(1) [unfolded moves_by_def, rule_format, of "w\<lparr>env := e\<rparr>"] assms(2) by simp

lemma moves_jobs:
  "moves_by a E (ExpireDue (appReservations a) (appExpireBatch a))" "moves_by a E (Generate (appGenerator a))"
  by (simp_all add: moves_by_def step.intros)

lemma run_job_moves:
  assumes "moves_by a E m" "\<forall>st b. E (clients_env st (worker_env b e))"
  shows "db (prWorld (run_job lg t uses m e p)) = db (prWorld p) \<or>
    step a E (db (prWorld p)) (db (prWorld (run_job lg t uses m e p)))"
  using moves_from [OF assms(1)] assms(2) by simp

lemma reads_token: "reads_only (AuthenticateToken secret token)"
  by (auto simp: AuthenticateToken_def parseAndValidateToken_def check_payload_def check_claims_def
      user_from_claims_def Let_def intro!: reads_intros split: option.split list.split sum.split)

lemma reads_socket: "reads_only (ws_ServeHTTP secret upgraded r st)"
  by (auto simp: ws_ServeHTTP_def ws_authenticate_def Let_def
      intro!: reads_intros reads_authenticate reads_token split: sum.split)

lemma happens_moves:
  assumes "fits E oc"
  shows "db (prWorld (happens cfg a lg x oc p)) = db (prWorld p) \<or>
    step a E (db (prWorld p)) (db (prWorld (happens cfg a lg x oc p)))"
proof (cases "prStage p \<in> {Exited, Crashed}")
  case False
  then show ?thesis
  proof (cases oc)
    case (Request rt r e)
    then show ?thesis
      using False assms moves_from [OF moves_serve, of E "clients_env (prStage p) e" cfg a] by (simp add: happens_def)
  next
    case (Socket upgraded r e)
    have "db (snd (run_state (ws_ServeHTTP (cfgJWTSecret cfg) upgraded r (prHub p)) ((prWorld p)\<lparr>env := e\<rparr>))) = db (prWorld p)"
      using reads_socket unfolding reads_only_def by simp
    then show ?thesis
      using Socket by (auto simp: happens_def split: prod.split)
  next
    case (Expiry_wakes wake e)
    then show ?thesis
      using False assms run_job_moves [OF moves_jobs(1), of E e]
      by (simp add: happens_def expiry_worker_def with_ticker_def del: run_job_simps(1) split: worker.split wake.split)
  next
    case (Generator_wakes wake e)
    then show ?thesis
      using False assms run_job_moves [OF moves_jobs(2), of E e]
      by (simp add: happens_def generator_worker_def with_ticker_def del: run_job_simps(1) split: worker.split wake.split)
  qed (auto simp: happens_def server_goroutine_def subscriber_goroutine_def main_select_def main_shutdown_def
      main_return_def main_deferred_def Let_def split: option.split branch.split prod.split stage.split)
qed (simp add: happens_def)


lemma life_reachable:
  assumes "reachable a E (db (prWorld p))" "list_all (fits E) ocs"
  shows "reachable a E (db (prWorld (life cfg a lg x ocs p)))"
proof (rule life_keeps [where I = "\<lambda>p. reachable a E (db (prWorld p))"])
  fix oc and p :: process
  assume "oc \<in> set ocs" "reachable a E (db (prWorld p))"
  then show "reachable a E (db (prWorld (happens cfg a lg x oc p)))"
    using happens_moves [of E oc cfg a lg x p] assms(2) by (auto simp: list_all_iff intro: reachable_step)
qed (rule assms(1))

text \<open>What golang-migrate promises: it makes the tables, empty, if there are none, and keeps the rows.\<close>

definition keeps_rows :: "libraries \<Rightarrow> bool" where
  "keeps_rows lib \<longleftrightarrow> (\<forall>tables. case migrate_Up lib tables of
     (UpFailed err, _) \<Rightarrow> True
   | (_, tables') \<Rightarrow> tables' = Some (case tables of None \<Rightarrow> empty_store | Some s \<Rightarrow> s))"

lemma start_tables:
  assumes "start lib x vars tables = (Some (cfg, lg), Some s, did)" "keeps_rows lib"
  shows "s = (case tables of None \<Rightarrow> empty_store | Some s0 \<Rightarrow> s0)"
  using assms(1) assms(2) [unfolded keeps_rows_def, rule_format, of tables]
  by (auto simp: start_def RunMigrations_def Let_def
      split: sum.splits prod.splits option.splits up_result.splits if_splits)

section \<open>What is opened is closed\<close>

text \<open>
  The resources that are open, the last one first; \<open>None\<close> after a use of one that is not open, and after
  a closing out of the reverse order. Only the signals may be released earlier, as \<open>main\<close> does when the
  server or the subscriber fails.
\<close>

fun disciplined :: "resource list \<Rightarrow> effect list \<Rightarrow> resource list option" where
  "disciplined now [] = Some now"
| "disciplined now (Opened r # es) = (if r \<in> set now then None else disciplined (r # now) es)"
| "disciplined now (Used r # es) = (if r \<in> set now then disciplined now es else None)"
| "disciplined now (Closed r # es) =
     (if r = Signals
      then if Signals \<in> set now then disciplined (remove1 Signals now) es else None
      else case now of [] \<Rightarrow> None | q # rest \<Rightarrow> if q = r then disciplined rest es else None)"
| "disciplined now (Logged l t # es) = disciplined now es"

lemma disciplined_append:
  "disciplined now (es @ fs) = (case disciplined now es of None \<Rightarrow> None | Some now' \<Rightarrow> disciplined now' fs)"
  by (induction now es rule: disciplined.induct) (simp_all split: list.split)

lemma disciplined_log [simp]: "disciplined now (log_to lg l t @ es) = disciplined now es"
    "disciplined now (log_to lg l t) = Some now"
  by (simp_all add: log_to_def)

lemma failed_start_closes:
  "start lib x vars tables = (None, tables', did) \<Longrightarrow> disciplined [] did = Some []"
  by (auto simp: start_def NewPool_def RunMigrations_def Let_def
      split: sum.splits prod.splits option.splits up_result.splits if_splits)

lemma start_opens:
  "start lib x vars tables = (Some (cfg, lg), tables', did) \<Longrightarrow> disciplined [] did = Some [Redis, Pool, Signals]"
  by (auto simp: start_def NewPool_def RunMigrations_def Let_def
      split: sum.splits prod.splits option.splits up_result.splits if_splits)

text \<open>What is open by the stage of \<open>main\<close>.\<close>

definition held :: "process \<Rightarrow> resource list" where
  "held p = (if redis_open (prStage p) then [Redis] else []) @ (if pool_open (prStage p) then [Pool] else []) @
     (if prReleased p then [] else [Signals])"

text \<open>Neither of the two waits of the shutdown runs into its time limit.\<close>

definition timely :: "occurrence \<Rightarrow> bool" where
  "timely oc \<longleftrightarrow> oc \<noteq> Shutdown_returns False \<and> oc \<noteq> Wait_ends False"

definition returning :: "process \<Rightarrow> bool" where
  "returning p \<longleftrightarrow> prStage p \<in> {Closing_redis, Closing_pool, Releasing, Exited}"

definition tidy :: "process \<Rightarrow> bool" where
  "tidy p \<longleftrightarrow> prStage p \<noteq> Crashed \<and> disciplined [] (prEffects p) = Some (held p) \<and>
     (prStage p = Waiting \<or> returning p \<longrightarrow> \<not> prServing p) \<and> (returning p \<longrightarrow> workers_done p) \<and>
     (prStage p = Exited \<longrightarrow> prReleased p)"

lemmas tidy_defs = tidy_def held_def returning_def redis_open_def pool_open_def

lemma run_job_effects:
  "disciplined now (prEffects (run_job lg t uses m e p)) = disciplined now (prEffects p @ map Used uses)"
  by (simp add: run_job_def case_prod_beta disciplined_append split: sum.split option.split)

lemma job_tidy:
  assumes "tidy p" "\<not> workers_done p" "set uses \<subseteq> {Pool, Redis}"
  shows "tidy (run_job lg t uses m e p)"
proof -
  have going: "\<not> returning p"
    using assms(1,2) by (auto simp: tidy_def)
  then have "{Pool, Redis} \<subseteq> set (held p)"
    by (auto simp: tidy_defs)
  then have "disciplined (held p) (map Used uses) = Some (held p)"
    using assms(3) by (induction uses) auto
  then show ?thesis
    using assms going by (auto simp: tidy_def run_job_effects disciplined_append held_def returning_def)
qed

lemma never_crashes:
  assumes "prStage p \<noteq> Crashed" "0 < cfgReservationExpireInterval cfg" "0 < cfgSlotGenerateInterval cfg"
  shows "prStage (happens cfg a lg x oc p) \<noteq> Crashed"
  using assms
  by (cases oc) (auto simp: happens_def expiry_worker_def generator_worker_def with_ticker_def
      server_goroutine_def subscriber_goroutine_def main_select_def main_shutdown_def main_return_def
      main_deferred_def Let_def split: worker.split wake.split option.split branch.split prod.split stage.split)

lemma happens_tidy:
  assumes "tidy p" "0 < cfgReservationExpireInterval cfg" "0 < cfgSlotGenerateInterval cfg" "timely oc"
  shows "tidy (happens cfg a lg x oc p)"
proof (cases "prStage p \<in> {Exited, Crashed}")
  case False
  then have going: "prStage p \<noteq> Exited" by simp
  show ?thesis
  proof (cases oc)
    case (Expiry_wakes wake e)
    have job: "tidy (run_job lg t [Pool, Redis] m e p)" if "prExpiry p \<noteq> Returned" for t m
      using that by (intro job_tidy assms(1)) (simp_all add: workers_done_def)
    then show ?thesis
      using Expiry_wakes assms(1,2) False
      by (auto simp: happens_def expiry_worker_def with_ticker_def split: worker.split wake.split)
        (simp_all add: tidy_defs workers_done_def)
  next
    case (Generator_wakes wake e)
    have job: "tidy (run_job lg t [Pool] m e p)" if "prGenerator p \<noteq> Returned" for t m
      using that by (intro job_tidy assms(1)) (simp_all add: workers_done_def)
    then show ?thesis
      using Generator_wakes assms(1,3) False
      by (auto simp: happens_def generator_worker_def with_ticker_def split: worker.split wake.split)
        (simp_all add: tidy_defs workers_done_def)
  next
    case (Main_selects b)
    then show ?thesis
      using assms(1) False
      by (cases b; cases "prReleased p")
        (auto simp: happens_def main_select_def tidy_defs disciplined_append split: option.split)
  next
    case Deferred_call
    then show ?thesis
      using assms(1) False
      by (cases "prStage p"; cases "prReleased p")
        (auto simp: happens_def main_deferred_def tidy_defs disciplined_append workers_done_def)
  next
    case (Hub_acts act)
    then show ?thesis
      using assms(1) False
      by (cases act) (auto simp: happens_def tidy_defs disciplined_append workers_done_def)
  qed (use assms(1,4) going False in \<open>auto simp: tidy_defs happens_def server_goroutine_def
      subscriber_goroutine_def main_shutdown_def main_return_def Let_def disciplined_append timely_def
      workers_done_def split: option.split prod.split\<close>)
qed (simp add: happens_def assms)

lemma launch_tidy:
  "start lib x vars tables = (Some (cfg, lg), Some s, did) \<Longrightarrow> tidy (launch w s did)"
  using start_opens by (simp add: tidy_defs launch_def)

lemma life_tidy:
  assumes "tidy p" "0 < cfgReservationExpireInterval cfg" "0 < cfgSlotGenerateInterval cfg" "list_all timely ocs"
  shows "tidy (life cfg a lg x ocs p)"
  using assms by (intro life_keeps [where I = tidy]) (simp_all add: happens_tidy list_all_iff)

lemma life_never_crashes:
  assumes "0 < cfgReservationExpireInterval cfg" "0 < cfgSlotGenerateInterval cfg"
  shows "prStage (life cfg a lg x ocs (launch w s did)) \<noteq> Crashed"
  using assms
  by (intro life_keeps [where I = "\<lambda>p. prStage p \<noteq> Crashed"]) (simp_all add: never_crashes launch_def)

section \<open>The process can be stopped\<close>

text \<open>
  A signal, and then nothing but what follows from it: main sees the context cancelled, the requests
  end in time, every goroutine takes its branch for the cancelled context.
\<close>

definition farewell :: "env \<Rightarrow> occurrence list" where
  "farewell e = [Signal, Main_selects ByContext, Shutdown_returns True, Subscriber_ends [],
     Expiry_wakes CtxDone e, Expiry_wakes CtxDone e, Generator_wakes CtxDone e, Generator_wakes CtxDone e,
     Wait_ends True, Deferred_call, Deferred_call, Deferred_call]"

lemma Generate_cancelled:
  "db (snd (run_state (Generate g) (w\<lparr>env := clients_env st (worker_env True e)\<rparr>))) = db w"
  by (simp add: Generate_def run_check run_ctx_Err worker_env_def clients_env_def Let_def)

definition leaving :: "process \<Rightarrow> bool" where
  "leaving p \<longleftrightarrow> prCancelled p \<and> prStage p \<in> {Waiting, Closing_redis, Closing_pool, Releasing}"

lemma main_leaves:
  assumes "prStage p \<notin> {Exited, Crashed}"
  shows "leaving (life cfg a lg x [Signal, Main_selects ByContext, Shutdown_returns True] p)"
    "db (prWorld (life cfg a lg x [Signal, Main_selects ByContext, Shutdown_returns True] p)) = db (prWorld p)"
  using assms
  by (cases "prStage p"; simp add: happens_def main_select_def main_shutdown_def leaving_def)+

lemma subscriber_leaves:
  assumes "leaving p"
  shows "leaving (happens cfg a lg x (Subscriber_ends []) p)"
    "\<not> prSubscribed (happens cfg a lg x (Subscriber_ends []) p)"
    "db (prWorld (happens cfg a lg x (Subscriber_ends []) p)) = db (prWorld p)"
  using assms
  by (auto simp: happens_def subscriber_goroutine_def leaving_def Let_def split: prod.split option.split)

lemma expiry_leaves:
  assumes "leaving p" "0 < cfgReservationExpireInterval cfg"
  shows "life cfg a lg x [Expiry_wakes CtxDone e, Expiry_wakes CtxDone e] p = p\<lparr>prExpiry := Returned\<rparr>"
  using assms by (cases "prExpiry p") (auto simp: happens_def expiry_worker_def with_ticker_def leaving_def)

lemma generator_leaves:
  fixes cfg :: config and a :: app and lg :: logger and x :: ext and e :: env and p :: process
  assumes "leaving p" "0 < cfgSlotGenerateInterval cfg"
  defines "q \<equiv> life cfg a lg x [Generator_wakes CtxDone e, Generator_wakes CtxDone e] p"
  shows "leaving q" "prGenerator q = Returned" "prExpiry q = prExpiry p" "prSubscribed q = prSubscribed p"
    "db (prWorld q) = db (prWorld p)"
proof -
  have p: "prStage p \<noteq> Exited" "prStage p \<noteq> Crashed" "prCancelled p"
    using assms(1) by (auto simp: leaving_def)
  have "prStage q = prStage p \<and> prCancelled q \<and> prGenerator q = Returned \<and> prExpiry q = prExpiry p \<and>
      prSubscribed q = prSubscribed p \<and> db (prWorld q) = db (prWorld p)"
    using p assms(2) unfolding q_def
    by (cases "prGenerator p") (simp_all add: happens_def generator_worker_def with_ticker_def Generate_cancelled)
  then show "leaving q" "prGenerator q = Returned" "prExpiry q = prExpiry p" "prSubscribed q = prSubscribed p"
      "db (prWorld q) = db (prWorld p)"
    using assms(1) by (simp_all add: leaving_def)
qed

lemma life_append: "life cfg a lg x (xs @ ys) p = life cfg a lg x ys (life cfg a lg x xs p)"
  by (simp add: life_def)

lemma main_ends:
  assumes "leaving p" "workers_done p"
  shows "prStage (life cfg a lg x [Wait_ends True, Deferred_call, Deferred_call, Deferred_call] p) = Exited"
    "workers_done (life cfg a lg x [Wait_ends True, Deferred_call, Deferred_call, Deferred_call] p)"
    "db (prWorld (life cfg a lg x [Wait_ends True, Deferred_call, Deferred_call, Deferred_call] p)) = db (prWorld p)"
  using assms
  by (cases "prStage p"; simp add: leaving_def happens_def main_return_def main_deferred_def workers_done_def)+

lemma farewell_exits:
  fixes cfg :: config and a :: app and lg :: logger and x :: ext and e :: env and p :: process
  assumes "prStage p \<notin> {Exited, Crashed}" "0 < cfgReservationExpireInterval cfg" "0 < cfgSlotGenerateInterval cfg"
  defines "q \<equiv> life cfg a lg x (farewell e) p"
  shows "prStage q = Exited" "workers_done q" "db (prWorld q) = db (prWorld p)"
proof -
  define p1 where "p1 = life cfg a lg x [Signal, Main_selects ByContext, Shutdown_returns True] p"
  define p2 where "p2 = happens cfg a lg x (Subscriber_ends []) p1"
  define p3 where "p3 = p2\<lparr>prExpiry := Returned\<rparr>"
  define p4 where "p4 = life cfg a lg x [Generator_wakes CtxDone e, Generator_wakes CtxDone e] p3"
  have p1: "leaving p1" "db (prWorld p1) = db (prWorld p)"
    using main_leaves [OF assms(1)] by (simp_all add: p1_def)
  have p2: "leaving p2" "\<not> prSubscribed p2" "db (prWorld p2) = db (prWorld p)"
    using subscriber_leaves [OF p1(1)] p1(2) by (simp_all add: p2_def)
  have p3: "leaving p3" "\<not> prSubscribed p3" "prExpiry p3 = Returned" "db (prWorld p3) = db (prWorld p)"
    using p2 by (simp_all add: p3_def leaving_def)
  have p4: "leaving p4" "workers_done p4" "db (prWorld p4) = db (prWorld p)"
    using generator_leaves [OF p3(1) assms(3)] p3(2-4) by (simp_all add: p4_def workers_done_def)
  have "q = life cfg a lg x ([Signal, Main_selects ByContext, Shutdown_returns True] @ [Subscriber_ends []] @
      [Expiry_wakes CtxDone e, Expiry_wakes CtxDone e] @ [Generator_wakes CtxDone e, Generator_wakes CtxDone e] @
      [Wait_ends True, Deferred_call, Deferred_call, Deferred_call]) p"
    by (simp add: q_def farewell_def)
  also have "\<dots> = life cfg a lg x [Wait_ends True, Deferred_call, Deferred_call, Deferred_call] p4"
    unfolding life_append p1_def [symmetric]
    using expiry_leaves [OF p2(1) assms(2), of a lg x e]
    by (simp only: p2_def [symmetric] p3_def [symmetric] p4_def [symmetric] life_Cons [of _ _ _ _ "Subscriber_ends []"] life_Nil)
  finally show "prStage q = Exited" "workers_done q" "db (prWorld q) = db (prWorld p)"
    using main_ends [OF p4(1,2)] p4(3) by simp_all
qed

lemma Load_intervals:
  assumes "Load x vars = Inr cfg"
  obtains n k where "ParseInt (getEnv vars ''RESERVATION_EXPIRE_INTERVAL_SECONDS'' ''15'') = Some n" "0 < n"
    "ParseInt (getEnv vars ''SLOT_GENERATE_INTERVAL_SECONDS'' ''60'') = Some k" "0 < k"
    "cfgReservationExpireInterval cfg = in_seconds n" "cfgSlotGenerateInterval cfg = in_seconds k"
  using assms
  by (auto simp: Load_def Let_def required_Inr split: sum.splits dest!: positive_env_Inr)

lemma start_Load: "start lib x vars tables = (Some (cfg, lg), tables', did) \<Longrightarrow> Load x vars = Inr cfg"
  by (auto simp: start_def Let_def split: sum.splits prod.splits option.splits if_splits)

text \<open>
  An interval of more than 292 years passes the checks of \<open>Load\<close>, wraps around, and takes the process
  down as soon as the worker runs, with everything left open.
\<close>

lemma long_interval_crashes:
  assumes "Load x vars = Inr cfg"
    "ParseInt (getEnv vars ''RESERVATION_EXPIRE_INTERVAL_SECONDS'' ''15'') = Some 9223372037"
  shows "prStage (life cfg a lg x [Expiry_wakes wake e] (launch w s did)) = Crashed"
proof -
  have "cfgReservationExpireInterval cfg = in_seconds 9223372037"
    using assms by (auto elim!: Load_intervals)
  then show ?thesis
    using interval_overflow
    by (simp add: happens_def expiry_worker_def with_ticker_def launch_def)
qed

definition sample_libraries :: libraries where
  "sample_libraries = \<lparr>pgx_ParseConfig = (\<lambda>_. None), pgx_NewWithConfig = None, pgx_Ping = None,
     migrate_New = (\<lambda>_ _. None),
     migrate_Up = (\<lambda>tables. case tables of None \<Rightarrow> (UpDone, Some empty_store) | Some s \<Rightarrow> (UpNoChange, Some s)),
     redis_Ping = Some ConnError\<rparr>"

lemma sample_libraries_keep_rows: "keeps_rows sample_libraries"
  by (simp add: keeps_rows_def sample_libraries_def split: option.split)

lemma sample_start:
  obtains cfg lg did where "start sample_libraries sample_ext empty_variables None = (Some (cfg, lg), Some empty_store, did)"
  using default_configuration
  by (auto simp: start_def NewPool_def RunMigrations_def sample_libraries_def Let_def)

section \<open>Properties\<close>

text \<open>
  The rules hold whatever the process goes through, as long as requests and runs of the workers are not
  interleaved with each other (\<open>Races\<close> and \<open>Double_Cancel\<close> show what that can do): from a database that has
  no tables yet, or one the service can reach, main migrates, starts its workers and serves; after any
  sequence of whole requests to any API routes with any bodies and tokens, whole runs of the two workers,
  websocket traffic, signals, failures of the server and the steps of the shutdown, the database is one
  the service can reach by its steps, and so satisfies its schema and has no slot that is booked and
  reserved at once.
\<close>

theorem process_keeps_the_rules:
  assumes "start lib x vars tables = (Some (cfg, lg), Some s, did)" "keeps_rows lib"
    "case tables of None \<Rightarrow> True | Some s0 \<Rightarrow> reachable (wire cfg gen) E s0" "list_all (fits E) ocs"
  shows "let s' = db (prWorld (life cfg (wire cfg gen) lg x ocs (launch w s did)))
    in reachable (wire cfg gen) E s' \<and> store_ok s' \<and> (\<forall>k. \<not> (slot_booked s' k \<and> slot_reserved s' k))"
proof -
  let ?s = "db (prWorld (life cfg (wire cfg gen) lg x ocs (launch w s did)))"
  have "reachable (wire cfg gen) E s"
    using start_tables [OF assms(1,2)] assms(3) reachable_empty by (simp split: option.splits)
  then have r: "reachable (wire cfg gen) E ?s"
    using assms(4) by (intro life_reachable) (simp_all add: launch_def)
  with consistent.always [OF r] show ?thesis
    by (auto simp: app_ok_def exclusive_def Let_def)
qed

lemma process_keeps_the_rules_witness:
  "\<exists>cfg lg did. start sample_libraries sample_ext empty_variables None = (Some (cfg, lg), Some empty_store, did) \<and>
    store_ok (db (prWorld (life cfg (wire cfg sample_generator) lg sample_ext
      [Generator_wakes Ticked sample_env, Request (Public PostRegister) (sample_request ''POST'' [] ''{}'') sample_env,
       Signal, Expiry_wakes Ticked sample_env] (launch sample_world empty_store did))))"
proof -
  obtain cfg lg did where
    st: "start sample_libraries sample_ext empty_variables None = (Some (cfg, lg), Some empty_store, did)"
    by (rule sample_start)
  then show ?thesis
    using process_keeps_the_rules [OF st sample_libraries_keep_rows, where E = "\<lambda>_. True" and gen = sample_generator and
        w = sample_world and ocs = "[Generator_wakes Ticked sample_env,
          Request (Public PostRegister) (sample_request ''POST'' [] ''{}'') sample_env,
          Signal, Expiry_wakes Ticked sample_env]"]
    by (auto simp: Let_def)
qed

text \<open>
  C33. The process can be stopped, and cleans up behind itself unless it runs out of time. With intervals
  up to 9223372036 seconds it never crashes. From every moment before its end, a signal followed by
  nothing but the branches of the goroutines for a cancelled context and the deferred calls of main
  brings it to its end, with the subscriber and both workers returned and the database as it was, even
  if the generator has not yet begun its first run and even if main was already returning. And unless the
  shutdown of the server or the wait for the goroutines runs into its time limit, requests, workers and
  subscriber use the pool and the Redis client only while they are open, which are exactly the ones
  \<open>held\<close> names for the stage of main, they are closed in the reverse order of their opening, and nothing
  is open at the end. (Requests and runs of the workers are whole; with a time limit passed the last part
  fails, see \<open>late_requests_use_closed_clients\<close>.)
\<close>

theorem process_stops_cleanly:
  assumes "start lib x vars tables = (Some (cfg, lg), Some s, did)"
    "ParseInt (getEnv vars ''RESERVATION_EXPIRE_INTERVAL_SECONDS'' ''15'') = Some n" "n \<le> 9223372036"
    "ParseInt (getEnv vars ''SLOT_GENERATE_INTERVAL_SECONDS'' ''60'') = Some k" "k \<le> 9223372036"
  shows "let p = life cfg a lg x ocs (launch w s did); q = life cfg a lg x (farewell e) p in
    prStage p \<noteq> Crashed \<and>
    (prStage p \<noteq> Exited \<longrightarrow> prStage q = Exited \<and> workers_done q \<and> db (prWorld q) = db (prWorld p)) \<and>
    (list_all timely ocs \<longrightarrow>
      disciplined [] (prEffects p) = Some (held p) \<and> (prStage p = Exited \<longrightarrow> held p = []) \<and>
      disciplined [] (prEffects q) = Some [])"
proof -
  let ?p = "life cfg a lg x ocs (launch w s did)"
  let ?q = "life cfg a lg x (farewell e) ?p"
  have pos: "0 < cfgReservationExpireInterval cfg" "0 < cfgSlotGenerateInterval cfg"
    using start_Load [OF assms(1)] assms(2-5) by (auto elim!: Load_intervals simp: in_seconds_exact)
  then have alive: "prStage ?p \<noteq> Crashed" "prStage ?q \<noteq> Crashed"
    using life_never_crashes [of cfg a lg x "ocs @ farewell e" w s did]
    by (simp_all add: life_never_crashes life_append)
  have ends: "prStage ?q = Exited" "prStage ?p \<noteq> Exited \<Longrightarrow> workers_done ?q \<and> db (prWorld ?q) = db (prWorld ?p)"
  proof -
    have "?q = ?p" if "prStage ?p = Exited"
      using that by (rule life_exited)
    then show "prStage ?q = Exited"
      using farewell_exits(1) [of ?p cfg a lg x e] alive pos by (cases "prStage ?p = Exited") simp_all
    show "workers_done ?q \<and> db (prWorld ?q) = db (prWorld ?p)" if "prStage ?p \<noteq> Exited"
      using farewell_exits(2,3) [of ?p cfg a lg x e] alive pos that by simp
  qed
  have "tidy ?p \<and> tidy ?q" if "list_all timely ocs"
  proof -
    have "list_all timely (ocs @ farewell e)"
      using that by (simp add: farewell_def timely_def)
    from life_tidy [OF launch_tidy [OF assms(1)] pos this] life_tidy [OF launch_tidy [OF assms(1)] pos that]
    show ?thesis
      unfolding life_append by blast
  qed
  then show ?thesis
    using alive ends by (auto simp: Let_def tidy_defs)
qed

lemma process_stops_cleanly_witness:
  "\<exists>cfg lg did. start sample_libraries sample_ext empty_variables None = (Some (cfg, lg), Some empty_store, did) \<and>
    prStage (life cfg sample_app lg sample_ext (farewell sample_env) (launch sample_world empty_store did)) = Exited"
proof -
  obtain cfg lg did where
    st: "start sample_libraries sample_ext empty_variables None = (Some (cfg, lg), Some empty_store, did)"
    by (rule sample_start)
  have "ParseInt (getEnv empty_variables ''RESERVATION_EXPIRE_INTERVAL_SECONDS'' ''15'') = Some 15"
    "ParseInt (getEnv empty_variables ''SLOT_GENERATE_INTERVAL_SECONDS'' ''60'') = Some 60"
    using default_numbers by (simp_all add: getEnv_def empty_variables_def)
  then show ?thesis
    using st process_stops_cleanly [OF st, of 15 60 sample_app "[]" sample_world sample_env]
    by (auto simp: Let_def launch_def)
qed

text \<open>
  When the time for the requests runs out, main goes on: it closes the clients under requests that are
  still served, whose events are lost with the closed Redis client, and, the pool being closed, whose
  statements fail.
\<close>

definition late_exit :: "env \<Rightarrow> occurrence list" where
  "late_exit e = [Signal, Main_selects ByContext, Shutdown_returns False, Wait_ends False, Deferred_call]"

lemma late_requests_use_closed_clients:
  fixes cfg :: config and a :: app and lg :: logger and x :: ext and e :: env and w :: world
  assumes "start lib x vars tables = (Some (cfg, lg), Some s, did)"
  defines "p \<equiv> life cfg a lg x (late_exit e) (launch w s did)"
  shows "prServing p" "prStage p = Closing_pool"
    "disciplined [] (prEffects p) = Some [Pool, Signals]"
    "disciplined [] (prEffects (happens cfg a lg x (Request rt r e) p)) = None"
    "prWorld (happens cfg a lg x (Request rt r e) p) =
      snd (run_state (serve (dependencies cfg a) rt r) ((prWorld p)\<lparr>env := e\<lparr>redis_down_at := \<lambda>_. True\<rparr>\<rparr>))"
proof -
  have did: "disciplined [] did = Some [Redis, Pool, Signals]"
    using start_opens [OF assms(1)] .
  show p: "prServing p" "prStage p = Closing_pool" "disciplined [] (prEffects p) = Some [Pool, Signals]"
    using did
    by (simp_all add: p_def late_exit_def launch_def happens_def main_select_def main_shutdown_def main_return_def
        main_deferred_def disciplined_append emit_def)
  then show "disciplined [] (prEffects (happens cfg a lg x (Request rt r e) p)) = None"
    by (simp add: happens_def disciplined_append)
  show "prWorld (happens cfg a lg x (Request rt r e) p) =
      snd (run_state (serve (dependencies cfg a) rt r) ((prWorld p)\<lparr>env := e\<lparr>redis_down_at := \<lambda>_. True\<rparr>\<rparr>))"
    using p by (simp add: happens_def clients_env_def redis_open_def pool_open_def)
qed

end
