(* ===== verification/Fairness.thy ===== *)
theory Fairness
  imports System
begin

text \<open>
  First come, first served. The waitlist numbers its entries from a sequence and the use cases hand a
  slot to the waiting entry with the lowest number, so nobody who still waits for a slot joined before
  somebody who was offered it. The queue is described by what a use case may do to it, and the rule is
  kept by every step of the system.
\<close>

section \<open>The order of the queue\<close>

text \<open>Entries are numbered in the order they joined.\<close>

definition queue_numbered :: "store \<Rightarrow> bool" where
  "queue_numbered s \<longleftrightarrow> distinct (map weID (waitlist s)) \<and> distinct (map wePosition (waitlist s)) \<and>
     (\<forall>e \<in> set (waitlist s). wePosition e < position_seq s)"

text \<open>Nobody who was offered a slot joined after somebody who still waits for it.\<close>

definition nobody_overtaken :: "store \<Rightarrow> bool" where
  "nobody_overtaken s \<longleftrightarrow> (\<forall>e \<in> set (waitlist s). \<forall>f \<in> set (waitlist s).
     we_active e \<longrightarrow> weSlotID f = weSlotID e \<longrightarrow> weNotifiedAt f \<noteq> None \<longrightarrow> wePosition f < wePosition e)"

text \<open>The entries that reservations were made for.\<close>

definition offered_entries :: "store \<Rightarrow> uuid option set" where
  "offered_entries s = rvWaitlistEntryID ` set (reservations s)"

definition offers_noted :: "store \<Rightarrow> bool" where
  "offers_noted s \<longleftrightarrow> (\<forall>i \<in> offered_entries s. \<exists>e \<in> set (waitlist s). i = Some (weID e) \<and> weNotifiedAt e \<noteq> None)"

definition queue_fair :: "store \<Rightarrow> bool" where
  "queue_fair s \<longleftrightarrow> queue_numbered s \<and> nobody_overtaken s \<and> offers_noted s"

text \<open>
  What a use case does to the queue: nothing, except for drawing numbers; one user joins at the end;
  one user leaves; the slot is offered to its first waiting entry.
\<close>

inductive queue_move :: "store \<Rightarrow> store \<Rightarrow> bool" where
  still: "waitlist s' = waitlist s \<Longrightarrow> position_seq s \<le> position_seq s' \<Longrightarrow>
    offered_entries s' \<subseteq> offered_entries s \<Longrightarrow> queue_move s s'"
| joined: "weID e \<notin> weID ` set (waitlist s) \<Longrightarrow> queue_move s (add_entry (joined_row e s) s)"
| left_it: "queue_move s (leave_entry i u s)"
| offered: "next_waiting (\<lambda>_. False) k s = Some e \<Longrightarrow> queue_move s (hand_over t rid k e now ttl s)"

lemma numbered_update:
  assumes "queue_numbered s" "\<And>e. weID (put e) = weID e" "\<And>e. wePosition (put e) = wePosition e"
  shows "queue_numbered (s\<lparr>waitlist := update_where P put (waitlist s)\<rparr>)"
proof -
  have "map weID (update_where P put (waitlist s)) = map weID (waitlist s)"
      "map wePosition (update_where P put (waitlist s)) = map wePosition (waitlist s)"
    by (simp_all add: update_where_def assms(2,3))
  moreover have "\<forall>e \<in> set (update_where P put (waitlist s)). wePosition e < position_seq s"
    using assms by (auto simp: queue_numbered_def set_update_where)
  ultimately show ?thesis
    using assms(1) by (simp add: queue_numbered_def)
qed

lemma hand_over_rows [simp]:
  "waitlist (hand_over t rid k e now ttl s) = update_where (\<lambda>x. weID x = weID e) (we_notify t) (waitlist s)"
  "position_seq (hand_over t rid k e now ttl s) = position_seq s"
  "offered_entries (hand_over t rid k e now ttl s) = insert (Some (weID e)) (offered_entries s)"
  by (auto simp: hand_over_def add_reservation_def notify_entry_def offered_entries_def)

lemma queue_move_numbered: "queue_move s s' \<Longrightarrow> queue_numbered s \<Longrightarrow> queue_numbered s'"
proof (induction rule: queue_move.induct)
  case (joined e s)
  then show ?case
    by (fastforce simp: queue_numbered_def add_entry_def)
next
  case (still s' s)
  then show ?case by (auto simp: queue_numbered_def)
next
  case (left_it s i u)
  then show ?case by (simp add: leave_entry_def numbered_update)
next
  case (offered k s e t rid now ttl)
  then have "queue_numbered (notify_entry t (weID e) s)"
    by (simp add: notify_entry_def numbered_update)
  then show ?case by (simp add: queue_numbered_def notify_entry_def)
qed

lemma offer_overtakes_nobody:
  assumes "queue_numbered s" "nobody_overtaken s" "next_waiting (\<lambda>_. False) k s = Some h"
  shows "nobody_overtaken (hand_over t rid k h now ttl s)"
proof -
  note h = next_waiting_Some(1) [OF assms(3)] and first = next_waiting_Some(2) [OF assms(3)]
  have same: "x = h" if "x \<in> set (waitlist s)" "weID x = weID h" for x
    using that h assms(1) by (auto simp: queue_numbered_def distinct_map inj_on_def)
  have later: "wePosition h < wePosition e" if "e \<in> set (waitlist s)" "weSlotID e = k" "we_active e" "weID e \<noteq> weID h" for e
  proof -
    have "wePosition e \<noteq> wePosition h"
      using that h assms(1) by (auto simp: queue_numbered_def distinct_map inj_on_def)
    then show ?thesis using first [of e] that by simp
  qed
  have rows: "set (waitlist (hand_over t rid k h now ttl s)) =
      {e \<in> set (waitlist s). weID e \<noteq> weID h} \<union> {we_notify t h}"
    using h same by (auto simp: set_update_where)
  show ?thesis
    unfolding nobody_overtaken_def rows
    using assms(2) h later by (auto simp: nobody_overtaken_def)
qed

lemma offers_noted_entries:
  assumes "offers_noted s" "waitlist s' = map put (waitlist s)" "offered_entries s' = offered_entries s"
    "\<And>e. weID (put e) = weID e" "\<And>e. weNotifiedAt e \<noteq> None \<Longrightarrow> weNotifiedAt (put e) \<noteq> None"
  shows "offers_noted s'"
  unfolding offers_noted_def assms(2,3)
  using assms(1,4,5) by (fastforce simp: offers_noted_def)

lemma queue_move_offers: "queue_move s s' \<Longrightarrow> offers_noted s \<Longrightarrow> offers_noted s'"
proof (induction rule: queue_move.induct)
  case (still s' s)
  then show ?case by (fastforce simp: offers_noted_def)
next
  case (joined e s)
  then show ?case by (fastforce simp: offers_noted_def add_entry_def offered_entries_def)
next
  case (left_it s i u)
  have "weNotifiedAt (we_cancel e) = weNotifiedAt e" for e
    by (simp add: we_cancel_def)
  then show ?case
    using left_it
    by (rule_tac put = "\<lambda>e. if leaves i u e then we_cancel e else e" in offers_noted_entries)
      (simp_all add: leave_entry_def update_where_def offered_entries_def)
next
  case (offered k s e t rid now ttl)
  have "offers_noted (notify_entry t (weID e) s)"
    using offered(2)
    by (rule offers_noted_entries [where put = "\<lambda>x. if weID x = weID e then we_notify t x else x"])
      (simp_all add: notify_entry_def update_where_def offered_entries_def)
  then have "\<forall>i \<in> offered_entries s. \<exists>x \<in> set (waitlist (hand_over t rid k e now ttl s)).
      i = Some (weID x) \<and> weNotifiedAt x \<noteq> None"
    by (simp add: offers_noted_def notify_entry_def offered_entries_def)
  moreover have "we_notify t e \<in> set (waitlist (hand_over t rid k e now ttl s))"
    using next_waiting_Some(1) [OF offered(1)] by (auto simp: set_update_where)
  then have "\<exists>x \<in> set (waitlist (hand_over t rid k e now ttl s)). Some (weID e) = Some (weID x) \<and> weNotifiedAt x \<noteq> None"
    by (intro bexI [of _ "we_notify t e"]) simp_all
  ultimately show ?case
    unfolding offers_noted_def [of "hand_over t rid k e now ttl s"] hand_over_rows(3) by blast
qed

lemma queue_move_order: "queue_move s s' \<Longrightarrow> queue_numbered s \<Longrightarrow> nobody_overtaken s \<Longrightarrow> nobody_overtaken s'"
proof (induction rule: queue_move.induct)
  case (still s' s)
  then show ?case by (simp add: nobody_overtaken_def)
next
  case (joined e s)
  moreover have "weNotifiedAt (joined_row e s) = None"
    by (simp add: joined_row_def)
  ultimately show ?case
    by (auto simp: nobody_overtaken_def add_entry_def queue_numbered_def)
next
  case (left_it s i u)
  have "weNotifiedAt (we_cancel e) = weNotifiedAt e" for e
    by (simp add: we_cancel_def)
  then show ?case
    using left_it by (auto simp: nobody_overtaken_def leave_entry_def set_update_where)
qed (rule offer_overtakes_nobody)

lemma queue_move_fair: "queue_move s s' \<Longrightarrow> queue_fair s \<Longrightarrow> queue_fair s'"
  using queue_move_numbered queue_move_order queue_move_offers by (simp add: queue_fair_def)

lemma queue_moves_fair: "queue_move\<^sup>*\<^sup>* s s' \<Longrightarrow> queue_fair s \<Longrightarrow> queue_fair s'"
  by (induction rule: rtranclp_induct) (auto intro: queue_move_fair)

section \<open>Every use case moves the queue so\<close>

abbreviation queue_moves :: "store \<Rightarrow> store \<Rightarrow> bool" where
  "queue_moves \<equiv> queue_move\<^sup>*\<^sup>*"

lemma queue_frame:
  assumes "waitlist s' = waitlist s" "position_seq s' = position_seq s" "offered_entries s' = offered_entries s"
  shows "queue_moves s s'"
  using assms by (intro r_into_rtranclp still) simp_all

lemma offered_entries_after [simp]:
  "offered_entries (add_booking b s) = offered_entries s"
  "offered_entries (cancel_booking i s) = offered_entries s"
  "offered_entries (add_user usr s) = offered_entries s"
  "offered_entries (set_reservation (rv_confirm t) i s) = offered_entries s"
  "offered_entries (set_reservation rv_cancel i s) = offered_entries s"
  "offered_entries (expire_rows ids t s) = offered_entries s"
proof -
  have "rvWaitlistEntryID ` set (update_where P put rows) = rvWaitlistEntryID ` set rows"
    if "\<And>r. rvWaitlistEntryID (put r) = rvWaitlistEntryID r" for P put and rows :: "slot_reservation list"
  proof -
    have "map rvWaitlistEntryID (update_where P put rows) = map rvWaitlistEntryID rows"
      by (simp add: update_where_def that)
    then show ?thesis by (metis set_map)
  qed
  then show "offered_entries (set_reservation (rv_confirm t) i s) = offered_entries s"
    "offered_entries (set_reservation rv_cancel i s) = offered_entries s"
    "offered_entries (expire_rows ids t s) = offered_entries s"
    by (simp_all add: offered_entries_def set_reservation_def expire_rows_def)
qed (simp_all add: offered_entries_def)

lemma offered_entries_cong: "reservations s' = reservations s \<Longrightarrow> offered_entries s' = offered_entries s"
  by (simp add: offered_entries_def)

lemma hand_over_queue:
  "next_waiting (\<lambda>_. False) k s = Some e \<Longrightarrow> queue_moves s (hand_over t rid k e now ttl s)"
  by (intro r_into_rtranclp offered)

lemma claim_next_queue:
  assumes "run_state (claim_next m s k now) w = (Inr out, w')" "unlocked (env w)"
  shows "queue_moves (db w) (db w')"
  using assms(1)
proof (cases rule: claim_next_InrE)
  case (head e t i)
  have "next_waiting (\<lambda>_. False) k (db w) = Some e"
    using head(1) assms(2) by (simp add: unlocked_def)
  then show ?thesis
    unfolding head(4) by (rule hand_over_queue)
qed simp

lemma claim_for_cancelled_queue:
  assumes "run_state (claim_for_cancelled s k) w = (Inr out, w')" "unlocked (env w)"
  shows "queue_moves (db w) (db w')"
  using assms(1)
proof (cases rule: claim_for_cancelled_InrE)
  case (head e t i)
  have "next_waiting (\<lambda>_. False) k (db w) = Some e"
    using head(1) assms(2) by (simp add: unlocked_def)
  then show ?thesis
    unfolding head(4) by (rule hand_over_queue)
qed simp

text \<open>A transaction that moves the queue by its body moves it as a whole.\<close>

lemma tx_outcome_queue:
  assumes "tx_outcome fn w s'"
    and "\<And>w1 x w2. db w1 = db w \<Longrightarrow> env w1 = env w \<Longrightarrow> run_state fn w1 = (Inr x, w2) \<Longrightarrow>
      queue_moves (db w) (db w2)"
  shows "queue_moves (db w) s'"
  using assms(1)
proof (rule tx_outcome_invariant)
  show "queue_moves (db w) ((db w)\<lparr>position_seq := n\<rparr>)" if "position_seq (db w) \<le> n" for n
    using that by (intro r_into_rtranclp still) (simp_all add: offered_entries_def)
qed (use assms(2) in blast)+

lemma CreateBooking_queue: "queue_moves (db w) (db (snd (run_state (CreateBooking s u k link) w)))"
  by (rule tx_outcome_queue [OF CreateBooking_outcome])
    (auto elim!: CreateBooking_tx_InrE intro: queue_frame)

lemma CancelBooking_queue:
  assumes "store_ok (db w)" "unlocked (env w)"
  shows "queue_moves (db w) (db (snd (run_state (CancelBooking s u k) w)))"
proof (rule tx_outcome_queue [OF CancelBooking_outcome])
  fix w1 :: world and r w2
  assume w1: "db w1 = db w" "env w1 = env w" and run: "run_state (CancelBooking_tx s u k) w1 = (Inr r, w2)"
  have "distinct (map bkID (bookings (db w1)))"
    using assms(1) w1 by (simp add: store_ok_defs)
  with run show "queue_moves (db w) (db w2)"
  proof (cases rule: CancelBooking_tx_InrE)
    case (released b out w3)
    have "queue_moves (db w) (db w3)"
      using released(8) w1 by (intro queue_frame) simp_all
    then show ?thesis
      using claim_for_cancelled_queue [OF released(10)] released(9) assms(2) w1
      by (metis rtranclp_trans)
  qed (simp add: w1)
qed

lemma JoinWaitlist_queue: "queue_moves (db w) (db (snd (run_state (JoinWaitlist u k) w)))"
  by (rule tx_outcome_queue [OF JoinWaitlist_outcome])
    (auto elim!: JoinWaitlist_tx_InrE simp: entry_insertable_def intro!: r_into_rtranclp joined)

lemma LeaveWaitlist_queue: "queue_moves (db w) (db (snd (run_state (LeaveWaitlist u k) w)))"
proof (rule tx_outcome_queue [OF LeaveWaitlist_outcome])
  fix w1 :: world and x w2
  assume "db w1 = db w" and "run_state (LeaveWaitlist_tx u k) w1 = (Inr x, w2)"
  moreover have "queue_moves (db w) (leave_entry k (usrID u) (db w))"
    by (intro r_into_rtranclp left_it)
  ultimately show "queue_moves (db w) (db w2)"
    by (cases x) (auto elim!: LeaveWaitlist_tx_InrE)
qed

lemma ConfirmReservation_queue:
  assumes "store_ok (db w)"
  shows "queue_moves (db w) (db (snd (run_state (ConfirmReservation s u k) w)))"
proof (rule tx_outcome_queue [OF ConfirmReservation_outcome])
  fix w1 :: world and x w2
  assume w1: "db w1 = db w"
    and run: "run_state (ConfirmReservation_tx u k (clock_at (env w) (ticks w))) w1 = (Inr x, w2)"
  have "store_ok (db w1)"
    using assms w1 by simp
  with run show "queue_moves (db w) (db w2)"
    by (rule ConfirmReservation_tx_InrE) (auto simp: w1 intro: queue_frame)
qed

lemma CancelReservation_queue:
  assumes "store_ok (db w)" "unlocked (env w)"
  shows "queue_moves (db w) (db (snd (run_state (CancelReservation s u k) w)))"
proof (rule tx_outcome_queue [OF CancelReservation_outcome])
  fix w1 :: world and r w2
  assume w1: "db w1 = db w" "env w1 = env w"
    and run: "run_state (CancelReservation_tx s u k (clock_at (env w) (ticks w))) w1 = (Inr r, w2)"
  have "store_ok (db w1)"
    using assms(1) w1 by simp
  with run show "queue_moves (db w) (db w2)"
  proof (cases rule: CancelReservation_tx_InrE)
    case (freed r got w3)
    have "queue_moves (db w) (db w3)"
      using freed(8) w1 by (intro queue_frame) simp_all
    then show ?thesis
      using claim_next_queue [OF freed(10)] freed(9) assms(2) w1 by (metis rtranclp_trans)
  qed (simp add: w1)
qed

lemma expire_loop_queue:
  assumes "run_state (expire_loop s now items v) w = (Inr v', w')" "unlocked (env w)"
  shows "queue_moves (db w) (db w')"
  using assms
proof (induction items arbitrary: v w)
  case (Cons item items)
  from Cons.prems(1) obtain out v1 w1 w2 where w1: "db w1 = db w" "env w1 = env w"
    and claim: "run_state (claim_next ''create reservation for next waitlist user'' s
      (rvSlotID item) now) w1 = (Inr out, w2)"
    and rest: "run_state (expire_loop s now items v1) w2 = (Inr v', w')"
    by (rule expire_loop_ConsE)
  have "queue_moves (db w) (db w2)" "env w2 = env w"
    using claim_next_queue [OF claim] claim_next_frame [OF claim] w1 Cons.prems(2) by simp_all
  then show ?case
    using Cons.IH [OF rest] Cons.prems(2) by (metis rtranclp_trans)
qed simp

lemma ExpireDue_queue:
  assumes "unlocked (env w)"
  shows "queue_moves (db w) (db (snd (run_state (ExpireDue s limit) w)))"
proof (rule tx_outcome_queue [OF ExpireDue_outcome])
  fix w1 :: world and out w2
  assume w1: "db w1 = db w" "env w1 = env w"
    and run: "run_state (ExpireDue_tx s (clock_at (env w) (ticks w)) (batch_limit limit)) w1 = (Inr out, w2)"
  obtain expired v where out: "out = (expired, v)" by (cases out)
  from run [unfolded out] show "queue_moves (db w) (db w2)"
  proof (rule ExpireDue_tx_InrE)
    fix w3 v0
    assume w3: "db w3 = expire_rows (expired_ids w1 (clock_at (env w) (ticks w)) (batch_limit limit))
        (timestamptz (clock_at (env w) (ticks w))) (db w1)" "env w3 = env w1"
      and loop: "run_state (expire_loop s (clock_at (env w) (ticks w)) expired v0) w3 = (Inr v, w2)"
    have "queue_moves (db w) (db w3)"
      using w1 w3 by (intro queue_frame) simp_all
    then show ?thesis
      using expire_loop_queue [OF loop] w1 w3 assms by (metis rtranclp_trans)
  qed
qed

lemma Register_queue: "queue_moves (db w) (db (snd (run_state (Register s email password role) w)))"
  using Register_db [of s email password role w] by (auto intro: queue_frame)

lemma CreateRoom_queue: "queue_moves (db w) (db (snd (run_state (CreateRoom u input) w)))"
proof -
  have "queue_moves (db w) (db v')" if "run_state (RoomRepo_Create x) v = (r, v')" "db v = db w" for x v r v'
    using RoomRepo_Create_db [of x v] that by (auto intro!: queue_frame simp: offered_entries_def)
  then show ?thesis
    by (auto simp: CreateRoom_def Let_def run_check split: prod.splits sum.splits option.splits)
qed

lemma CreateSchedule_queue: "queue_moves (db w) (db (snd (run_state (CreateSchedule u roomID input) w)))"
  using CreateSchedule_db [of w u roomID input] by (auto simp: schedules_added_def offered_entries_def intro!: queue_frame)

lemma slot_insert_queue: "sql_slot_insert sl s = Inr s' \<Longrightarrow> position_seq s' = position_seq s"
  by (auto dest: sql_slot_insert_Inr)

lemma insert_slots_queue: "insert_slots sls s = Inr s' \<Longrightarrow> position_seq s' = position_seq s"
  by (induction sls arbitrary: s) (auto split: sum.splits dest!: slot_insert_queue)

lemma Generate_queue: "queue_moves (db w) (db (snd (run_state (Generate g) w)))"
proof -
  obtain xs where xs: "insert_slots xs (db w) = Inr (db (snd (run_state (Generate g) w)))"
    using only_inserts_Generate by (auto simp: only_inserts_def slots_inserted_def)
  then show ?thesis
    using insert_slots_frame [OF xs] insert_slots_queue [OF xs]
    by (intro queue_frame) (simp_all add: offered_entries_def)
qed

lemmas use_case_queue = Register_queue CreateRoom_queue CreateSchedule_queue Generate_queue
  CreateBooking_queue CancelBooking_queue JoinWaitlist_queue LeaveWaitlist_queue
  ConfirmReservation_queue CancelReservation_queue ExpireDue_queue

lemma step_queue:
  assumes "step (wire cfg gen) unlocked s s'" "app_ok s"
  shows "queue_moves s s'"
  using assms by (induction rule: step.induct) (simp_all add: use_case_queue app_ok_def)

interpretation fair: kept "wire cfg gen" unlocked "\<lambda>s. app_ok s \<and> queue_fair s" for cfg gen
proof
  show "app_ok empty_store \<and> queue_fair empty_store"
    using app_ok_empty
    by (simp add: queue_fair_def queue_numbered_def nobody_overtaken_def offers_noted_def
        offered_entries_def empty_store_def)
  show "step (wire cfg gen) unlocked s s' \<Longrightarrow> app_ok s \<and> queue_fair s \<Longrightarrow> app_ok s' \<and> queue_fair s'" for s s'
    using consistent.keeps step_queue queue_moves_fair by blast
qed

section \<open>Nobody is overtaken\<close>

text \<open>
  C21. First come, first served. Over any run in which no foreign transaction holds rows of the queue,
  from a database whose queue is in order (the empty one, for instance), everybody a slot was ever
  reserved for had joined its waitlist before everybody who still waits for the slot: the entry the
  reservation was made for has the lower number.
\<close>

theorem nobody_is_overtaken:
  assumes "(step (wire cfg gen) unlocked)\<^sup>*\<^sup>* s0 s" "app_ok s0" "queue_fair s0" "r \<in> set (reservations s)"
    "e \<in> set (waitlist s)" "we_active e" "weSlotID e = rvSlotID r"
  shows "\<exists>f \<in> set (waitlist s). rvWaitlistEntryID r = Some (weID f) \<and> weUserID f = rvUserID r \<and>
    weSlotID f = rvSlotID r \<and> wePosition f < wePosition e"
proof -
  have app: "app_ok s" and fair: "queue_numbered s" "nobody_overtaken s" "offers_noted s"
    using fair.after_steps [OF assms(1)] assms(2,3) by (simp_all add: queue_fair_def)
  obtain f where f: "claim_of s r f"
    using app assms(4) by (auto simp: app_ok_def claims_ok_def)
  obtain f' where f': "f' \<in> set (waitlist s)" "rvWaitlistEntryID r = Some (weID f')" "weNotifiedAt f' \<noteq> None"
    using fair(3) assms(4) by (auto simp: offers_noted_def offered_entries_def)
  have "f' = f"
    using f f' fair(1) by (auto simp: claim_of_def queue_numbered_def distinct_map inj_on_def)
  then have "wePosition f < wePosition e"
    using fair(2) assms(5-7) f f' unfolding nobody_overtaken_def claim_of_def by simp
  then show ?thesis
    using f unfolding claim_of_def by blast
qed

text \<open>The sample world before anything was reserved: one slot is booked, two users wait for it.\<close>

definition two_waiting :: store where
  "two_waiting = sample_store\<lparr>waitlist := [sample_entry 40 20 2 WaitlistStatusActive 1,
     sample_entry 41 20 3 WaitlistStatusActive 2], reservations := []\<rparr>"

lemma two_waiting_ok: "app_ok two_waiting" "queue_fair two_waiting"
proof -
  have "store_ok two_waiting"
    by (simp add: two_waiting_def store_ok_defs sample_defs index_ok_def scr_room_day_def sl_room_start_def
      sl_overlap_def bk_active_def rv_active_def we_pending_def we_slot_user_def timestamptz_def)
  moreover have "exclusive two_waiting" "claims_ok two_waiting"
    by (simp_all add: exclusive_def slot_reserved_def claims_ok_def two_waiting_def)
  ultimately show "app_ok two_waiting"
    by (simp add: app_ok_def)
  show "queue_fair two_waiting"
    by (simp add: queue_fair_def queue_numbered_def nobody_overtaken_def offers_noted_def offered_entries_def
      two_waiting_def sample_defs)
qed

lemma two_waiting_cancelled:
  "\<exists>t i now. (step sample_app unlocked)\<^sup>*\<^sup>* two_waiting
    (hand_over t i 20 (sample_entry 40 20 2 WaitlistStatusActive 1) now 600000000000 (cancel_booking 30 two_waiting))"
proof -
  let ?w = "sample_world\<lparr>db := two_waiting\<rparr>" and ?s = "appBookings sample_app"
  let ?e = "sample_entry 40 20 2 WaitlistStatusActive 1"
  have rows: "find_row bkID 30 (bookings (db ?w)) = Some sample_booking"
    by (simp add: two_waiting_def sample_rows)
  have first: "next_waiting (\<lambda>_. False) 20 two_waiting = Some ?e"
    by (simp add: next_waiting_def claimable_def two_waiting_def sample_entry_def we_active_def)
  have ttl: "reservationTTLValue ?s = 600000000000"
    by (simp add: wire_def Let_def reservationTTLValue_def WithMetrics_def WithReservationRepository_def
        WithWaitlistRepository_def booking_NewService_def sample_config_def)
  obtain b w' where run: "run_state (CancelBooking ?s alice 30) ?w = (Inr b, w')"
    using CancelBooking_succeeds [of ?w ?s alice 30 sample_booking] two_waiting_ok rows
    by (auto simp: sample_facts fresh_ids_def two_waiting_def)
  have "distinct (map bkID (bookings (db ?w)))"
    using two_waiting_ok by (simp add: app_ok_def store_ok_defs)
  from run this rows have "\<exists>t i now. db w' = hand_over t i 20 ?e now 600000000000 (cancel_booking 30 two_waiting)"
  proof (cases rule: CancelBooking_effect)
    case (head n e t i now)
    then have "e = ?e"
      using first by (simp add: sample_env_def sample_active)
    then show ?thesis using head ttl by (auto simp: sample_active)
  next
    case (nobody n)
    then show ?thesis using first by (simp add: sample_env_def sample_active)
  qed (simp add: sample_active)
  moreover have "step sample_app unlocked two_waiting (db w')"
    using step_cancel [of unlocked ?w sample_app alice 30] run by simp
  then have "(step sample_app unlocked)\<^sup>*\<^sup>* two_waiting (db w')"
    by (rule r_into_rtranclp)
  ultimately show ?thesis
    by metis
qed

lemma nobody_is_overtaken_witness:
  "\<exists>s r f. (step sample_app unlocked)\<^sup>*\<^sup>* two_waiting s \<and> r \<in> set (reservations s) \<and> rvSlotID r = 20 \<and>
    f \<in> set (waitlist s) \<and> rvWaitlistEntryID r = Some (weID f) \<and> wePosition f < 2"
proof -
  let ?e = "sample_entry 40 20 2 WaitlistStatusActive 1" and ?f = "sample_entry 41 20 3 WaitlistStatusActive 2"
  obtain t i now where run: "(step sample_app unlocked)\<^sup>*\<^sup>* two_waiting (hand_over t i 20 ?e now 600000000000 (cancel_booking 30 two_waiting))"
    using two_waiting_cancelled by blast
  let ?s = "hand_over t i 20 ?e now 600000000000 (cancel_booking 30 two_waiting)"
  let ?r = "stored_reservation (reservation_for i 20 ?e now 600000000000)"
  have r: "?r \<in> set (reservations ?s)"
    by (simp add: hand_over_def add_reservation_def)
  have "?f \<in> set (waitlist ?s)"
    by (simp add: two_waiting_def sample_entry_def update_where_def)
  moreover have "we_active ?f" "weSlotID ?f = rvSlotID ?r" "wePosition ?f = 2"
    by (simp_all add: sample_entry_def we_active_def)
  ultimately obtain f where "f \<in> set (waitlist ?s)" "rvWaitlistEntryID ?r = Some (weID f)" "wePosition f < 2"
    using nobody_is_overtaken [OF run two_waiting_ok r, of ?f] by auto
  moreover have "rvSlotID ?r = 20" by simp
  ultimately show ?thesis
    using run r by blast
qed

end
