(* ===== verification/Races.thy ===== *)
theory Races
  imports Reservation_Contract Booking_Contract
begin

text \<open>
  Two transactions at once. Under PostgreSQL's default level every statement sees what has been
  committed before it, so between two statements of a closure other transactions may change the
  tables. The closure of \<open>CreateBooking\<close> reads the slot and its reservation and then inserts; it locks
  nothing when there is no reservation to lock. Here the two halves are apart, and \<open>others\<close> is what is
  committed in between. The first half writes nothing, so both see committed rows only.
\<close>

definition create_reads :: "booking_service \<Rightarrow> uuid \<Rightarrow> time \<Rightarrow> slot result go" where
  "create_reads s slotID now =
     check (wrapped ErrorInternalError ''get slot'') (SlotRepo_GetByID slotID) (\<lambda>row.
       case row of
         None \<Rightarrow> fail (NewDomainError ErrorSlotNotFound ''slot not found'')
       | Some slot \<Rightarrow>
           if slStartTime slot < now
           then fail (NewDomainError ErrorInvalidRequest ''cannot create booking for past slot'')
           else check same_error (check_reservation s slotID) (\<lambda>_. ok slot))"

definition create_writes :: "user \<Rightarrow> uuid \<Rightarrow> time \<Rightarrow> slot \<Rightarrow> (booking \<times> uuid) result go" where
  "create_writes u slotID now slot = do {
     i \<leftarrow> uuid_New;
     check same_error (insert_booking (new_booking i u slotID now)) (\<lambda>_.
       ok (new_booking i u slotID now, slRoomID slot))
   }"

definition others_commit :: "(store \<Rightarrow> store) \<Rightarrow> unit go" where
  "others_commit others = State (\<lambda>w. ((), w\<lparr>db := others (db w)\<rparr>))"

definition interrupted ::
  "(store \<Rightarrow> store) \<Rightarrow> 'a result go \<Rightarrow> ('a \<Rightarrow> 'b result go) \<Rightarrow> 'b result go" where
  "interrupted others first rest = check same_error first (\<lambda>x. do { others_commit others; rest x })"

definition concurrent_create ::
  "(store \<Rightarrow> store) \<Rightarrow> booking_service \<Rightarrow> user \<Rightarrow> uuid \<Rightarrow> time \<Rightarrow> (booking \<times> uuid) result go" where
  "concurrent_create others s u slotID now =
     interrupted others (create_reads s slotID now) (create_writes u slotID now)"

text \<open>Nobody in between: it is the closure of the code.\<close>

lemma concurrent_create_alone:
  "run_state (concurrent_create (\<lambda>st. st) s u k now) w = run_state (CreateBooking_tx s u k now) w"
  by (auto simp: concurrent_create_def interrupted_def create_reads_def create_writes_def CreateBooking_tx_def
      others_commit_def run_check same_error_def split: prod.splits sum.splits option.splits if_splits)

lemma create_reads_InrE:
  assumes "run_state (create_reads s k now) w = (Inr slot, w')"
  obtains "find_row slID k (slots (db w)) = Some slot" "now \<le> slStartTime slot" "db w' = db w" "env w' = env w"
    "bsReservations s \<longrightarrow> \<not> slot_reserved (db w) k"
  using assms
  by (auto simp: create_reads_def SlotRepo_GetByID_Inr elim!: check_InrE split: option.splits if_splits
      dest!: check_reservation_Inr)

lemma concurrent_create_InrE:
  assumes "run_state (concurrent_create others s u k now) w = (Inr out, w')"
  obtains slot i where "find_row slID k (slots (db w)) = Some slot" "now \<le> slStartTime slot"
    "bsReservations s \<longrightarrow> \<not> slot_reserved (db w) k" "out = (new_booking i u k now, slRoomID slot)"
    "booking_insertable (new_booking i u k now) (others (db w))"
    "db w' = add_booking (new_booking i u k now) (others (db w))"
proof -
  obtain slot w1 where w1: "run_state (create_reads s k now) w = (Inr slot, w1)"
    and rest: "run_state (create_writes u k now slot) (w1\<lparr>db := others (db w1)\<rparr>) = (Inr out, w')"
    using assms by (auto simp: concurrent_create_def interrupted_def others_commit_def elim!: check_InrE)
  from w1 show thesis
    using rest that by (auto simp: create_writes_def insert_booking_Inr elim!: create_reads_InrE check_InrE)
qed

text \<open>
  Whatever the others commit, the unique index keeps a slot from being booked twice; but nothing keeps
  a slot from being booked that has been reserved in between.
\<close>

lemma concurrent_create_outcome:
  assumes "run_state (concurrent_create others s u k now) w = (Inr out, w')" "store_ok (others (db w))"
  shows "store_ok (db w')"
    and "exclusive (others (db w)) \<Longrightarrow> exclusive (db w') \<longleftrightarrow> \<not> slot_reserved (others (db w)) k"
proof -
  from assms(1) obtain slot i where ins: "booking_insertable (new_booking i u k now) (others (db w))"
    and db: "db w' = add_booking (new_booking i u k now) (others (db w))"
    by (rule concurrent_create_InrE)
  show "store_ok (db w')"
    unfolding db by (rule store_ok_add_booking [OF assms(2) ins])
  show "exclusive (db w') \<longleftrightarrow> \<not> slot_reserved (others (db w)) k" if "exclusive (others (db w))"
    using that by (auto simp: db exclusive_def)
qed

lemma create_reads_calm:
  assumes "calm (env w)" "find_row slID k (slots (db w)) = Some slot" "now \<le> slStartTime slot"
    "\<not> slot_reserved (db w) k"
  shows "\<exists>w'. run_state (create_reads s k now) w = (Inr slot, w') \<and> db w' = db w \<and> env w' = env w"
proof -
  obtain w1 where "run_state (check_reservation s k) (tick w) = (Inr (), w1)" "db w1 = db w" "env w1 = env w"
    using check_reservation_calm(2) [of "tick w" s k] assms(1,4) by auto
  then show ?thesis
    using assms
    by (simp add: create_reads_def run_check SlotRepo_GetByID_def run_db_call_calm select_def)
qed

lemma concurrent_create_accepted:
  assumes "calm (env w)" "find_row slID k (slots (db w)) = Some slot" "now \<le> slStartTime slot"
    "\<not> slot_reserved (db w) k"
    "bkID ` set (bookings (others (db w))) \<subseteq> bkID ` set (bookings (db w)) \<and>
      users (others (db w)) = users (db w) \<and> slots (others (db w)) = slots (db w)"
    "\<not> slot_booked (others (db w)) k" "usrID u \<in> usrID ` set (users (db w))"
    "fresh_ids (env w) (bkID ` set (bookings (db w)))"
  shows "\<exists>i w'. run_state (concurrent_create others s u k now) w = (Inr (new_booking i u k now, slRoomID slot), w') \<and>
    db w' = add_booking (new_booking i u k now) (others (db w))"
proof -
  obtain w1 where w1: "run_state (create_reads s k now) w = (Inr slot, w1)" "db w1 = db w" "env w1 = env w"
    using create_reads_calm [OF assms(1-4)] by blast
  define w2 where "w2 = w1\<lparr>db := others (db w)\<rparr>"
  have w2: "env w2 = env w" "db w2 = others (db w)" "ticks w2 = ticks w1"
    by (simp_all add: w2_def w1)
  let ?b = "new_booking (fresh_at (env w) (ticks w1)) u k now"
  have "fresh_at (env w) (ticks w1) \<notin> bkID ` set (bookings (others (db w)))"
    using assms(5,8) unfolding fresh_ids_def by blast
  then have "booking_insertable ?b (others (db w))"
    using assms(5-7) find_row_SomeD [OF assms(2)]
    by (auto simp: booking_insertable_def index_hit_def slot_booked_def)
  then have "run_state (insert_booking ?b) (tick w2) = (Inr (), (tick (tick w2))\<lparr>db := add_booking ?b (others (db w))\<rparr>)"
    using insert_booking_calm(2) [of "tick w2" ?b] assms(1) w2 by simp
  then show ?thesis
    using w1 w2 by (auto simp: concurrent_create_def interrupted_def others_commit_def create_writes_def run_check w2_def)
qed

text \<open>
  C40. A hole in the isolation: while somebody tries to book a slot, its holder cancels and the slot is
  handed over to the queue. If the cancellation commits after the check for reservations and before
  the insert, both succeed, and the slot is booked by one user and reserved for another at once, which
  no sequence of whole operations can produce; the user with the reservation is refused when
  confirming it.
\<close>

theorem handed_over_slot_is_booked:
  assumes "run_state (CancelBooking s' v j) wc = (Inr b', wc')" "db wc = db w" "app_ok (db w)"
    "find_row bkID j (bookings (db w)) = Some b" "bk_active b" "slot_awaited (db w) (bkSlotID b)"
    "unlocked (env wc)" "bsWaitlists s'"
    "calm (env w)" "find_row slID (bkSlotID b) (slots (db w)) = Some slot" "now \<le> slStartTime slot"
    "usrID u \<in> usrID ` set (users (db w))" "fresh_ids (env w) (bkID ` set (bookings (db w)))"
  shows "\<exists>i w'. run_state (concurrent_create (\<lambda>_. db wc') s u (bkSlotID b) now) w =
      (Inr (new_booking i u (bkSlotID b) now, slRoomID slot), w') \<and>
    store_ok (db w') \<and> slot_booked (db w') (bkSlotID b) \<and> slot_reserved (db w') (bkSlotID b) \<and>
    (\<forall>r \<in> set (reservations (db w')). rvSlotID r = bkSlotID b \<longrightarrow>
      (\<forall>holder t. confirm_refusal holder (rvID r) t (db w') \<noteq> None))"
proof -
  let ?k = "bkSlotID b"
  have ok: "store_ok (db w)" "exclusive (db w)"
    using assms(3) by (auto simp: app_ok_def)
  then have ids: "distinct (map bkID (bookings (db wc)))" and bok: "bookings_ok (db w)"
    using assms(2) by (simp_all add: store_ok_defs)
  have b: "b \<in> set (bookings (db w))"
    using find_row_SomeD [OF assms(4)] by simp
  then have booked: "slot_booked (db w) ?k" and free: "\<not> slot_reserved (db w) ?k"
    using assms(5) ok(2) by (auto simp: slot_booked_def exclusive_def)
  obtain t rid e t' where over: "db wc' = hand_over t rid ?k e t' (reservationTTLValue s') (cancel_booking j (db w))"
    using assms(1) ids assms(4) [folded assms(2)]
  proof (cases rule: CancelBooking_effect)
    case (nobody n)
    moreover have "locked_at (env wc) n = (\<lambda>_. False)"
      using assms(7) by (auto simp: unlocked_def)
    ultimately show thesis
      using assms(2,6,8) by (auto simp: next_waiting_None slot_awaited_def)
  qed (use assms(2,5) that in auto)
  have rows: "bkID ` set (bookings (db wc')) \<subseteq> bkID ` set (bookings (db w))" "users (db wc') = users (db w)"
      "slots (db wc') = slots (db w)"
    by (auto simp: over hand_over_def add_reservation_def notify_entry_def cancel_booking_def set_update_where bk_cancel_def)
  have unbooked: "\<not> slot_booked (db wc') ?k" and reserved: "slot_reserved (db wc') ?k"
    using cancel_booking_frees(1) [OF bok assms(4,5)] by (simp_all add: over)
  obtain i w' where run: "run_state (concurrent_create (\<lambda>_. db wc') s u ?k now) w =
        (Inr (new_booking i u ?k now, slRoomID slot), w')"
      and db: "db w' = add_booking (new_booking i u ?k now) (db wc')"
    using concurrent_create_accepted [OF assms(9-11) free, of "\<lambda>_. db wc'" u s] rows unbooked assms(12,13) by auto
  have "app_ok (db wc')"
    using CancelBooking_app_ok [of wc s' v j] assms(1,2,3) by simp
  then have "store_ok (db w')"
    using concurrent_create_outcome(1) [OF run] by (simp add: app_ok_def)
  moreover have after: "slot_booked (db w') ?k" "slot_reserved (db w') ?k"
    using reserved by (simp_all add: db)
  moreover have "confirm_refusal holder (rvID r) t (db w') \<noteq> None"
    if r: "r \<in> set (reservations (db w'))" "rvSlotID r = ?k" for r holder t
  proof -
    have "find_row rvID (rvID r) (reservations (db w')) = Some r"
      using r(1) calculation(1) by (intro find_row_unique) (simp_all add: store_ok_defs)
    then show ?thesis
      using after(1) r(2) by (simp add: confirm_refusal_def)
  qed
  ultimately show ?thesis
    using run by blast
qed

lemma handed_over_slot_is_booked_witness:
  "\<exists>w' i. run_state (concurrent_create (\<lambda>_. db (snd (run_state (CancelBooking sample_bookings alice 30) sample_world)))
      sample_bookings carol 20 100000000000) sample_world = (Inr (new_booking i carol 20 100000000000, 10), w') \<and>
    slot_booked (db w') 20 \<and> slot_reserved (db w') 20"
proof -
  obtain b' wc' where run: "run_state (CancelBooking sample_bookings alice 30) sample_world = (Inr b', wc')"
    using CancelBooking_succeeds [of sample_world sample_bookings alice 30 sample_booking]
    by (auto simp: sample_facts)
  have "find_row slID 20 (slots sample_store) = Some (sample_slot 20 3600000000000)"
      "100000000000 \<le> slStartTime (sample_slot 20 3600000000000)" "slRoomID (sample_slot 20 3600000000000) = 10"
    by (simp_all add: sample_store_def) (simp_all add: sample_slot_def)
  then show ?thesis
    using handed_over_slot_is_booked [OF run, of sample_world sample_booking "sample_slot 20 3600000000000"
        100000000000 carol sample_bookings] run
    by (auto simp: sample_facts)
qed

end
