(* ===== verification/Double_Cancel.thy ===== *)
theory Double_Cancel
  imports Races
begin

text \<open>
  The closure of \<open>CancelBooking\<close> decides whether it frees the slot from the status it read first, without
  a lock; the cancelling update behind it succeeds on a cancelled booking too. Cut between the two, a
  second cancellation of the same booking frees a slot that is no longer its own.
\<close>

section \<open>The closure in two halves\<close>

definition cancel_reads :: "user \<Rightarrow> uuid \<Rightarrow> booking result go" where
  "cancel_reads u bookingID =
     check (wrapped ErrorInternalError ''get booking'') (BookingRepo_GetByID bookingID) (\<lambda>row.
       case row of
         None \<Rightarrow> fail (NewDomainError ErrorBookingNotFound ''booking not found'')
       | Some existing \<Rightarrow>
           if bkUserID existing \<noteq> usrID u
           then fail (NewDomainError ErrorForbidden ''cannot cancel another user's booking'')
           else ok existing)"

definition cancel_writes :: "booking_service \<Rightarrow> uuid \<Rightarrow> booking \<Rightarrow> cancel_result result go" where
  "cancel_writes s bookingID existing =
     check (wrapped ErrorInternalError ''cancel booking'') (BookingRepo_SetCancelled bookingID) (\<lambda>row.
       case row of
         None \<Rightarrow> fail (NewDomainError ErrorBookingNotFound ''booking not found'')
       | Some updated \<Rightarrow>
           check (wrapped ErrorInternalError ''get slot'') (SlotRepo_GetByID (bkSlotID updated)) (\<lambda>slot.
           let roomID = (case slot of None \<Rightarrow> 0 | Some sl \<Rightarrow> slRoomID sl) in
           if bkStatus existing = BookingStatusActive
           then check same_error (claim_for_cancelled s (bkSlotID updated))
             (\<lambda>(entry, created). ok \<lparr>crResult = updated, crRoomID = roomID, crSlotReleased = True,
                crNotifiedEntry = entry, crCreatedReservation = created\<rparr>)
           else ok \<lparr>crResult = updated, crRoomID = roomID, crSlotReleased = False,
                crNotifiedEntry = None, crCreatedReservation = None\<rparr>))"

definition concurrent_cancel ::
  "(store \<Rightarrow> store) \<Rightarrow> booking_service \<Rightarrow> user \<Rightarrow> uuid \<Rightarrow> cancel_result result go" where
  "concurrent_cancel others s u bookingID =
     interrupted others (cancel_reads u bookingID) (cancel_writes s bookingID)"

lemma concurrent_cancel_alone:
  "run_state (concurrent_cancel (\<lambda>st. st) s u k) w = run_state (CancelBooking_tx s u k) w"
  by (auto simp: concurrent_cancel_def interrupted_def cancel_reads_def cancel_writes_def CancelBooking_tx_def
      others_commit_def run_check same_error_def split: prod.splits sum.splits option.splits if_splits)

section \<open>Cancelled in between\<close>

lemma concurrent_cancel_again:
  assumes "calm (env w)" "unlocked (env w)" "bsReservations s" "bsWaitlists s"
    "find_row bkID j (bookings (db w)) = Some b" "bkUserID b = usrID u" "bk_active b"
    "store_ok (others (db w))" "find_row bkID j (bookings (others (db w))) = Some b'" "\<not> bk_active b'"
    "slot_awaited (others (db w)) (bkSlotID b')" "\<not> slot_reserved (others (db w)) (bkSlotID b')"
    "fresh_ids (env w) (rvID ` set (reservations (others (db w))))"
  shows "\<exists>r w' t i e now. run_state (concurrent_cancel others s u j) w = (Inr r, w') \<and> crSlotReleased r \<and>
    crResult r = b' \<and> next_waiting (\<lambda>_. False) (bkSlotID b') (others (db w)) = Some e \<and>
    reservation_insertable (reservation_for i (bkSlotID b') e now (reservationTTLValue s))
      (notify_entry t (weID e) (others (db w))) \<and>
    db w' = hand_over t i (bkSlotID b') e now (reservationTTLValue s) (others (db w))"
proof -
  let ?k = "bkSlotID b'"
  define w1 where "w1 = (tick w)\<lparr>db := others (db w)\<rparr>"
  have w1: "db w1 = others (db w)" "env w1 = env w"
    by (simp_all add: w1_def)
  have reads: "run_state (cancel_reads u j) w = (Inr b, tick w)"
    using assms(1,5,6) by (simp add: cancel_reads_def run_check BookingRepo_GetByID_def run_db_call_calm select_def tick_def)
  have "distinct (map bkID (bookings (db w1)))"
    using assms(8) by (simp add: w1 store_ok_defs)
  then have set: "run_state (BookingRepo_SetCancelled j) w1 = (Inr (Some b'), tick (tick w1))"
    using assms(1,9,10) find_active_booking [of j "db w1" b'] by (simp add: w1 BookingRepo_SetCancelled_inactive)
  have slot: "run_state (SlotRepo_GetByID ?k) (tick (tick w1)) =
      (Inr (find_row slID ?k (slots (db w1))), tick (tick (tick w1)))"
    using assms(1) by (simp add: SlotRepo_GetByID_Inr w1)
  let ?w3 = "tick (tick (tick w1))"
  have free: "locked_at (env w) n = (\<lambda>_. False)" for n
    using assms(2) by (auto simp: unlocked_def)
  obtain out w' where claim: "run_state (claim_for_cancelled s ?k) ?w3 = (Inr out, w')"
    using claim_for_cancelled_calm [of ?w3 ?k s] assms by (auto simp: w1)
  have run: "\<exists>r. run_state (concurrent_cancel others s u j) w = (Inr r, w') \<and> crSlotReleased r \<and> crResult r = b'"
    using assms(7) claim
    by (simp add: concurrent_cancel_def interrupted_def others_commit_def cancel_writes_def run_check reads
        w1_def [symmetric] set slot Let_def bk_active_def split: prod.split)
  from claim show ?thesis
  proof (cases rule: claim_for_cancelled_InrE)
    case nobody
    then show ?thesis
      using assms(2,4,11) by (auto simp: unlocked_def w1 next_waiting_None slot_awaited_def)
  next
    case (head e t i now)
    then have "next_waiting (\<lambda>_. False) ?k (others (db w)) = Some e"
      "reservation_insertable (reservation_for i ?k e now (reservationTTLValue s)) (notify_entry t (weID e) (others (db w)))"
      "db w' = hand_over t i ?k e now (reservationTTLValue s) (others (db w))"
      by (simp_all add: free w1)
    with run show ?thesis
      by blast
  qed
qed

lemma CreateBooking_effect:
  assumes "run_state (CreateBooking s u k link) w = (Inr b, w')"
  obtains i now where "b = new_booking i u k now" "booking_insertable b (db w)" "db w' = add_booking b (db w)"
    "bsReservations s \<longrightarrow> \<not> slot_reserved (db w) k"
  by (rule CreateBooking_InrE [OF assms]) (auto elim!: CreateBooking_tx_InrE intro: that)

text \<open>The row of a cancelled booking stays through a new booking.\<close>

lemma cancelled_row:
  assumes "find_row bkID j (bookings st) = Some b"
  shows "\<exists>b'. find_row bkID j (bookings (add_booking c (cancel_booking j st))) = Some b' \<and> \<not> bk_active b' \<and>
    bkSlotID b' = bkSlotID b"
proof -
  have "\<exists>b'. find_row bkID j (update_where (\<lambda>x. bkID x = j \<and> bk_active x) bk_cancel rows) = Some b' \<and>
      \<not> bk_active b' \<and> bkSlotID b' = bkSlotID b" if "find_row bkID j rows = Some b" for rows
    using that by (induction rows) (auto simp: update_where_def bk_cancel_def bk_active_def split: if_splits)
  then show ?thesis
    using assms unfolding add_booking_def cancel_booking_def by (fastforce simp: find_row_append)
qed

text \<open>
  C22. A second hole in the isolation: two cancellations of the same booking (a button pressed twice). The
  second has read the booking as active when the first commits; then somebody books the slot, and
  somebody joins the queue for it. The second cancellation reports success, frees the slot again and
  hands it to the queue, although it is booked: it ends up booked by one user and reserved for another.
\<close>

theorem cancelled_twice_hands_over_booked_slot:
  assumes "run_state (CancelBooking s1 u j) w1 = (Inr b1, w1')" "db w1 = db w"
    "run_state (CreateBooking s2 x k link) w2 = (Inr b2, w2')" "db w2 = db w1'"
    "run_state (JoinWaitlist v k) w3 = (Inr e, w3')" "db w3 = db w2'"
    "app_ok (db w)" "find_row bkID j (bookings (db w)) = Some b" "bkUserID b = usrID u" "bk_active b"
    "bkSlotID b = k" "\<not> slot_awaited (db w) k" "bsReservations s" "bsWaitlists s"
    "calm (env w)" "unlocked (env w)" "fresh_ids (env w) (rvID ` set (reservations (db w)))"
  shows "\<exists>r w'. run_state (concurrent_cancel (\<lambda>_. db w3') s u j) w = (Inr r, w') \<and> crSlotReleased r \<and>
    store_ok (db w') \<and> slot_booked (db w') k \<and> slot_reserved (db w') k"
proof -
  have ids: "distinct (map bkID (bookings (db w1)))" and free: "\<not> slot_reserved (db w) k"
    and ok: "store_ok (db w)"
    using assms(2,7,8,10,11) find_row_SomeD [OF assms(8)]
    by (auto simp: app_ok_def exclusive_def store_ok_defs slot_booked_def)
  have first: "db w1' = cancel_booking j (db w)"
    using assms(1) ids assms(8) [folded assms(2)]
  proof (cases rule: CancelBooking_effect)
    case (head n e' t i now)
    then show ?thesis
      using assms(2,11,12) next_waiting_Some(1) [OF head(2)] by (auto simp: slot_awaited_def)
  qed (use assms(2,10) in auto)
  obtain c where c: "booking_insertable c (db w2)" "db w2' = add_booking c (db w2)" "bk_active c" "bkSlotID c = k"
    using assms(3) by (auto elim!: CreateBooking_effect)
  obtain e0 where e0: "entry_insertable e0 (db w3)" "we_active e0" "weSlotID e0 = k"
      "db w3' = add_entry (joined_row e0 (db w3)) (db w3)"
    using assms(5) by (auto elim!: JoinWaitlist_effect)
  note dbs = first c(2) assms(4,6) e0(4)
  obtain b' where b': "find_row bkID j (bookings (db w3')) = Some b'" "\<not> bk_active b'" "bkSlotID b' = k"
    using cancelled_row [OF assms(8), of c] assms(11) by (auto simp: dbs add_entry_def)
  have "store_ok (db w2')"
    using store_ok_add_booking [OF store_ok_cancel_booking [OF ok, of j]] c(1) by (simp add: dbs)
  then have ok3: "store_ok (db w3')"
    using store_ok_add_entry e0(1) by (simp add: e0(4) assms(6))
  have now: "slot_booked (db w3') k" "slot_awaited (db w3') k" "\<not> slot_reserved (db w3') k"
    using c(3,4) e0(2,3) free by (simp_all add: dbs)
  have "reservations (db w3') = reservations (db w)"
    by (simp add: dbs add_entry_def add_booking_def cancel_booking_def)
  then obtain r w' t i e' now' where run: "run_state (concurrent_cancel (\<lambda>_. db w3') s u j) w = (Inr r, w')"
      "crSlotReleased r"
    and next_e: "next_waiting (\<lambda>_. False) k (db w3') = Some e'"
    and ins: "reservation_insertable (reservation_for i k e' now' (reservationTTLValue s)) (notify_entry t (weID e') (db w3'))"
    and db: "db w' = hand_over t i k e' now' (reservationTTLValue s) (db w3')"
    using concurrent_cancel_again [OF assms(15,16,13,14,8-10), of "\<lambda>_. db w3'" b'] ok3 b' now assms(17) by auto
  have "we_pending z" if "z \<in> set (waitlist (db w3'))" "weID z = weID e'" for z
    using that next_waiting_Some(1) [OF next_e] ok3
    by (auto simp: store_ok_defs distinct_map inj_on_def we_pending_def we_active_def)
  then have "store_ok (db w')"
    unfolding db hand_over_def by (intro store_ok_add_reservation [OF _ ins] store_ok_notify_entry [OF ok3])
  then show ?thesis
    using run now(1) by (auto simp: db)
qed


definition quiet_store :: store where
  "quiet_store = leave_entry 41 3 (leave_entry 40 2 sample_store)"

lemma quiet_rows [simp]:
  "bookings quiet_store = bookings sample_store" "slots quiet_store = slots sample_store"
  "users quiet_store = users sample_store" "reservations quiet_store = reservations sample_store"
  by (simp_all add: quiet_store_def leave_entry_def)

lemma quiet_ok: "app_ok quiet_store"
  by (simp add: quiet_store_def app_ok_leave_entry sample_facts)

lemma quiet_queue:
  "\<not> slot_awaited quiet_store 20"
  "\<forall>e \<in> set (waitlist quiet_store). weUserID e \<noteq> usrID dave \<and> weID e \<noteq> 1000"
  by (auto simp: quiet_store_def slot_awaited_def leave_entry_def set_update_where leaves_def we_cancel_def
      sample_defs we_active_def we_pending_def)

lemma quiet_cancelled:
  "\<exists>b w'. run_state (CancelBooking sample_bookings alice 30) (sample_world\<lparr>db := quiet_store\<rparr>) = (Inr b, w') \<and>
    db w' = cancel_booking 30 quiet_store"
proof -
  let ?w = "sample_world\<lparr>db := quiet_store\<rparr>"
  obtain b w' where run: "run_state (CancelBooking sample_bookings alice 30) ?w = (Inr b, w')"
    using CancelBooking_succeeds [of ?w sample_bookings alice 30 sample_booking] by (auto simp: sample_facts quiet_ok)
  have "distinct (map bkID (bookings (db ?w)))" "find_row bkID 30 (bookings (db ?w)) = Some sample_booking"
    using sample_store_ok by (simp_all add: store_ok_defs sample_facts)
  with run have "db w' = cancel_booking 30 quiet_store"
  proof (cases rule: CancelBooking_effect)
    case (head n e t i now)
    then show ?thesis
      using next_waiting_Some(1) [OF head(2)] quiet_queue(1) by (auto simp: slot_awaited_def sample_facts)
  qed (auto simp: sample_facts)
  with run show ?thesis
    by blast
qed

lemma quiet_booked:
  "\<exists>i w'. run_state (CreateBooking sample_bookings carol 20 link)
      (sample_world\<lparr>db := cancel_booking 30 quiet_store\<rparr>) = (Inr (new_booking i carol 20 100000000000), w') \<and>
    db w' = add_booking (new_booking i carol 20 100000000000) (cancel_booking 30 quiet_store)"
proof -
  let ?st = "cancel_booking 30 quiet_store"
  have "\<not> slot_reserved ?st 20" "\<not> slot_booked ?st 20"
    using quiet_ok cancel_booking_frees(1) [of quiet_store 30 sample_booking]
    by (auto simp: app_ok_def store_ok_defs sample_facts exclusive_def slot_booked_cancel)
      (auto simp: sample_defs slot_reserved_def slot_booked_def)
  then have "create_refusal sample_bookings carol 20 100000000000 ?st = None"
    by (simp add: create_refusal_def sample_active cancel_booking_def) (simp add: sample_defs)
  moreover have "fresh_ids sample_env (bkID ` set (bookings ?st))"
    by (simp add: fresh_ids_def cancel_booking_def set_update_where sample_defs bk_cancel_def)
  ultimately show ?thesis
    using CreateBooking_accepted [of "sample_world\<lparr>db := ?st\<rparr>" sample_bookings carol 20 link]
    by (simp add: sample_facts cancel_booking_def)
qed

lemma quiet_joined:
  assumes "db w = add_booking (new_booking i carol 20 t) (cancel_booking 30 quiet_store)" "env w = sample_env"
  shows "\<exists>e w'. run_state (JoinWaitlist dave 20) w = (Inr e, w')"
proof -
  let ?b = "(new_booking i carol 20 t)\<lparr>bkCreatedAt := timestamptz t\<rparr>"
  have "active_booking (db w) 20 = Some ?b"
    by (simp add: assms active_booking_def add_booking_def cancel_booking_def update_where_def sample_defs bk_cancel_def
        bk_active_def new_booking_def)
  moreover have "entry_insertable (new_entry (fresh_at (env w) n) dave 20 (clock_at (env w) m)) (db w)" for n m
    using quiet_queue(2)
    by (auto simp: assms entry_insertable_def add_booking_def cancel_booking_def index_hit_def we_slot_user_def)
      (auto simp: sample_defs)
  moreover have "find_row slID 20 (slots (db w)) = Some (sample_slot 20 3600000000000)"
    by (simp add: assms add_booking_def cancel_booking_def sample_defs)
  ultimately show ?thesis
    using JoinWaitlist_accepted [of w dave 20 "sample_slot 20 3600000000000" ?b] assms(2)
    by (simp add: sample_active) (simp add: sample_defs new_booking_def)
qed

lemma cancelled_twice_hands_over_booked_slot_witness:
  "\<exists>st r w'. run_state (concurrent_cancel (\<lambda>_. st) sample_bookings alice 30) (sample_world\<lparr>db := quiet_store\<rparr>) = (Inr r, w') \<and>
    slot_booked (db w') 20 \<and> slot_reserved (db w') 20"
proof -
  let ?w = "sample_world\<lparr>db := quiet_store\<rparr>"
  obtain b1 w1 where first: "run_state (CancelBooking sample_bookings alice 30) ?w = (Inr b1, w1)"
      "db w1 = cancel_booking 30 quiet_store"
    using quiet_cancelled by blast
  obtain i w2 where second: "run_state (CreateBooking sample_bookings carol 20 True) (sample_world\<lparr>db := db w1\<rparr>) =
      (Inr (new_booking i carol 20 100000000000), w2)"
      "db w2 = add_booking (new_booking i carol 20 100000000000) (cancel_booking 30 quiet_store)"
    using quiet_booked [of True] by (auto simp: first(2))
  obtain e w3 where third: "run_state (JoinWaitlist dave 20) (sample_world\<lparr>db := db w2\<rparr>) = (Inr e, w3)"
    using quiet_joined [of "sample_world\<lparr>db := db w2\<rparr>" i 100000000000] by (auto simp: second(2))
  show ?thesis
    using cancelled_twice_hands_over_booked_slot [OF first(1) _ second(1) _ third, of ?w sample_booking sample_bookings]
    by (auto simp: sample_facts quiet_ok quiet_queue)
qed

end
