(* ===== verification/Locking.thy ===== *)
theory Locking
  imports Fairness Double_Cancel
begin

text \<open>
  Where the row locks help. The closures of \<open>ConfirmReservation\<close>, \<open>CancelReservation\<close> and \<open>JoinWaitlist\<close>
  read the row they decide on \<open>FOR UPDATE\<close>, and no other transaction changes it until they commit. Here
  they are cut at every statement before their first write, and whatever is committed at the cuts, a run
  that succeeds is the run of the whole closure behind all the others: the decisions still hold when
  the first write happens. The closures of \<open>CreateBooking\<close> and \<open>CancelBooking\<close> have no such lock.
\<close>

section \<open>Reads that hold\<close>

lemma check_Inr:
  "run_state (check wrap m f) w = (Inr y, w') \<longleftrightarrow>
    (\<exists>x w1. run_state m w = (Inr x, w1) \<and> run_state (f x) w1 = (Inr y, w'))"
  by (auto simp: run_check split: prod.splits sum.splits)

text \<open>
  A run of \<open>m\<close> from a world with the database \<open>st\<close> that succeeds is the run of \<open>m'\<close> from that world with
  the database \<open>st'\<close>.
\<close>

definition serialises :: "store \<Rightarrow> 'a result go \<Rightarrow> store \<Rightarrow> 'a result go \<Rightarrow> bool" where
  "serialises st m st' m' \<longleftrightarrow> (\<forall>w y w'. db w = st \<longrightarrow> run_state m w = (Inr y, w') \<longrightarrow>
     run_state m' (w\<lparr>db := st'\<rparr>) = (Inr y, w'))"

lemma serialises_refl: "serialises st m st m"
  by (auto simp: serialises_def)

text \<open>What can succeed from a database.\<close>

definition may_succeed :: "'a result go \<Rightarrow> store \<Rightarrow> bool" where
  "may_succeed m st \<longleftrightarrow> (\<exists>w y w'. db w = st \<and> run_state m w = (Inr y, w'))"

text \<open>
  A piece of a closure that only reads, and reads the same from any database that agrees on the rows it
  decides on.
\<close>

locale held_read =
  fixes reads :: "'a result go" and holds :: "store \<Rightarrow> 'a \<Rightarrow> bool"
  assumes only_reads: "run_state reads w = (Inr x, w') \<Longrightarrow> db w' = db w"
    and reads_again: "run_state reads w = (Inr x, w') \<Longrightarrow> holds st x \<Longrightarrow>
      run_state reads (w\<lparr>db := st\<rparr>) = (Inr x, w'\<lparr>db := st\<rparr>)"
begin

lemma behind_the_others:
  assumes rest: "\<And>x w w'. db w = st \<Longrightarrow> run_state reads w = (Inr x, w') \<Longrightarrow>
      serialises (others st) (rest x) st' (rest' x)"
    and held: "\<And>x w w'. db w = st \<Longrightarrow> run_state reads w = (Inr x, w') \<Longrightarrow> may_succeed (rest' x) st' \<Longrightarrow> holds st' x"
  shows "serialises st (interrupted others reads rest) st' (check same_error reads rest')"
  unfolding serialises_def
proof (intro allI impI)
  fix w :: world and y w'
  assume w: "db w = st" and run: "run_state (interrupted others reads rest) w = (Inr y, w')"
  obtain x w1 where first: "run_state reads w = (Inr x, w1)"
    and then_run: "run_state (rest x) (w1\<lparr>db := others (db w1)\<rparr>) = (Inr y, w')"
    using run by (auto simp: interrupted_def others_commit_def elim!: check_InrE)
  have "db w1 = st"
    using only_reads [OF first] w by simp
  then have later: "run_state (rest' x) (w1\<lparr>db := st'\<rparr>) = (Inr y, w')"
    using rest [OF w first, unfolded serialises_def, rule_format, OF _ then_run] by simp
  then have "may_succeed (rest' x) st'"
    unfolding may_succeed_def by (intro exI [of _ "w1\<lparr>db := st'\<rparr>"]) simp
  then have "run_state reads (w\<lparr>db := st'\<rparr>) = (Inr x, w1\<lparr>db := st'\<rparr>)"
    using held [OF w first] by (intro reads_again [OF first])
  with later show "run_state (check same_error reads rest') (w\<lparr>db := st'\<rparr>) = (Inr y, w')"
    by (simp add: run_check)
qed

end

section \<open>ConfirmReservation\<close>

definition confirm_reads :: "user \<Rightarrow> uuid \<Rightarrow> time \<Rightarrow> slot_reservation result go" where
  "confirm_reads u reservationID now =
     check (wrapped ErrorInternalError ''get reservation'')
       (ReservationRepo_GetByIDForUpdate reservationID) (\<lambda>row.
         case row of
           None \<Rightarrow> fail (NewDomainError ErrorReservationNotFound ''reservation not found'')
         | Some existing \<Rightarrow>
             if rvUserID existing \<noteq> usrID u
             then fail (NewDomainError ErrorForbidden ''cannot confirm another user's reservation'')
             else if rvStatus existing \<noteq> ReservationStatusActive
             then fail (NewDomainError ErrorInvalidRequest ''reservation is not active'')
             else if \<not> now < rvExpiresAt existing
             then fail (NewDomainError ErrorInvalidRequest ''reservation is expired'')
             else ok existing)"

definition confirm_unbooked :: "slot_reservation \<Rightarrow> unit result go" where
  "confirm_unbooked existing =
     check (wrapped ErrorInternalError ''check active booking'')
       (BookingRepo_GetActiveBySlotForUpdate (rvSlotID existing)) (\<lambda>activeBooking.
         if activeBooking \<noteq> None
         then fail (NewDomainError ErrorSlotAlreadyBooked ''slot already booked'')
         else ok ())"

definition confirm_slot :: "slot_reservation \<Rightarrow> time \<Rightarrow> slot result go" where
  "confirm_slot existing now =
     check (wrapped ErrorInternalError ''get slot'') (SlotRepo_GetByID (rvSlotID existing)) (\<lambda>row.
       case row of
         None \<Rightarrow> fail (NewDomainError ErrorSlotNotFound ''slot not found'')
       | Some slot \<Rightarrow>
           if slStartTime slot < now
           then fail (NewDomainError ErrorInvalidRequest ''cannot confirm reservation for past slot'')
           else ok slot)"

definition concurrent_confirm ::
  "(store \<Rightarrow> store) \<Rightarrow> (store \<Rightarrow> store) \<Rightarrow> (store \<Rightarrow> store) \<Rightarrow> user \<Rightarrow> uuid \<Rightarrow> time \<Rightarrow>
   (booking \<times> slot_reservation \<times> uuid) result go" where
  "concurrent_confirm o1 o2 o3 u reservationID now =
     interrupted o1 (confirm_reads u reservationID now) (\<lambda>existing.
       interrupted o2 (confirm_unbooked existing) (\<lambda>_.
         interrupted o3 (confirm_slot existing now) (\<lambda>slot.
           book_reserved u existing now (slRoomID slot))))"

definition confirm_whole :: "user \<Rightarrow> uuid \<Rightarrow> time \<Rightarrow> (booking \<times> slot_reservation \<times> uuid) result go" where
  "confirm_whole u reservationID now =
     check same_error (confirm_reads u reservationID now) (\<lambda>existing.
       check same_error (confirm_unbooked existing) (\<lambda>_.
         check same_error (confirm_slot existing now) (\<lambda>slot.
           book_reserved u existing now (slRoomID slot))))"

text \<open>The pieces put together are the closure of the code.\<close>

lemma confirm_whole_closure:
  "run_state (confirm_whole u k now) w = run_state (ConfirmReservation_tx u k now) w"
  by (auto simp: confirm_whole_def confirm_reads_def confirm_unbooked_def confirm_slot_def
      ConfirmReservation_tx_def run_check same_error_def split: prod.splits sum.splits option.splits if_splits)

lemma confirm_reads_Inr:
  "run_state (confirm_reads u k now) w = (Inr r, w') \<longleftrightarrow>
    fault_at (env w) (ticks w) = NoFault \<and> find_row rvID k (reservations (db w)) = Some r \<and>
    rvUserID r = usrID u \<and> rv_active r \<and> now < rvExpiresAt r \<and> w' = tick w"
  by (auto simp: confirm_reads_def reservation_reads_Inr rv_active_def check_Inr
      split: option.splits if_splits)

lemma confirm_unbooked_Inr:
  "run_state (confirm_unbooked r) w = (Inr x, w') \<longleftrightarrow>
    fault_at (env w) (ticks w) = NoFault \<and> \<not> slot_booked (db w) (rvSlotID r) \<and> w' = tick w"
  by (auto simp: confirm_unbooked_def BookingRepo_GetActive_Inr active_booking_None [symmetric] check_Inr
      split: if_splits)

lemma confirm_slot_Inr:
  "run_state (confirm_slot r now) w = (Inr sl, w') \<longleftrightarrow>
    fault_at (env w) (ticks w) = NoFault \<and> find_row slID (rvSlotID r) (slots (db w)) = Some sl \<and>
    now \<le> slStartTime sl \<and> w' = tick w"
  by (auto simp: confirm_slot_def SlotRepo_GetByID_Inr check_Inr
      split: option.splits if_splits)

interpretation confirm_reads: held_read "confirm_reads u k now" "\<lambda>st r. find_row rvID k (reservations st) = Some r" for u k now
  by unfold_locales (simp_all add: confirm_reads_Inr tick_def)

interpretation confirm_unbooked: held_read "confirm_unbooked r" "\<lambda>st _. \<not> slot_booked st (rvSlotID r)" for r
  by unfold_locales (simp_all add: confirm_unbooked_Inr tick_def)

interpretation confirm_slot: held_read "confirm_slot r now" "\<lambda>st sl. find_row slID (rvSlotID r) (slots st) = Some sl" for r now
  by unfold_locales (simp_all add: confirm_slot_Inr tick_def)

lemma book_reserved_unbooked:
  assumes "run_state (book_reserved u r now i) w = (Inr y, w')"
  shows "\<not> slot_booked (db w) (rvSlotID r)"
  using assms
  by (auto simp: book_reserved_def check_Inr insert_booking_Inr booking_insertable_def index_hit_def slot_booked_def)

lemma confirm_serial:
  assumes "find_row rvID k (reservations st') = find_row rvID k (reservations st)"
    and "\<And>i sl. find_row slID i (slots (o2 (o1 st))) = Some sl \<Longrightarrow> find_row slID i (slots st') = Some sl"
    and "st' = o3 (o2 (o1 st))"
  shows "serialises st (concurrent_confirm o1 o2 o3 u k now) st' (confirm_whole u k now)"
  unfolding concurrent_confirm_def confirm_whole_def
proof (rule confirm_reads.behind_the_others)
  fix r :: slot_reservation
  have slot: "serialises (o2 (o1 st)) (interrupted o3 (confirm_slot r now) (\<lambda>slot. book_reserved u r now (slRoomID slot)))
      st' (check same_error (confirm_slot r now) (\<lambda>slot. book_reserved u r now (slRoomID slot)))"
    by (rule confirm_slot.behind_the_others)
      (auto simp: assms(3) [symmetric] serialises_refl confirm_slot_Inr intro: assms(2))
  then show "serialises (o1 st)
      (interrupted o2 (confirm_unbooked r) (\<lambda>_. interrupted o3 (confirm_slot r now) (\<lambda>slot. book_reserved u r now (slRoomID slot))))
      st' (check same_error (confirm_unbooked r) (\<lambda>_. check same_error (confirm_slot r now) (\<lambda>slot. book_reserved u r now (slRoomID slot))))"
    by (rule confirm_unbooked.behind_the_others)
      (auto simp: may_succeed_def check_Inr confirm_slot_Inr dest!: book_reserved_unbooked)
qed (simp add: confirm_reads_Inr assms(1))

section \<open>Slots stay\<close>

text \<open>No step of the service changes or removes a slot; the generator appends new ones.\<close>

definition slots_kept :: "store \<Rightarrow> store \<Rightarrow> bool" where
  "slots_kept s s' \<longleftrightarrow> (\<exists>new. slots s' = slots s @ new)"

lemma slots_kept_same [intro]: "slots s' = slots s \<Longrightarrow> slots_kept s s'"
  by (simp add: slots_kept_def)

lemma slots_kept_trans [trans]: "slots_kept s t \<Longrightarrow> slots_kept t u \<Longrightarrow> slots_kept s u"
  by (auto simp: slots_kept_def)

lemma slots_kept_row: "slots_kept s s' \<Longrightarrow> find_row slID i (slots s) = Some sl \<Longrightarrow> find_row slID i (slots s') = Some sl"
  by (auto simp: slots_kept_def find_row_append)

lemma hand_over_slot_rows [simp]: "slots (hand_over t rid k e now ttl s) = slots s"
  by (simp add: hand_over_def)

lemma tx_outcome_slots:
  assumes "tx_outcome fn w s'"
    and "\<And>w1 x w2. db w1 = db w \<Longrightarrow> env w1 = env w \<Longrightarrow> run_state fn w1 = (Inr x, w2) \<Longrightarrow> slots (db w2) = slots (db w)"
  shows "slots s' = slots (db w)"
  using assms(1)
proof (rule tx_outcome_invariant)
  show "slots (db w2) = slots (db w)" if "db w1 = db w" "env w1 = env w" "run_state fn w1 = (Inr x, w2)" for w1 x w2
    using that by (rule assms(2))
qed simp_all

lemma claim_slots:
  "run_state (claim_next m s k now) w = (Inr out, w') \<Longrightarrow> slots (db w') = slots (db w)"
  "run_state (claim_for_cancelled s' k) w = (Inr out, w') \<Longrightarrow> slots (db w') = slots (db w)"
proof -
  show "slots (db w') = slots (db w)" if "run_state (claim_next m s k now) w = (Inr out, w')"
    using that by (cases rule: claim_next_InrE) simp_all
  show "slots (db w') = slots (db w)" if "run_state (claim_for_cancelled s' k) w = (Inr out, w')"
    using that by (cases rule: claim_for_cancelled_InrE) simp_all
qed

lemma CreateBooking_slots: "slots (db (snd (run_state (CreateBooking s u k link) w))) = slots (db w)"
  by (rule tx_outcome_slots [OF CreateBooking_outcome]) (auto elim!: CreateBooking_tx_InrE)

lemma CancelBooking_slots:
  assumes "store_ok (db w)"
  shows "slots (db (snd (run_state (CancelBooking s u k) w))) = slots (db w)"
proof (rule tx_outcome_slots [OF CancelBooking_outcome])
  fix w1 :: world and r w2
  assume w1: "db w1 = db w" and run: "run_state (CancelBooking_tx s u k) w1 = (Inr r, w2)"
  have "distinct (map bkID (bookings (db w1)))"
    using assms w1 by (simp add: store_ok_defs)
  with run show "slots (db w2) = slots (db w)"
    by (cases rule: CancelBooking_tx_InrE) (auto simp: w1 dest!: claim_slots(2))
qed

lemma JoinWaitlist_slots: "slots (db (snd (run_state (JoinWaitlist u k) w))) = slots (db w)"
  by (rule tx_outcome_slots [OF JoinWaitlist_outcome]) (auto elim!: JoinWaitlist_tx_InrE)

lemma LeaveWaitlist_slots: "slots (db (snd (run_state (LeaveWaitlist u k) w))) = slots (db w)"
proof (rule tx_outcome_slots [OF LeaveWaitlist_outcome])
  fix w1 :: world and x w2
  assume "db w1 = db w" and "run_state (LeaveWaitlist_tx u k) w1 = (Inr x, w2)"
  then show "slots (db w2) = slots (db w)"
    by (cases x) (auto elim!: LeaveWaitlist_tx_InrE)
qed

lemma ConfirmReservation_slots:
  assumes "store_ok (db w)"
  shows "slots (db (snd (run_state (ConfirmReservation s u k) w))) = slots (db w)"
proof (rule tx_outcome_slots [OF ConfirmReservation_outcome])
  fix w1 :: world and x w2
  assume w1: "db w1 = db w"
    and run: "run_state (ConfirmReservation_tx u k (clock_at (env w) (ticks w))) w1 = (Inr x, w2)"
  have "store_ok (db w1)"
    using assms w1 by simp
  with run show "slots (db w2) = slots (db w)"
    by (rule ConfirmReservation_tx_InrE) (simp add: w1)
qed

lemma CancelReservation_slots:
  assumes "store_ok (db w)"
  shows "slots (db (snd (run_state (CancelReservation s u k) w))) = slots (db w)"
proof (rule tx_outcome_slots [OF CancelReservation_outcome])
  fix w1 :: world and r w2
  assume w1: "db w1 = db w"
    and run: "run_state (CancelReservation_tx s u k (clock_at (env w) (ticks w))) w1 = (Inr r, w2)"
  have "store_ok (db w1)"
    using assms w1 by simp
  with run show "slots (db w2) = slots (db w)"
    by (cases rule: CancelReservation_tx_InrE) (auto simp: w1 dest!: claim_slots(1))
qed

lemma expire_loop_slots:
  assumes "run_state (expire_loop s now items v) w = (Inr v', w')"
  shows "slots (db w') = slots (db w)"
  using assms
proof (induction items arbitrary: v w)
  case (Cons item items)
  from Cons.prems obtain out v1 w1 w2 where w1: "db w1 = db w"
    and claim: "run_state (claim_next ''create reservation for next waitlist user'' s
      (rvSlotID item) now) w1 = (Inr out, w2)"
    and rest: "run_state (expire_loop s now items v1) w2 = (Inr v', w')"
    by (rule expire_loop_ConsE)
  then show ?case
    using Cons.IH [OF rest] claim_slots(1) [OF claim] by simp
qed simp

lemma ExpireDue_slots: "slots (db (snd (run_state (ExpireDue s limit) w))) = slots (db w)"
proof (rule tx_outcome_slots [OF ExpireDue_outcome])
  fix w1 :: world and out w2
  assume w1: "db w1 = db w"
    and run: "run_state (ExpireDue_tx s (clock_at (env w) (ticks w)) (batch_limit limit)) w1 = (Inr out, w2)"
  obtain expired v where out: "out = (expired, v)" by (cases out)
  from run [unfolded out] show "slots (db w2) = slots (db w)"
    by (rule ExpireDue_tx_InrE) (auto simp: w1 dest!: expire_loop_slots)
qed

lemma Register_slots: "slots (db (snd (run_state (Register s email password role) w))) = slots (db w)"
  using Register_db [of s email password role w] by auto

lemma CreateRoom_slots: "slots (db (snd (run_state (CreateRoom u input) w))) = slots (db w)"
proof -
  have "slots (db v') = slots (db w)" if "run_state (RoomRepo_Create x) v = (r, v')" "db v = db w" for x v r v'
    using RoomRepo_Create_db [of x v] that by auto
  then show ?thesis
    by (auto simp: CreateRoom_def Let_def run_check split: prod.splits sum.splits option.splits)
qed

lemma CreateSchedule_slots: "slots (db (snd (run_state (CreateSchedule u roomID input) w))) = slots (db w)"
  using CreateSchedule_db [of w u roomID input] by (auto simp: schedules_added_def)

lemma insert_slots_kept: "insert_slots sls s = Inr s' \<Longrightarrow> slots_kept s s'"
proof (induction sls arbitrary: s)
  case (Cons sl sls)
  then obtain s1 where one: "sql_slot_insert sl s = Inr s1" and rest: "insert_slots sls s1 = Inr s'"
    by (auto split: sum.splits)
  have "slots_kept s s1"
    using sql_slot_insert_Inr [OF one] by (auto simp: slots_kept_def)
  then show ?case
    using Cons.IH [OF rest] by (rule slots_kept_trans)
qed (simp add: slots_kept_same)

lemma Generate_slots: "slots_kept (db w) (db (snd (run_state (Generate g) w)))"
proof -
  obtain xs where "insert_slots xs (db w) = Inr (db (snd (run_state (Generate g) w)))"
    using only_inserts_Generate by (auto simp: only_inserts_def slots_inserted_def)
  then show ?thesis by (rule insert_slots_kept)
qed

lemmas use_case_slots = Register_slots CreateRoom_slots CreateSchedule_slots
  CreateBooking_slots CancelBooking_slots JoinWaitlist_slots LeaveWaitlist_slots
  ConfirmReservation_slots CancelReservation_slots ExpireDue_slots

lemma step_slots:
  assumes "step a E s s'" "store_ok s"
  shows "slots_kept s s'"
  using assms by (induction rule: step.induct) (simp_all add: use_case_slots slots_kept_same Generate_slots)

lemma steps_slots:
  assumes "(step (wire cfg gen) E)\<^sup>*\<^sup>* s s'" "app_ok s"
  shows "slots_kept s s'"
  using assms
proof (induction rule: rtranclp_induct)
  case (step s1 s2)
  then have "app_ok s1"
    using consistent.after_steps by blast
  then have "slots_kept s1 s2"
    using step_slots [OF step.hyps(2)] by (simp add: app_ok_def)
  with step.IH [OF step.prems] show ?case
    by (rule slots_kept_trans)
qed (simp add: slots_kept_same)

section \<open>CancelReservation\<close>

definition cancel_reservation_reads :: "user \<Rightarrow> uuid \<Rightarrow> slot_reservation result go" where
  "cancel_reservation_reads u reservationID =
     check (wrapped ErrorInternalError ''get reservation'')
       (ReservationRepo_GetByIDForUpdate reservationID) (\<lambda>row.
         case row of
           None \<Rightarrow> fail (NewDomainError ErrorReservationNotFound ''reservation not found'')
         | Some existing \<Rightarrow>
             if rvUserID existing \<noteq> usrID u
             then fail (NewDomainError ErrorForbidden ''cannot cancel another user's reservation'')
             else ok existing)"

definition cancel_reservation_slot :: "slot_reservation \<Rightarrow> slot option result go" where
  "cancel_reservation_slot existing =
     check (wrapped ErrorInternalError ''get slot'') (SlotRepo_GetByID (rvSlotID existing)) ok"

definition reservation_room :: "slot option \<Rightarrow> uuid" where
  "reservation_room slot = (case slot of None \<Rightarrow> 0 | Some sl \<Rightarrow> slRoomID sl)"

definition concurrent_cancel_reservation ::
  "(store \<Rightarrow> store) \<Rightarrow> (store \<Rightarrow> store) \<Rightarrow> reservation_service \<Rightarrow> user \<Rightarrow> uuid \<Rightarrow> time \<Rightarrow>
   reservation_cancel_result result go" where
  "concurrent_cancel_reservation o1 o2 s u reservationID now =
     interrupted o1 (cancel_reservation_reads u reservationID) (\<lambda>existing.
       interrupted o2 (cancel_reservation_slot existing) (\<lambda>slot.
         cancel_existing s existing now (reservation_room slot)))"

definition cancel_reservation_whole ::
  "reservation_service \<Rightarrow> user \<Rightarrow> uuid \<Rightarrow> time \<Rightarrow> reservation_cancel_result result go" where
  "cancel_reservation_whole s u reservationID now =
     check same_error (cancel_reservation_reads u reservationID) (\<lambda>existing.
       check same_error (cancel_reservation_slot existing) (\<lambda>slot.
         cancel_existing s existing now (reservation_room slot)))"

lemma cancel_reservation_whole_closure:
  "run_state (cancel_reservation_whole s u k now) w = run_state (CancelReservation_tx s u k now) w"
  by (auto simp: cancel_reservation_whole_def cancel_reservation_reads_def cancel_reservation_slot_def
      reservation_room_def CancelReservation_tx_def run_check same_error_def
      split: prod.splits sum.splits option.splits if_splits)

lemma cancel_reservation_reads_Inr:
  "run_state (cancel_reservation_reads u k) w = (Inr r, w') \<longleftrightarrow>
    fault_at (env w) (ticks w) = NoFault \<and> find_row rvID k (reservations (db w)) = Some r \<and>
    rvUserID r = usrID u \<and> w' = tick w"
  by (auto simp: cancel_reservation_reads_def reservation_reads_Inr check_Inr split: option.splits if_splits)

lemma cancel_reservation_slot_Inr:
  "run_state (cancel_reservation_slot r) w = (Inr sl, w') \<longleftrightarrow>
    fault_at (env w) (ticks w) = NoFault \<and> sl = find_row slID (rvSlotID r) (slots (db w)) \<and> w' = tick w"
  by (auto simp: cancel_reservation_slot_def SlotRepo_GetByID_Inr check_Inr)

interpretation cancel_reads: held_read "cancel_reservation_reads u k" "\<lambda>st r. find_row rvID k (reservations st) = Some r" for u k
  by unfold_locales (simp_all add: cancel_reservation_reads_Inr tick_def)

interpretation cancel_slot: held_read "cancel_reservation_slot r" "\<lambda>st sl. sl = find_row slID (rvSlotID r) (slots st)" for r
  by unfold_locales (simp_all add: cancel_reservation_slot_Inr tick_def)

text \<open>The slot of a reservation exists, as the schema demands, and stays.\<close>

lemma reserved_slot_exists:
  assumes "store_ok s" "find_row rvID k (reservations s) = Some r"
  shows "\<exists>sl. find_row slID (rvSlotID r) (slots s) = Some sl"
proof -
  have "rvSlotID r \<in> slID ` set (slots s)"
    using assms find_row_SomeD [OF assms(2)] by (auto simp: store_ok_def reservations_ok_def)
  then show ?thesis
    using find_row_None_iff [of slID "rvSlotID r" "slots s"] by auto
qed

lemma cancel_reservation_serial:
  assumes "find_row rvID k (reservations s2) = find_row rvID k (reservations st)"
    and "store_ok st" "slots_kept st s1" "slots_kept s1 s2"
  shows "serialises st (concurrent_cancel_reservation (\<lambda>_. s1) (\<lambda>_. s2) s u k now) s2 (cancel_reservation_whole s u k now)"
  unfolding concurrent_cancel_reservation_def cancel_reservation_whole_def
proof (rule cancel_reads.behind_the_others)
  fix r and w w' :: world
  assume "db w = st" "run_state (cancel_reservation_reads u k) w = (Inr r, w')"
  then obtain sl where "find_row slID (rvSlotID r) (slots st) = Some sl"
    using reserved_slot_exists [OF assms(2)] by (auto simp: cancel_reservation_reads_Inr)
  then have "find_row slID (rvSlotID r) (slots s1) = Some sl" "find_row slID (rvSlotID r) (slots s2) = Some sl"
    using assms(3,4) slots_kept_row by blast+
  then show "serialises s1 (interrupted (\<lambda>_. s2) (cancel_reservation_slot r) (\<lambda>slot. cancel_existing s r now (reservation_room slot)))
      s2 (check same_error (cancel_reservation_slot r) (\<lambda>slot. cancel_existing s r now (reservation_room slot)))"
    by (intro cancel_slot.behind_the_others) (simp_all add: serialises_refl cancel_reservation_slot_Inr)
qed (simp add: cancel_reservation_reads_Inr assms(1))

section \<open>JoinWaitlist\<close>

definition join_slot :: "uuid \<Rightarrow> slot result go" where
  "join_slot slotID =
     check (wrapped ErrorInternalError ''get slot'') (SlotRepo_GetByID slotID) (\<lambda>row.
       case row of
         None \<Rightarrow> fail (NewDomainError ErrorSlotNotFound ''slot not found'')
       | Some slot \<Rightarrow> do {
           now \<leftarrow> now_utc;
           (if slStartTime slot < now
            then fail (NewDomainError ErrorInvalidRequest ''cannot join waitlist for past slot'')
            else ok slot)
         })"

definition join_booking :: "user \<Rightarrow> uuid \<Rightarrow> booking result go" where
  "join_booking u slotID =
     check (wrapped ErrorInternalError ''check slot booking'')
       (BookingRepo_GetActiveBySlotForUpdate slotID) (\<lambda>row.
         case row of
           None \<Rightarrow> fail (NewDomainError ErrorSlotNotBooked ''slot is not booked'')
         | Some activeBooking \<Rightarrow>
             if bkUserID activeBooking = usrID u
             then fail (NewDomainError ErrorInvalidRequest ''cannot join waitlist for own booking'')
             else ok activeBooking)"

definition concurrent_join ::
  "(store \<Rightarrow> store) \<Rightarrow> (store \<Rightarrow> store) \<Rightarrow> user \<Rightarrow> uuid \<Rightarrow> waitlist_entry result go" where
  "concurrent_join o1 o2 u slotID =
     interrupted o1 (join_slot slotID) (\<lambda>_. interrupted o2 (join_booking u slotID) (\<lambda>_. join_entry u slotID))"

definition join_whole :: "user \<Rightarrow> uuid \<Rightarrow> waitlist_entry result go" where
  "join_whole u slotID =
     check same_error (join_slot slotID) (\<lambda>_. check same_error (join_booking u slotID) (\<lambda>_. join_entry u slotID))"

lemma join_whole_closure: "run_state (join_whole u k) w = run_state (JoinWaitlist_tx u k) w"
  by (auto simp: join_whole_def join_slot_def join_booking_def JoinWaitlist_tx_def run_check same_error_def
      split: prod.splits sum.splits option.splits if_splits)

lemma join_slot_Inr:
  "run_state (join_slot k) w = (Inr sl, w') \<longleftrightarrow>
    fault_at (env w) (ticks w) = NoFault \<and> find_row slID k (slots (db w)) = Some sl \<and>
    clock_at (env w) (Suc (ticks w)) \<le> slStartTime sl \<and> w' = tick (tick w)"
  by (auto simp: join_slot_def SlotRepo_GetByID_Inr check_Inr split: option.splits if_splits)

lemma join_booking_Inr:
  "run_state (join_booking u k) w = (Inr b, w') \<longleftrightarrow>
    fault_at (env w) (ticks w) = NoFault \<and> active_booking (db w) k = Some b \<and> bkUserID b \<noteq> usrID u \<and> w' = tick w"
  by (auto simp: join_booking_def BookingRepo_GetActive_Inr check_Inr split: option.splits if_splits)

interpretation join_slot: held_read "join_slot k" "\<lambda>st sl. find_row slID k (slots st) = Some sl" for k
  by unfold_locales (simp_all add: join_slot_Inr tick_def)

interpretation join_booking: held_read "join_booking u k" "\<lambda>st b. active_booking st k = Some b" for u k
  by unfold_locales (simp_all add: join_booking_Inr tick_def)

lemma join_serial:
  assumes "active_booking s2 k = active_booking s1 k" "slots_kept st s1" "slots_kept s1 s2"
  shows "serialises st (concurrent_join (\<lambda>_. s1) (\<lambda>_. s2) u k) s2 (join_whole u k)"
  unfolding concurrent_join_def join_whole_def
proof (rule join_slot.behind_the_others)
  show "serialises s1 (interrupted (\<lambda>_. s2) (join_booking u k) (\<lambda>_. join_entry u k))
      s2 (check same_error (join_booking u k) (\<lambda>_. join_entry u k))"
    by (rule join_booking.behind_the_others) (simp_all add: serialises_refl join_booking_Inr assms(1))
  show "find_row slID k (slots s2) = Some sl" if "db w = st" "run_state (join_slot k) w = (Inr sl, w')" for sl w w'
    using that slots_kept_trans [OF assms(2,3)] slots_kept_row by (fastforce simp: join_slot_Inr)
qed

section \<open>Properties\<close>

text \<open>
  C7. The lock on the reservation makes confirming it safe: whatever steps of the service commit
  between the statements of the closure of \<open>ConfirmReservation\<close> before its first write, as long as the
  locked reservation stays as it was read, a confirmation that succeeds is the one that runs as a whole
  behind all of them, with the same result and the same database, and all rules hold afterwards.
\<close>

theorem confirm_serialises:
  assumes "run_state (concurrent_confirm (\<lambda>_. s1) (\<lambda>_. s2) (\<lambda>_. s3) u k now) w = (Inr out, w')"
    "app_ok (db w)" "(step (wire cfg gen) E)\<^sup>*\<^sup>* (db w) s1" "(step (wire cfg gen) E)\<^sup>*\<^sup>* s1 s2"
    "(step (wire cfg gen) E)\<^sup>*\<^sup>* s2 s3"
    "find_row rvID k (reservations s3) = find_row rvID k (reservations (db w))"
  shows "run_state (ConfirmReservation_tx u k now) (w\<lparr>db := s3\<rparr>) = (Inr out, w') \<and> app_ok (db w')"
proof -
  have ok: "app_ok s2" "app_ok s3"
    using assms(2-5) consistent.after_steps by blast+
  have "serialises (db w) (concurrent_confirm (\<lambda>_. s1) (\<lambda>_. s2) (\<lambda>_. s3) u k now) s3 (confirm_whole u k now)"
    using assms(6) slots_kept_row [OF steps_slots [OF assms(5) ok(1)]] by (intro confirm_serial) simp_all
  then have run: "run_state (ConfirmReservation_tx u k now) (w\<lparr>db := s3\<rparr>) = (Inr out, w')"
    using assms(1) unfolding serialises_def confirm_whole_closure by blast
  have "store_ok (db (w\<lparr>db := s3\<rparr>))"
    using ok(2) by (simp add: app_ok_def)
  with run have "app_ok (db w')"
    by (rule ConfirmReservation_tx_InrE) (auto intro: app_ok_confirm simp: ok)
  with run show ?thesis ..
qed

lemma interrupted_Inr:
  "run_state (interrupted others m f) w = (Inr y, w') \<longleftrightarrow>
    (\<exists>x w1. run_state m w = (Inr x, w1) \<and> run_state (f x) (w1\<lparr>db := others (db w1)\<rparr>) = (Inr y, w'))"
  by (simp add: interrupted_def check_Inr others_commit_def)

lemma store_then_ticks: "w\<lparr>db := s, ticks := n\<rparr> = w\<lparr>ticks := n, db := s\<rparr>"
  by simp

lemma confirm_behind:
  assumes "run_state (ConfirmReservation_tx u k now) (w\<lparr>db := s1\<rparr>) = (Inr out, w')"
    "find_row rvID k (reservations s1) = find_row rvID k (reservations (db w))"
  shows "run_state (concurrent_confirm (\<lambda>_. s1) (\<lambda>_. s1) (\<lambda>_. s1) u k now) w = (Inr out, w')"
proof -
  have "run_state (confirm_whole u k now) (w\<lparr>db := s1\<rparr>) = (Inr out, w')"
    using assms(1) by (simp add: confirm_whole_closure)
  then show ?thesis
    using assms(2)
    by (auto simp: confirm_whole_def concurrent_confirm_def check_Inr interrupted_Inr confirm_reads_Inr
        confirm_unbooked_Inr confirm_slot_Inr tick_def store_then_ticks)
qed

lemma carol_leaves: "step sample_app unlocked sample_store (leave_entry 41 3 sample_store)"
proof -
  let ?e = "sample_entry 41 20 3 WaitlistStatusActive 2"
  have carol: "usrID carol = 3" "usrRole carol = RoleUser"
    by (simp_all add: sample_defs)
  have "List.find (leaves 41 3) (waitlist (db (tick sample_world))) = Some ?e"
    by (simp add: sample_store_def leaves_def sample_entry_def we_pending_def)
  then have "run_state (LeaveWaitlist_tx carol 41) (tick sample_world) =
      (Inr (we_cancel ?e, True), (tick (tick sample_world))\<lparr>db := leave_entry 41 3 sample_store\<rparr>)"
    by (simp add: LeaveWaitlist_tx_def check_Inr carol WaitlistRepo_Leave_Some)
  then have "db (snd (run_state (LeaveWaitlist carol 41) sample_world)) = leave_entry 41 3 sample_store"
    using WithinTransaction_calm [of sample_world "LeaveWaitlist_tx carol 41"] carol by (simp add: LeaveWaitlist_db)
  then show ?thesis
    using step_leave [of unlocked sample_world sample_app carol 41] by simp
qed

lemma confirm_serialises_witness:
  "\<exists>s1 out w'. we_active (waitlist sample_store ! 1) \<and> \<not> we_active (waitlist s1 ! 1) \<and>
    run_state (concurrent_confirm (\<lambda>_. s1) (\<lambda>_. s1) (\<lambda>_. s1) bob 50 100000000000) sample_world = (Inr out, w') \<and>
    run_state (ConfirmReservation_tx bob 50 100000000000) (sample_world\<lparr>db := s1\<rparr>) = (Inr out, w') \<and> app_ok (db w')"
proof -
  let ?s = "leave_entry 41 3 sample_store"
  have steps: "(step sample_app unlocked)\<^sup>*\<^sup>* sample_store ?s"
    using carol_leaves by (rule r_into_rtranclp)
  have left: "we_active (waitlist sample_store ! 1)" "\<not> we_active (waitlist ?s ! 1)"
    by (simp_all add: sample_store_def leave_entry_def update_where_def leaves_def sample_entry_def we_pending_def
        we_active_def we_cancel_def)
  have "confirm_refusal bob 50 100000000000 ?s = None"
    by (simp add: confirm_refusal_def sample_facts slot_booked_def)
      (simp add: sample_defs bk_active_def)
  then obtain out w' where run: "run_state (ConfirmReservation_tx bob 50 100000000000) (sample_world\<lparr>db := ?s\<rparr>) = (Inr out, w')"
    using ConfirmReservation_tx_accepted [of "sample_world\<lparr>db := ?s\<rparr>" bob 50 100000000000]
    by (auto simp: sample_facts store_ok_leave_entry)
  then have cut: "run_state (concurrent_confirm (\<lambda>_. ?s) (\<lambda>_. ?s) (\<lambda>_. ?s) bob 50 100000000000) sample_world = (Inr out, w')"
    by (rule confirm_behind) simp
  show ?thesis
    using confirm_serialises [OF cut, of sample_config sample_generator unlocked] steps left cut
    by (intro exI [of _ ?s] exI [of _ out] exI [of _ w']) (simp add: sample_facts)
qed

text \<open>
  C12. The lock on the booking makes joining its queue safe: whatever steps of the service commit between
  the statements of the closure of \<open>JoinWaitlist\<close> before its write, as long as the locked booking stays
  the active one of the slot, joining has the result it has behind all of them; and nobody is left
  waiting for a slot that was given up meanwhile: the rules hold afterwards, and if nobody waited for a
  free slot when the entry was written, nobody does then.
\<close>

theorem join_serialises:
  assumes "run_state (concurrent_join (\<lambda>_. s1) (\<lambda>_. s2) u k) w = (Inr out, w')"
    "app_ok (db w)" "(step (wire cfg gen) E)\<^sup>*\<^sup>* (db w) s1" "(step (wire cfg gen) E)\<^sup>*\<^sup>* s1 s2"
    "active_booking s2 k = active_booking s1 k"
  shows "run_state (JoinWaitlist_tx u k) (w\<lparr>db := s2\<rparr>) = (Inr out, w') \<and> app_ok (db w') \<and>
    slot_booked (db w') k \<and> (queue_served s2 \<longrightarrow> queue_served (db w'))"
proof -
  have ok: "app_ok s1" "app_ok s2"
    using assms(2-4) consistent.after_steps by blast+
  have "serialises (db w) (concurrent_join (\<lambda>_. s1) (\<lambda>_. s2) u k) s2 (join_whole u k)"
    using assms(5) steps_slots [OF assms(3,2)] steps_slots [OF assms(4) ok(1)] by (rule join_serial)
  then have run: "run_state (JoinWaitlist_tx u k) (w\<lparr>db := s2\<rparr>) = (Inr out, w')"
    using assms(1) unfolding serialises_def join_whole_closure by blast
  from run obtain b i now where b: "active_booking s2 k = Some b"
    and ins: "entry_insertable (new_entry i u k now) s2"
    and w': "db w' = add_entry (joined_row (new_entry i u k now) s2) s2"
    by (rule JoinWaitlist_tx_InrE) auto
  have booked: "slot_booked s2 k"
    using b active_booking_None [of s2 k] by simp
  have "queue_served (db w')" if "queue_served s2"
    using that booked by (auto simp: w' queue_served_def)
  moreover have "app_ok (db w')" "slot_booked (db w') k"
    using ok(2) ins booked by (simp_all add: w' app_ok_add_entry)
  ultimately show ?thesis
    using run by blast
qed

lemma join_behind:
  assumes "run_state (JoinWaitlist_tx u k) (w\<lparr>db := s1\<rparr>) = (Inr out, w')"
    "find_row slID k (slots s1) = find_row slID k (slots (db w))"
  shows "run_state (concurrent_join (\<lambda>_. s1) (\<lambda>_. s1) u k) w = (Inr out, w')"
proof -
  have "run_state (join_whole u k) (w\<lparr>db := s1\<rparr>) = (Inr out, w')"
    using assms(1) by (simp add: join_whole_closure)
  then show ?thesis
    using assms(2)
    by (auto simp: join_whole_def concurrent_join_def check_Inr interrupted_Inr join_slot_Inr join_booking_Inr
        tick_def store_then_ticks)
qed

lemma join_serialises_witness:
  "\<exists>s1 w out w'. \<not> we_active (waitlist s1 ! 1) \<and>
    run_state (concurrent_join (\<lambda>_. s1) (\<lambda>_. s1) dave 20) w = (Inr out, w') \<and>
    run_state (JoinWaitlist_tx dave 20) (w\<lparr>db := s1\<rparr>) = (Inr out, w') \<and> queue_served (db w')"
proof -
  let ?s = "leave_entry 41 3 sample_store" and ?w = "tick sample_world"
  have steps: "(step sample_app unlocked)\<^sup>*\<^sup>* sample_store ?s"
    using carol_leaves by (rule r_into_rtranclp)
  have left: "\<not> we_active (waitlist ?s ! 1)"
    by (simp add: sample_store_def leave_entry_def update_where_def leaves_def sample_entry_def we_pending_def
        we_active_def we_cancel_def)
  have rows: "active_booking ?s 20 = Some sample_booking" "find_row slID 20 (slots ?s) = Some (sample_slot 20 3600000000000)"
      "usrRole dave = RoleUser" "bkUserID sample_booking \<noteq> usrID dave" "3600000000000 = slStartTime (sample_slot 20 3600000000000)"
    by (simp_all add: active_booking_def sample_defs bk_active_def)
  have "entry_insertable (new_entry 1000 dave 20 now) ?s" for now
    by (simp add: entry_insertable_def index_hit_def leave_entry_def set_update_where)
      (auto simp: sample_defs we_pending_def we_slot_user_def we_cancel_def)
  then obtain e v where "run_state (JoinWaitlist dave 20) (sample_world\<lparr>db := ?s\<rparr>) = (Inr e, v)"
    using JoinWaitlist_accepted [of "sample_world\<lparr>db := ?s\<rparr>" dave 20 "sample_slot 20 3600000000000" sample_booking]
      rows by auto
  then obtain w' where run: "run_state (JoinWaitlist_tx dave 20) (?w\<lparr>db := ?s\<rparr>) = (Inr e, w')"
    using rows(3) by (auto simp: JoinWaitlist_def check_Inr WithinTransaction_Inr tick_def store_then_ticks)
  then have cut: "run_state (concurrent_join (\<lambda>_. ?s) (\<lambda>_. ?s) dave 20) ?w = (Inr e, w')"
    by (rule join_behind) simp
  have "queue_served ?s"
    by (simp add: queue_served_leave sample_facts)
  then show ?thesis
    using join_serialises [OF cut, of sample_config sample_generator unlocked] steps left cut
    by (intro exI [of _ ?s] exI [of _ ?w] exI [of _ e] exI [of _ w']) (simp add: sample_facts)
qed

end
