(* ===== verification/Smoke.thy ===== *)
theory Smoke
  imports Http_Contract Delivery
begin

text \<open>
  \<open>scripts/ws_smoke.go\<close>, the client the repository brings along: it logs in, subscribes two websocket
  connections to a room, books a slot and cancels the booking again, and prints what arrives. What it
  talks to is a network that answers HTTP requests and the calls on websocket connections out of a
  state of its own; a request that cannot be built, sent or answered in full is one error of it. The
  network it is run against is the service with its hub (\<open>live_network\<close>).
\<close>

section \<open>The script\<close>

record client_request =
  crqURL :: string
  crqHeaders :: "(string \<times> string) list"
  crqBody :: "string option"

record 'n network =
  nwDo :: "client_request \<Rightarrow> 'n \<Rightarrow> (string + int \<times> string) \<times> 'n"
  nwDial :: "string \<Rightarrow> 'n \<Rightarrow> (string + nat) \<times> 'n"
  nwWrite :: "nat \<Rightarrow> string \<Rightarrow> 'n \<Rightarrow> string option \<times> 'n"
  nwRead :: "nat \<Rightarrow> int \<Rightarrow> 'n \<Rightarrow> (string + string) \<times> 'n"
  nwJSONError :: "string \<Rightarrow> string"

datatype smoke_output = Stdout string | Stderr string | Closed nat

type_synonym ('n, 'a) script = "('n \<times> smoke_output list, 'a) State_Monad.state"

definition talk :: "('n \<Rightarrow> 'a \<times> 'n) \<Rightarrow> ('n, 'a) script" where
  "talk f = State (\<lambda>(n, out). case f n of (a, n') \<Rightarrow> (a, n', out))"

definition emit :: "smoke_output \<Rightarrow> ('n, unit) script" where
  "emit o1 = State (\<lambda>(n, out). ((), n, out @ [o1]))"

text \<open>Each read is given the deadline in seconds that \<open>SetReadDeadline\<close> puts on the connection just before it.\<close>

definition read_timeout :: int where
  "read_timeout = 5"

definition newline :: string where
  "newline = [CHR 0x0A]"

text \<open>A raw string of Go, with a backquote for every double quote.\<close>

definition quoted :: "string \<Rightarrow> string" where
  "quoted s = map (\<lambda>c. if c = CHR ''`'' then quote_mark else c) s"

record tokenResp =
  trsToken :: string

definition read_tokenResp :: "json \<Rightarrow> tokenResp option" where
  "read_tokenResp = into_struct (\<lambda>ms.
     Option.bind (set_field put_string (field_values ''token'' ms) []) (\<lambda>t. Some \<lparr>trsToken = t\<rparr>))"

text \<open>\<open>Booking\<close> is a structure with the one field \<open>ID\<close>.\<close>

record bookingResp =
  brsBookingID :: string

fun put_booking :: "json \<Rightarrow> string \<Rightarrow> string option" where
  "put_booking JNull i = Some i"
| "put_booking (JObj ms) i = set_field put_string (field_values ''id'' ms) i"
| "put_booking _ i = None"

definition read_bookingResp :: "json \<Rightarrow> bookingResp option" where
  "read_bookingResp = into_struct (\<lambda>ms.
     Option.bind (set_field put_booking (field_values ''booking'' ms) []) (\<lambda>i. Some \<lparr>brsBookingID = i\<rparr>))"

definition smoke_env :: "(string \<Rightarrow> string option) \<Rightarrow> string \<Rightarrow> string \<Rightarrow> string" where
  "smoke_env vars key fallback =
     (let v = (case vars key of None \<Rightarrow> [] | Some v \<Rightarrow> v) in if v \<noteq> [] then v else fallback)"

definition fatalf :: "string \<Rightarrow> ('n, int) script" where
  "fatalf message = do { emit (Stderr (message @ newline)); State_Monad.return 1 }"

definition smoke_post ::
  "'n network \<Rightarrow> string \<Rightarrow> string \<Rightarrow> string \<Rightarrow> ('n, string + string) script" where
  "smoke_post nw url token body = do {
     r \<leftarrow> talk (nwDo nw \<lparr>crqURL = url,
       crqHeaders = (if body \<noteq> [] then [(''Content-Type'', ''application/json'')] else []) @
         (if token \<noteq> [] then [(''Authorization'', ''Bearer '' @ token)] else []),
       crqBody = (if body \<noteq> [] then Some body else None)\<rparr>);
     State_Monad.return (case r of
       Inl err \<Rightarrow> Inl err
     | Inr (status, data) \<Rightarrow>
         if status \<ge> 400 then Inl (''status='' @ FormatInt status @ '' body='' @ data) else Inr data)
   }"

definition unmarshal_body ::
  "'n network \<Rightarrow> (json \<Rightarrow> 'a option) \<Rightarrow> string \<Rightarrow> string + 'a" where
  "unmarshal_body nw dst body =
     (case Option.bind (Unmarshal body) dst of None \<Rightarrow> Inl (nwJSONError nw body) | Some v \<Rightarrow> Inr v)"

definition smoke_login :: "'n network \<Rightarrow> string \<Rightarrow> string \<Rightarrow> ('n, string + string) script" where
  "smoke_login nw baseURL body = do {
     r \<leftarrow> smoke_post nw (baseURL @ ''/dummyLogin'') [] body;
     State_Monad.return (case r of
       Inl err \<Rightarrow> Inl err
     | Inr respBody \<Rightarrow> map_sum id trsToken (unmarshal_body nw read_tokenResp respBody))
   }"

definition login_request_body :: string where
  "login_request_body = quoted ''{`role`:`user`}''"

definition booking_request_body :: "string \<Rightarrow> string" where
  "booking_request_body slotID =
     quoted ''{`slotId`:`'' @ slotID @ quoted ''`,`createConferenceLink`:false}''"

definition smoke_createBooking ::
  "'n network \<Rightarrow> string \<Rightarrow> string \<Rightarrow> string \<Rightarrow> ('n, string + string) script" where
  "smoke_createBooking nw baseURL token slotID = do {
     r \<leftarrow> smoke_post nw (baseURL @ ''/bookings/create'') token (booking_request_body slotID);
     State_Monad.return (case r of
       Inl err \<Rightarrow> Inl err
     | Inr respBody \<Rightarrow> map_sum id brsBookingID (unmarshal_body nw read_bookingResp respBody))
   }"

definition smoke_cancelBooking ::
  "'n network \<Rightarrow> string \<Rightarrow> string \<Rightarrow> string \<Rightarrow> ('n, string + unit) script" where
  "smoke_cancelBooking nw baseURL token bookingID = do {
     r \<leftarrow> smoke_post nw (baseURL @ ''/bookings/'' @ bookingID @ ''/cancel'') token [];
     State_Monad.return (map_sum id (\<lambda>_. ()) r)
   }"

text \<open>\<open>WriteJSON\<close> writes the members of the map in the order of their keys, and a newline.\<close>

definition smoke_subscribe :: "'n network \<Rightarrow> nat \<Rightarrow> string \<Rightarrow> ('n, string + unit) script" where
  "smoke_subscribe nw conn roomID = do {
     sent \<leftarrow> talk (nwWrite nw conn
       (Marshal (JObj [(''roomId'', JStr roomID), (''type'', JStr ''subscribe'')]) @ newline));
     (case sent of
        Some err \<Rightarrow> State_Monad.return (Inl err)
      | None \<Rightarrow> do {
          ack \<leftarrow> talk (nwRead nw conn read_timeout);
          (case ack of
             Inl err \<Rightarrow> State_Monad.return (Inl err)
           | Inr a \<Rightarrow> do {
               emit (Stdout (''subscribe ack: '' @ a @ newline));
               State_Monad.return (Inr ())
             })
        })
   }"

definition or_fatal ::
  "string \<Rightarrow> ('n, string + 'a) script \<Rightarrow> ('a \<Rightarrow> ('n, int) script) \<Rightarrow> ('n, int) script" where
  "or_fatal what m k = do {
     r \<leftarrow> m;
     (case r of Inl err \<Rightarrow> fatalf (what @ '': '' @ err) | Inr a \<Rightarrow> k a)
   }"

text \<open>The status of the process. A fatal error leaves through \<open>os.Exit\<close>, without the deferred calls.\<close>

definition smoke_main :: "(string \<Rightarrow> string option) \<Rightarrow> 'n network \<Rightarrow> ('n, int) script" where
  "smoke_main vars nw =
     (let baseURL = smoke_env vars ''BASE_URL'' ''http://localhost:8080'';
          wsURL = smoke_env vars ''WS_URL'' ''ws://localhost:8080/ws'';
          roomID = smoke_env vars ''ROOM_ID'' ''aaaaaaaa-aaaa-aaaa-aaaa-aaaaaaaaaaaa'';
          slotID = smoke_env vars ''SLOT_ID'' ''99999999-9999-9999-9999-999999999999''
      in or_fatal ''dummyLogin'' (smoke_login nw baseURL login_request_body) (\<lambda>token.
         or_fatal ''ws dial A'' (talk (nwDial nw (wsURL @ ''?token='' @ token))) (\<lambda>connA.
         or_fatal ''ws dial B'' (talk (nwDial nw (wsURL @ ''?token='' @ token))) (\<lambda>connB.
         or_fatal ''ws subscribe A'' (smoke_subscribe nw connA roomID) (\<lambda>_.
         or_fatal ''ws subscribe B'' (smoke_subscribe nw connB roomID) (\<lambda>_. do {
           emit (Stdout (''ws ack: both clients subscribed'' @ newline));
           or_fatal ''create booking'' (smoke_createBooking nw baseURL token slotID) (\<lambda>bookingID.
           or_fatal ''ws read slot_booked on client B'' (talk (nwRead nw connB read_timeout)) (\<lambda>bookedMsg. do {
             emit (Stdout (''event1 (client B): '' @ bookedMsg @ newline));
             or_fatal ''cancel booking'' (smoke_cancelBooking nw baseURL token bookingID) (\<lambda>_.
             or_fatal ''ws read slot_released on client B'' (talk (nwRead nw connB read_timeout)) (\<lambda>releasedMsg. do {
               emit (Stdout (''event2 (client B): '' @ releasedMsg @ newline));
               emit (Closed connB);
               emit (Closed connA);
               State_Monad.return 0
             }))
           }))
         }))))))"

section \<open>Running it against the service\<close>

text \<open>
  The service as such a network: the router matches the three paths the script uses, anything else is
  not found. Headers and parameters that were not sent are empty.
\<close>

definition starts_and_ends :: "string \<Rightarrow> string \<Rightarrow> string \<Rightarrow> string option" where
  "starts_and_ends p q s =
     (if starts_with p s \<and> length p + length q \<le> length s \<and> drop (length s - length q) s = q
      then Some (take (length s - length p - length q) (drop (length p) s)) else None)"

definition smoke_route :: "string \<Rightarrow> string \<Rightarrow> (route \<times> string \<times> string) option" where
  "smoke_route base url =
     (if url = base @ ''/dummyLogin'' then Some (Public PostDummyLogin, ''/dummyLogin'', [])
      else if url = base @ ''/bookings/create'' then Some (Private PostBookingsCreate, ''/bookings/create'', [])
      else map_option (\<lambda>i. (Private PostBookingsCancel, ''/bookings/{bookingId}/cancel'', i))
        (starts_and_ends (base @ ''/bookings/'') ''/cancel'' url))"

definition router_request :: "string \<Rightarrow> string \<Rightarrow> (string \<times> string) list \<Rightarrow> string option \<Rightarrow> request" where
  "router_request pattern i headers body =
     \<lparr>rqMethod = ''POST'', rqPattern = pattern, rqParam = (\<lambda>p. if p = ''bookingId'' then i else []),
      rqQuery = (\<lambda>_. []), rqHeader = (\<lambda>h. case map_of headers h of None \<Rightarrow> [] | Some v \<Rightarrow> v),
      rqBody = (case body of None \<Rightarrow> [] | Some b \<Rightarrow> b)\<rparr>"

text \<open>
  Request number \<open>j\<close> is served in the world \<open>worlds j\<close>, on the database the requests before it left. Besides the
  answer there are the messages that the request published.
\<close>

definition service_do ::
  "router_dependencies \<Rightarrow> string \<Rightarrow> (nat \<Rightarrow> world) \<Rightarrow> client_request \<Rightarrow> store \<times> nat \<Rightarrow>
   (string + int \<times> string) \<times> (store \<times> nat) \<times> (string \<times> string) list" where
  "service_do deps base worlds r = (\<lambda>(st, j).
     case smoke_route base (crqURL r) of
        None \<Rightarrow> (Inr (404, ''404 page not found''), (st, Suc j), [])
      | Some (rt, pattern, i) \<Rightarrow>
          (case run_state (serve deps rt (router_request pattern i (crqHeaders r) (crqBody r)))
              ((worlds j)\<lparr>db := st, outbox := []\<rparr>) of
             (rs, w') \<Rightarrow> (Inr (rsStatus rs, rsBody rs), (db w', Suc j), outbox w')))"

text \<open>The subscriber takes the messages of its channel to the hub.\<close>

definition deliver :: "ext \<Rightarrow> string \<Rightarrow> (string \<times> string) list \<Rightarrow> hub_state \<Rightarrow> hub_state" where
  "deliver x channel out =
     fold (\<lambda>(ch, payload) hub. if ch = channel then perform x (Receive payload) hub else hub) out"

definition dial_request :: "string \<Rightarrow> request" where
  "dial_request token =
     \<lparr>rqMethod = ''GET'', rqPattern = ''/ws'', rqParam = (\<lambda>_. []), rqQuery = (\<lambda>q. if q = ''token'' then token else []),
      rqHeader = (\<lambda>_. []), rqBody = []\<rparr>"

text \<open>
  The service with its hub as a network, nobody else acting: what a request publishes reaches the hub before
  the next call of the script; to dial is to be upgraded by the websocket handler, unless that refuses; a
  message that is written is read and handled by the read pump of its client; and to read is to let the
  write pump of the client write its next message, with the timeout if there is none.
\<close>

definition live_network ::
  "config \<Rightarrow> app \<Rightarrow> ext \<Rightarrow> string \<Rightarrow> string \<Rightarrow> (nat \<Rightarrow> world) \<Rightarrow> ((store \<times> nat) \<times> hub_state) network" where
  "live_network cfg a x base ws worlds = \<lparr>
     nwDo = (\<lambda>r (s, hub). case service_do (dependencies cfg a) base worlds r s of
       (ans, s', out) \<Rightarrow> (ans, s', deliver x (cfgRedisChannel cfg) out hub)),
     nwDial = (\<lambda>url ((st, j), hub). case starts_and_ends (ws @ ''?token='') [] url of
         None \<Rightarrow> (Inl ''malformed ws or wss URL'', (st, j), hub)
       | Some token \<Rightarrow>
           (case fst (run_state (ws_ServeHTTP (cfgJWTSecret cfg) True (dial_request token) hub) ((worlds j)\<lparr>db := st\<rparr>)) of
              (None, hub') \<Rightarrow> (Inr (hubNext hub), (st, Suc j), hub')
            | (Some rs, hub') \<Rightarrow> (Inl ''websocket: bad handshake'', (st, Suc j), hub'))),
     nwWrite = (\<lambda>c text (s, hub).
       if clConnClosed (hubClients hub c) then (Some ''write: broken pipe'', s, hub)
       else (None, s, perform x (Read c (Some text)) hub)),
     nwRead = (\<lambda>c timeout (s, hub).
       let hub' = perform x (Write c FromSend True) hub
       in case drop (length (clWritten (hubClients hub c))) (clWritten (hubClients hub' c)) of
            [] \<Rightarrow> (Inl ''i/o timeout'', s, hub')
          | text # _ \<Rightarrow> (Inr text, s, hub')),
     nwJSONError = (\<lambda>text. ''invalid character'')\<rparr>"

lemma starts_and_ends_middle [simp]: "starts_and_ends p q (p @ s @ q) = Some s"
  by (simp add: starts_and_ends_def starts_with_iff)

lemma smoke_route_login [simp]:
  "smoke_route base (base @ ''/dummyLogin'') = Some (Public PostDummyLogin, ''/dummyLogin'', [])"
  by (simp add: smoke_route_def)

lemma smoke_route_create [simp]:
  "smoke_route base (base @ ''/bookings/create'') = Some (Private PostBookingsCreate, ''/bookings/create'', [])"
  by (simp add: smoke_route_def)

lemma smoke_route_cancel:
  "smoke_route base (base @ ''/bookings/'' @ i @ ''/cancel'') =
    Some (Private PostBookingsCancel, ''/bookings/{bookingId}/cancel'', i)"
proof -
  have "base @ ''/bookings/'' @ i @ ''/cancel'' \<noteq> base @ ''/bookings/create''"
  proof
    assume "base @ ''/bookings/'' @ i @ ''/cancel'' = base @ ''/bookings/create''"
    then have "rev (i @ ''/cancel'') = rev ''create''"
      by simp
    then show False by simp
  qed
  moreover have "starts_and_ends (base @ ''/bookings/'') ''/cancel'' (base @ ''/bookings/'' @ i @ ''/cancel'') = Some i"
    using starts_and_ends_middle [of "base @ ''/bookings/''" "''/cancel''" i] by simp
  ultimately show ?thesis
    by (simp add: smoke_route_def)
qed

text \<open>What the service writes ends in a newline, which \<open>Unmarshal\<close> skips.\<close>

lemma Unmarshal_line:
  assumes "plain 0 (JObj ms)"
  shows "Unmarshal (Marshal (JObj ms) @ [CHR 0x0A]) = Some (JObj ms)"
proof -
  let ?rest = "[CHR 0x0A]"
  define m where "m = 2 * length (Marshal (JObj ms) @ ?rest)"
  have scan: "scan_value (Suc m) 0 (Marshal (JObj ms) @ ?rest) = Done (JObj ms) ?rest"
  proof (cases ms)
    case (Cons x ms')
    have members: "scan_members m (Suc 0) (join '','' (map member_text ms) @ ''}'' @ ?rest) = Done ms ?rest"
      using assms Cons
      by (intro scan_members_written scan_written) (auto simp: m_def list_all_iff Marshal_JObj simp del: Marshal.simps)
    obtain r' where "join '','' (map member_text ms) @ ''}'' @ ?rest = quote_mark # r'"
      using Cons by (cases ms') (auto simp: member_text_def json_quote_def)
    then show ?thesis
      using members by (simp add: Marshal_JObj maxNestingDepth_def del: Marshal.simps)
  qed (simp add: maxNestingDepth_def)
  show ?thesis
    using scan unfolding Unmarshal_def scan_def m_def [symmetric] by (simp add: is_space_def del: Marshal.simps)
qed

lemma run_talk [simp]: "run_state (talk f) (n, out) = (case f n of (a, n') \<Rightarrow> (a, n', out))"
  by (simp add: talk_def)

lemma run_emit [simp]: "run_state (emit o1) (n, out) = ((), n, out @ [o1])"
  by (simp add: emit_def)

lemma token_names:
  "fold_name ''role'' = ''role''" "fold_name ''token'' = ''token''" "fold_name ''booking'' = ''booking''"
  "fold_name ''id'' = ''id''"
  by (simp_all add: lower_ascii_def char_of_def bit_0)

text \<open>The body of the login is what \<open>Marshal\<close> writes.\<close>

lemma login_body: "login_request_body = Marshal (JObj [(''role'', JStr ''user'')])"
  by (simp add: login_request_body_def quoted_def json_quote_def escape.simps(2) escape_ascii_def char_of_def bit_0)

lemma dummy_login_answers:
  assumes "rqBody r = login_request_body"
  shows "run_state (AuthHandler_DummyLogin (Some s) r) w =
    (WriteJSON StatusOK (tokenResponse_json \<lparr>trToken = sign_token (libs (env w)) (asSecret s) dummy_user_id RoleUser
      (clock_at (env w) (ticks w))\<rparr>), tick w)"
proof -
  let ?j = "JObj [(''role'', JStr ''user'')]"
  have "plain 0 ?j" "length (Marshal ?j) \<le> MaxBody"
    by (simp_all add: is_ascii_def maxNestingDepth_def MaxBody_def json_quote_def escape.simps(2) escape_ascii_def)
  moreover have "read_dummyLoginRequest ?j = Some \<lparr>dlRole = ''user''\<rparr>"
    by (simp add: read_dummyLoginRequest_def into_struct_def field_values_def token_names)
  ultimately have "DecodeJSON read_dummyLoginRequest (rqBody r) = Inr \<lparr>dlRole = ''user''\<rparr>"
    unfolding assms login_body by (simp only: DecodeJSON_written option.case)
  then show ?thesis
    by (simp add: AuthHandler_DummyLogin_def auth_configured_def or_error_def respond_def DummyLogin_def Sign_def
        RoleUser_def RoleAdmin_def)
qed

lemma token_ascii: "list_all is_ascii (sign_token x secret i role t)"
  using sign_token_visible(1) [of x secret i role t] by (auto simp: list_all_iff visible_def is_ascii_def)

lemma read_token_body:
  assumes "list_all is_ascii t"
  shows "unmarshal_body nw read_tokenResp (Marshal (tokenResponse_json \<lparr>trToken = t\<rparr>) @ [CHR 0x0A]) = Inr \<lparr>trsToken = t\<rparr>"
proof -
  have "Unmarshal (Marshal (tokenResponse_json \<lparr>trToken = t\<rparr>) @ [CHR 0x0A]) = Some (JObj [(''token'', JStr t)])"
    using assms by (simp add: tokenResponse_json_def Unmarshal_line is_ascii_def maxNestingDepth_def del: Marshal.simps)
  then show ?thesis
    by (simp add: unmarshal_body_def read_tokenResp_def into_struct_def field_values_def token_names)
qed

lemma smoke_post_live:
  assumes "smoke_route base url = Some (rt, pattern, i)"
    "run_state (serve (dependencies cfg a) rt (router_request pattern i
      ((if body \<noteq> [] then [(''Content-Type'', ''application/json'')] else []) @
       (if token \<noteq> [] then [(''Authorization'', ''Bearer '' @ token)] else []))
      (if body \<noteq> [] then Some body else None))) ((worlds j)\<lparr>db := st, outbox := []\<rparr>) = (rs, w')"
    "rsStatus rs < 400"
  shows "run_state (smoke_post (live_network cfg a x base ws worlds) url token body) (((st, j), hub), out) =
    (Inr (rsBody rs), ((db w', Suc j), deliver x (cfgRedisChannel cfg) (outbox w') hub), out)"
  using assms by (simp add: smoke_post_def live_network_def service_do_def)

lemma smoke_login_served:
  "\<exists>n. \<forall>hub out. run_state (smoke_login (live_network cfg a x base ws worlds) base login_request_body) (((st, j), hub), out) =
    (Inr (sign_token (libs (env (worlds j))) (asSecret (appAuth a)) dummy_user_id RoleUser (clock_at (env (worlds j)) n)),
     ((st, Suc j), hub), out)"
proof -
  let ?w = "(worlds j)\<lparr>db := st, outbox := []\<rparr>" and ?x = "libs (env (worlds j))"
  let ?r = "router_request ''/dummyLogin'' [] [(''Content-Type'', ''application/json'')] (Some login_request_body)"
  let ?t = "\<lambda>n. sign_token ?x (asSecret (appAuth a)) dummy_user_id RoleUser (clock_at (env (worlds j)) n)"
  define n where "n = ticks (after_request_id ?r ?w)"
  have "\<exists>rs w'. run_state (serve (dependencies cfg a) (Public PostDummyLogin) ?r) ?w = (rs, w') \<and>
      (db w' = st \<and> outbox w' = [] \<and> rsStatus rs = 200 \<and>
       rsBody rs = Marshal (tokenResponse_json \<lparr>trToken = ?t n\<rparr>) @ [CHR 0x0A])"
    by (rule run_serve_route)
      (auto simp: dependencies_def dummy_login_answers WriteJSON_def StatusOK_def n_def add_headers_def router_request_def
        simp del: Marshal.simps)
  then obtain rs w' where run: "run_state (serve (dependencies cfg a) (Public PostDummyLogin) ?r) ?w = (rs, w')" "db w' = st"
      "outbox w' = []" "rsStatus rs = 200" "rsBody rs = Marshal (tokenResponse_json \<lparr>trToken = ?t n\<rparr>) @ [CHR 0x0A]"
    by blast
  have body: "login_request_body \<noteq> []"
    by (simp add: login_request_body_def quoted_def)
  have "run_state (smoke_post (live_network cfg a x base ws worlds) (base @ ''/dummyLogin'') [] login_request_body)
      (((st, j), hub), out) = (Inr (rsBody rs), ((st, Suc j), hub), out)" for hub out
    using smoke_post_live [OF smoke_route_login, where body = login_request_body and token = "[]" and st = st and rs = rs and w' = w']
      run body by (simp add: deliver_def del: append_assoc)
  then have "run_state (smoke_login (live_network cfg a x base ws worlds) base login_request_body) (((st, j), hub), out) =
      (Inr (?t n), ((st, Suc j), hub), out)" for hub out
    by (simp add: smoke_login_def run(5) read_token_body token_ascii del: Marshal.simps)
  then show ?thesis by blast
qed

text \<open>
  The documented behaviour of \<open>uuid\<close> and \<open>time\<close>: the text of an identifier consists of hexadecimal digits
  and hyphens and parses to it, the text of a moment is ASCII.
\<close>

definition uuid_char :: "char \<Rightarrow> bool" where
  "uuid_char c \<longleftrightarrow> c \<in> set ''0123456789abcdef-''"

definition texts_ok :: "ext \<Rightarrow> bool" where
  "texts_ok x \<longleftrightarrow> (\<forall>i. uuid_Parse x (uuid_String x i) = Some i \<and> list_all uuid_char (uuid_String x i)) \<and>
     (\<forall>t. list_all is_ascii (format_RFC3339 x t))"

lemma uuid_char_plain: "uuid_char c \<Longrightarrow> code c < 128 \<and> is_ascii c \<and> escape_ascii c = [c]"
proof -
  have "list_all (\<lambda>c. code c < 128 \<and> is_ascii c \<and> escape_ascii c = [c]) ''0123456789abcdef-''"
    by (simp add: is_ascii_def escape_ascii_def)
  then show "uuid_char c \<Longrightarrow> code c < 128 \<and> is_ascii c \<and> escape_ascii c = [c]"
    unfolding uuid_char_def list_all_iff by blast
qed

lemma texts_ok_uuid: "texts_ok x \<Longrightarrow> uuid_text_ok x"
  by (auto simp: texts_ok_def uuid_text_ok_def list_all_iff uuid_char_plain)

lemma escape_uuid: "list_all uuid_char s \<Longrightarrow> escape s = s"
proof (induction s)
  case (Cons c s)
  then have "code c < 128" "escape_ascii c = [c]"
    using uuid_char_plain by simp_all
  then show ?case
    using Cons by (simp add: escape.simps(2) is_ascii_def)
qed simp

text \<open>The body of the booking is what \<open>Marshal\<close> writes.\<close>

lemma create_body:
  assumes "texts_ok x"
  shows "booking_request_body (uuid_String x k) = booking_body x k False"
proof -
  have names: "escape ''slotId'' = ''slotId''" "escape ''createConferenceLink'' = ''createConferenceLink''"
    by (simp_all add: escape.simps(2) escape_ascii_def char_of_def bit_0)
  have "escape (uuid_String x k) = uuid_String x k"
    using assms by (simp add: texts_ok_def escape_uuid)
  then show ?thesis
    by (simp add: booking_request_body_def booking_body_def quoted_def json_quote_def names)
qed

lemma read_booking_body:
  assumes "texts_ok x" "bkConferenceLink b = None"
  shows "unmarshal_body nw read_bookingResp
      (Marshal (createBookingResponse_json \<lparr>cbrBooking = bookingToDTO x b\<rparr>) @ [CHR 0x0A]) =
    Inr \<lparr>brsBookingID = uuid_String x (bkID b)\<rparr>"
proof -
  have "list_all is_ascii (uuid_String x i)" "list_all is_ascii (format_RFC3339 x t)" for i t
    using assms(1) texts_ok_uuid by (simp_all add: texts_ok_def uuid_text_ok_def)
  moreover have "list_all is_ascii (booking_status_text (bkStatus b))"
    by (cases "bkStatus b") (simp_all add: is_ascii_def)
  ultimately have "Unmarshal (Marshal (createBookingResponse_json \<lparr>cbrBooking = bookingToDTO x b\<rparr>) @ [CHR 0x0A]) =
      Some (createBookingResponse_json \<lparr>cbrBooking = bookingToDTO x b\<rparr>)"
    unfolding createBookingResponse_json_def
    by (intro Unmarshal_line)
      (simp add: bookingDTO_json_def bookingToDTO_def omitempty_def assms(2) is_ascii_def maxNestingDepth_def)
  then show ?thesis
    by (simp add: unmarshal_body_def read_bookingResp_def into_struct_def field_values_def token_names
        createBookingResponse_json_def bookingDTO_json_def bookingToDTO_def omitempty_def assms(2)
        del: Marshal.simps fold_name.simps) (simp add: token_names lower_ascii_def char_of_def bit_0)
qed

text \<open>With a token of the service, in time, a private route is its handler for the user the token names.\<close>

lemma signed_route:
  assumes "uuid_text_ok (libs (env w))" "0 < unix_seconds (signedAt + token_lifetime)"
    "unix_seconds (signedAt + token_lifetime) \<le> int64_max"
    "unix_seconds (clock_at (env w) (ticks w)) < unix_seconds (signedAt + token_lifetime)"
    "rqHeader r ''Authorization'' = ''Bearer '' @ sign_token (libs (env w)) (cfgJWTSecret cfg) i RoleUser signedAt"
  shows "run_state (route_handler (dependencies cfg a) (Private p) r) w =
    run_state (private_handler (dependencies cfg a) p (Some (token_user i RoleUser)) r) (tick w)"
proof -
  have "run_state (AuthenticateRequest (cfgJWTSecret cfg) (rqHeader r ''Authorization'')) w = (Inr (token_user i RoleUser), tick w)"
    using AuthenticateRequest_sign_token [of w RoleUser signedAt "cfgJWTSecret cfg" i] assms by (simp add: bearer_prefix_def)
  then show ?thesis
    by (simp add: RequireUser_def dependencies_def)
qed

text \<open>
  What the texts, the clocks, the token, the database and Redis have to satisfy for the requests of the
  script: the database and Redis answer, and the token has not expired.
\<close>

definition session_ok :: "ext \<Rightarrow> (nat \<Rightarrow> world) \<Rightarrow> time \<Rightarrow> bool" where
  "session_ok x worlds signedAt \<longleftrightarrow> texts_ok x \<and>
     (\<forall>j. calm (env (worlds j)) \<and> redis_up (env (worlds j)) \<and> libs (env (worlds j)) = x) \<and>
     0 < unix_seconds (signedAt + token_lifetime) \<and> unix_seconds (signedAt + token_lifetime) \<le> int64_max \<and>
     (\<forall>j n. unix_seconds (clock_at (env (worlds j)) n) < unix_seconds (signedAt + token_lifetime) \<and>
       time_text_ok x (clock_at (env (worlds j)) n))"

lemma served_step:
  assumes "run_state (serve (dependencies cfg a) rt r) w = (rs, w')"
  shows "db w' = db w \<or> step a (\<lambda>_. True) (db w) (db w')"
  using moves_serve [of a "\<lambda>_. True" cfg rt r] assms unfolding moves_by_def by (metis snd_conv)

text \<open>What goes over Redis for a call of the publisher.\<close>

definition wire_message :: "config \<Rightarrow> ext \<Rightarrow> time \<Rightarrow> pub_call \<Rightarrow> string \<times> string" where
  "wire_message cfg x now c = (cfgRedisChannel cfg, Marshal (event_json (event_of x now c)))"

lemma smoke_create_served:
  fixes cfg :: config and gen :: generator
  defines "a \<equiv> wire cfg gen" and "u \<equiv> token_user dummy_user_id RoleUser"
  assumes "session_ok x worlds signedAt" "app_ok st" "cfgRedisChannel cfg \<noteq> []"
    "dummy_user_id \<in> usrID ` set (users st)" "fresh_ids (env (worlds j)) (bkID ` set (bookings st))"
    "\<forall>n. create_refusal (appBookings a) u k (clock_at (env (worlds j)) n) st = None"
    "find_row slID k (slots st) = Some slot" "length (uuid_String x k) \<le> 36"
    "t = sign_token x (cfgJWTSecret cfg) dummy_user_id RoleUser signedAt"
  shows "\<exists>i now n. (\<forall>hub out. run_state (smoke_createBooking (live_network cfg a x base ws worlds) base t (uuid_String x k))
      (((st, j), hub), out) =
      (Inr (uuid_String x i), ((add_booking (new_booking i u k now) st, Suc j), deliver x (cfgRedisChannel cfg)
        [wire_message cfg x (clock_at (env (worlds j)) n) (SlotBooked (slRoomID slot) k i)] hub), out)) \<and>
    app_ok (add_booking (new_booking i u k now) st)"
proof -
  let ?w = "(worlds j)\<lparr>db := st, outbox := []\<rparr>"
  let ?headers = "[(''Content-Type'', ''application/json''), (''Authorization'', ''Bearer '' @ t)]"
  define r where "r = router_request ''/bookings/create'' [] ?headers (Some (booking_request_body (uuid_String x k)))"
  have r: "rqMethod r \<noteq> ''OPTIONS''" "rqHeader r ''Authorization'' = ''Bearer '' @ t"
      "rqBody r = booking_request_body (uuid_String x k)"
    by (simp_all add: r_def router_request_def)
  let ?v = "after_request_id r ?w"
  have x: "libs (env (worlds j)) = x" "calm (env (worlds j))" "redis_up (env (worlds j))" "texts_ok x" "uuid_text_ok x"
    using assms(3) texts_ok_uuid by (auto simp: session_ok_def)
  have body: "booking_request_body (uuid_String x k) = booking_body x k False"
    using x(4) by (rule create_body)
  have "length (booking_request_body (uuid_String x k)) \<le> MaxBody"
    using assms(10) by (simp add: booking_request_body_def quoted_def MaxBody_def)
  then have len: "length (booking_body x k False) \<le> MaxBody"
    by (simp add: body)
  have token: "0 < unix_seconds (signedAt + token_lifetime)" "unix_seconds (signedAt + token_lifetime) \<le> int64_max"
      "unix_seconds (clock_at (env (worlds j)) n) < unix_seconds (signedAt + token_lifetime)" for n
    using assms(3) by (auto simp: session_ok_def)
  have route: "run_state (route_handler (dependencies cfg a) (Private PostBookingsCreate) r) ?v =
      run_state (BookingHandler_CreateBooking (Some (appBookings a)) (Some u) r) (tick ?v)"
    using signed_route [of ?v signedAt r cfg dummy_user_id a PostBookingsCreate] x token assms(11) r(2)
    by (simp add: dependencies_def u_def)
  define now where "now = clock_at (env (worlds j)) (ticks (tick ?v))"
  have answer: "booking_answer (appBookings a) u k now st = None"
    using assms(6,8) by (simp add: booking_answer_def now_def u_def token_user_def)
  obtain i v' where handled: "run_state (CreateBooking (appBookings a) u k False) (tick ?v) = (Inr (new_booking i u k now), v')"
      "run_state (BookingHandler_CreateBooking (Some (appBookings a)) (Some u) r) (tick ?v) =
      (WriteJSON StatusCreated (createBookingResponse_json \<lparr>cbrBooking = bookingToDTO x (new_booking i u k now)\<rparr>), v')"
      "db v' = add_booking (new_booking i u k now) st"
    using booking_handler_answers [of "tick ?v" r k False "appBookings a" u] x assms(7) len answer
    by (auto simp: body r(3) now_def)
  define b where "b = new_booking i u k now"
  obtain n where out: "outbox v' = [wire_message cfg x (clock_at (env (worlds j)) n) (SlotBooked (slRoomID slot) k i)]"
    using CreateBooking_publishes [OF handled(1) wired_publisher [of cfg gen, folded a_def]] x assms(5,9)
    by (auto simp: wire_message_def simp del: Marshal.simps)
  have "\<exists>rs w'. run_state (serve (dependencies cfg a) (Private PostBookingsCreate) r) ?w = (rs, w') \<and>
      (db w' = add_booking b st \<and> outbox w' = outbox v' \<and> rsStatus rs = 201 \<and>
       rsBody rs = Marshal (createBookingResponse_json \<lparr>cbrBooking = bookingToDTO x b\<rparr>) @ [CHR 0x0A])"
  proof (rule run_serve_route [OF r(1)])
    show "\<exists>rs w'. run_state (route_handler (dependencies cfg a) (Private PostBookingsCreate) r) ?v = (rs, w') \<and>
      (db w' = add_booking b st \<and> outbox w' = outbox v' \<and> rsStatus rs = 201 \<and>
       rsBody rs = Marshal (createBookingResponse_json \<lparr>cbrBooking = bookingToDTO x b\<rparr>) @ [CHR 0x0A])"
      unfolding route handled(2) b_def
      by (simp add: handled(3) WriteJSON_def StatusCreated_def del: Marshal.simps)
  qed (simp add: add_headers_def)
  then obtain rs w' where run: "run_state (serve (dependencies cfg a) (Private PostBookingsCreate) r) ?w = (rs, w')"
      "db w' = add_booking b st" "outbox w' = outbox v'" "rsStatus rs = 201"
      "rsBody rs = Marshal (createBookingResponse_json \<lparr>cbrBooking = bookingToDTO x b\<rparr>) @ [CHR 0x0A]"
    by blast
  have "app_ok (db w')"
    using served_step [OF run(1)] assms(4) consistent.keeps unfolding a_def by auto
  have sent: "booking_request_body (uuid_String x k) \<noteq> []" "t \<noteq> []"
    using sign_token_visible(2) by (simp_all add: booking_request_body_def quoted_def assms(11))
  have b: "bkConferenceLink b = None" "bkID b = i"
    by (simp_all add: b_def new_booking_def)
  have "run_state (smoke_post (live_network cfg a x base ws worlds) (base @ ''/bookings/create'') t
      (booking_request_body (uuid_String x k))) (((st, j), hub), out) = (Inr (rsBody rs), ((db w', Suc j),
        deliver x (cfgRedisChannel cfg) (outbox w') hub), out)" for hub out
    using run(1) [unfolded r_def] run(4) sent by (intro smoke_post_live [OF smoke_route_create]) simp_all
  then have "run_state (smoke_createBooking (live_network cfg a x base ws worlds) base t (uuid_String x k)) (((st, j), hub), out) =
      (Inr (uuid_String x i), ((add_booking b st, Suc j), deliver x (cfgRedisChannel cfg)
        [wire_message cfg x (clock_at (env (worlds j)) n) (SlotBooked (slRoomID slot) k i)] hub), out)" for hub out
    using read_booking_body [OF x(4) b(1), where nw = "live_network cfg a x base ws worlds"] b(2)
    by (simp add: smoke_createBooking_def run(2,3,5) out del: Marshal.simps)
  then show ?thesis
    using \<open>app_ok (db w')\<close> run(2) unfolding b_def by metis
qed

lemma cancel_handler_answers:
  assumes "run_state (CancelBooking s u i) w = (Inr b, w')" "uuid_text_ok (libs (env w))"
    "rqParam r ''bookingId'' = uuid_String (libs (env w)) i"
  shows "\<exists>rs. run_state (BookingHandler_CancelBooking (Some s) (Some u) r) w = (rs, w') \<and> rsStatus rs = 200"
  using assms
  by (auto simp: BookingHandler_CancelBooking_def with_user_def or_error_def respond_def parse_id_def uuid_text_ok_def
      WriteJSON_def StatusOK_def)

lemma smoke_cancel_served:
  fixes cfg :: config and gen :: generator
  defines "a \<equiv> wire cfg gen"
  assumes "session_ok x worlds signedAt" "app_ok st" "cfgRedisChannel cfg \<noteq> []"
    "find_row bkID i (bookings st) = Some b" "bkUserID b = dummy_user_id" "bk_active b"
    "find_row slID (bkSlotID b) (slots st) = Some slot" "slRoomID slot \<noteq> 0" "\<not> slot_awaited st (bkSlotID b)"
    "t = sign_token x (cfgJWTSecret cfg) dummy_user_id RoleUser signedAt"
  shows "\<exists>n. (\<forall>hub out. run_state (smoke_cancelBooking (live_network cfg a x base ws worlds) base t (uuid_String x i))
      (((st, j), hub), out) =
      (Inr (), ((cancel_booking i st, Suc j), deliver x (cfgRedisChannel cfg)
        [wire_message cfg x (clock_at (env (worlds j)) n) (SlotReleased (slRoomID slot) (bkSlotID b) i)] hub), out)) \<and>
    app_ok (cancel_booking i st)"
proof -
  let ?u = "token_user dummy_user_id RoleUser" and ?w = "(worlds j)\<lparr>db := st, outbox := []\<rparr>"
  define r where "r = router_request ''/bookings/{bookingId}/cancel'' (uuid_String x i) [(''Authorization'', ''Bearer '' @ t)] None"
  have r: "rqMethod r \<noteq> ''OPTIONS''" "rqHeader r ''Authorization'' = ''Bearer '' @ t"
      "rqParam r ''bookingId'' = uuid_String x i"
    by (simp_all add: r_def router_request_def)
  let ?v = "after_request_id r ?w"
  have x: "libs (env (worlds j)) = x" "calm (env (worlds j))" "redis_up (env (worlds j))" "texts_ok x" "uuid_text_ok x"
    using assms(2) texts_ok_uuid by (auto simp: session_ok_def)
  have token: "0 < unix_seconds (signedAt + token_lifetime)" "unix_seconds (signedAt + token_lifetime) \<le> int64_max"
      "unix_seconds (clock_at (env (worlds j)) n) < unix_seconds (signedAt + token_lifetime)" for n
    using assms(2) by (auto simp: session_ok_def)
  have route: "run_state (route_handler (dependencies cfg a) (Private PostBookingsCancel) r) ?v =
      run_state (BookingHandler_CancelBooking (Some (appBookings a)) (Some ?u) r) (tick ?v)"
    using signed_route [of ?v signedAt r cfg dummy_user_id a PostBookingsCancel] x token assms(11) r(2)
    by (simp add: dependencies_def)
  have d: "distinct (map bkID (bookings st))"
    using assms(3) by (simp add: app_ok_def store_ok_defs)
  have u: "usrRole ?u = RoleUser" "usrID ?u = dummy_user_id"
    by (simp_all add: token_user_def)
  obtain v' n where run: "run_state (CancelBooking (appBookings a) ?u i) (tick ?v) = (Inr (bk_cancel b), v')"
      "db v' = cancel_booking i st"
      "outbox v' = [wire_message cfg x (clock_at (env (worlds j)) n) (SlotReleased (slRoomID slot) (bkSlotID b) i)]"
    using CancelBooking_releases [of "tick ?v" i b ?u slot "appBookings a", OF _ _ _ u(1) _ _ _ _ _
        wired_publisher [of cfg gen, folded a_def]] x assms(4-10) d u
    by (auto simp: wire_message_def simp del: Marshal.simps)
  obtain rs where handled: "run_state (BookingHandler_CancelBooking (Some (appBookings a)) (Some ?u) r) (tick ?v) = (rs, v')"
      "rsStatus rs = 200"
    using cancel_handler_answers [OF run(1), of r] x r(3) by auto
  have "\<exists>rs w'. run_state (serve (dependencies cfg a) (Private PostBookingsCancel) r) ?w = (rs, w') \<and>
      (rsStatus rs = 200 \<and> db w' = db v' \<and> outbox w' = outbox v')"
  proof (rule run_serve_route [OF r(1)])
    show "\<exists>rs w'. run_state (route_handler (dependencies cfg a) (Private PostBookingsCancel) r) ?v = (rs, w') \<and>
      (rsStatus rs = 200 \<and> db w' = db v' \<and> outbox w' = outbox v')"
      unfolding route handled(1) using handled(2) by simp
  qed (simp add: add_headers_def)
  then obtain rs w' where served: "run_state (serve (dependencies cfg a) (Private PostBookingsCancel) r) ?w = (rs, w')"
      "rsStatus rs = 200" "db w' = db v'" "outbox w' = outbox v'"
    by blast
  have ok: "app_ok (db w')"
    using served_step [OF served(1)] assms(3) consistent.keeps unfolding a_def by auto
  have "t \<noteq> []"
    using sign_token_visible(2) by (simp add: assms(11))
  then have "run_state (smoke_post (live_network cfg a x base ws worlds) (base @ ''/bookings/'' @ uuid_String x i @ ''/cancel'') t [])
      (((st, j), hub), out) = (Inr (rsBody rs), ((db w', Suc j), deliver x (cfgRedisChannel cfg) (outbox w') hub), out)" for hub out
    using served(1,2) [unfolded r_def] by (intro smoke_post_live [OF smoke_route_cancel]) simp_all
  then show ?thesis
    using ok run(2,3) served(3,4) by (auto simp: smoke_cancelBooking_def)
qed

section \<open>The websockets of the script\<close>

lemma bearerToken_sign_token: "bearerToken (bearer_prefix @ sign_token x secret i role t) = sign_token x secret i role t"
proof -
  have "starts_with bearer_prefix (bearer_prefix @ s)" for s
    by (simp add: starts_with_iff)
  then show ?thesis
    using sign_token_visible(1) [of x secret i role t] TrimSpace_visible by (simp add: bearerToken_def)
qed

lemma dial_authenticates:
  assumes "uuid_text_ok (libs (env w))" "0 < unix_seconds (signedAt + token_lifetime)"
    "unix_seconds (signedAt + token_lifetime) \<le> int64_max"
    "unix_seconds (clock_at (env w) (ticks w)) < unix_seconds (signedAt + token_lifetime)"
  shows "run_state (ws_authenticate secret (dial_request (sign_token (libs (env w)) secret i RoleUser signedAt))) w =
    (Inr (token_user i RoleUser), tick w)"
proof -
  let ?t = "sign_token (libs (env w)) secret i RoleUser signedAt"
  have "?t \<noteq> []"
    using sign_token_visible(2) by simp
  then have "run_state (AuthenticateToken secret ?t) w = (Inr (token_user i RoleUser), tick w)"
    using AuthenticateRequest_sign_token [of w RoleUser signedAt secret i] assms
    by (simp add: AuthenticateRequest_def bearerToken_sign_token)
  moreover have "bearerToken [] = []"
    by (simp add: bearerToken_def bearer_prefix_def)
  ultimately show ?thesis
    using \<open>?t \<noteq> []\<close> by (simp add: ws_authenticate_def dial_request_def AuthenticateRequest_def)
qed

lemma live_dial:
  assumes "session_ok x worlds signedAt" "t = sign_token x (cfgJWTSecret cfg) dummy_user_id RoleUser signedAt"
  shows "nwDial (live_network cfg a x base ws worlds) (ws @ ''?token='' @ t) ((st, j), hub) =
    (Inr (hubNext hub), (st, Suc j), perform x (Connect (token_user dummy_user_id RoleUser)) hub)"
proof -
  have "uuid_text_ok x" "libs (env (worlds j)) = x"
    using assms(1) texts_ok_uuid by (auto simp: session_ok_def)
  then have "run_state (ws_authenticate (cfgJWTSecret cfg) (dial_request t)) ((worlds j)\<lparr>db := st\<rparr>) =
      (Inr (token_user dummy_user_id RoleUser), tick ((worlds j)\<lparr>db := st\<rparr>))"
    using dial_authenticates [of "(worlds j)\<lparr>db := st\<rparr>" signedAt "cfgJWTSecret cfg" dummy_user_id] assms
    by (simp add: session_ok_def)
  moreover have "starts_and_ends (ws @ ''?token='') [] (ws @ ''?token='' @ t) = Some t"
    using starts_and_ends_middle [of "ws @ ''?token=''" "[]" t] by simp
  ultimately show ?thesis
    by (simp add: live_network_def ws_ServeHTTP_def NewClient_def)
qed

lemma connected:
  assumes "hub_ok hub"
  shows "hub_ok (perform x (Connect u) hub)" "hubNext (perform x (Connect u) hub) = Suc (hubNext hub)"
    "hubClients (perform x (Connect u) hub) = (hubClients hub)(hubNext hub := client_for u)"
  using hub_ok_connect [OF assms, of x u]
  by (simp_all add: NewClient_def client_Run_def RegisterUser_def count_def)

text \<open>A client of the script: subscribed to the room, its queue empty, and what was written to it so far.\<close>

definition watcher :: "user \<Rightarrow> uuid \<Rightarrow> string list \<Rightarrow> client" where
  "watcher u room written = (client_for u)\<lparr>clSubscribed := [room], clWritten := written\<rparr>"

definition subscribed_text :: "ext \<Rightarrow> uuid \<Rightarrow> string" where
  "subscribed_text x room = Marshal (server_message_json
     (no_message\<lparr>smType := MessageTypeSubscribed, smRoomID := uuid_String x room\<rparr>))"

definition script_subscribe :: "string \<Rightarrow> string" where
  "script_subscribe roomID = Marshal (JObj [(''roomId'', JStr roomID), (''type'', JStr ''subscribe'')]) @ newline"

lemma script_subscribe_read:
  assumes "texts_ok x"
  shows "read_message x c (script_subscribe (uuid_String x room)) st = subscribe x c room st"
proof -
  let ?ms = "[(''roomId'', JStr (uuid_String x room)), (''type'', JStr ''subscribe'')]"
  have "plain 0 (JObj ?ms)"
    using texts_ok_uuid [OF assms] by (simp add: uuid_text_ok_def is_ascii_def maxNestingDepth_def)
  then have "unmarshal_client_message (script_subscribe (uuid_String x room)) =
      Some \<lparr>cmType = ''subscribe'', cmRoomID = uuid_String x room\<rparr>"
    unfolding unmarshal_client_message_def script_subscribe_def newline_def
    by (simp add: Unmarshal_line json_fields del: Marshal.simps fold_name.simps plain.simps)
  then show ?thesis
    using texts_ok_uuid [OF assms] by (simp add: read_message_def MessageTypeSubscribe_def uuid_text_ok_def)
qed

lemma script_subscribe_short:
  assumes "texts_ok x" "length (uuid_String x room) \<le> 36"
  shows "length (script_subscribe (uuid_String x room)) \<le> maxMessageSize"
proof -
  have names: "escape ''roomId'' = ''roomId''" "escape ''type'' = ''type''" "escape ''subscribe'' = ''subscribe''"
    by (simp_all add: escape.simps(2) escape_ascii_def char_of_def bit_0)
  have "escape (uuid_String x room) = uuid_String x room"
    using assms by (simp add: texts_ok_def escape_uuid)
  then show ?thesis
    using assms(2) by (simp add: script_subscribe_def json_quote_def names newline_def maxMessageSize_def)
qed

text \<open>The next message in the queue of a client is the next one it reads.\<close>

lemma live_read:
  assumes "c < hubNext hub" "clWriting (hubClients hub c)" "\<not> clConnClosed (hubClients hub c)"
    "clSend (hubClients hub c) = m # ms"
  shows "nwRead (live_network cfg a x base ws worlds) c timeout (s, hub) =
      (Inr (obPayload m), s, perform x (Write c FromSend True) hub)"
    "hubClients (perform x (Write c FromSend True) hub) = (hubClients hub)(c := (hubClients hub c)\<lparr>clSend := ms,
      clWritten := clWritten (hubClients hub c) @ [obPayload m]\<rparr>)"
    "hubNext (perform x (Write c FromSend True) hub) = hubNext hub"
proof -
  show cl: "hubClients (perform x (Write c FromSend True) hub) = (hubClients hub)(c := (hubClients hub c)\<lparr>clSend := ms,
      clWritten := clWritten (hubClients hub c) @ [obPayload m]\<rparr>)"
    and "hubNext (perform x (Write c FromSend True) hub) = hubNext hub"
    using assms by (simp_all add: writePump_def Let_def count_def)
  show "nwRead (live_network cfg a x base ws worlds) c timeout (s, hub) =
      (Inr (obPayload m), s, perform x (Write c FromSend True) hub)"
    unfolding live_network_def network.simps prod.case Let_def cl by simp
qed

lemma live_subscribe:
  assumes "hub_ok hub" "c < hubNext hub" "hubClients hub c = client_for u" "texts_ok x" "length (uuid_String x room) \<le> 36"
  shows "\<exists>hub'. (\<forall>out. run_state (smoke_subscribe (live_network cfg a x base ws worlds) c (uuid_String x room)) ((s, hub), out) =
      (Inr (), (s, hub'), out @ [Stdout (''subscribe ack: '' @ subscribed_text x room @ newline)])) \<and>
    hub_ok hub' \<and> hubNext hub' = hubNext hub \<and> hubClients hub' = (hubClients hub)(c := watcher u room [subscribed_text x room])"
proof -
  define h1 where "h1 = perform x (Read c (Some (script_subscribe (uuid_String x room)))) hub"
  define h2 where "h2 = perform x (Write c FromSend True) h1"
  let ?m = "\<lparr>obPayload = subscribed_text x room, obType = MessageTypeSubscribed\<rparr>"
  have cl: "clReading (client_for u)" "\<not> clConnClosed (client_for u)" "clSubscribed (client_for u) = []"
      "clSend (client_for u) = []" "\<not> clSendClosed (client_for u)" "clWriting (client_for u)" "clWritten (client_for u) = []"
    by (simp_all add: client_for_def)
  have "h1 = subscribe x c room hub"
    using assms script_subscribe_short by (simp add: h1_def readPump_def cl script_subscribe_read)
  then have h1: "hubClients h1 = (hubClients hub)(c := (client_for u)\<lparr>clSubscribed := [room], clSend := [?m]\<rparr>)"
      "hubNext h1 = hubNext hub"
    by (simp_all add: subscribe_def assms(3) cl maxSubscriptions_def subscribe_finish_def sendServerMessage_def
        enqueue_accepts accepts_def subscribe_mark_def Subscribe_def count_def outboundQueueSize_def
        subscribed_text_def del: Marshal.simps)
  have written: "nwWrite (live_network cfg a x base ws worlds) c (script_subscribe (uuid_String x room)) (s, hub) = (None, s, h1)"
    by (simp add: live_network_def h1_def assms(3) cl)
  have read: "nwRead (live_network cfg a x base ws worlds) c read_timeout (s, h1) = (Inr (subscribed_text x room), s, h2)"
    and h2: "hubClients h2 = (hubClients h1)(c := (hubClients h1 c)\<lparr>clSend := [],
      clWritten := clWritten (hubClients h1 c) @ [subscribed_text x room]\<rparr>)" "hubNext h2 = hubNext h1"
    using live_read [of c h1 ?m "[]"] assms(2) h1 cl unfolding h2_def by simp_all
  have "hubClients h2 = (hubClients hub)(c := watcher u room [subscribed_text x room])"
    by (simp add: h2(1) h1(1) watcher_def cl) (simp add: client_for_def)
  moreover have "hub_ok h2"
    unfolding h2_def h1_def by (intro hub_ok_perform assms(1))
  moreover have "run_state (smoke_subscribe (live_network cfg a x base ws worlds) c (uuid_String x room)) ((s, hub), out) =
      (Inr (), (s, h2), out @ [Stdout (''subscribe ack: '' @ subscribed_text x room @ newline)])" for out
    using written [unfolded script_subscribe_def] read by (simp add: smoke_subscribe_def del: Marshal.simps)
  ultimately show ?thesis
    using h1(2) h2(2) by auto
qed

text \<open>An event of the room that goes over Redis is the next thing a watcher reads.\<close>

definition event_text :: "ext \<Rightarrow> time \<Rightarrow> pub_call \<Rightarrow> string" where
  "event_text x now call = Marshal (server_message_json (ToServerMessage (event_of x now call)))"

lemma live_event:
  assumes "hub_ok hub" "c < hubNext hub" "hubClients hub c = watcher u room written" "uuid_text_ok x"
    "list_all (time_text_ok x) (now # call_times call)" "audience_of call = Room room"
  shows "\<exists>hub'. nwRead (live_network cfg a x base ws worlds) c timeout
      (s, deliver x (cfgRedisChannel cfg) [wire_message cfg x now call] hub) = (Inr (event_text x now call), s, hub') \<and>
    hub_ok hub' \<and> hubNext hub' = hubNext hub \<and> hubClients hub' c = watcher u room (written @ [event_text x now call])"
proof -
  define h1 where "h1 = deliver x (cfgRedisChannel cfg) [wire_message cfg x now call] hub"
  have "h1 = snd (handleMessage x (Marshal (event_json (event_of x now call))) hub)"
    by (simp add: h1_def deliver_def wire_message_def del: Marshal.simps)
  then have h1: "hub_ok h1" "hubNext h1 = hubNext hub" "hubClients h1 c = after_send (outbound_of x now call) (watcher u room written)"
    using handleMessage_delivers [OF assms(1,4,5)] assms(2,3,6) by (auto simp: watcher_def simp del: Marshal.simps)
  have cl: "hubClients h1 c = (watcher u room written)\<lparr>clSend := [outbound_of x now call]\<rparr>"
      "clWriting (hubClients h1 c)" "\<not> clConnClosed (hubClients h1 c)"
    unfolding h1(3) by (simp_all add: after_send_def accepts_def watcher_def client_for_def outboundQueueSize_def)
  then have "clSend (hubClients h1 c) = [outbound_of x now call]"
    by simp
  note read = live_read [of c h1, OF _ cl(2,3) this]
  have "hubClients (perform x (Write c FromSend True) h1) c = watcher u room (written @ [event_text x now call])"
    using read(2) assms(2) h1(2) cl(1)
    by (simp add: watcher_def outbound_of_def event_text_def client_for_def del: Marshal.simps)
  moreover have "hub_ok (perform x (Write c FromSend True) h1)"
    by (rule hub_ok_perform [OF h1(1)])
  moreover have "obPayload (outbound_of x now call) = event_text x now call"
    by (simp add: outbound_of_def event_text_def del: Marshal.simps)
  ultimately show ?thesis
    unfolding h1_def [symmetric] using read(1,3) assms(2) h1(2) by auto
qed

lemma run_or_fatal:
  "run_state m w = (Inr a, w') \<Longrightarrow> run_state (or_fatal what m f) w = run_state (f a) w'"
  "run_state m (n, out) = (Inl err, n', out') \<Longrightarrow>
    run_state (or_fatal what m f) (n, out) = (1, n', out' @ [Stderr (what @ '': '' @ err @ newline)])"
  by (simp_all add: or_fatal_def fatalf_def)

lemma run_emits: "run_state (do { emit o1; m }) (n, out) = run_state m (n, out @ [o1])"
  by simp

lemma numeral_5_eq_5: "(5 :: nat) = Suc (Suc (Suc (Suc (Suc 0))))"
  by simp

text \<open>
  C20. The client the repository brings along works against the service, its router, use cases, publisher,
  subscriber, hub and websocket clients included (\<open>live_network\<close>). Take a consistent database and a Redis
  that both answer throughout, the dummy user in the database, the slot of the script free to book and
  nobody waiting for it, its room the room of the script, and nobody else acting meanwhile. Then \<open>ws_smoke.go\<close>
  ends with status 0, having closed its two connections and printed nothing to standard error. The token
  it reads from the first answer opens both websockets and is accepted with the other requests; both
  websockets acknowledge the subscription; it books the slot for the dummy user and reads \<open>slot_booked\<close>,
  with the room, the slot and the new booking, on the second websocket; the identifier it reads from the
  answer makes the last request cancel that very booking, and it reads \<open>slot_released\<close>. The database has the
  booking, cancelled, and is otherwise as before, and every rule holds in between and at the end.
\<close>

theorem smoke_test_passes:
  fixes cfg :: config and gen :: generator and vars :: "string \<Rightarrow> string option"
  defines "base \<equiv> smoke_env vars ''BASE_URL'' ''http://localhost:8080''"
    and "ws \<equiv> smoke_env vars ''WS_URL'' ''ws://localhost:8080/ws''"
    and "u \<equiv> token_user dummy_user_id RoleUser"
  assumes "\<forall>n. session_ok x worlds (clock_at (env (worlds 0)) n)" "app_ok st" "hub_reach x hub"
    "cfgRedisChannel cfg \<noteq> []" "dummy_user_id \<in> usrID ` set (users st)"
    "\<forall>j. fresh_ids (env (worlds j)) (bkID ` set (bookings st))"
    "\<forall>j n. create_refusal (appBookings (wire cfg gen)) u k (clock_at (env (worlds j)) n) st = None"
    "find_row slID k (slots st) = Some slot" "slRoomID slot \<noteq> 0" "\<not> slot_awaited st k"
    "smoke_env vars ''SLOT_ID'' ''99999999-9999-9999-9999-999999999999'' = uuid_String x k"
    "smoke_env vars ''ROOM_ID'' ''aaaaaaaa-aaaa-aaaa-aaaa-aaaaaaaaaaaa'' = uuid_String x (slRoomID slot)"
    "length (uuid_String x k) \<le> 36" "length (uuid_String x (slRoomID slot)) \<le> 36"
  shows "\<exists>i now t1 t2 hub'. let room = slRoomID slot; st1 = add_booking (new_booking i u k now) st;
      st2 = cancel_booking i st1; ack = Stdout (''subscribe ack: '' @ subscribed_text x room @ newline)
    in run_state (smoke_main vars (live_network cfg (wire cfg gen) x base ws worlds)) (((st, 0), hub), []) =
      (0, ((st2, 5), hub'),
       [ack, ack, Stdout (''ws ack: both clients subscribed'' @ newline),
        Stdout (''event1 (client B): '' @ event_text x t1 (SlotBooked room k i) @ newline),
        Stdout (''event2 (client B): '' @ event_text x t2 (SlotReleased room k i) @ newline),
        Closed (Suc (hubNext hub)), Closed (hubNext hub)]) \<and> app_ok st1 \<and> app_ok st2"
proof -
  let ?a = "wire cfg gen" and ?c = "hubNext hub" and ?d = "Suc (hubNext hub)" and ?room = "slRoomID slot"
  let ?nw = "live_network cfg ?a x base ws worlds"
  have x: "libs (env (worlds j)) = x" "texts_ok x" "uuid_text_ok x"
      "\<And>n. time_text_ok x (clock_at (env (worlds j)) n)" for j
    using assms(4) texts_ok_uuid by (auto simp: session_ok_def)
  have secret: "asSecret (appAuth ?a) = cfgJWTSecret cfg"
    by (simp add: wire_def Let_def auth_NewService_def)
  obtain n where "\<And>hub out. run_state (smoke_login ?nw base login_request_body) (((st, 0), hub), out) =
      (Inr (sign_token x (cfgJWTSecret cfg) dummy_user_id RoleUser (clock_at (env (worlds 0)) n)), ((st, Suc 0), hub), out)"
    using smoke_login_served [of cfg ?a x base ws worlds st 0] unfolding x secret by blast
  then obtain signedAt t where t: "t = sign_token x (cfgJWTSecret cfg) dummy_user_id RoleUser signedAt"
    and session: "session_ok x worlds signedAt"
    and login: "\<And>hub out. run_state (smoke_login ?nw base login_request_body) (((st, 0), hub), out) =
      (Inr t, ((st, Suc 0), hub), out)"
    using assms(4) by blast
  define h1 where "h1 = perform x (Connect u) hub"
  define h2 where "h2 = perform x (Connect u) h1"
  have h1: "hub_ok h1" "hubNext h1 = ?d"
    using connected [OF hub_reach_ok [OF assms(6)]] by (simp_all add: h1_def)
  have h2: "hub_ok h2" "hubNext h2 = Suc ?d" "hubClients h2 ?c = client_for u" "hubClients h2 ?d = client_for u"
    using connected [OF hub_reach_ok [OF assms(6)], of x u] connected [OF h1(1), of x u] h1(2)
    by (simp_all add: h2_def h1_def)
  have dialA: "run_state (talk (nwDial ?nw (ws @ ''?token='' @ t))) (((st, Suc 0), hub), out) =
      (Inr ?c, ((st, Suc (Suc 0)), h1), out)" for out
    by (simp only: run_talk live_dial [OF session t] prod.case h1_def u_def)
  have dialB: "run_state (talk (nwDial ?nw (ws @ ''?token='' @ t))) (((st, Suc (Suc 0)), h1), out) =
      (Inr ?d, ((st, Suc (Suc (Suc 0))), h2), out)" for out
    by (simp only: run_talk live_dial [OF session t] prod.case h1(2) h2_def u_def)
  let ?ack = "Stdout (''subscribe ack: '' @ subscribed_text x ?room @ newline)"
  obtain h3 where A: "\<And>out. run_state (smoke_subscribe ?nw ?c (uuid_String x ?room)) (((st, Suc (Suc (Suc 0))), h2), out) =
      (Inr (), ((st, Suc (Suc (Suc 0))), h3), out @ [?ack])"
    and h3: "hub_ok h3" "hubNext h3 = Suc ?d" "hubClients h3 ?d = client_for u"
    using live_subscribe [OF h2(1) _ h2(3) x(2) assms(17)] h2(2,4) by fastforce
  obtain h4 where B: "\<And>out. run_state (smoke_subscribe ?nw ?d (uuid_String x ?room)) (((st, Suc (Suc (Suc 0))), h3), out) =
      (Inr (), ((st, Suc (Suc (Suc 0))), h4), out @ [?ack])"
    and h4: "hub_ok h4" "hubNext h4 = Suc ?d" "hubClients h4 ?d = watcher u ?room [subscribed_text x ?room]"
    using live_subscribe [OF h3(1) _ h3(3) x(2) assms(17)] h3(2) by fastforce
  obtain i now n1 where create: "\<And>hub out. run_state (smoke_createBooking ?nw base t (uuid_String x k))
      (((st, Suc (Suc (Suc 0))), hub), out) =
      (Inr (uuid_String x i), ((add_booking (new_booking i u k now) st, Suc (Suc (Suc (Suc 0)))), deliver x (cfgRedisChannel cfg)
        [wire_message cfg x (clock_at (env (worlds (Suc (Suc (Suc 0))))) n1) (SlotBooked ?room k i)] hub), out)"
    and ok1: "app_ok (add_booking (new_booking i u k now) st)"
    using smoke_create_served [OF session assms(5,7,8), where gen = gen and k = k and slot = slot
        and t = t and base = base and ws = ws and j = "Suc (Suc (Suc 0))"] assms(9,10,11,16) t
    unfolding u_def by blast
  define t1 where "t1 = clock_at (env (worlds (Suc (Suc (Suc 0))))) n1"
  let ?st1 = "add_booking (new_booking i u k now) st" and ?b = "(new_booking i u k now)\<lparr>bkCreatedAt := timestamptz now\<rparr>"
  obtain h5 where booked: "nwRead ?nw ?d read_timeout ((?st1, Suc (Suc (Suc (Suc 0)))), deliver x (cfgRedisChannel cfg)
      [wire_message cfg x t1 (SlotBooked ?room k i)] h4) =
      (Inr (event_text x t1 (SlotBooked ?room k i)), (?st1, Suc (Suc (Suc (Suc 0)))), h5)"
    and h5: "hub_ok h5" "hubNext h5 = Suc ?d"
      "hubClients h5 ?d = watcher u ?room ([subscribed_text x ?room] @ [event_text x t1 (SlotBooked ?room k i)])"
    using live_event [OF h4(1) _ h4(3) x(3), where now = t1 and call = "SlotBooked ?room k i"] h4(2) x(4)
    by (fastforce simp: t1_def)
  have b: "?b \<in> set (bookings ?st1)" "bkID ?b = i" "bk_active ?b" "bkSlotID ?b = k" "bkUserID ?b = dummy_user_id"
    by (simp_all add: add_booking_def new_booking_def bk_active_def u_def token_user_def)
  have "distinct (map bkID (bookings ?st1))"
    using ok1 by (simp add: app_ok_def store_ok_defs)
  then have row: "find_row bkID i (bookings ?st1) = Some ?b"
    using find_row_unique b(1,2) by fastforce
  obtain n2 where cancel: "\<And>hub out. run_state (smoke_cancelBooking ?nw base t (uuid_String x i))
      (((?st1, Suc (Suc (Suc (Suc 0)))), hub), out) =
      (Inr (), ((cancel_booking i ?st1, Suc (Suc (Suc (Suc (Suc 0))))), deliver x (cfgRedisChannel cfg)
        [wire_message cfg x (clock_at (env (worlds (Suc (Suc (Suc (Suc 0)))))) n2) (SlotReleased ?room k i)] hub), out)"
    and ok2: "app_ok (cancel_booking i ?st1)"
    using smoke_cancel_served [OF session ok1 assms(7) row b(5,3), where gen = gen and slot = slot
        and t = t and base = base and ws = ws and j = "Suc (Suc (Suc (Suc 0)))"] assms(11,12,13) t b(4)
    by (auto simp: add_booking_def slot_awaited_def)
  define t2 where "t2 = clock_at (env (worlds (Suc (Suc (Suc (Suc 0)))))) n2"
  let ?st2 = "cancel_booking i ?st1"
  obtain h6 where released: "nwRead ?nw ?d read_timeout ((?st2, Suc (Suc (Suc (Suc (Suc 0))))), deliver x (cfgRedisChannel cfg)
      [wire_message cfg x t2 (SlotReleased ?room k i)] h5) =
      (Inr (event_text x t2 (SlotReleased ?room k i)), (?st2, Suc (Suc (Suc (Suc (Suc 0))))), h6)"
    using live_event [OF h5(1) _ h5(3) x(3), where now = t2 and call = "SlotReleased ?room k i"] h5(2) x(4)
    by (fastforce simp: t2_def)
  have readB: "run_state (talk (nwRead ?nw ?d read_timeout)) (((?st1, Suc (Suc (Suc (Suc 0)))), deliver x (cfgRedisChannel cfg)
      [wire_message cfg x t1 (SlotBooked ?room k i)] h4), out) =
      (Inr (event_text x t1 (SlotBooked ?room k i)), ((?st1, Suc (Suc (Suc (Suc 0)))), h5), out)"
    "run_state (talk (nwRead ?nw ?d read_timeout)) (((?st2, Suc (Suc (Suc (Suc (Suc 0))))), deliver x (cfgRedisChannel cfg)
      [wire_message cfg x t2 (SlotReleased ?room k i)] h5), out) =
      (Inr (event_text x t2 (SlotReleased ?room k i)), ((?st2, Suc (Suc (Suc (Suc (Suc 0))))), h6), out)" for out
    by (simp_all add: booked released)
  have "run_state (smoke_main vars ?nw) (((st, 0), hub), []) =
      (0, ((?st2, Suc (Suc (Suc (Suc (Suc 0))))), h6),
       [?ack, ?ack, Stdout (''ws ack: both clients subscribed'' @ newline),
        Stdout (''event1 (client B): '' @ event_text x t1 (SlotBooked ?room k i) @ newline),
        Stdout (''event2 (client B): '' @ event_text x t2 (SlotReleased ?room k i) @ newline), Closed ?d, Closed ?c])"
    unfolding smoke_main_def Let_def assms(14,15) base_def [symmetric] ws_def [symmetric] run_or_fatal(1) [OF login]
      run_or_fatal(1) [OF dialA] run_or_fatal(1) [OF dialB] run_or_fatal(1) [OF A] run_or_fatal(1) [OF B] run_emits
      run_or_fatal(1) [OF create [folded t1_def]] run_or_fatal(1) [OF readB(1)] run_or_fatal(1) [OF cancel [folded t2_def]]
      run_or_fatal(1) [OF readB(2)]
    by simp
  then show ?thesis
    using ok1 ok2 unfolding Let_def by (metis numeral_5_eq_5)
qed

text \<open>A server with the dummy user, its requests in the same world, and nobody connected yet.\<close>

definition smoke_store :: store where
  "smoke_store = sample_store\<lparr>users := users sample_store @ [sample_user dummy_user_id ''u@x'' RoleUser]\<rparr>"

definition smoke_vars :: "string \<Rightarrow> string option" where
  "smoke_vars = [''SLOT_ID'' \<mapsto> ''22'', ''ROOM_ID'' \<mapsto> ''10'']"

lemma smoke_store_ok: "app_ok smoke_store"
proof -
  have "store_ok smoke_store"
    using sample_store_ok
    by (simp add: store_ok_defs smoke_store_def sample_defs dummy_user_id_def timestamptz_def index_ok_def)
  moreover have "exclusive smoke_store" "claims_ok smoke_store"
    using sample_exclusive sample_claims
    by (simp_all add: smoke_store_def exclusive_def claims_ok_def slot_booked_def slot_reserved_def claim_of_def)
  ultimately show ?thesis
    by (simp add: app_ok_def)
qed

lemma token_texts_ok: "texts_ok token_ext"
proof -
  have "uuid_char c" if "is_digit c" for c
  proof -
    have "code c = 48 \<or> code c = 49 \<or> code c = 50 \<or> code c = 51 \<or> code c = 52 \<or> code c = 53 \<or> code c = 54 \<or>
        code c = 55 \<or> code c = 56 \<or> code c = 57"
      using that unfolding is_digit_def by presburger
    then have "c \<in> char_of ` {48, 49, 50, 51, 52, 53, 54, 55, 56, 57 :: nat}"
      by (intro image_eqI [of _ _ "code c"]) simp_all
    also have "\<dots> \<subseteq> set ''0123456789abcdef-''"
      by (simp add: char_of_def bit_0)
    finally show ?thesis
      by (simp only: uuid_char_def)
  qed
  then have "list_all uuid_char (digits n)" for n
    using digits_parse [of n] by (auto simp: list_all_iff)
  moreover have "list_all is_ascii ''time''"
    by (simp add: is_ascii_def)
  ultimately show ?thesis
    using token_ext_ok by (simp add: texts_ok_def uuid_text_ok_def) (simp add: token_ext_def sample_ext_def)
qed

lemma smoke_test_passes_witness:
  "\<exists>i t1 hub' lines. run_state (smoke_main smoke_vars (live_network sample_config sample_app token_ext
        ''http://localhost:8080'' ''ws://localhost:8080/ws'' (\<lambda>_. token_world))) (((smoke_store, 0), NewHub), []) =
      (0, hub', lines @ [Closed 1, Closed 0]) \<and>
    Stdout (''event1 (client B): '' @ event_text token_ext t1 (SlotBooked 10 22 i) @ newline) \<in> set lines"
proof -
  have vars: "smoke_env smoke_vars ''BASE_URL'' ''http://localhost:8080'' = ''http://localhost:8080''"
    "smoke_env smoke_vars ''WS_URL'' ''ws://localhost:8080/ws'' = ''ws://localhost:8080/ws''"
    "smoke_env smoke_vars ''SLOT_ID'' ''99999999-9999-9999-9999-999999999999'' = uuid_String token_ext 22"
    "smoke_env smoke_vars ''ROOM_ID'' ''aaaaaaaa-aaaa-aaaa-aaaa-aaaaaaaaaaaa'' = uuid_String token_ext 10"
    "length (uuid_String token_ext 22) \<le> 36" "length (uuid_String token_ext 10) \<le> 36"
    by (simp_all add: smoke_env_def smoke_vars_def token_ext_def digits.simps char_of_def bit_0)
  have session: "session_ok token_ext (\<lambda>_. token_world) 100000000000"
    by (simp add: session_ok_def token_texts_ok unix_seconds_def token_lifetime_def int64_max_def)
      (simp add: token_world_def calm_def redis_up_def sample_env_def sample_world_def)
  have user: "dummy_user_id \<in> usrID ` set (users smoke_store)"
    by (simp add: smoke_store_def sample_user_def)
  have fresh: "fresh_ids (env token_world) (bkID ` set (bookings smoke_store))"
    by (simp add: fresh_ids_def token_world_def smoke_store_def sample_defs sample_env_def sample_world_def)
  have free: "create_refusal (appBookings sample_app) (token_user dummy_user_id RoleUser) 22 100000000000 smoke_store = None"
    by (simp add: create_refusal_def smoke_store_def sample_defs slot_booked_def slot_reserved_def bk_active_def token_user_def)
  have slot: "find_row slID 22 (slots smoke_store) = Some (sample_slot 22 10800000000000)"
      "slRoomID (sample_slot 22 10800000000000) = 10" "\<not> slot_awaited smoke_store 22"
    by (simp_all add: smoke_store_def sample_defs slot_awaited_def)
  have channel: "cfgRedisChannel sample_config \<noteq> []"
    by (simp add: sample_config_def)
  have next0: "hubNext NewHub = 0"
    by (simp add: NewHub_def)
  show ?thesis
    using smoke_test_passes [of token_ext "\<lambda>_. token_world" smoke_store NewHub sample_config sample_generator 22
        "sample_slot 22 10800000000000" smoke_vars, unfolded vars(1,2) slot(2) next0, OF _ smoke_store_ok hub_reach.start
        channel user _ _ slot(1) _ slot(3) vars(3,4,5,6)] session fresh free
    by (fastforce simp: Let_def)
qed

end
