(* ===== verification/Columns.thy ===== *)
theory Columns
  imports Booking_Service
begin

text \<open>
  The way of a struct into a row and back: the column lists of the \<open>INSERT\<close>, \<open>SELECT\<close> and
  \<open>RETURNING\<close> clauses in \<open>internal/repository/postgres\<close>, the arguments of \<open>Exec\<close> and \<open>QueryRow\<close>, and the
  destinations of \<open>Scan\<close>, which go by position. The repositories state their queries on whole records;
  this theory shows that what they write is the record that is stored and what they read the one that
  was stored.
\<close>

section \<open>Rows and positions\<close>

datatype sql_value = SqlNull | SqlUuid uuid | SqlText string | SqlInt int | SqlTime time | SqlTimeOfDay duration

type_synonym sql_row = "(string \<times> sql_value) list"

definition sql_option :: "('a \<Rightarrow> sql_value) \<Rightarrow> 'a option \<Rightarrow> sql_value" where
  "sql_option f v = (case v of None \<Rightarrow> SqlNull | Some a \<Rightarrow> f a)"

text \<open>The names in a list of columns; the alias of a table, up to a dot, is dropped.\<close>

fun column_names :: "string \<Rightarrow> string \<Rightarrow> string list" where
  "column_names name [] = [name]"
| "column_names name (c # text) =
     (if c = CHR '','' then name # column_names [] text
      else if c = CHR '' '' then column_names name text
      else if c = CHR ''.'' then column_names [] text
      else column_names (name @ [c]) text)"

definition columns :: "string \<Rightarrow> string list" where
  "columns = column_names []"

fun stored_value :: "sql_value \<Rightarrow> sql_value" where
  "stored_value (SqlTime t) = SqlTime (timestamptz t)"
| "stored_value v = v"

text \<open>A row that is inserted: the arguments in the columns named, defaults in the others.\<close>

definition insert_row :: "string \<Rightarrow> sql_row \<Rightarrow> sql_value list \<Rightarrow> sql_row option" where
  "insert_row names defaults args =
     (if length (columns names) = length args
      then Some (zip (columns names) (map stored_value args) @ defaults) else None)"

fun column_values :: "sql_row \<Rightarrow> string list \<Rightarrow> sql_value list option" where
  "column_values row [] = Some []"
| "column_values row (n # ns) =
     do { v \<leftarrow> map_of row n; vs \<leftarrow> column_values row ns; Some (v # vs) }"

definition query_row :: "string \<Rightarrow> (sql_value list \<Rightarrow> 'a option) \<Rightarrow> sql_row \<Rightarrow> 'a option" where
  "query_row names dest row = Option.bind (column_values row (columns names)) dest"

text \<open>The destinations of \<open>Scan\<close>: a null goes into a pointer or one of the driver's nullable types only.\<close>

fun into_uuid :: "sql_value \<Rightarrow> uuid option" where
  "into_uuid (SqlUuid u) = Some u"
| "into_uuid _ = None"

fun into_text :: "sql_value \<Rightarrow> string option" where
  "into_text (SqlText t) = Some t"
| "into_text _ = None"

fun into_int :: "sql_value \<Rightarrow> int option" where
  "into_int (SqlInt n) = Some n"
| "into_int _ = None"

fun into_time :: "sql_value \<Rightarrow> time option" where
  "into_time (SqlTime t) = Some t"
| "into_time _ = None"

definition into_nullable :: "(sql_value \<Rightarrow> 'a option) \<Rightarrow> sql_value \<Rightarrow> 'a option option" where
  "into_nullable f v = (if v = SqlNull then Some None else map_option Some (f v))"

text \<open>A status column takes the texts of its check constraint only.\<close>

definition into_status :: "('s \<Rightarrow> string) \<Rightarrow> 's list \<Rightarrow> sql_value \<Rightarrow> 's option" where
  "into_status text statuses v = Option.bind (into_text v) (\<lambda>t. List.find (\<lambda>s. text s = t) statuses)"

definition into_booking_status :: "sql_value \<Rightarrow> booking_status option" where
  "into_booking_status = into_status booking_status_text [BookingStatusActive, BookingStatusCancelled]"

definition into_waitlist_status :: "sql_value \<Rightarrow> waitlist_status option" where
  "into_waitlist_status = into_status waitlist_status_text
     [WaitlistStatusActive, WaitlistStatusNotified, WaitlistStatusCancelled, WaitlistStatusExpired]"

definition into_reservation_status :: "sql_value \<Rightarrow> reservation_status option" where
  "into_reservation_status = into_status reservation_status_text
     [ReservationStatusActive, ReservationStatusConfirmed, ReservationStatusExpired, ReservationStatusCancelled]"

section \<open>Bookings\<close>

definition booking_insert_columns :: string where
  "booking_insert_columns = ''id, user_id, slot_id, status, conference_link, created_at''"

definition booking_args :: "booking \<Rightarrow> sql_value list" where
  "booking_args b = [SqlUuid (bkID b), SqlUuid (bkUserID b), SqlUuid (bkSlotID b),
     SqlText (booking_status_text (bkStatus b)), sql_option SqlText (bkConferenceLink b), SqlTime (bkCreatedAt b)]"

definition booking_query_columns :: "string list" where
  "booking_query_columns = [''id, user_id, slot_id, status, conference_link, created_at'',
     ''b.id, b.user_id, b.slot_id, b.status, b.conference_link, b.created_at'']"

fun scan_booking :: "sql_value list \<Rightarrow> booking option" where
  "scan_booking [c1, c2, c3, c4, c5, c6] = do {
     i \<leftarrow> into_uuid c1; u \<leftarrow> into_uuid c2; k \<leftarrow> into_uuid c3; st \<leftarrow> into_booking_status c4;
     conferenceLink \<leftarrow> into_nullable into_text c5; t \<leftarrow> into_time c6;
     Some \<lparr>bkID = i, bkUserID = u, bkSlotID = k, bkStatus = st, bkConferenceLink = conferenceLink, bkCreatedAt = t\<rparr>
   }"
| "scan_booking _ = None"

section \<open>Waitlist entries\<close>

definition waitlist_insert_columns :: string where
  "waitlist_insert_columns = ''id, slot_id, user_id, status, created_at''"

definition waitlist_args :: "waitlist_entry \<Rightarrow> sql_value list" where
  "waitlist_args e = [SqlUuid (weID e), SqlUuid (weSlotID e), SqlUuid (weUserID e),
     SqlText (waitlist_status_text (weStatus e)), SqlTime (weCreatedAt e)]"

definition waitlist_query_columns :: "string list" where
  "waitlist_query_columns = [''id, slot_id, user_id, status, position, created_at, notified_at'',
     ''e.id, e.slot_id, e.user_id, e.status, e.position, e.created_at, e.notified_at'']"

fun scanWaitlistEntry :: "sql_value list \<Rightarrow> waitlist_entry option" where
  "scanWaitlistEntry [c1, c2, c3, c4, c5, c6, c7] = do {
     i \<leftarrow> into_uuid c1; k \<leftarrow> into_uuid c2; u \<leftarrow> into_uuid c3; st \<leftarrow> into_waitlist_status c4;
     p \<leftarrow> into_int c5; t \<leftarrow> into_time c6; n \<leftarrow> into_nullable into_time c7;
     Some \<lparr>weID = i, weSlotID = k, weUserID = u, weStatus = st, wePosition = p, weCreatedAt = t, weNotifiedAt = n\<rparr>
   }"
| "scanWaitlistEntry _ = None"

section \<open>Reservations\<close>

definition reservation_insert_columns :: string where
  "reservation_insert_columns =
     ''id, slot_id, user_id, waitlist_entry_id, status, expires_at, created_at, confirmed_at, expired_at''"

definition reservation_args :: "slot_reservation \<Rightarrow> sql_value list" where
  "reservation_args r = [SqlUuid (rvID r), SqlUuid (rvSlotID r), SqlUuid (rvUserID r),
     sql_option SqlUuid (rvWaitlistEntryID r), SqlText (reservation_status_text (rvStatus r)),
     SqlTime (rvExpiresAt r), SqlTime (rvCreatedAt r), sql_option SqlTime (rvConfirmedAt r),
     sql_option SqlTime (rvExpiredAt r)]"

definition reservation_query_columns :: "string list" where
  "reservation_query_columns =
    [''id, slot_id, user_id, waitlist_entry_id, status, expires_at, created_at, confirmed_at, expired_at'',
     ''r.id, r.slot_id, r.user_id, r.waitlist_entry_id, r.status, r.expires_at, r.created_at, r.confirmed_at, r.expired_at'']"

fun scanSlotReservation :: "sql_value list \<Rightarrow> slot_reservation option" where
  "scanSlotReservation [c1, c2, c3, c4, c5, c6, c7, c8, c9] = do {
     i \<leftarrow> into_uuid c1; k \<leftarrow> into_uuid c2; u \<leftarrow> into_uuid c3; e \<leftarrow> into_nullable into_uuid c4;
     st \<leftarrow> into_reservation_status c5; x \<leftarrow> into_time c6; t \<leftarrow> into_time c7;
     c \<leftarrow> into_nullable into_time c8; d \<leftarrow> into_nullable into_time c9;
     Some \<lparr>rvID = i, rvSlotID = k, rvUserID = u, rvWaitlistEntryID = e, rvStatus = st, rvExpiresAt = x,
       rvCreatedAt = t, rvConfirmedAt = c, rvExpiredAt = d\<rparr>
   }"
| "scanSlotReservation _ = None"

section \<open>Users, rooms and slots\<close>

definition user_columns :: string where
  "user_columns = ''id, email, password_hash, role, created_at''"

definition user_args :: "user \<Rightarrow> sql_value list" where
  "user_args u = [SqlUuid (usrID u), SqlText (usrEmail u), sql_option SqlText (usrPasswordHash u),
     SqlText (usrRole u), SqlTime (usrCreatedAt u)]"

fun scan_user :: "sql_value list \<Rightarrow> user option" where
  "scan_user [c1, c2, c3, c4, c5] = do {
     i \<leftarrow> into_uuid c1; email \<leftarrow> into_text c2; passwordHash \<leftarrow> into_nullable into_text c3; role \<leftarrow> into_text c4;
     t \<leftarrow> into_time c5;
     Some \<lparr>usrID = i, usrEmail = email, usrPasswordHash = passwordHash, usrRole = role, usrCreatedAt = t\<rparr>
   }"
| "scan_user _ = None"

definition room_insert_columns :: string where
  "room_insert_columns = ''id, name, description, capacity, created_at''"

definition room_query_columns :: "string list" where
  "room_query_columns = [''id, name, description, capacity, created_at'',
     ''r.id, r.name, r.description, r.capacity, r.created_at'']"

definition room_args :: "room \<Rightarrow> sql_value list" where
  "room_args r = [SqlUuid (rmID r), SqlText (rmName r), sql_option SqlText (rmDescription r),
     sql_option SqlInt (rmCapacity r), SqlTime (rmCreatedAt r)]"

fun scan_room :: "sql_value list \<Rightarrow> room option" where
  "scan_room [c1, c2, c3, c4, c5] = do {
     i \<leftarrow> into_uuid c1; n \<leftarrow> into_text c2; desc \<leftarrow> into_nullable into_text c3; cap \<leftarrow> into_nullable into_int c4;
     t \<leftarrow> into_time c5;
     Some \<lparr>rmID = i, rmName = n, rmDescription = desc, rmCapacity = cap, rmCreatedAt = t\<rparr>
   }"
| "scan_room _ = None"

definition slot_insert_columns :: string where
  "slot_insert_columns = ''id, room_id, start_time, end_time, created_at''"

definition slot_query_columns :: "string list" where
  "slot_query_columns = [''id, room_id, start_time, end_time, created_at'',
     ''s.id, s.room_id, s.start_time, s.end_time, s.created_at'']"

definition slot_args :: "slot \<Rightarrow> sql_value list" where
  "slot_args sl = [SqlUuid (slID sl), SqlUuid (slRoomID sl), SqlTime (slStartTime sl), SqlTime (slEndTime sl),
     SqlTime (slCreatedAt sl)]"

fun scan_slot :: "sql_value list \<Rightarrow> slot option" where
  "scan_slot [c1, c2, c3, c4, c5] = do {
     i \<leftarrow> into_uuid c1; r \<leftarrow> into_uuid c2; a \<leftarrow> into_time c3; z \<leftarrow> into_time c4; t \<leftarrow> into_time c5;
     Some \<lparr>slID = i, slRoomID = r, slStartTime = a, slEndTime = z, slCreatedAt = t\<rparr>
   }"
| "scan_slot _ = None"

text \<open>
  The listing for the calendar has computed columns: the status as a \<open>CASE\<close>, the identifiers of the
  booking and the reservation that the outer joins found. Go refuses a status it does not know.
\<close>

definition slot_view_row :: "time \<Rightarrow> slot \<times> booking option \<times> slot_reservation option \<Rightarrow> sql_row" where
  "slot_view_row now = (\<lambda>(sl, b, r).
     [(''id'', SqlUuid (slID sl)), (''room_id'', SqlUuid (slRoomID sl)), (''start_time'', SqlTime (slStartTime sl)),
      (''end_time'', SqlTime (slEndTime sl)),
      (''status'', SqlText (if slStartTime sl < now then ''past'' else if b \<noteq> None then ''booked''
        else if r \<noteq> None then ''reserved'' else ''available'')),
      (''booking_id'', sql_option (\<lambda>b. SqlUuid (bkID b)) b),
      (''reservation_id'', sql_option (\<lambda>r. SqlUuid (rvID r)) r),
      (''waitlist_entry_id'', sql_option SqlUuid (Option.bind r rvWaitlistEntryID))])"

definition slot_view_columns :: string where
  "slot_view_columns =
     ''s.id, s.room_id, s.start_time, s.end_time, status, booking_id, reservation_id, r.waitlist_entry_id''"

definition into_slot_status :: "sql_value \<Rightarrow> slot_status option" where
  "into_slot_status = into_status slot_status_text
     [SlotStatusAvailable, SlotStatusBooked, SlotStatusReserved, SlotStatusPast]"

fun scan_slot_view :: "sql_value list \<Rightarrow> slot_view option" where
  "scan_slot_view [c1, c2, c3, c4, c5, c6, c7, c8] = do {
     i \<leftarrow> into_uuid c1; r \<leftarrow> into_uuid c2; a \<leftarrow> into_time c3; z \<leftarrow> into_time c4; statusRaw \<leftarrow> into_text c5;
     b \<leftarrow> into_nullable into_uuid c6; v \<leftarrow> into_nullable into_uuid c7; e \<leftarrow> into_nullable into_uuid c8;
     st \<leftarrow> into_slot_status (SqlText statusRaw);
     Some \<lparr>svID = i, svRoomID = r, svStartTime = a, svEndTime = z, svStatus = st, svBookingID = b,
       svReservationID = v, svWaitlistEntryID = e\<rparr>
   }"
| "scan_slot_view _ = None"

section \<open>Schedules\<close>

text \<open>
  \<open>CreateBatch\<close> writes one \<open>INSERT\<close> for all rows: the loop appends six arguments a row and a list of
  numbered placeholders, counted from the arguments there are, two of them cast to \<open>time\<close>.
\<close>

definition schedule_columns :: string where
  "schedule_columns = ''id, room_id, day_of_week, start_time, end_time, created_at''"

definition schedule_args :: "schedule \<Rightarrow> sql_value list" where
  "schedule_args s = [SqlUuid (schID s), SqlUuid (schRoomID s), SqlInt (schDayOfWeek s), SqlText (schStartTime s),
     SqlText (schEndTime s), SqlTime (schCreatedAt s)]"

fun batch_insert :: "schedule list \<Rightarrow> (nat \<times> bool) list list \<Rightarrow> sql_value list \<Rightarrow>
    (nat \<times> bool) list list \<times> sql_value list" where
  "batch_insert [] q args = (q, args)"
| "batch_insert (s # ss) q args =
     (let base = length args in
      batch_insert ss
        (q @ [[(base + 1, False), (base + 2, False), (base + 3, False), (base + 4, True), (base + 5, True),
           (base + 6, False)]])
        (args @ schedule_args s))"

fun cast_time :: "(string \<Rightarrow> duration option) \<Rightarrow> sql_value \<Rightarrow> sql_value option" where
  "cast_time tin (SqlText t) = map_option SqlTimeOfDay (tin t)"
| "cast_time tin _ = None"

fun placeholder_values ::
  "(string \<Rightarrow> duration option) \<Rightarrow> sql_value list \<Rightarrow> (nat \<times> bool) list \<Rightarrow> sql_value list option" where
  "placeholder_values tin args [] = Some []"
| "placeholder_values tin args ((n, cast) # ps) = do {
     v \<leftarrow> (if cast then cast_time tin (args ! (n - 1)) else Some (args ! (n - 1)));
     vs \<leftarrow> placeholder_values tin args ps;
     Some (v # vs)
   }"

text \<open>The rows of the statement, \<open>None\<close> for one the server refuses.\<close>

definition batch_rows :: "(string \<Rightarrow> duration option) \<Rightarrow> schedule list \<Rightarrow> sql_row option list" where
  "batch_rows tin ss = (case batch_insert ss [] [] of (q, args) \<Rightarrow>
     map (\<lambda>ps. Option.bind (placeholder_values tin args ps) (insert_row schedule_columns [])) q)"

text \<open>\<open>start_time::text\<close> is an expression over the row.\<close>

fun as_text :: "(duration \<Rightarrow> string) \<Rightarrow> sql_value \<Rightarrow> sql_value" where
  "as_text tout (SqlTimeOfDay d) = SqlText (tout d)"
| "as_text tout v = v"

definition with_casts :: "(duration \<Rightarrow> string) \<Rightarrow> sql_row \<Rightarrow> sql_row" where
  "with_casts tout row = row @ map (\<lambda>(n, v). (n @ ''::text'', as_text tout v)) row"

definition schedule_query_columns :: string where
  "schedule_query_columns = ''id, room_id, day_of_week, start_time::text, end_time::text, created_at''"

fun scan_schedule :: "sql_value list \<Rightarrow> schedule option" where
  "scan_schedule [c1, c2, c3, c4, c5, c6] = do {
     i \<leftarrow> into_uuid c1; r \<leftarrow> into_uuid c2; d \<leftarrow> into_int c3; startStr \<leftarrow> into_text c4; endStr \<leftarrow> into_text c5;
     t \<leftarrow> into_time c6;
     Some \<lparr>schID = i, schRoomID = r, schDayOfWeek = d, schStartTime = startStr, schEndTime = endStr, schCreatedAt = t\<rparr>
   }"
| "scan_schedule _ = None"

section \<open>What is written is what is read\<close>

text \<open>A row inserted with these columns, defaults and arguments reads as \<open>a\<close> by each of the queries.\<close>

definition reads_back ::
  "string \<Rightarrow> sql_row \<Rightarrow> sql_value list \<Rightarrow> string list \<Rightarrow> (sql_value list \<Rightarrow> 'a option) \<Rightarrow> 'a \<Rightarrow> bool" where
  "reads_back names defaults args queries dest a \<longleftrightarrow>
     (case insert_row names defaults args of
        None \<Rightarrow> False
      | Some row \<Rightarrow> list_all (\<lambda>q. query_row q dest row = Some a) queries)"

lemma column_texts:
  "columns booking_insert_columns = [''id'', ''user_id'', ''slot_id'', ''status'', ''conference_link'', ''created_at'']"
  "columns waitlist_insert_columns = [''id'', ''slot_id'', ''user_id'', ''status'', ''created_at'']"
  "columns reservation_insert_columns = [''id'', ''slot_id'', ''user_id'', ''waitlist_entry_id'', ''status'',
    ''expires_at'', ''created_at'', ''confirmed_at'', ''expired_at'']"
  "columns user_columns = [''id'', ''email'', ''password_hash'', ''role'', ''created_at'']"
  "columns room_insert_columns = [''id'', ''name'', ''description'', ''capacity'', ''created_at'']"
  "columns slot_insert_columns = [''id'', ''room_id'', ''start_time'', ''end_time'', ''created_at'']"
  "columns schedule_columns = [''id'', ''room_id'', ''day_of_week'', ''start_time'', ''end_time'', ''created_at'']"
  "columns schedule_query_columns =
    [''id'', ''room_id'', ''day_of_week'', ''start_time::text'', ''end_time::text'', ''created_at'']"
  "columns slot_view_columns = [''id'', ''room_id'', ''start_time'', ''end_time'', ''status'', ''booking_id'',
    ''reservation_id'', ''waitlist_entry_id'']"
  by (simp_all add: columns_def booking_insert_columns_def waitlist_insert_columns_def reservation_insert_columns_def
      user_columns_def room_insert_columns_def slot_insert_columns_def schedule_columns_def schedule_query_columns_def
      slot_view_columns_def)

lemma query_column_texts:
  "map columns booking_query_columns = replicate 2
    [''id'', ''user_id'', ''slot_id'', ''status'', ''conference_link'', ''created_at'']"
  "map columns waitlist_query_columns = replicate 2
    [''id'', ''slot_id'', ''user_id'', ''status'', ''position'', ''created_at'', ''notified_at'']"
  "map columns reservation_query_columns = replicate 2
    [''id'', ''slot_id'', ''user_id'', ''waitlist_entry_id'', ''status'', ''expires_at'', ''created_at'',
     ''confirmed_at'', ''expired_at'']"
  "map columns room_query_columns = replicate 2 [''id'', ''name'', ''description'', ''capacity'', ''created_at'']"
  "map columns slot_query_columns = replicate 2 [''id'', ''room_id'', ''start_time'', ''end_time'', ''created_at'']"
  by (simp_all add: columns_def booking_query_columns_def waitlist_query_columns_def reservation_query_columns_def
      room_query_columns_def slot_query_columns_def numeral_2_eq_2)

lemma reads_back_columns:
  assumes "map columns queries = replicate n names'" "length (columns names) = length args"
    "Option.bind (column_values (zip (columns names) (map stored_value args) @ defaults) names') dest = Some a"
  shows "reads_back names defaults args queries dest a"
proof -
  have "columns q = names'" if "q \<in> set queries" for q
    using assms(1) that by (metis image_eqI in_set_replicate list.set_map)
  then show ?thesis
    using assms(2,3) by (simp add: reads_back_def insert_row_def query_row_def list_all_iff)
qed

lemma into_nullable_option:
  "into_nullable into_text (sql_option SqlText v) = Some v"
  "into_nullable into_int (sql_option SqlInt n) = Some n"
  "into_nullable into_uuid (sql_option SqlUuid u) = Some u"
  "into_nullable into_uuid (sql_option (\<lambda>x. SqlUuid (f x)) y) = Some (map_option f y)"
  "into_nullable into_time (sql_option SqlTime t) = Some t"
  by (simp_all add: into_nullable_def sql_option_def split: option.split)

lemma stored_option [simp]:
  "stored_value (sql_option SqlText v) = sql_option SqlText v"
  "stored_value (sql_option SqlInt n) = sql_option SqlInt n"
  "stored_value (sql_option SqlUuid u) = sql_option SqlUuid u"
  "stored_value (sql_option SqlTime t) = sql_option SqlTime (map_option timestamptz t)"
  by (simp_all add: sql_option_def split: option.split)

lemma into_status_text:
  "into_booking_status (SqlText (booking_status_text a)) = Some a"
  "into_waitlist_status (SqlText (waitlist_status_text b)) = Some b"
  "into_reservation_status (SqlText (reservation_status_text c)) = Some c"
  "into_slot_status (SqlText (slot_status_text d)) = Some d"
  by (cases a; simp add: into_booking_status_def into_status_def)
    (cases b; simp add: into_waitlist_status_def into_status_def
     | cases c; simp add: into_reservation_status_def into_status_def
     | cases d; simp add: into_slot_status_def into_status_def)+

lemmas read_simps = into_nullable_option into_status_text option.map_ident

lemma booking_reads_back:
  "reads_back booking_insert_columns [] (booking_args b) booking_query_columns scan_booking
    (b\<lparr>bkCreatedAt := timestamptz (bkCreatedAt b)\<rparr>)"
  by (rule reads_back_columns [OF query_column_texts(1)]) (simp_all add: column_texts booking_args_def read_simps)

lemma waitlist_reads_back:
  "reads_back waitlist_insert_columns [(''position'', SqlInt p), (''notified_at'', SqlNull)] (waitlist_args e)
    waitlist_query_columns scanWaitlistEntry
    (e\<lparr>wePosition := p, weCreatedAt := timestamptz (weCreatedAt e), weNotifiedAt := None\<rparr>)"
  by (rule reads_back_columns [OF query_column_texts(2)])
    (simp_all add: column_texts waitlist_args_def read_simps into_nullable_def)

lemma reservation_reads_back:
  "reads_back reservation_insert_columns [] (reservation_args r) reservation_query_columns scanSlotReservation
    (stored_reservation r)"
  by (rule reads_back_columns [OF query_column_texts(3)])
    (simp_all add: column_texts reservation_args_def read_simps stored_reservation_def cong: option.map_cong)

lemma user_reads_back:
  "reads_back user_columns [] (user_args u) [user_columns] scan_user
    (u\<lparr>usrCreatedAt := timestamptz (usrCreatedAt u)\<rparr>)"
  by (rule reads_back_columns [where n = 1 and names' = "columns user_columns"])
    (simp_all add: column_texts user_args_def read_simps)

lemma room_reads_back:
  "reads_back room_insert_columns [] (room_args r) room_query_columns scan_room (stored_room r)"
  by (rule reads_back_columns [OF query_column_texts(4)])
    (simp_all add: column_texts room_args_def read_simps stored_room_def)

lemma slot_reads_back:
  "reads_back slot_insert_columns [] (slot_args sl) slot_query_columns scan_slot (stored_slot sl)"
  by (rule reads_back_columns [OF query_column_texts(5)])
    (simp_all add: column_texts slot_args_def stored_slot_def)

text \<open>No view is refused for its status.\<close>

lemma slot_view_reads: "query_row slot_view_columns scan_slot_view (slot_view_row now x) = Some (make_view now x)"
proof -
  obtain sl b r where x: "x = (sl, b, r)" by (cases x)
  have "into_slot_status (SqlText (if slStartTime sl < now then ''past'' else if b \<noteq> None then ''booked''
      else if r \<noteq> None then ''reserved'' else ''available'')) = Some (view_status now sl b r)"
    by (simp add: view_status_def into_slot_status_def into_status_def)
  then show ?thesis
    by (simp add: x query_row_def column_texts slot_view_row_def make_view_def read_simps)
qed


definition schedule_values :: "(string \<Rightarrow> duration option) \<Rightarrow> schedule \<Rightarrow> sql_value list option" where
  "schedule_values tin s = do {
     a \<leftarrow> tin (schStartTime s); z \<leftarrow> tin (schEndTime s);
     Some [SqlUuid (schID s), SqlUuid (schRoomID s), SqlInt (schDayOfWeek s), SqlTimeOfDay a, SqlTimeOfDay z,
       SqlTime (schCreatedAt s)]
   }"

text \<open>Each row of the batch gets the arguments of its own schedule, wherever the numbering has got to.\<close>

lemma batch_insert_rows:
  "\<exists>q' args'. batch_insert ss q args = (q @ q', args @ args') \<and>
    (\<forall>more. map (placeholder_values tin (args @ args' @ more)) q' = map (schedule_values tin) ss)"
proof (induction ss arbitrary: q args)
  case (Cons s ss)
  let ?n = "length args"
  let ?ps = "[(?n + 1, False), (?n + 2, False), (?n + 3, False), (?n + 4, True), (?n + 5, True), (?n + 6, False)]"
  obtain q' args' where rest: "batch_insert ss (q @ [?ps]) (args @ schedule_args s) =
      ((q @ [?ps]) @ q', (args @ schedule_args s) @ args')"
      "\<And>more. map (placeholder_values tin ((args @ schedule_args s) @ args' @ more)) q' = map (schedule_values tin) ss"
    using Cons.IH by blast
  have "placeholder_values tin (args @ schedule_args s @ args' @ more) ?ps = schedule_values tin s" for more
    by (cases "tin (schStartTime s)"; cases "tin (schEndTime s)")
      (simp_all add: schedule_args_def schedule_values_def nth_append)
  then have "batch_insert (s # ss) q args = (q @ ?ps # q', args @ schedule_args s @ args') \<and>
      (\<forall>more. map (placeholder_values tin (args @ (schedule_args s @ args') @ more)) (?ps # q') =
        map (schedule_values tin) (s # ss))"
    using rest by (simp add: Let_def)
  then show ?case by blast
qed simp

lemma schedule_reads:
  "Option.bind (Option.bind (schedule_values tin s) (insert_row schedule_columns []))
      (\<lambda>row. query_row schedule_query_columns scan_schedule (with_casts tout row)) =
    map_option (schedule_of_row tout) (schedule_row_of tin s)"
  by (cases "tin (schStartTime s)"; cases "tin (schEndTime s)")
    (simp_all add: schedule_values_def insert_row_def query_row_def with_casts_def column_texts schedule_row_of_def
      schedule_of_row_def)

lemma batch_reads_back:
  "map (\<lambda>row. Option.bind row (\<lambda>row. query_row schedule_query_columns scan_schedule (with_casts tout row)))
      (batch_rows tin ss) = map (\<lambda>s. map_option (schedule_of_row tout) (schedule_row_of tin s)) ss"
proof -
  obtain q args where q: "batch_insert ss [] [] = (q, args)"
      "map (placeholder_values tin args) q = map (schedule_values tin) ss"
    using batch_insert_rows [of ss "[]" "[]" tin] by (metis append_Nil append_Nil2)
  let ?f = "\<lambda>vs. Option.bind (Option.bind vs (insert_row schedule_columns []))
      (\<lambda>row. query_row schedule_query_columns scan_schedule (with_casts tout row))"
  have "map ?f (map (placeholder_values tin args) q) = map ?f (map (schedule_values tin) ss)"
    using q(2) by (rule arg_cong)
  then show ?thesis
    using q(1) by (simp add: batch_rows_def comp_def schedule_reads [simplified])
qed

lemma insert_schedules_appends:
  "insert_schedules tin xs rows = Inr rows' \<Longrightarrow>
    \<exists>new. rows' = rows @ new \<and> map (schedule_row_of tin) xs = map Some new"
proof (induction xs arbitrary: rows)
  case (Cons x xs)
  then obtain r where r: "schedule_row_of tin x = Some r" "insert_schedules tin xs (rows @ [r]) = Inr rows'"
    by (auto split: option.splits if_splits)
  obtain new where "rows' = (rows @ [r]) @ new" "map (schedule_row_of tin) xs = map Some new"
    using Cons.IH [OF r(2)] by blast
  then show ?case
    using r(1) by (intro exI [of _ "r # new"]) simp
qed simp

lemma batch_reads_new:
  assumes "map (schedule_row_of tin) ss = map Some new"
  shows "map (\<lambda>row. Option.bind row (\<lambda>row. query_row schedule_query_columns scan_schedule (with_casts tout row)))
      (batch_rows tin ss) = map (\<lambda>row. Some (schedule_of_row tout row)) new"
proof -
  have "map (map_option (schedule_of_row tout)) (map (schedule_row_of tin) ss) =
      map (map_option (schedule_of_row tout)) (map Some new)"
    using assms by (rule arg_cong)
  then show ?thesis
    by (simp add: batch_reads_back comp_def)
qed

text \<open>
  C19. Nothing is lost or mixed up between the structs and the tables. Of every table: the row that a
  successful insert adds to it is, whichever of the queries on it reads it, the struct that was inserted,
  as the database keeps it: moments in microseconds, the position of a waitlist entry drawn from the
  sequence, the times of a schedule as the database writes them; arguments, column lists and the
  destinations of \<open>Scan\<close>, which only go by position, agree. In a batch of schedules, of whatever length,
  every row gets the arguments of its own schedule. The listing for the calendar reads every row, and no
  status it computes is refused as unknown.
\<close>

theorem stored_rows_read_back:
  "(sql_booking_insert b sv s = (Inr 1, s') \<longrightarrow> (\<exists>row. bookings s' = bookings s @ [row] \<and>
      reads_back booking_insert_columns [] (booking_args b) booking_query_columns scan_booking row)) \<and>
   (sql_waitlist_insert e sv s = (Inr entry, s') \<longrightarrow> waitlist s' = waitlist s @ [entry] \<and>
      reads_back waitlist_insert_columns [(''position'', SqlInt (position_seq s)), (''notified_at'', SqlNull)]
        (waitlist_args e) waitlist_query_columns scanWaitlistEntry entry) \<and>
   (sql_reservation_insert r sv s = (Inr reservation, s') \<longrightarrow> reservations s' = reservations s @ [reservation] \<and>
      reads_back reservation_insert_columns [] (reservation_args r) reservation_query_columns scanSlotReservation
        reservation) \<and>
   (sql_user_insert u sv s = (Inr (), s') \<longrightarrow> (\<exists>row. users s' = users s @ [row] \<and>
      reads_back user_columns [] (user_args u) [user_columns] scan_user row)) \<and>
   (sql_room_insert rm sv s = (Inr (), s') \<longrightarrow> (\<exists>row. rooms s' = rooms s @ [row] \<and>
      reads_back room_insert_columns [] (room_args rm) room_query_columns scan_room row)) \<and>
   (sql_slot_insert sl s = Inr s' \<longrightarrow> s' = s \<or> (\<exists>row. slots s' = slots s @ [row] \<and>
      reads_back slot_insert_columns [] (slot_args sl) slot_query_columns scan_slot row)) \<and>
   (sql_schedules_batch tin ss sv s = (Inr (), s') \<longrightarrow> (\<exists>rows. schedules s' = schedules s @ rows \<and>
      map (\<lambda>row. Option.bind row (\<lambda>row. query_row schedule_query_columns scan_schedule (with_casts tout row)))
        (batch_rows tin ss) = map (\<lambda>row. Some (schedule_of_row tout row)) rows)) \<and>
   map (\<lambda>x. query_row slot_view_columns scan_slot_view (slot_view_row (timestamptz now) x)) (slot_rows s roomID date) =
     map Some (all_slots s roomID date now)"
proof (intro conjI impI)
  show "\<exists>row. bookings s' = bookings s @ [row] \<and>
      reads_back booking_insert_columns [] (booking_args b) booking_query_columns scan_booking row"
    if "sql_booking_insert b sv s = (Inr 1, s')"
    using that booking_reads_back [of b] by (auto simp: sql_booking_insert_def split: if_splits)
  show "waitlist s' = waitlist s @ [entry]"
    if "sql_waitlist_insert e sv s = (Inr entry, s')"
    using that by (auto simp: sql_waitlist_insert_def Let_def split: if_splits)
  show "reads_back waitlist_insert_columns [(''position'', SqlInt (position_seq s)), (''notified_at'', SqlNull)]
        (waitlist_args e) waitlist_query_columns scanWaitlistEntry entry"
    if "sql_waitlist_insert e sv s = (Inr entry, s')"
    using that waitlist_reads_back [of "position_seq s" e] by (auto simp: sql_waitlist_insert_def Let_def split: if_splits)
  show "reservations s' = reservations s @ [reservation]"
    if "sql_reservation_insert r sv s = (Inr reservation, s')"
    using that by (auto simp: sql_reservation_insert_def split: if_splits)
  show "reads_back reservation_insert_columns [] (reservation_args r) reservation_query_columns scanSlotReservation
        reservation"
    if "sql_reservation_insert r sv s = (Inr reservation, s')"
    using that reservation_reads_back [of r] by (auto simp: sql_reservation_insert_def split: if_splits)
  show "\<exists>row. users s' = users s @ [row] \<and> reads_back user_columns [] (user_args u) [user_columns] scan_user row"
    if "sql_user_insert u sv s = (Inr (), s')"
    using that user_reads_back [of u] by (auto simp: sql_user_insert_def split: if_splits)
  show "\<exists>row. rooms s' = rooms s @ [row] \<and>
      reads_back room_insert_columns [] (room_args rm) room_query_columns scan_room row"
    if "sql_room_insert rm sv s = (Inr (), s')"
    using that room_reads_back [of rm] by (auto simp: sql_room_insert_def split: if_splits)
  show "s' = s \<or> (\<exists>row. slots s' = slots s @ [row] \<and>
      reads_back slot_insert_columns [] (slot_args sl) slot_query_columns scan_slot row)"
    if "sql_slot_insert sl s = Inr s'"
    using that slot_reads_back [of sl] by (auto simp: sql_slot_insert_def Let_def split: if_splits)
  show "\<exists>rows. schedules s' = schedules s @ rows \<and>
      map (\<lambda>row. Option.bind row (\<lambda>row. query_row schedule_query_columns scan_schedule (with_casts tout row)))
        (batch_rows tin ss) = map (\<lambda>row. Some (schedule_of_row tout row)) rows"
    if "sql_schedules_batch tin ss sv s = (Inr (), s')"
    using that insert_schedules_appends [of tin ss "schedules s"]
    by (auto simp: sql_schedules_batch_def intro: batch_reads_new split: sum.splits if_splits)
  show "map (\<lambda>x. query_row slot_view_columns scan_slot_view (slot_view_row (timestamptz now) x)) (slot_rows s roomID date) =
      map Some (all_slots s roomID date now)"
    by (simp add: slot_view_reads all_slots_def)
qed

lemma stored_rows_read_back_witness:
  "\<exists>row. bookings (snd (sql_booking_insert (new_booking 60 carol 22 1234567) (server_of sample_world) sample_store)) =
      bookings sample_store @ [row] \<and>
    reads_back booking_insert_columns [] (booking_args (new_booking 60 carol 22 1234567)) booking_query_columns
      scan_booking row \<and> bkCreatedAt row = 1234000"
proof -
  let ?b = "new_booking 60 carol 22 1234567" and ?sv = "server_of sample_world"
  obtain s' where run: "sql_booking_insert ?b ?sv sample_store = (Inr 1, s')"
      "bookings s' = bookings sample_store @ [?b\<lparr>bkCreatedAt := 1234000\<rparr>]"
    by (simp add: sql_booking_insert_def new_booking_def sample_defs index_hit_def bk_active_def timestamptz_def)
  then show ?thesis
    using stored_rows_read_back [of ?b ?sv sample_store s'] by auto
qed

end
