(* ===== verification/Spec2Isabelle.thy ===== *)
theory Spec2Isabelle
  imports Delivery Http_Recorder Expiry_Backlog Process Locking Smoke Columns
begin

text \<open>
  A model of the booking service: a Go server where users book half-hour slots of rooms, wait for
  booked slots, and are given a slot for a few minutes when it becomes free.

  \<^bold>\<open>The program.\<close> A request passes the router, the middleware and a handler (\<open>internal/transport/http\<close>)
  and reaches a use case (\<open>internal/usecase/...\<close>), which calls repositories
  (\<open>internal/repository/postgres\<close>) inside one PostgreSQL transaction where it writes more than one
  table, and afterwards publishes events to Redis (\<open>internal/realtime\<close>) and counts metrics. A
  subscriber in every instance takes the events from Redis to the hub, which hands them to the
  websocket clients that watch a room or belong to a user. Two background workers started by
  \<open>cmd/app/main.go\<close> expire reservations and generate slots (\<open>internal/app/slotgen\<close>). The state the
  requests share is the database; the hub keeps the state of the websocket clients.

  \<^bold>\<open>Theories, from the bottom up.\<close>
  \<^item> \<open>Prelude\<close>: facts about lists of rows (a row found by its key, keyed updates, insertion into a
    table with a unique index), the collections \<open>go_run\<close> and friends.
  \<^item> \<open>Json\<close>: \<open>encoding/json\<close> as the code uses it: the scanner, \<open>Marshal\<close>, the way members reach the
    fields of a struct, and the round trip \<open>Unmarshal_Marshal\<close>.
  \<^item> \<open>Go_Text\<close>: what the code uses of \<open>strings\<close>, \<open>strconv\<close> and \<open>time\<close> on strings of bytes:
    \<open>TrimSpace\<close>, \<open>Contains\<close>, \<open>FormatInt\<close>, the layouts \<open>15:04:05\<close> and \<open>15:04\<close>.
  \<^item> \<open>Domain\<close>: \<open>internal/domain\<close>, one record or datatype per Go type, the error values and the walk
    down a chain of wrapped errors (\<open>AsDomainError\<close>).
  \<^item> \<open>Store\<close>: the tables of \<open>migrations/\<close> as lists of rows in scan order, with every constraint as a
    predicate (\<open>store_ok\<close> is their conjunction).
  \<^item> \<open>Runtime\<close>: the state monad the Go code runs in. A \<open>world\<close> is the database, the messages handed
    to Redis, the counters and the number of interactions with the outside; \<open>env\<close> holds what the
    code does not decide (clock, fresh identifiers, lost connections, rows locked by others,
    cancellation, third-party functions), indexed by that number.
  \<^item> \<open>Transactions\<close>: \<open>WithinTransaction\<close> of \<open>tx_manager.go\<close>; the contract the use cases rely on is the
    locale \<open>tx_manager\<close>, interpreted on it. A lost request undoes the work, a lost reply to the
    commit reports an error although the work is done.
  \<^item> \<open>Booking_Repo\<close>, \<open>Waitlist_Repo\<close>, \<open>Reservation_Repo\<close>, \<open>Slot_Repo\<close>, \<open>Admin_Repos\<close>: every query as
    a function on the tables and every repository method around it. Each constraint a statement can
    violate is a branch with the SQLSTATE and the constraint name the code looks for.
  \<^item> \<open>Events\<close>: \<open>realtime/event.go\<close>, \<open>message.go\<close> and \<open>redis_publisher.go\<close>; the messages on Redis are
    the bytes of the JSON text.
  \<^item> \<open>Config\<close>: \<open>internal/config/config.go\<close>, the environment variables as a map.
  \<^item> \<open>Columns\<close>: the column lists, arguments and \<open>Scan\<close> destinations of the repositories, which go by
    position, and that a struct comes back from the table as the statements above store it.
  \<^item> \<open>Invariants\<close>: the database facts that hold beyond the constraints: no slot is booked and reserved
    at once, reservations go back to waitlist entries, nobody waits for a free slot.
  \<^item> \<open>Booking_Service\<close>, \<open>Reservation_Service\<close>, \<open>Waitlist_Service\<close>, \<open>Admin_Services\<close> (rooms, schedules,
    slot listings), \<open>Auth_Service\<close>, \<open>Slot_Generator\<close>: the use cases and the generator, with the
    preservation lemma of every operation.
  \<^item> \<open>Sample\<close>: a small database and a quiet environment the witnesses compute with.
  \<^item> \<open>Booking_Contract\<close>, \<open>Reservation_Contract\<close>, \<open>Generator_Contract\<close>, \<open>Admin_Contract\<close>: what each
    operation promises, on every branch.
  \<^item> \<open>Slot_Machine\<close>: a slot as its users see it, an abstract machine with the phases free, booked and
    held and a line of users and the actions users take (\<open>machine\<close>), and for every operation the one action
    it is of each slot it changes.
  \<^item> \<open>Tokens\<close>: \<open>middleware/auth.go\<close>, the counterpart of the token signer: base64, claims, expiry.
  \<^item> \<open>Http_Base\<close>, \<open>Http_Dto\<close>, \<open>Http_Handlers\<close>: requests and responses, \<open>response.go\<close>, the middleware,
    the structures that go over the wire (a record per Go struct, \<open>..._json\<close> for its \<open>json\<close> tags),
    every handler, the routes of \<open>server.go\<close> (\<open>serve\<close>); \<open>Http_Contract\<close>: what holds of every answer and
    what a request can do to the database; \<open>Contexts\<close>: what a \<open>context.Context\<close> carries
    (request identifier, user, transaction); \<open>Http_Recorder\<close>: the layer below, \<open>request_logger.go\<close>,
    \<open>recovery.go\<close> and \<open>metrics.go\<close> as wrappers of a response writer around a handler that may panic, and
    what the counts and the log know of the answer.
  \<^item> \<open>Hub\<close>: \<open>hub.go\<close>, \<open>client.go\<close>, \<open>manager.go\<close>, \<open>redis_subscriber.go\<close>, \<open>ws_handler.go\<close>; \<open>Hub_Invariant\<close>:
    the registries of the hub as a locale (\<open>membership\<close>) and the invariant that every action keeps;
    \<open>Hub_Contract\<close>: delivery, reachable states, and the races between closing and subscribing;
    \<open>Delivery\<close>: from a use case over Redis to the clients.
  \<^item> \<open>Expiry_Backlog\<close>: how many runs of the expiry worker a backlog takes.
  \<^item> \<open>System\<close>: the wiring of \<open>main.go\<close>, the transition system whose steps are runs of the operations
    in arbitrary worlds, and the invariants and the refinement over all runs (locale \<open>kept\<close>).
  \<^item> \<open>Process\<close>: \<open>main\<close> itself: \<open>logging.New\<close>, \<open>postgres.NewPool\<close>, \<open>app.RunMigrations\<close>, the start as a
    function of what the libraries answer (\<open>start\<close>), then the goroutines interleaved (\<open>life\<close>): the two
    workers, the subscriber, the server, the select, the shutdown and the deferred calls of \<open>main\<close>, between
    which the others run on. Its lemmas show that a life is a run of \<open>System\<close>, what is open when, that it
    can always be ended, and what a shutdown that runs out of time does to requests still served.
  \<^item> \<open>Races\<close>, \<open>Double_Cancel\<close>: the closures of \<open>CreateBooking\<close> and \<open>CancelBooking\<close> cut between their reads
    and their writes, with whatever others commit in between.
  \<^item> \<open>Fairness\<close>: what a use case can do to the queue (\<open>queue_move\<close>: draw numbers, join, leave, offer the
    slot to the first in line), that every step of \<open>System\<close> is made of such moves, and the order of the
    queue they keep.
  \<^item> \<open>Locking\<close>: the closures of \<open>ConfirmReservation\<close>, \<open>CancelReservation\<close> and \<open>JoinWaitlist\<close> cut at every
    statement before their first write. The locale \<open>held_read\<close> is a read that finds the same in every
    database that agrees on the rows it decides on; interpreted on each of their reads, it gives that
    they run as if they came behind everything committed at the cuts.
  \<^item> \<open>Smoke\<close>: \<open>scripts/ws_smoke.go\<close>, the client of the repository, against a network that is a parameter
    (\<open>network\<close>); with the router, the use cases, Redis and the hub behind it (\<open>live_network\<close>) its session
    goes through to the end, with the messages it is meant to show.

  \<^bold>\<open>How Go is rendered.\<close> A Go function that returns a value and an error is a computation of type
  \<open>'a result go\<close>; \<open>check\<close> is the idiom of testing the error, wrapping it and returning. Pointers that
  may be nil are options. Moments and durations are integers of nanoseconds; a moment bound to a
  query is floored to microseconds as PostgreSQL stores it. Strings are lists of bytes. SQL text is
  part of the source and is translated clause by clause; where an \<open>ORDER BY\<close> with a \<open>LIMIT\<close> leaves the order
  of rows open, each statement has its own (\<open>tie_at\<close>), and where a listing without a limit does, the order
  of the table is used. The loops of the generator end because every round moves a day or
  half an hour on: they are total functions by a measure, no fuel is needed. Only the JSON scanner has
  fuel, one unit a call: twice the length of the input and one is enough for every input, since two
  calls deeper at least one byte is consumed (\<open>scan_value_fuel\<close>: more changes nothing).

  \<^bold>\<open>Concurrency.\<close> Steps of \<open>System\<close> are whole operations:
  transactions run one after the other, and what concurrent ones do is visible only through
  \<open>locked_at\<close> (rows skipped by \<open>FOR UPDATE SKIP LOCKED\<close>) and lost
  connections. Properties that need nobody to hold rows of the queue say so. \<open>Races\<close>
  and \<open>Double_Cancel\<close> go below that for \<open>CreateBooking\<close> and
  \<open>CancelBooking\<close>, which decide on rows they have not locked: alone they are the
  operations of \<open>System\<close> (\<open>concurrent_create_alone\<close>,
  \<open>concurrent_cancel_alone\<close>), and against a cancellation that hands the slot over, or a
  second cancellation of the same booking, they break the exclusion that holds in
  \<open>System\<close>. The closures of reservations and queue lock the rows they decide on, or an
  index decides: \<open>Locking\<close> shows that they run as whole operations (\<open>confirm_serialises\<close>,
  \<open>cancel_reservation_serial\<close>, \<open>join_serialises\<close>), on the assumption, which is what PostgreSQL
  documents of \<open>FOR UPDATE\<close>, that a locked row stays as it was read; between their writes they are not
  cut. In \<open>Process\<close> the operations of the goroutines follow each other in any
  order, each as a whole. The goroutines of the hub are finer: an action of \<open>perform\<close>
  is one message read, one message written or one event received, in any order; the sections of
  \<open>subscribe\<close> and of \<open>Close\<close> are separate definitions, so that what the one does between the sections of
  the other is a statement too (\<open>close_inside_subscribe\<close>, \<open>subscribe_inside_close\<close>).

  \<^bold>\<open>Parameters.\<close> Functions of libraries not in the repository (\<open>uuid\<close>, \<open>bcrypt\<close>, HMAC, mail
  addresses, time columns of the driver, the text of a moment) are fields of \<open>ext\<close>, and theorems state the documented
  behaviour they use as a named hypothesis.

  \<^bold>\<open>Not modelled.\<close> The log records of the use cases, the matching of paths by the router and its own
  answers to what matches no route, the metrics endpoint and the histogram of durations (\<open>serve\<close> is the
  API routes, \<open>ws_ServeHTTP\<close> the websocket route), requests without a database whose tables were never made, the frames of the websocket protocol and the ping timing (an action may
  fail at any time instead): input and output around libraries. Interface declarations have no
  definition of their own. The frontend under \<open>frontend/\<close> is another program.
\<close>

end
